(* ===== verification/Messenger_Prelude.thy ===== *)
theory Messenger_Prelude
  imports Main "HOL-Library.Word"
begin

unbundle bit_operations_syntax

text \<open>
  Shared vocabulary of the development: bytes and C++ strings, the errors a C++ function can
  leave by, the fixed-width integer encodings the wire formats use, and the list and map lemmas
  the component theories build on.

  \<^item> \<open>bytes\<close> is \<open>std::vector<uint8_t>\<close>; \<open>string\<close> (a list of 8-bit characters) is
    \<open>std::string\<close>; \<open>to_string\<close> and \<open>to_bytes\<close> are the iterator-range constructors the source
    uses to convert between them.
  \<^item> \<open>cpp_error\<close> holds the exceptions the source throws, with their messages, and one extra
    constructor \<open>Undefined\<close> for executions the C++ standard gives no meaning (an out-of-range
    read, a null dereference, the value of an empty \<open>std::expected\<close>). A \<open>try\<close> block
    catches the exceptions, never \<open>Undefined\<close>.
\<close>

named_theorems codec_simps \<open>evaluation of encoders followed by decoders\<close>
named_theorems lookup_simps \<open>what a lookup returns after an update\<close>

type_synonym byte = "8 word"
type_synonym bytes = "byte list"

datatype cpp_error =
    RuntimeError string
  | OverflowError string
  | InvalidArgument string
  | OutOfRange string
  | LengthError string
  | BadFunctionCall
  | Undefined string

type_synonym 'a cpp = "cpp_error + 'a"

text \<open>Whether \<open>catch (const std::exception &)\<close> stops the error.\<close>

fun is_exception :: "cpp_error \<Rightarrow> bool" where
  "is_exception (Undefined _) = False"
| "is_exception _ = True"

text \<open>Sequencing of two computations that may throw.\<close>

fun bindr :: "'a cpp \<Rightarrow> ('a \<Rightarrow> 'b cpp) \<Rightarrow> 'b cpp" where
  "bindr (Inl e) f = Inl e"
| "bindr (Inr x) f = f x"

lemma bindr_eq_Inr [simp]: "bindr r f = Inr y \<longleftrightarrow> (\<exists>x. r = Inr x \<and> f x = Inr y)"
  by (cases r) auto

lemma bindr_eq_Inl: "bindr r f = Inl e \<longleftrightarrow> r = Inl e \<or> (\<exists>x. r = Inr x \<and> f x = Inl e)"
  by (cases r) auto

lemma bindr_cong [fundef_cong]:
  "r = r' \<Longrightarrow> (\<And>x. r' = Inr x \<Longrightarrow> f x = g x) \<Longrightarrow> bindr r f = bindr r' g"
  by (cases r') auto


section \<open>Strings and bytes\<close>

definition byte_of_char :: "char \<Rightarrow> byte" where
  "byte_of_char c = word_of_nat (of_char c)"

definition char_of_byte :: "byte \<Rightarrow> char" where
  "char_of_byte b = char_of (unat b)"

definition to_string :: "bytes \<Rightarrow> string" where
  "to_string v = map char_of_byte v"

definition to_bytes :: "string \<Rightarrow> bytes" where
  "to_bytes s = map byte_of_char s"

lemma char_of_byte_of_char [simp]: "char_of_byte (byte_of_char c) = c"
proof -
  have "unat (word_of_nat (of_char c) :: byte) = of_char c"
    by (simp add: unat_of_nat take_bit_nat_eq_self)
  then show ?thesis
    by (simp add: char_of_byte_def byte_of_char_def)
qed

lemma byte_of_char_of_byte [simp]: "byte_of_char (char_of_byte b) = b"
proof -
  have "unat b < 256"
    using unsigned_less [of b] by simp
  then show ?thesis
    by (simp add: char_of_byte_def byte_of_char_def)
qed

lemma to_string_to_bytes [simp]: "to_string (to_bytes s) = s"
  by (simp add: to_string_def to_bytes_def comp_def)

lemma to_bytes_to_string [simp]: "to_bytes (to_string v) = v"
  by (simp add: to_string_def to_bytes_def comp_def)

lemma to_bytes_inject [simp]: "to_bytes s = to_bytes t \<longleftrightarrow> s = t"
  by (metis to_string_to_bytes)

lemma to_string_inject [simp]: "to_string v = to_string w \<longleftrightarrow> v = w"
  by (metis to_bytes_to_string)

lemma length_to_bytes [simp]: "length (to_bytes s) = length s"
  by (simp add: to_bytes_def)

lemma length_to_string [simp]: "length (to_string v) = length v"
  by (simp add: to_string_def)

lemma to_bytes_append [simp]: "to_bytes (s @ t) = to_bytes s @ to_bytes t"
  by (simp add: to_bytes_def)

lemma to_string_append [simp]: "to_string (v @ w) = to_string v @ to_string w"
  by (simp add: to_string_def)

lemma to_string_eq_Nil [simp]: "to_string v = [] \<longleftrightarrow> v = []"
  by (simp add: to_string_def)

lemma to_bytes_eq_Nil [simp]: "to_bytes s = [] \<longleftrightarrow> s = []"
  by (simp add: to_bytes_def)


section \<open>Fixed-width integers\<close>

text \<open>
  The sources split a word into bytes with shifts and the mask \<open>0xFF\<close> and join bytes with shifts
  and \<open>|\<close>. Splitting and joining again loses nothing, at each width and byte order in use.
\<close>

lemma byte_and_255 [simp]: "(ucast (w AND 255) :: byte) = ucast (w :: 'a::len word)"
proof (rule bit_word_eqI)
  fix n assume n: "n < LENGTH(8)"
  have "bit (255 :: int) n"
    using n by (simp add: less_Suc_eq numeral_eq_Suc) (auto simp: bit_numeral_rec)
  then have "bit (word_of_int 255 :: 'a word) n \<longleftrightarrow> n < LENGTH('a)"
    by (simp add: bit_word_of_int_iff)
  then show "bit (ucast (w AND 255) :: byte) n = bit (ucast w :: byte) n"
    using n by (auto simp: bit_simps dest: bit_imp_le_length)
qed

lemma join_bytes16 [codec_simps]:
  "push_bit 8 (ucast (ucast (drop_bit 8 w) :: byte) :: 16 word) OR ucast (ucast w :: byte) = (w :: 16 word)"
proof (rule bit_word_eqI)
  fix n assume "n < LENGTH(16)"
  then show "bit (push_bit 8 (ucast (ucast (drop_bit 8 w) :: byte) :: 16 word) OR ucast (ucast w :: byte)) n = bit w n"
    by (cases "n < 8") (auto simp: bit_simps)
qed

lemma join_bytes32 [codec_simps]:
  "push_bit 24 (ucast (ucast (drop_bit 24 w) :: byte) :: 32 word)
    OR push_bit 16 (ucast (ucast (drop_bit 16 w) :: byte))
    OR push_bit 8 (ucast (ucast (drop_bit 8 w) :: byte))
    OR ucast (ucast w :: byte) = (w :: 32 word)" (is "?l = w")
proof (rule bit_word_eqI)
  fix n assume n: "n < LENGTH(32)"
  consider "n < 8" | "8 \<le> n" "n < 16" | "16 \<le> n" "n < 24" | "24 \<le> n" using n by linarith
  then show "bit ?l n = bit w n"
    using n by cases (auto simp: bit_simps)
qed

text \<open>And joining bytes into a word and splitting it gives the bytes back.\<close>

lemma split_bytes16 [codec_simps]:
  fixes b0 b1 :: byte
  defines "w \<equiv> push_bit 8 (ucast b0) OR ucast b1 :: 16 word"
  shows "ucast (drop_bit 8 w) = b0" "ucast w = b1"
  unfolding w_def by (rule bit_word_eqI; auto simp: bit_simps dest: bit_imp_le_length)+

lemma split_bytes32 [codec_simps]:
  fixes b0 b1 b2 b3 :: byte
  defines "w \<equiv> push_bit 24 (ucast b0) OR push_bit 16 (ucast b1) OR push_bit 8 (ucast b2) OR ucast b3 :: 32 word"
  shows "ucast (drop_bit 24 w) = b0" "ucast (drop_bit 16 w) = b1" "ucast (drop_bit 8 w) = b2" "ucast w = b3"
  unfolding w_def by (rule bit_word_eqI; auto simp: bit_simps dest: bit_imp_le_length)+

text \<open>The four bytes of a 32-bit word, most significant first (network order).\<close>

definition be32_bytes :: "32 word \<Rightarrow> bytes" where
  "be32_bytes v = [ucast (drop_bit 24 v), ucast (drop_bit 16 v), ucast (drop_bit 8 v), ucast v]"

definition be32_word :: "byte \<Rightarrow> byte \<Rightarrow> byte \<Rightarrow> byte \<Rightarrow> 32 word" where
  "be32_word b0 b1 b2 b3 = push_bit 24 (ucast b0) OR push_bit 16 (ucast b1) OR push_bit 8 (ucast b2) OR ucast b3"

lemma length_be32_bytes [simp]: "length (be32_bytes v) = 4"
  by (simp add: be32_bytes_def)

lemma be32_word_of_bytes [codec_simps]:
  "be32_word (ucast (drop_bit 24 w)) (ucast (drop_bit 16 w)) (ucast (drop_bit 8 w)) (ucast w) = w"
  unfolding be32_word_def by (rule join_bytes32)

lemma be32_bytes_of_word [codec_simps]: "be32_bytes (be32_word b0 b1 b2 b3) = [b0, b1, b2, b3]"
  by (simp only: be32_bytes_def be32_word_def split_bytes32)

lemma be32_bytes_inject [simp]: "be32_bytes v = be32_bytes w \<longleftrightarrow> v = w"
proof
  assume "be32_bytes v = be32_bytes w"
  then have "be32_word (ucast (drop_bit 24 v)) (ucast (drop_bit 16 v)) (ucast (drop_bit 8 v)) (ucast v)
    = be32_word (ucast (drop_bit 24 w)) (ucast (drop_bit 16 w)) (ucast (drop_bit 8 w)) (ucast w)"
    by (simp add: be32_bytes_def)
  then show "v = w" by (simp only: be32_word_of_bytes)
qed simp

text \<open>
  The little-endian 64-bit encoding is a loop over the byte index in every place that uses it
  (\<open>write_u64\<close>, \<open>read_u64\<close>, \<open>to_bytes\<close>, \<open>from_bytes\<close>, the counter of the cipher frame).
\<close>

definition le64_bytes :: "64 word \<Rightarrow> bytes" where
  "le64_bytes v = map (\<lambda>i. ucast (drop_bit (i * 8) v AND 255)) [0..<8]"

definition le64_word :: "bytes \<Rightarrow> 64 word" where
  "le64_word bs = fold (\<lambda>i v. v OR push_bit (i * 8) (ucast (bs ! i))) [0..<8] 0"

lemma length_le64_bytes [simp]: "length (le64_bytes v) = 8"
  by (simp add: le64_bytes_def)

lemma bit_le64_fold:
  "k \<le> 8 \<Longrightarrow> bit (fold (\<lambda>i v. v OR push_bit (i * 8) (ucast (bs ! i))) [0..<k] (0 :: 64 word)) n
     \<longleftrightarrow> n < 8 * k \<and> bit (bs ! (n div 8) :: byte) (n mod 8)"
proof (induction k)
  case 0
  then show ?case by simp
next
  case (Suc k)
  show ?case
  proof (cases "n div 8 = k")
    case True
    then have "n = 8 * k + n mod 8" "n - k * 8 = n mod 8" "n < 64"
      using Suc.prems by (auto simp: minus_mult_div_eq_mod [symmetric])
    with Suc True show ?thesis
      by (auto simp: bit_simps dest: bit_imp_le_length)
  next
    case False
    then have "n < 8 * k \<or> n \<ge> 8 * Suc k" by auto
    then show ?thesis
    proof
      assume "n < 8 * k"
      with Suc show ?thesis by (auto simp: bit_simps)
    next
      assume "8 * Suc k \<le> n"
      with Suc show ?thesis by (auto simp: bit_simps dest!: bit_imp_le_length)
    qed
  qed
qed

lemma le64_roundtrip [codec_simps]: "le64_word (le64_bytes v @ xs) = v"
proof (rule bit_word_eqI)
  fix n assume n: "n < LENGTH(64)"
  then have "n div 8 < 8" by simp
  then have "(le64_bytes v @ xs) ! (n div 8) = ucast (drop_bit (n div 8 * 8) v)"
    by (simp add: le64_bytes_def nth_append del: upt_Suc upt_rec_numeral)
  moreover have "n mod 8 < LENGTH(8)" by simp
  ultimately show "bit (le64_word (le64_bytes v @ xs)) n = bit v n"
    using n unfolding le64_word_def
    by (subst bit_le64_fold) (simp_all add: bit_simps add.commute del: upt_Suc upt_rec_numeral)
qed

lemma le64_roundtrip_exact [codec_simps]: "le64_word (le64_bytes v) = v"
  using le64_roundtrip [of v "[]"] by simp

text \<open>A length fits a fixed-width field when it is below the field's range.\<close>

lemma unat_of_length16 [codec_simps]: "length m < 65536 \<Longrightarrow> unat (word_of_nat (length m) :: 16 word) = length m"
  by (simp add: unat_of_nat take_bit_nat_eq_self)

lemma unat_of_length32 [codec_simps]: "length m < 4294967296 \<Longrightarrow> unat (word_of_nat (length m) :: 32 word) = length m"
  by (simp add: unat_of_nat take_bit_nat_eq_self)

lemma unat_of_length8 [codec_simps]: "length m < 256 \<Longrightarrow> unat (word_of_nat (length m) :: 8 word) = length m"
  by (simp add: unat_of_nat take_bit_nat_eq_self)

lemma unat_byte_less: "unat (b :: byte) < 256"
  using unsigned_less [of b] by simp


section \<open>Slices of a buffer\<close>

text \<open>\<open>slice buf off len\<close> is the range \<open>[begin() + off, begin() + off + len)\<close>.\<close>

definition slice :: "'a list \<Rightarrow> nat \<Rightarrow> nat \<Rightarrow> 'a list" where
  "slice buf off len = take len (drop off buf)"

lemma slice_append [codec_simps]:
  "length pre = off \<Longrightarrow> length m = len \<Longrightarrow> slice (pre @ m @ rest) off len = m"
  by (auto simp: slice_def)

lemma length_slice: "off + len \<le> length buf \<Longrightarrow> length (slice buf off len) = len"
  by (simp add: slice_def)

lemma take_slice: "take off buf @ slice buf off len = take (off + len) buf"
  by (simp add: slice_def take_add)

text \<open>Reading a range through iterators, undefined when it passes the end of the vector.\<close>

definition range_at :: "bytes \<Rightarrow> nat \<Rightarrow> nat \<Rightarrow> bytes cpp" where
  "range_at buf off len = (if off + len \<le> length buf then Inr (slice buf off len) else Inl (Undefined ''iterator range out of bounds''))"

lemma range_at_ok [simp]: "off + len \<le> length buf \<Longrightarrow> range_at buf off len = Inr (slice buf off len)"
  by (simp add: range_at_def)

lemma range_at_eq_Inr [simp]: "range_at buf off len = Inr x \<longleftrightarrow> off + len \<le> length buf \<and> x = slice buf off len"
  by (auto simp: range_at_def)

text \<open>An element read, undefined beyond the end of the vector.\<close>

definition at :: "bytes \<Rightarrow> nat \<Rightarrow> byte cpp" where
  "at buf i = (if i < length buf then Inr (buf ! i) else Inl (Undefined ''vector index out of range''))"

lemma at_append [codec_simps]: "length pre = off \<Longrightarrow> at (pre @ x # rest) off = Inr x"
  by (auto simp: at_def nth_append)

lemma at_Inr: "i < length buf \<Longrightarrow> at buf i = Inr (buf ! i)"
  by (simp add: at_def)

lemma at_eq_Inr: "at buf i = Inr x \<longleftrightarrow> i < length buf \<and> buf ! i = x"
  by (auto simp: at_def)

section \<open>Computations with state and exceptions\<close>

text \<open>
  A member function that changes an object and may throw: the state reached is returned with the
  error, because a C++ exception does not undo what was done before it.
\<close>

type_synonym ('a, 's) action = "'s \<Rightarrow> 'a cpp \<times> 's"

definition ret :: "'a \<Rightarrow> ('a, 's) action" where
  "ret x s = (Inr x, s)"

definition lift :: "'a cpp \<Rightarrow> ('a, 's) action" where
  "lift r s = (r, s)"

definition modify :: "('s \<Rightarrow> 's) \<Rightarrow> (unit, 's) action" where
  "modify f s = (Inr (), f s)"

definition andThen :: "('a, 's) action \<Rightarrow> ('a \<Rightarrow> ('b, 's) action) \<Rightarrow> ('b, 's) action" where
  "andThen m f s = (case m s of (Inl e, s') \<Rightarrow> (Inl e, s') | (Inr x, s') \<Rightarrow> f x s')"

text \<open>\<open>try { m } catch (const std::exception &) { h }\<close>.\<close>

definition try_catch :: "('a, 's) action \<Rightarrow> ('a, 's) action \<Rightarrow> ('a, 's) action" where
  "try_catch m h s = (case m s of (Inl e, s') \<Rightarrow> (if is_exception e then h s' else (Inl e, s')) | (Inr x, s') \<Rightarrow> (Inr x, s'))"

named_theorems action_simps \<open>evaluation of actions\<close>

lemma action_eval [action_simps]:
  "ret x s = (Inr x, s)" "lift r s = (r, s)" "modify f s = (Inr (), f s)"
  by (simp_all add: ret_def lift_def modify_def)

lemma andThen_eval [action_simps]:
  "andThen (ret x) f = f x" "andThen (lift r) g s = (case r of Inl e \<Rightarrow> (Inl e, s) | Inr y \<Rightarrow> g y s)"
  "andThen (modify u) h t = h () (u t)"
  by (auto simp: ret_def lift_def modify_def andThen_def split: sum.splits)

lemma andThen_ret_unit [action_simps]: "andThen m ret = m" "andThen n (\<lambda>_. ret ()) = n"
  by (rule ext, auto simp: andThen_def ret_def split: prod.splits sum.splits)+

lemma andThen_Inr: "m s = (Inr x, s') \<Longrightarrow> andThen m f s = f x s'"
  by (simp add: andThen_def)

lemma andThen_Inl: "m s = (Inl e, s') \<Longrightarrow> andThen m f s = (Inl e, s')"
  by (simp add: andThen_def)

lemma andThen_eq: "andThen m f s = (case fst (m s) of Inl e \<Rightarrow> (Inl e, snd (m s)) | Inr x \<Rightarrow> f x (snd (m s)))"
  by (simp add: andThen_def split: prod.splits sum.splits)

text \<open>What holds of every state an action can leave, exceptions included.\<close>

definition keeps :: "('s \<Rightarrow> bool) \<Rightarrow> ('a, 's) action \<Rightarrow> bool" where
  "keeps P m \<longleftrightarrow> (\<forall>s. P s \<longrightarrow> P (snd (m s)))"

lemma keepsD: "keeps P m \<Longrightarrow> P s \<Longrightarrow> P (snd (m s))"
  by (simp add: keeps_def)

lemma keeps_ret [simp]: "keeps P (ret x)"
  by (simp add: keeps_def ret_def)

lemma keeps_lift [simp]: "keeps P (lift r)"
  by (simp add: keeps_def lift_def)

lemma keeps_modify: "(\<And>s. P s \<Longrightarrow> P (f s)) \<Longrightarrow> keeps P (modify f)"
  by (simp add: keeps_def modify_def)

lemma keeps_andThen: "keeps P m \<Longrightarrow> (\<And>x. keeps P (f x)) \<Longrightarrow> keeps P (andThen m f)"
  unfolding keeps_def by (auto simp: andThen_def split: prod.splits sum.splits)

lemma keeps_try_catch: "keeps P m \<Longrightarrow> keeps P h \<Longrightarrow> keeps P (try_catch m h)"
  unfolding keeps_def by (auto simp: try_catch_def split: prod.splits sum.splits)

lemma try_catch_no_exception:
  "fst (try_catch m (ret x) s) = Inl e \<Longrightarrow> \<not> is_exception e"
  by (auto simp: try_catch_def ret_def split: prod.splits sum.splits if_splits)

end
