(* ===== verification/Message_Model.thy ===== *)
theory Message_Model
  imports Messenger_Prelude
begin

text \<open>
  The message model: \<open>src/include/models/message.hpp\<close> and \<open>src/src/models/message.cpp\<close>.
  The enumerations, the header, envelope and \<open>Message\<close> classes as records, the constructors and
  member functions, and \<open>Serializer\<close>, whose two wire formats are the compact one and the extended
  one that carries the envelope. The clock \<open>current_timestamp_seconds\<close> reads is the argument
  \<open>now\<close>. A C++ \<open>enum class\<close> over \<open>int\<close> can hold a value no enumerator names
  (\<open>static_cast\<close> of any byte is defined); such values are the \<open>..._Raw\<close> constructors.

  Lemmas: the codec of each field group, then the two serializer round trips, the shape of every
  decoded message, rejection of every proper prefix, and absence of out-of-range reads.
\<close>

section \<open>Data\<close>

datatype MessageType =
    Text | Command | HandShake | CipherMessage | Response | FileStart | FileChunk | FileEnd
  | MessageType_Raw byte

datatype CommandType =
    SEND | LOGIN | MAKE_ROOM | JOIN | GET_PUBKEY | GET_USERNAME | GET_ID | PRIVATE_MESSAGE
  | SEND_FILE | HELP | CONNECT | DISCONNECT | EXIT | UNKNOWN
  | CommandType_Raw byte

text \<open>\<open>static_cast\<close> between the enumerations and \<open>uint8_t\<close>.\<close>

fun byte_of_MessageType :: "MessageType \<Rightarrow> byte" where
  "byte_of_MessageType Text = 0x00"
| "byte_of_MessageType Command = 0x01"
| "byte_of_MessageType HandShake = 0x02"
| "byte_of_MessageType CipherMessage = 0x03"
| "byte_of_MessageType Response = 0x04"
| "byte_of_MessageType FileStart = 0x05"
| "byte_of_MessageType FileChunk = 0x06"
| "byte_of_MessageType FileEnd = 0x07"
| "byte_of_MessageType (MessageType_Raw b) = b"

definition MessageType_of_byte :: "byte \<Rightarrow> MessageType" where
  "MessageType_of_byte b =
     (if b = 0x00 then Text else if b = 0x01 then Command else if b = 0x02 then HandShake
      else if b = 0x03 then CipherMessage else if b = 0x04 then Response
      else if b = 0x05 then FileStart else if b = 0x06 then FileChunk
      else if b = 0x07 then FileEnd else MessageType_Raw b)"

fun byte_of_CommandType :: "CommandType \<Rightarrow> byte" where
  "byte_of_CommandType SEND = 0x01"
| "byte_of_CommandType LOGIN = 0x02"
| "byte_of_CommandType MAKE_ROOM = 0x03"
| "byte_of_CommandType JOIN = 0x04"
| "byte_of_CommandType GET_PUBKEY = 0x05"
| "byte_of_CommandType GET_USERNAME = 0x06"
| "byte_of_CommandType GET_ID = 0x07"
| "byte_of_CommandType PRIVATE_MESSAGE = 0x08"
| "byte_of_CommandType SEND_FILE = 0x09"
| "byte_of_CommandType HELP = 0x0A"
| "byte_of_CommandType CONNECT = 0x0B"
| "byte_of_CommandType DISCONNECT = 0x0C"
| "byte_of_CommandType EXIT = 0xFE"
| "byte_of_CommandType UNKNOWN = 0xFF"
| "byte_of_CommandType (CommandType_Raw b) = b"

definition CommandType_of_byte :: "byte \<Rightarrow> CommandType" where
  "CommandType_of_byte b =
     (if b = 0x01 then SEND else if b = 0x02 then LOGIN else if b = 0x03 then MAKE_ROOM
      else if b = 0x04 then JOIN else if b = 0x05 then GET_PUBKEY else if b = 0x06 then GET_USERNAME
      else if b = 0x07 then GET_ID else if b = 0x08 then PRIVATE_MESSAGE else if b = 0x09 then SEND_FILE
      else if b = 0x0A then HELP else if b = 0x0B then CONNECT else if b = 0x0C then DISCONNECT
      else if b = 0xFE then EXIT else if b = 0xFF then UNKNOWN else CommandType_Raw b)"

text \<open>The value of an enumeration is named by one constructor only.\<close>

definition canonical_type :: "MessageType \<Rightarrow> bool" where
  "canonical_type t \<longleftrightarrow> (\<forall>b. t = MessageType_Raw b \<longrightarrow> MessageType_of_byte b = t)"

lemma canonical_type_named [simp]:
  "canonical_type Text" "canonical_type Command" "canonical_type HandShake"
  "canonical_type CipherMessage" "canonical_type Response" "canonical_type FileStart"
  "canonical_type FileChunk" "canonical_type FileEnd"
  by (simp_all add: canonical_type_def)

lemma MessageType_of_byte_of [simp]: "canonical_type t \<Longrightarrow> MessageType_of_byte (byte_of_MessageType t) = t"
  by (cases t) (auto simp: canonical_type_def MessageType_of_byte_def)

lemma byte_of_MessageType_of_byte [simp]: "byte_of_MessageType (MessageType_of_byte b) = b"
  by (simp add: MessageType_of_byte_def)

lemma canonical_type_of_byte [simp]: "canonical_type (MessageType_of_byte b)"
  by (auto simp: canonical_type_def MessageType_of_byte_def split: if_splits)

record MessageHeader =
  hdr_type :: MessageType
  hdr_length :: "32 word"
  hdr_checksum :: "32 word"
  hdr_timestamp :: "64 word"
  hdr_protocol_version :: byte

record MessageEnvelope =
  env_sender :: bytes
  env_recipient :: bytes
  env_sequence_number :: "64 word"
  env_flags :: "32 word"

record Message =
  msg_header :: MessageHeader
  msg_metalen :: byte
  msg_envelope :: MessageEnvelope
  msg_metadata :: "bytes list"
  msg_payload :: bytes

definition kProtocolVersion :: byte where
  "kProtocolVersion = 1"

definition kExtendedFormatFlag :: byte where
  "kExtendedFormatFlag = 0x80"

definition default_header :: MessageHeader where
  "default_header = \<lparr>hdr_type = Text, hdr_length = 0, hdr_checksum = 0, hdr_timestamp = 0,
     hdr_protocol_version = 1\<rparr>"

definition default_envelope :: MessageEnvelope where
  "default_envelope = \<lparr>env_sender = [], env_recipient = [], env_sequence_number = 0, env_flags = 0\<rparr>"

text \<open>\<open>Message() = default\<close>: every member has its in-class initialiser.\<close>

definition default_message :: Message where
  "default_message = \<lparr>msg_header = default_header, msg_metalen = 0, msg_envelope = default_envelope,
     msg_metadata = [], msg_payload = []\<rparr>"


section \<open>Integer fields\<close>

text \<open>
  \<open>compute_serialized_size\<close> sums in \<open>uint64_t\<close>; a sum of \<open>uint64_t\<close> additions is the sum of
  the terms modulo \<open>2 ^ 64\<close>.
\<close>

definition compute_serialized_size :: "byte \<Rightarrow> bytes list \<Rightarrow> bytes \<Rightarrow> (32 word) cpp" where
  "compute_serialized_size metalen metadata payload =
     (let total = (2 + (\<Sum>m\<leftarrow>metadata. 2 + length m) + 4 + length payload) mod 2 ^ 64 in
      if unat metalen \<noteq> length metadata then Inl (RuntimeError ''Malformed message metadata count'')
      else if total > 4294967295 then Inl (OverflowError ''Message is too large'')
      else Inr (word_of_nat total))"

definition read_u32 :: "bytes \<Rightarrow> nat \<Rightarrow> (32 word) cpp" where
  "read_u32 raw off =
     bindr (at raw off) (\<lambda>b0. bindr (at raw (off + 1)) (\<lambda>b1.
     bindr (at raw (off + 2)) (\<lambda>b2. bindr (at raw (off + 3)) (\<lambda>b3.
       Inr (push_bit 24 (ucast b0) OR push_bit 16 (ucast b1) OR push_bit 8 (ucast b2) OR ucast b3)))))"

definition read_u64 :: "bytes \<Rightarrow> nat \<Rightarrow> (64 word) cpp" where
  "read_u64 raw off =
     (if off + 8 \<le> length raw then Inr (le64_word (drop off raw))
      else Inl (Undefined ''vector index out of range''))"

definition write_u32 :: "bytes \<Rightarrow> 32 word \<Rightarrow> bytes" where
  "write_u32 out value = out @
     [ucast (drop_bit 24 value AND 0xFF), ucast (drop_bit 16 value AND 0xFF),
      ucast (drop_bit 8 value AND 0xFF), ucast (value AND 0xFF)]"

definition write_u64 :: "bytes \<Rightarrow> 64 word \<Rightarrow> bytes" where
  "write_u64 out value = out @ le64_bytes value"


section \<open>The Message class\<close>

text \<open>
  Both constructors (copying and moving) leave the same object; the \<open>metalen_\<close> argument is
  overwritten by the number of metadata entries, so the model does not take it. A constructor or
  mutator that throws leaves no object its callers can use.
\<close>

definition Message_ctor :: "64 word \<Rightarrow> bytes \<Rightarrow> bytes list \<Rightarrow> MessageType \<Rightarrow> Message cpp" where
  "Message_ctor now payload metas ty =
     (let metalen = word_of_nat (length metas) in
      bindr (compute_serialized_size metalen metas payload) (\<lambda>len.
      Inr \<lparr>msg_header = \<lparr>hdr_type = ty, hdr_length = len, hdr_checksum = 0, hdr_timestamp = now,
                        hdr_protocol_version = kProtocolVersion\<rparr>,
           msg_metalen = metalen, msg_envelope = default_envelope,
           msg_metadata = metas, msg_payload = payload\<rparr>))"

definition get_type :: "Message \<Rightarrow> MessageType" where
  "get_type msg = hdr_type (msg_header msg)"

definition set_payload :: "Message \<Rightarrow> bytes \<Rightarrow> Message cpp" where
  "set_payload msg new_payload =
     bindr (compute_serialized_size (msg_metalen msg) (msg_metadata msg) new_payload) (\<lambda>len.
     Inr (msg\<lparr>msg_payload := new_payload, msg_header := (msg_header msg)\<lparr>hdr_length := len\<rparr>\<rparr>))"

definition get_payload :: "Message \<Rightarrow> bytes" where
  "get_payload msg = msg_payload msg"

definition get_meta :: "Message \<Rightarrow> nat \<Rightarrow> bytes" where
  "get_meta msg index = (if index < length (msg_metadata msg) then msg_metadata msg ! index else [])"

definition meta_count :: "Message \<Rightarrow> nat" where
  "meta_count msg = length (msg_metadata msg)"

definition insert_metadata :: "Message \<Rightarrow> bytes \<Rightarrow> Message cpp" where
  "insert_metadata msg meta =
     (let metadata = msg_metadata msg @ [meta]; metalen = word_of_nat (length metadata) in
      bindr (compute_serialized_size metalen metadata (msg_payload msg)) (\<lambda>len.
      Inr (msg\<lparr>msg_metadata := metadata, msg_metalen := metalen,
               msg_header := (msg_header msg)\<lparr>hdr_length := len\<rparr>\<rparr>)))"

definition validate :: "Message \<Rightarrow> bool" where
  "validate msg \<longleftrightarrow> hdr_protocol_version (msg_header msg) = kProtocolVersion
     \<and> unat (msg_metalen msg) = length (msg_metadata msg)"

definition update_checksum :: "Message \<Rightarrow> Message" where
  "update_checksum msg = msg\<lparr>msg_header := (msg_header msg)\<lparr>hdr_checksum := 0\<rparr>\<rparr>"


section \<open>Serializer\<close>

definition use_extended_format :: "Message \<Rightarrow> bool" where
  "use_extended_format msg \<longleftrightarrow>
     env_sender (msg_envelope msg) \<noteq> [] \<or> env_recipient (msg_envelope msg) \<noteq> []
     \<or> env_sequence_number (msg_envelope msg) \<noteq> 0 \<or> env_flags (msg_envelope msg) \<noteq> 0
     \<or> hdr_protocol_version (msg_header msg) \<noteq> kProtocolVersion"

definition serialize_meta :: "bytes \<Rightarrow> bytes" where
  "serialize_meta m =
     (let len = (word_of_nat (length m) :: 16 word) in
      [ucast (drop_bit 8 len), ucast (len AND 0xFF)] @ m)"

text \<open>The loop that appends each metadata entry to \<open>out\<close>.\<close>

fun serialize_metadata :: "bytes \<Rightarrow> bytes list \<Rightarrow> bytes" where
  "serialize_metadata out [] = out"
| "serialize_metadata out (m # ms) = serialize_metadata (out @ serialize_meta m) ms"

definition serialize_compact :: "Message \<Rightarrow> bytes" where
  "serialize_compact msg =
     (let out = [byte_of_MessageType (hdr_type (msg_header msg)), msg_metalen msg];
          out = serialize_metadata out (msg_metadata msg);
          out = write_u32 out (word_of_nat (length (msg_payload msg)))
      in out @ msg_payload msg)"

definition serialize_extended :: "Message \<Rightarrow> bytes" where
  "serialize_extended msg =
     (let out = [byte_of_MessageType (hdr_type (msg_header msg)),
                 kExtendedFormatFlag OR (hdr_protocol_version (msg_header msg) AND 0x7F)];
          out = write_u32 out (env_flags (msg_envelope msg));
          out = write_u64 out (hdr_timestamp (msg_header msg));
          out = out @ [word_of_nat (length (env_sender (msg_envelope msg)))];
          out = out @ env_sender (msg_envelope msg);
          out = out @ [word_of_nat (length (env_recipient (msg_envelope msg)))];
          out = out @ env_recipient (msg_envelope msg);
          out = write_u64 out (env_sequence_number (msg_envelope msg));
          out = write_u32 out (env_flags (msg_envelope msg));
          out = out @ [msg_metalen msg];
          out = serialize_metadata out (msg_metadata msg);
          out = write_u32 out (word_of_nat (length (msg_payload msg)))
      in out @ msg_payload msg)"

definition serialize :: "Message \<Rightarrow> bytes" where
  "serialize msg = (if \<not> use_extended_format msg then serialize_compact msg else serialize_extended msg)"

text \<open>The metadata loop of \<open>deserialize\<close>: \<open>n\<close> entries still to read, from offset \<open>off\<close>.\<close>

fun deserialize_metadata :: "bytes \<Rightarrow> nat \<Rightarrow> nat \<Rightarrow> (bytes list \<times> nat) cpp" where
  "deserialize_metadata raw 0 off = Inr ([], off)"
| "deserialize_metadata raw (Suc n) off =
     (if off + 2 > length raw then Inl (RuntimeError ''Malformed message: metadata length missing'')
      else bindr (at raw off) (\<lambda>b0. bindr (at raw (off + 1)) (\<lambda>b1.
        let len = unat (push_bit 8 (ucast b0) OR ucast b1 :: 16 word); off' = off + 2 in
        if off' + len > length raw then Inl (RuntimeError ''Malformed message: metadata out of bounds'')
        else bindr (range_at raw off' len) (\<lambda>m.
          bindr (deserialize_metadata raw n (off' + len)) (\<lambda>(ms, off''). Inr (m # ms, off''))))))"

text \<open>The payload that follows the metadata in both formats.\<close>

definition deserialize_payload :: "bytes \<Rightarrow> nat \<Rightarrow> bytes cpp" where
  "deserialize_payload raw off =
     (if off + 4 > length raw then Inl (RuntimeError ''Malformed message: payload length missing'')
      else bindr (read_u32 raw off) (\<lambda>plen.
        if off + 4 + unat plen > length raw then Inl (RuntimeError ''Malformed message: payload out of bounds'')
        else range_at raw (off + 4) (unat plen)))"

definition deserialize_compact :: "bytes \<Rightarrow> MessageType \<Rightarrow> byte \<Rightarrow> Message cpp" where
  "deserialize_compact raw ty second =
     bindr (deserialize_metadata raw (unat second) 2) (\<lambda>(metadata, off).
     bindr (deserialize_payload raw off) (\<lambda>payload.
     bindr (compute_serialized_size second metadata payload) (\<lambda>len.
     Inr \<lparr>msg_header = default_header\<lparr>hdr_type := ty, hdr_protocol_version := kProtocolVersion,
                                     hdr_length := len\<rparr>,
          msg_metalen = second, msg_envelope = default_envelope,
          msg_metadata = metadata, msg_payload = payload\<rparr>)))"

text \<open>A one-byte length followed by that many bytes, as the sender and the recipient are stored.\<close>

definition deserialize_short :: "bytes \<Rightarrow> nat \<Rightarrow> string \<Rightarrow> string \<Rightarrow> (bytes \<times> nat) cpp" where
  "deserialize_short raw off missing out_of_bounds =
     (if off \<ge> length raw then Inl (RuntimeError missing)
      else bindr (at raw off) (\<lambda>b.
        if off + 1 + unat b > length raw then Inl (RuntimeError out_of_bounds)
        else bindr (range_at raw (off + 1) (unat b)) (\<lambda>str. Inr (str, off + 1 + unat b))))"

definition deserialize_extended :: "bytes \<Rightarrow> MessageType \<Rightarrow> byte \<Rightarrow> Message cpp" where
  "deserialize_extended raw ty second =
     (let version = second AND 0x7F in
      if version = 0 then Inl (RuntimeError ''Unsupported protocol version'')
      else if 2 + 4 > length raw then Inl (RuntimeError ''Malformed message: flags missing'')
      else bindr (read_u32 raw 2) (\<lambda>flags0.
      if 6 + 8 > length raw then Inl (RuntimeError ''Malformed message: timestamp missing'')
      else bindr (read_u64 raw 6) (\<lambda>timestamp.
      bindr (deserialize_short raw 14 ''Malformed message: sender length missing''
               ''Malformed message: sender out of bounds'') (\<lambda>(sender, off).
      bindr (deserialize_short raw off ''Malformed message: recipient length missing''
               ''Malformed message: recipient out of bounds'') (\<lambda>(recipient, off).
      if off + 8 > length raw then Inl (RuntimeError ''Malformed message: sequence missing'')
      else bindr (read_u64 raw off) (\<lambda>sequence_number.
      if off + 8 + 4 > length raw then Inl (RuntimeError ''Malformed message: envelope flags missing'')
      else bindr (read_u32 raw (off + 8)) (\<lambda>flags.
      if off + 12 \<ge> length raw then Inl (RuntimeError ''Malformed message: metadata count missing'')
      else bindr (at raw (off + 12)) (\<lambda>metalen.
      bindr (deserialize_metadata raw (unat metalen) (off + 13)) (\<lambda>(metadata, off).
      bindr (deserialize_payload raw off) (\<lambda>payload.
      Inr \<lparr>msg_header = \<lparr>hdr_type = ty, hdr_length = word_of_nat (length raw - 2), hdr_checksum = 0,
                         hdr_timestamp = timestamp, hdr_protocol_version = version\<rparr>,
           msg_metalen = metalen,
           msg_envelope = \<lparr>env_sender = sender, env_recipient = recipient,
                           env_sequence_number = sequence_number, env_flags = flags\<rparr>,
           msg_metadata = metadata, msg_payload = payload\<rparr>))))))))))"

definition deserialize :: "bytes \<Rightarrow> Message cpp" where
  "deserialize raw =
     (if length raw < 6 then Inl (RuntimeError ''Malformed message: too short'')
      else bindr (at raw 0) (\<lambda>b0. bindr (at raw 1) (\<lambda>second.
        if second AND kExtendedFormatFlag = 0
        then deserialize_compact raw (MessageType_of_byte b0) second
        else deserialize_extended raw (MessageType_of_byte b0) second)))"


section \<open>Prebuilt responses\<close>

text \<open>The namespace \<open>StaticResponses\<close>: ten text messages written out as bytes.\<close>

definition CHAT_NOT_FOUND :: bytes where
  "CHAT_NOT_FOUND =
     [
      0x00, 0x00, 0x00, 0x00, 0x00, 0x0e, 0x43, 0x68, 0x61, 0x74, 0x20, 0x6e,
      0x6f, 0x74, 0x20, 0x66, 0x6f, 0x75, 0x6e, 0x64]"

definition USER_NOT_FOUND :: bytes where
  "USER_NOT_FOUND =
     [
      0x00, 0x00, 0x00, 0x00, 0x00, 0x16, 0x5b, 0x45, 0x52, 0x52, 0x4f, 0x52,
      0x5d, 0x20, 0x55, 0x73, 0x65, 0x72, 0x20, 0x6e, 0x6f, 0x74, 0x20, 0x66,
      0x6f, 0x75, 0x6e, 0x64]"

definition YOU_NEED_TO_LOGIN :: bytes where
  "YOU_NEED_TO_LOGIN =
     [
      0x00, 0x00, 0x00, 0x00, 0x00, 0x24, 0x5b, 0x45, 0x72, 0x72, 0x6f, 0x72,
      0x5d, 0x3a, 0x20, 0x59, 0x6f, 0x75, 0x20, 0x6d, 0x75, 0x73, 0x74, 0x20,
      0x61, 0x75, 0x74, 0x68, 0x65, 0x6e, 0x74, 0x69, 0x63, 0x61, 0x74, 0x65,
      0x20, 0x66, 0x69, 0x72, 0x73, 0x74]"

definition WRONG_COMMAND_USAGE :: bytes where
  "WRONG_COMMAND_USAGE =
     [
      0x00, 0x00, 0x00, 0x00, 0x00, 0x3c, 0x5b, 0x45, 0x72, 0x72, 0x6f, 0x72,
      0x5d, 0x3a, 0x20, 0x57, 0x72, 0x6f, 0x6e, 0x67, 0x20, 0x63, 0x6f, 0x6d,
      0x6d, 0x61, 0x6e, 0x64, 0x20, 0x75, 0x73, 0x61, 0x67, 0x65, 0x2e, 0x20,
      0x50, 0x6c, 0x65, 0x61, 0x73, 0x65, 0x20, 0x75, 0x73, 0x65, 0x20, 0x2f,
      0x68, 0x65, 0x6c, 0x70, 0x20, 0x74, 0x6f, 0x20, 0x67, 0x65, 0x74, 0x20,
      0x61, 0x20, 0x68, 0x65, 0x6c, 0x70]"

definition EMPTY_CHAT_NAME :: bytes where
  "EMPTY_CHAT_NAME =
     [
      0x00, 0x00, 0x00, 0x00, 0x00, 0x18, 0x5b, 0x45, 0x72, 0x72, 0x6f, 0x72,
      0x5d, 0x3a, 0x20, 0x45, 0x6d, 0x70, 0x74, 0x79, 0x20, 0x63, 0x68, 0x61,
      0x74, 0x20, 0x6e, 0x61, 0x6d, 0x65]"

definition CHAT_ALREADY_EXISTS :: bytes where
  "CHAT_ALREADY_EXISTS =
     [
      0x00, 0x00, 0x00, 0x00, 0x00, 0x1f, 0x5b, 0x45, 0x72, 0x72, 0x6f, 0x72,
      0x5d, 0x3a, 0x20, 0x43, 0x68, 0x61, 0x74, 0x20, 0x69, 0x73, 0x20, 0x61,
      0x6c, 0x72, 0x65, 0x61, 0x64, 0x79, 0x20, 0x65, 0x78, 0x69, 0x73, 0x74,
      0x73]"

definition YOU_ARE_ALREADY_MEMBER :: bytes where
  "YOU_ARE_ALREADY_MEMBER =
     [
      0x00, 0x00, 0x00, 0x00, 0x00, 0x2c, 0x5b, 0x45, 0x72, 0x72, 0x6f, 0x72,
      0x5d, 0x3a, 0x20, 0x59, 0x6f, 0x75, 0x20, 0x61, 0x72, 0x65, 0x20, 0x61,
      0x6c, 0x72, 0x65, 0x61, 0x64, 0x79, 0x20, 0x6d, 0x65, 0x6d, 0x62, 0x65,
      0x72, 0x20, 0x6f, 0x66, 0x20, 0x74, 0x68, 0x69, 0x73, 0x20, 0x63, 0x68,
      0x61, 0x74]"

definition PUBLIC_KEY_HAS_NOT_SET :: bytes where
  "PUBLIC_KEY_HAS_NOT_SET =
     [
      0x00, 0x00, 0x00, 0x00, 0x00, 0x24, 0x5b, 0x45, 0x72, 0x72, 0x6f, 0x72,
      0x5d, 0x3a, 0x20, 0x50, 0x75, 0x62, 0x6c, 0x69, 0x63, 0x20, 0x6b, 0x65,
      0x79, 0x20, 0x68, 0x61, 0x73, 0x20, 0x6e, 0x6f, 0x74, 0x20, 0x62, 0x65,
      0x65, 0x6e, 0x20, 0x73, 0x65, 0x74]"

definition YOU_ARE_LOGGED_IN :: bytes where
  "YOU_ARE_LOGGED_IN =
     [
      0x00, 0x00, 0x00, 0x00, 0x00, 0x22, 0x5b, 0x45, 0x72, 0x72, 0x6f, 0x72,
      0x5d, 0x3a, 0x20, 0x59, 0x6f, 0x75, 0x20, 0x61, 0x72, 0x65, 0x20, 0x61,
      0x6c, 0x72, 0x65, 0x61, 0x64, 0x79, 0x20, 0x6c, 0x6f, 0x67, 0x67, 0x65,
      0x64, 0x20, 0x69, 0x6e]"

definition YOU_ARE_NOT_MEMBER :: bytes where
  "YOU_ARE_NOT_MEMBER =
     [
      0x00, 0x00, 0x00, 0x00, 0x00, 0x28, 0x5b, 0x45, 0x72, 0x72, 0x6f, 0x72,
      0x5d, 0x3a, 0x20, 0x59, 0x6f, 0x75, 0x20, 0x61, 0x72, 0x65, 0x20, 0x6e,
      0x6f, 0x74, 0x20, 0x6d, 0x65, 0x6d, 0x62, 0x65, 0x72, 0x20, 0x6f, 0x66,
      0x20, 0x74, 0x68, 0x69, 0x73, 0x20, 0x63, 0x68, 0x61, 0x74]"

section \<open>Codec lemmas\<close>

lemma write_u32_eq [codec_simps]: "write_u32 out v = out @ be32_bytes v"
  by (simp add: write_u32_def be32_bytes_def)

lemma read_u32_append [codec_simps]:
  "length pre = off \<Longrightarrow> read_u32 (pre @ be32_bytes v @ rest) off = Inr v"
  by (auto simp: read_u32_def be32_bytes_def at_def nth_append join_bytes32)

lemma read_u32_ok: "off + 4 \<le> length raw \<Longrightarrow> \<exists>v. read_u32 raw off = Inr v \<and> slice raw off 4 = be32_bytes v"
proof -
  assume len: "off + 4 \<le> length raw"
  then obtain b0 b1 b2 b3 rest where d: "drop off raw = b0 # b1 # b2 # b3 # rest"
    by (metis (no_types, lifting) Cons_nth_drop_Suc add_Suc_right add_leE le_neq_implies_less
        less_eq_Suc_le numeral_Bit0 numeral_One plus_1_eq_Suc not_less_eq_eq Suc_1 Suc_leI add.commute)
  have r: "raw ! off = b0" "raw ! Suc off = b1" "raw ! (off + 2) = b2" "raw ! (off + 3) = b3"
    using d len by (metis (no_types, lifting) add_leE nth_drop nth_Cons_0 nth_Cons_Suc add_0_right
        add_Suc_right numeral_2_eq_2 numeral_3_eq_3)+
  have "read_u32 raw off = Inr (be32_word b0 b1 b2 b3)"
    using len r by (simp add: read_u32_def at_def be32_word_def)
  moreover have "slice raw off 4 = be32_bytes (be32_word b0 b1 b2 b3)"
    using d by (simp add: slice_def be32_bytes_of_word)
  ultimately show ?thesis by blast
qed

lemma read_u64_append [codec_simps]:
  "length pre = off \<Longrightarrow> read_u64 (pre @ le64_bytes v @ rest) off = Inr v"
  by (auto simp: read_u64_def le64_roundtrip)

lemma serialize_metadata_eq [codec_simps]:
  "serialize_metadata out ms = out @ concat (map serialize_meta ms)"
  by (induction ms arbitrary: out) auto

lemma length_serialize_meta [simp]: "length (serialize_meta m) = 2 + length m"
  by (simp add: serialize_meta_def Let_def)

lemma length_concat_meta: "length (concat (map serialize_meta ms)) = (\<Sum>m\<leftarrow>ms. 2 + length m)"
  by (induction ms) auto

lemma deserialize_metadata_step [codec_simps]:
  assumes "length m < 65536" "length pre = off"
  shows "deserialize_metadata (pre @ serialize_meta m @ rest) (Suc n) off =
     bindr (deserialize_metadata (pre @ serialize_meta m @ rest) n (off + 2 + length m))
       (\<lambda>(ms, off'). Inr (m # ms, off'))"
proof -
  let ?w = "word_of_nat (length m) :: 16 word"
  have "unat ?w = length m" using assms(1) by (simp add: unat_of_length16)
  moreover have "slice (pre @ serialize_meta m @ rest) (off + 2) (length m) = m"
    using assms(2) by (simp add: slice_def serialize_meta_def Let_def)
  ultimately show ?thesis
    using assms(2) by (simp add: serialize_meta_def at_def nth_append join_bytes16 Let_def)
qed

lemma deserialize_metadata_append:
  assumes "\<forall>m\<in>set ms. length m < 65536" "length pre = off"
  shows "deserialize_metadata (pre @ concat (map serialize_meta ms) @ rest) (length ms) off =
     Inr (ms, off + length (concat (map serialize_meta ms)))"
  using assms
proof (induction ms arbitrary: pre off)
  case Nil
  then show ?case by simp
next
  case (Cons m ms)
  have "deserialize_metadata ((pre @ serialize_meta m) @ concat (map serialize_meta ms) @ rest)
          (length ms) (off + 2 + length m) = Inr (ms, off + 2 + length m + length (concat (map serialize_meta ms)))"
    using Cons.prems by (intro Cons.IH) auto
  with Cons.prems show ?case
    by (simp add: deserialize_metadata_step del: deserialize_metadata.simps)
qed

lemma deserialize_payload_append:
  assumes "length p < 4294967296" "length pre = off"
  shows "deserialize_payload (pre @ be32_bytes (word_of_nat (length p)) @ p @ rest) off = Inr p"
proof -
  have "unat (word_of_nat (length p) :: 32 word) = length p"
    using assms(1) by (rule unat_of_length32)
  then show ?thesis
    using assms(2) by (simp add: deserialize_payload_def read_u32_append slice_def)
qed

text \<open>The converse direction: what a successful read says about the buffer.\<close>

lemma deserialize_metadata_Inr:
  assumes "deserialize_metadata raw n off = Inr (ms, off')" "off \<le> length raw"
  shows "length ms = n \<and> off' \<le> length raw \<and> (\<forall>m\<in>set ms. length m < 65536)
    \<and> take off' raw = take off raw @ concat (map serialize_meta ms)"
  using assms
proof (induction n arbitrary: off ms)
  case 0
  then show ?case by simp
next
  case (Suc n)
  let ?w = "push_bit 8 (ucast (raw ! off)) OR ucast (raw ! Suc off) :: 16 word"
  let ?m = "slice raw (off + 2) (unat ?w)"
  from Suc.prems(1) obtain ms' where ms: "ms = ?m # ms'" and len: "off + 2 + unat ?w \<le> length raw"
    and rec: "deserialize_metadata raw n (off + 2 + unat ?w) = Inr (ms', off')"
    by (auto simp: at_eq_Inr Let_def not_less split: if_splits)
  have w: "unat ?w < 65536" using unsigned_less [of ?w] by simp
  have lm: "length ?m = unat ?w" using len by (simp add: length_slice)
  have word_of_w: "word_of_nat (unat v) = v" for v :: "16 word" by simp
  have meta: "serialize_meta ?m = [raw ! off, raw ! Suc off] @ ?m"
    unfolding serialize_meta_def Let_def lm by (simp only: word_of_w byte_and_255 split_bytes16 append.simps)
  have "take (off + 2) raw = take off raw @ [raw ! off, raw ! Suc off]"
    using len by (simp add: take_Suc_conv_app_nth numeral_2_eq_2)
  then have "take (off + 2 + unat ?w) raw = take off raw @ serialize_meta ?m"
    unfolding meta by (metis append.assoc take_slice)
  with Suc.IH [OF rec len] w lm ms show ?case by simp
qed

lemma deserialize_payload_Inr:
  assumes "deserialize_payload raw off = Inr p"
  shows "length p < 4294967296 \<and> off + 4 + length p \<le> length raw
    \<and> take (off + 4 + length p) raw = take off raw @ be32_bytes (word_of_nat (length p)) @ p"
proof -
  from assms obtain plen where off: "off + 4 \<le> length raw" and r: "read_u32 raw off = Inr plen"
    and len: "off + 4 + unat plen \<le> length raw" and p: "p = slice raw (off + 4) (unat plen)"
    by (auto simp: deserialize_payload_def not_less split: if_splits)
  have lp: "length p = unat plen" using len p by (simp add: length_slice)
  from read_u32_ok [OF off] r have "slice raw off 4 = be32_bytes (word_of_nat (length p))"
    by (simp add: lp)
  then have "take (off + 4) raw = take off raw @ be32_bytes (word_of_nat (length p))"
    by (metis take_slice)
  moreover have "unat plen < 4294967296" using unsigned_less [of plen] by simp
  ultimately show ?thesis
    using len p lp by (metis append.assoc take_slice)
qed


section \<open>The serializer\<close>

text \<open>
  A message whose fields the compact format can hold: the type is a named or raw byte value, each
  metadata entry fits its 16-bit length, the payload its 32-bit length, and \<open>header.length\<close> is the
  size the constructor and the mutators computed.
\<close>

definition wire_ok :: "Message \<Rightarrow> bool" where
  "wire_ok m \<longleftrightarrow> canonical_type (get_type m) \<and> (\<forall>x\<in>set (msg_metadata m). length x < 65536)
     \<and> length (msg_payload m) < 4294967296
     \<and> compute_serialized_size (msg_metalen m) (msg_metadata m) (msg_payload m) = Inr (hdr_length (msg_header m))"

lemma compute_serialized_size_metalen:
  "compute_serialized_size l ms p = Inr n \<Longrightarrow> unat l = length ms"
  by (auto simp: compute_serialized_size_def Let_def split: if_splits)

lemma not_extended_envelope:
  "\<not> use_extended_format m \<Longrightarrow> msg_envelope m = default_envelope
     \<and> hdr_protocol_version (msg_header m) = kProtocolVersion"
  by (auto simp: use_extended_format_def default_envelope_def)

lemma serialize_compact_eq:
  "serialize_compact m = [byte_of_MessageType (get_type m), msg_metalen m]
     @ concat (map serialize_meta (msg_metadata m))
     @ be32_bytes (word_of_nat (length (msg_payload m))) @ msg_payload m"
  by (simp add: serialize_compact_def codec_simps get_type_def)

lemma extended_flag_iff: "b AND kExtendedFormatFlag = 0 \<longleftrightarrow> unat (b :: byte) < 128"
proof -
  have "b AND kExtendedFormatFlag = 0 \<longleftrightarrow> \<not> bit b 7"
    using and_exp_eq_0_iff_not_bit [of b 7] by (simp add: kExtendedFormatFlag_def)
  also have "\<dots> \<longleftrightarrow> \<not> bit (unat b) 7"
    by (simp add: bit_unsigned_iff)
  also have "\<dots> \<longleftrightarrow> even (unat b div 128)"
    by (simp add: bit_iff_odd)
  also have "\<dots> \<longleftrightarrow> unat b < 128"
  proof -
    have "unat b div 128 = 0 \<or> unat b div 128 = 1" using unat_byte_less [of b] by linarith
    then show ?thesis by (auto simp: div_eq_0_iff)
  qed
  finally show ?thesis .
qed

lemma deserialize_compact_serialize:
  assumes "\<forall>x\<in>set ms. length x < 65536" "length p < 4294967296" "unat l = length ms"
    and "compute_serialized_size l ms p = Inr n"
  shows "deserialize_compact ([b, l] @ concat (map serialize_meta ms)
           @ be32_bytes (word_of_nat (length p)) @ p @ rest) t l =
     Inr \<lparr>msg_header = \<lparr>hdr_type = t, hdr_length = n, hdr_checksum = 0, hdr_timestamp = 0,
                        hdr_protocol_version = kProtocolVersion\<rparr>,
          msg_metalen = l, msg_envelope = default_envelope, msg_metadata = ms, msg_payload = p\<rparr>"
proof -
  let ?c = "concat (map serialize_meta ms)"
  have "deserialize_metadata ([b, l] @ ?c @ be32_bytes (word_of_nat (length p)) @ p @ rest) (unat l) 2
          = Inr (ms, 2 + length ?c)"
    unfolding assms(3) by (rule deserialize_metadata_append) (use assms(1) in auto)
  moreover have "deserialize_payload (([b, l] @ ?c) @ be32_bytes (word_of_nat (length p)) @ p @ rest) (2 + length ?c) = Inr p"
    by (rule deserialize_payload_append) (use assms(2) in auto)
  ultimately show ?thesis
    using assms(4) by (simp add: deserialize_compact_def default_header_def)
qed

lemma compact_roundtrip:
  assumes "wire_ok m" "\<not> use_extended_format m" "length (msg_metadata m) < 128"
  shows "deserialize (serialize m @ rest) =
    Inr (m\<lparr>msg_header := (msg_header m)\<lparr>hdr_timestamp := 0, hdr_checksum := 0\<rparr>\<rparr>)"
proof -
  let ?ms = "msg_metadata m" and ?l = "msg_metalen m" and ?p = "msg_payload m"
  from assms(1) have size: "compute_serialized_size ?l ?ms ?p = Inr (hdr_length (msg_header m))"
    and fits: "\<forall>x\<in>set ?ms. length x < 65536" "length ?p < 4294967296" and can: "canonical_type (get_type m)"
    by (auto simp: wire_ok_def)
  from size have l: "unat ?l = length ?ms" by (rule compute_serialized_size_metalen)
  have flag: "?l AND kExtendedFormatFlag = 0" using assms(3) l by (simp add: extended_flag_iff)
  let ?raw = "[byte_of_MessageType (get_type m), ?l] @ concat (map serialize_meta ?ms)
                @ be32_bytes (word_of_nat (length ?p)) @ ?p @ rest"
  have raw: "serialize m @ rest = ?raw"
    using assms(2) by (simp add: serialize_def serialize_compact_eq)
  have "deserialize ?raw = deserialize_compact ?raw (get_type m) ?l"
    using flag can by (simp add: deserialize_def at_def)
  also have "\<dots> = Inr \<lparr>msg_header = \<lparr>hdr_type = get_type m, hdr_length = hdr_length (msg_header m),
       hdr_checksum = 0, hdr_timestamp = 0, hdr_protocol_version = kProtocolVersion\<rparr>,
       msg_metalen = ?l, msg_envelope = default_envelope, msg_metadata = ?ms, msg_payload = ?p\<rparr>"
    by (rule deserialize_compact_serialize) (use fits l size in auto)
  also have "\<dots> = Inr (m\<lparr>msg_header := (msg_header m)\<lparr>hdr_timestamp := 0, hdr_checksum := 0\<rparr>\<rparr>)"
    using not_extended_envelope [OF assms(2)] by (simp add: get_type_def)
  finally show ?thesis using raw by simp
qed

text \<open>C4: reading a compact message back. A message without envelope data that was built by the
  constructors, with fewer than 128 metadata entries, is decoded from its serialised form to the
  same type, metadata, payload and length, whatever bytes follow; only the timestamp, which the
  compact format does not carry, comes back as 0.\<close>

theorem serialize_compact_roundtrip:
  assumes "wire_ok m" "\<not> use_extended_format m" "length (msg_metadata m) < 128"
  shows "deserialize (serialize m @ rest) =
    Inr (m\<lparr>msg_header := (msg_header m)\<lparr>hdr_timestamp := 0, hdr_checksum := 0\<rparr>\<rparr>)"
  using assms by (rule compact_roundtrip)

text \<open>A message with 128 metadata entries cannot be read back. Its metadata count, stored in
  the second byte, has the extended-format flag set and a version of zero, so \<open>deserialize\<close> throws
  on what \<open>serialize\<close> produced.\<close>

theorem serialize_128_metadata_rejected:
  assumes "wire_ok m" "\<not> use_extended_format m" "length (msg_metadata m) = 128"
  shows "deserialize (serialize m) = Inl (RuntimeError ''Unsupported protocol version'')"
proof -
  from assms(1) have l: "unat (msg_metalen m) = 128"
    using assms(3) by (auto simp: wire_ok_def dest: compute_serialized_size_metalen)
  then have "msg_metalen m = 128"
    by (simp add: word_unat_eq_iff)
  then show ?thesis
    using assms by (simp add: deserialize_def serialize_def serialize_compact_eq at_def
        deserialize_extended_def kExtendedFormatFlag_def)
qed


definition sample_message :: Message where
  "sample_message = \<lparr>msg_header = \<lparr>hdr_type = Command, hdr_length = 16, hdr_checksum = 0,
       hdr_timestamp = 7, hdr_protocol_version = 1\<rparr>,
     msg_metalen = 2, msg_envelope = default_envelope,
     msg_metadata = [[2], [97, 98]], msg_payload = [97, 98, 99]\<rparr>"

lemma sample_message_ok:
  "wire_ok sample_message" "\<not> use_extended_format sample_message" "length (msg_metadata sample_message) < 128"
  by (simp_all add: wire_ok_def sample_message_def compute_serialized_size_def get_type_def Let_def
      use_extended_format_def default_envelope_def kProtocolVersion_def)

theorem serialize_compact_roundtrip_witness:
  "deserialize (serialize sample_message @ [1, 2]) =
     Inr (sample_message\<lparr>msg_header := (msg_header sample_message)\<lparr>hdr_timestamp := 0, hdr_checksum := 0\<rparr>\<rparr>)"
  using serialize_compact_roundtrip [OF sample_message_ok] by simp

definition many_metadata_message :: Message where
  "many_metadata_message = \<lparr>msg_header = \<lparr>hdr_type = Text, hdr_length = 262, hdr_checksum = 0,
       hdr_timestamp = 0, hdr_protocol_version = 1\<rparr>,
     msg_metalen = 128, msg_envelope = default_envelope,
     msg_metadata = replicate 128 [], msg_payload = []\<rparr>"

theorem serialize_128_metadata_rejected_witness:
  "deserialize (serialize many_metadata_message) = Inl (RuntimeError ''Unsupported protocol version'')"
proof (rule serialize_128_metadata_rejected)
  show "wire_ok many_metadata_message"
    by (simp add: wire_ok_def many_metadata_message_def compute_serialized_size_def get_type_def Let_def
        sum_list_replicate)
  show "\<not> use_extended_format many_metadata_message" "length (msg_metadata many_metadata_message) = 128"
    by (simp_all add: many_metadata_message_def use_extended_format_def default_envelope_def kProtocolVersion_def)
qed

text \<open>The extended format: the one-byte lengths, then the whole message.\<close>

lemma deserialize_short_append:
  assumes "length s < 256" "length pre = off"
  shows "deserialize_short (pre @ word_of_nat (length s) # s @ rest) off e1 e2 = Inr (s, off + 1 + length s)"
  using assms by (auto simp: deserialize_short_def at_def nth_append unat_of_length8 slice_def)

text \<open>The fields of a message the extended format can hold.\<close>

definition extended_ok :: "Message \<Rightarrow> bool" where
  "extended_ok m \<longleftrightarrow> canonical_type (get_type m) \<and> (\<forall>x\<in>set (msg_metadata m). length x < 65536)
     \<and> length (msg_payload m) < 4294967296 \<and> unat (msg_metalen m) = length (msg_metadata m)
     \<and> length (env_sender (msg_envelope m)) < 256 \<and> length (env_recipient (msg_envelope m)) < 256
     \<and> 0 < unat (hdr_protocol_version (msg_header m)) \<and> unat (hdr_protocol_version (msg_header m)) < 128"

lemma version_byte:
  assumes "0 < unat v" "unat (v :: byte) < 128"
  shows "kExtendedFormatFlag OR (v AND 0x7F) = kExtendedFormatFlag OR v"
    and "(kExtendedFormatFlag OR v) AND 0x7F = v" and "(kExtendedFormatFlag OR v) AND kExtendedFormatFlag \<noteq> 0"
proof -
  have m: "(0x7F :: byte) = mask 7" by (simp add: mask_eq_exp_minus_1)
  have "take_bit 7 v = v"
    using assms(2) by (simp add: word_unat_eq_iff unsigned_take_bit_eq take_bit_nat_eq_self)
  then have v: "v AND 0x7F = v" unfolding m by (simp add: take_bit_eq_mask [symmetric])
  have "kExtendedFormatFlag AND (0x7F :: byte) = 0" by (simp add: kExtendedFormatFlag_def)
  then show "kExtendedFormatFlag OR (v AND 0x7F) = kExtendedFormatFlag OR v"
    and "(kExtendedFormatFlag OR v) AND 0x7F = v"
    using v by (simp_all add: bit.conj_disj_distrib2)
  have "bit (kExtendedFormatFlag :: byte) 7" by (simp add: kExtendedFormatFlag_def)
  then show "(kExtendedFormatFlag OR v) AND kExtendedFormatFlag \<noteq> 0"
    by (metis bit_and_iff bit_or_iff bit_0_eq bot_apply bot_bool_def)
qed

lemma serialize_extended_eq:
  "serialize_extended m = [byte_of_MessageType (get_type m),
       kExtendedFormatFlag OR (hdr_protocol_version (msg_header m) AND 0x7F)]
     @ be32_bytes (env_flags (msg_envelope m)) @ le64_bytes (hdr_timestamp (msg_header m))
     @ word_of_nat (length (env_sender (msg_envelope m))) # env_sender (msg_envelope m)
     @ word_of_nat (length (env_recipient (msg_envelope m))) # env_recipient (msg_envelope m)
     @ le64_bytes (env_sequence_number (msg_envelope m)) @ be32_bytes (env_flags (msg_envelope m))
     @ msg_metalen m # concat (map serialize_meta (msg_metadata m))
     @ be32_bytes (word_of_nat (length (msg_payload m))) @ msg_payload m"
  by (simp add: serialize_extended_def codec_simps get_type_def write_u64_def)


lemma deserialize_extended_serialize:
  fixes flags :: "32 word"
  assumes "\<forall>x\<in>set ms. length x < 65536" "length p < 4294967296" "unat l = length ms"
    and "length s < 256" "length r < 256" "second AND 0x7F = v" "v \<noteq> 0"
    and raw: "raw = [b, second] @ be32_bytes flags @ le64_bytes ts @ word_of_nat (length s) # s
       @ word_of_nat (length r) # r @ le64_bytes sq @ be32_bytes flags
       @ l # concat (map serialize_meta ms) @ be32_bytes (word_of_nat (length p)) @ p"
  shows "deserialize_extended raw t second =
    Inr \<lparr>msg_header = \<lparr>hdr_type = t, hdr_length = word_of_nat (length raw - 2), hdr_checksum = 0,
                       hdr_timestamp = ts, hdr_protocol_version = v\<rparr>,
         msg_metalen = l,
         msg_envelope = \<lparr>env_sender = s, env_recipient = r, env_sequence_number = sq, env_flags = flags\<rparr>,
         msg_metadata = ms, msg_payload = p\<rparr>"
proof -
  define c where "c = concat (map serialize_meta ms)"
  define p0 where "p0 = [b, second] @ be32_bytes flags @ le64_bytes ts"
  define p1 where "p1 = p0 @ word_of_nat (length s) # s"
  define p2 where "p2 = p1 @ word_of_nat (length r) # r"
  define p3 where "p3 = p2 @ le64_bytes sq @ be32_bytes flags @ [l]"
  have l0: "length p0 = 14" "length p1 = 15 + length s" "length p2 = 16 + length s + length r"
    "length p3 = length p2 + 13"
    by (simp_all add: p0_def p1_def p2_def p3_def)
  have "read_u32 ([b, second] @ be32_bytes flags @ drop 6 raw) 2 = Inr flags"
    by (rule read_u32_append) simp
  then have f0: "read_u32 raw 2 = Inr flags" by (simp add: raw be32_bytes_def)
  have "read_u64 (([b, second] @ be32_bytes flags) @ le64_bytes ts @ drop 14 raw) 6 = Inr ts"
    by (rule read_u64_append) simp
  then have ts: "read_u64 raw 6 = Inr ts" by (simp add: raw)
  define q2 where "q2 = le64_bytes sq @ be32_bytes flags @ l # c @ be32_bytes (word_of_nat (length p)) @ p"
  have "raw = p0 @ word_of_nat (length s) # s @ word_of_nat (length r) # r @ q2"
    by (simp add: raw p0_def q2_def c_def)
  then have s: "deserialize_short raw 14 e1 e2 = Inr (s, 15 + length s)" for e1 e2
    using deserialize_short_append [OF assms(4) l0(1)] by simp
  have "raw = p1 @ word_of_nat (length r) # r @ q2"
    by (simp add: raw p0_def p1_def q2_def c_def)
  then have r: "deserialize_short raw (15 + length s) e1 e2 = Inr (r, length p2)" for e1 e2
    using deserialize_short_append [OF assms(5) l0(2)] by (simp add: l0)
  have raw2: "raw = p2 @ q2"
    by (simp add: raw p0_def p1_def p2_def q2_def c_def)
  have sq: "read_u64 raw (length p2) = Inr sq"
    unfolding raw2 q2_def by (rule read_u64_append) simp
  have f1: "read_u32 raw (length p2 + 8) = Inr flags"
    using read_u32_append [of "p2 @ le64_bytes sq" "length p2 + 8" flags] by (simp add: raw2 q2_def)
  have l: "at raw (length p2 + 12) = Inr l"
    using at_append [of "p2 @ le64_bytes sq @ be32_bytes flags" "length p2 + 12" l]
    by (simp add: raw2 q2_def)
  have raw3: "raw = p3 @ c @ be32_bytes (word_of_nat (length p)) @ p"
    by (simp add: raw p0_def p1_def p2_def p3_def c_def)
  have ms: "deserialize_metadata raw (unat l) (length p2 + 13) = Inr (ms, length (p3 @ c))"
    unfolding raw3 assms(3) c_def using deserialize_metadata_append [OF assms(1) l0(4)] by (simp add: l0(4))
  have p: "deserialize_payload raw (length (p3 @ c)) = Inr p"
    using deserialize_payload_append [OF assms(2), of "p3 @ c" _ "[]"] by (simp add: raw3)
  have "length raw = length p3 + length c + 4 + length p" by (simp add: raw3)
  then show ?thesis
    using assms(6,7) f0 ts s r sq f1 l ms p l0
    by (simp add: deserialize_extended_def Let_def)
qed

text \<open>C29: reading an extended message back. A message that carries envelope data or a protocol
  version other than 1 is decoded from its serialised form with every field equal, the timestamp
  included; only \<open>header.length\<close> is recomputed from the size of the buffer.\<close>

theorem serialize_extended_roundtrip:
  assumes "extended_ok m" "use_extended_format m"
  shows "deserialize (serialize m) = Inr (m\<lparr>msg_header := (msg_header m)\<lparr>hdr_checksum := 0,
           hdr_length := word_of_nat (length (serialize m) - 2)\<rparr>\<rparr>)"
proof -
  let ?e = "msg_envelope m" and ?h = "msg_header m"
  let ?v = "hdr_protocol_version ?h"
  from assms(1) have can: "canonical_type (get_type m)" and v: "0 < unat ?v" "unat ?v < 128"
    by (auto simp: extended_ok_def)
  note vb = version_byte [OF v]
  have raw: "serialize m = serialize_extended m" using assms(2) by (simp add: serialize_def)
  have "deserialize (serialize m) = deserialize_extended (serialize m) (get_type m) (kExtendedFormatFlag OR ?v)"
    unfolding raw serialize_extended_eq vb(1) using vb(3) can by (simp add: deserialize_def at_def)
  also have "\<dots> = Inr \<lparr>msg_header = \<lparr>hdr_type = get_type m, hdr_length = word_of_nat (length (serialize m) - 2),
       hdr_checksum = 0, hdr_timestamp = hdr_timestamp ?h, hdr_protocol_version = ?v\<rparr>,
       msg_metalen = msg_metalen m,
       msg_envelope = \<lparr>env_sender = env_sender ?e, env_recipient = env_recipient ?e,
         env_sequence_number = env_sequence_number ?e, env_flags = env_flags ?e\<rparr>,
       msg_metadata = msg_metadata m, msg_payload = msg_payload m\<rparr>"
    by (rule deserialize_extended_serialize)
      (use assms(1) vb in \<open>auto simp: extended_ok_def raw serialize_extended_eq\<close>)
  also have "\<dots> = Inr (m\<lparr>msg_header := ?h\<lparr>hdr_checksum := 0, hdr_length := word_of_nat (length (serialize m) - 2)\<rparr>\<rparr>)"
    by (simp add: get_type_def)
  finally show ?thesis .
qed

definition sample_extended :: Message where
  "sample_extended = sample_message\<lparr>msg_envelope := \<lparr>env_sender = [97], env_recipient = [98, 99],
     env_sequence_number = 5, env_flags = 1\<rparr>\<rparr>"

theorem serialize_extended_roundtrip_witness:
  "deserialize (serialize sample_extended) = Inr (sample_extended\<lparr>msg_header :=
     (msg_header sample_extended)\<lparr>hdr_checksum := 0, hdr_length := word_of_nat (length (serialize sample_extended) - 2)\<rparr>\<rparr>)"
  by (rule serialize_extended_roundtrip)
    (simp_all add: extended_ok_def use_extended_format_def sample_extended_def sample_message_def get_type_def)


section \<open>What decoding accepts\<close>

lemma deserialize_compact_Inr:
  assumes "deserialize_compact raw t second = Inr m" "raw = b # second # tl (tl raw)"
    and "b = byte_of_MessageType t" "canonical_type t"
  shows "wire_ok m \<and> \<not> use_extended_format m \<and> msg_metalen m = second
    \<and> hdr_timestamp (msg_header m) = 0 \<and> hdr_checksum (msg_header m) = 0
    \<and> (\<exists>rest. raw = serialize m @ rest)"
proof -
  from assms(1) obtain ms off p n where
    meta: "deserialize_metadata raw (unat second) 2 = Inr (ms, off)" and
    pay: "deserialize_payload raw off = Inr p" and size: "compute_serialized_size second ms p = Inr n" and
    m: "m = \<lparr>msg_header = default_header\<lparr>hdr_type := t, hdr_protocol_version := kProtocolVersion, hdr_length := n\<rparr>,
          msg_metalen = second, msg_envelope = default_envelope, msg_metadata = ms, msg_payload = p\<rparr>"
    by (auto simp: deserialize_compact_def)
  have two: "2 \<le> length raw" "take 2 raw = [b, second]"
    by (subst assms(2), simp)+
  note dm = deserialize_metadata_Inr [OF meta two(1)] and dp = deserialize_payload_Inr [OF pay]
  have "\<not> use_extended_format m"
    by (simp add: m use_extended_format_def default_envelope_def default_header_def)
  moreover have "wire_ok m"
    using dm dp size assms(4) by (simp add: m wire_ok_def get_type_def)
  moreover have "raw = serialize m @ drop (off + 4 + length p) raw"
  proof -
    have "serialize m = take (off + 4 + length p) raw"
      using calculation(1) dm dp two(2) assms(3) by (simp add: serialize_def serialize_compact_eq m get_type_def)
    then show ?thesis by simp
  qed
  moreover have "msg_metalen m = second" "hdr_timestamp (msg_header m) = 0" "hdr_checksum (msg_header m) = 0"
    by (simp_all add: m default_header_def)
  ultimately show ?thesis by blast
qed

text \<open>Evaluation on concrete buffers: the metadata loop unfolds on numerals.\<close>

lemma deserialize_metadata_rec:
  "deserialize_metadata raw n off =
     (if n = 0 then Inr ([], off)
      else if off + 2 > length raw then Inl (RuntimeError ''Malformed message: metadata length missing'')
      else bindr (at raw off) (\<lambda>b0. bindr (at raw (off + 1)) (\<lambda>b1.
        let len = unat (push_bit 8 (ucast b0) OR ucast b1 :: 16 word); off' = off + 2 in
        if off' + len > length raw then Inl (RuntimeError ''Malformed message: metadata out of bounds'')
        else bindr (range_at raw off' len) (\<lambda>m.
          bindr (deserialize_metadata raw (n - 1) (off' + len)) (\<lambda>(ms, off''). Inr (m # ms, off''))))))"
  by (cases n) (simp_all cong: if_cong)

lemmas message_eval = deserialize_def deserialize_compact_def deserialize_payload_def read_u32_def at_def
  range_at_def slice_def MessageType_of_byte_def kExtendedFormatFlag_def kProtocolVersion_def
  compute_serialized_size_def Let_def

lemma deserialize_InrD:
  assumes "deserialize raw = Inr m"
  shows "6 \<le> length raw" "raw = raw ! 0 # raw ! 1 # tl (tl raw)"
    and "(if raw ! 1 AND kExtendedFormatFlag = 0
          then deserialize_compact raw (MessageType_of_byte (raw ! 0)) (raw ! 1)
          else deserialize_extended raw (MessageType_of_byte (raw ! 0)) (raw ! 1)) = Inr m"
proof -
  show len: "6 \<le> length raw" using assms by (simp add: deserialize_def split: if_splits)
  then obtain b c xs where raw: "raw = b # c # xs"
    by (cases raw; cases "tl raw") auto
  show "raw = raw ! 0 # raw ! 1 # tl (tl raw)" by (simp add: raw)
  show "(if raw ! 1 AND kExtendedFormatFlag = 0
          then deserialize_compact raw (MessageType_of_byte (raw ! 0)) (raw ! 1)
          else deserialize_extended raw (MessageType_of_byte (raw ! 0)) (raw ! 1)) = Inr m"
    using assms len unfolding raw by (simp add: deserialize_def at_def split: if_splits)
qed

lemma compact_inverse:
  assumes "deserialize raw = Inr m" "raw ! 1 AND kExtendedFormatFlag = 0"
  shows "(\<exists>rest. raw = serialize m @ rest) \<and> wire_ok m \<and> \<not> use_extended_format m
    \<and> length (msg_metadata m) < 128 \<and> validate m"
proof -
  let ?t = "MessageType_of_byte (raw ! 0)"
  note d = deserialize_InrD [OF assms(1)]
  from d(3) assms(2) have dc: "deserialize_compact raw ?t (raw ! 1) = Inr m" by simp
  have "raw ! 0 = byte_of_MessageType ?t" "canonical_type ?t" by simp_all
  note c = deserialize_compact_Inr [OF dc d(2) this]
  then have len: "unat (raw ! 1) = length (msg_metadata m)"
    by (auto simp: wire_ok_def dest: compute_serialized_size_metalen)
  moreover have "unat (raw ! 1) < 128" using assms(2) by (simp add: extended_flag_iff)
  moreover have "validate m"
    using c len by (auto simp: validate_def dest: not_extended_envelope)
  ultimately show ?thesis using c by auto
qed

text \<open>C31: the compact decoder accepts nothing but serialised messages. When it returns a message,
  the buffer is that message's serialised form followed by ignored bytes, and the message is one
  the serializer can hold, with fewer than 128 metadata entries.\<close>

theorem deserialize_compact_inverse:
  assumes "deserialize raw = Inr m" "raw ! 1 AND kExtendedFormatFlag = 0"
  shows "(\<exists>rest. raw = serialize m @ rest) \<and> wire_ok m \<and> \<not> use_extended_format m
    \<and> length (msg_metadata m) < 128 \<and> validate m"
  using assms by (rule compact_inverse)

theorem deserialize_compact_inverse_witness:
  "(\<exists>rest. [0, 1, 0, 1, 65, 0, 0, 0, 1, 66, 9] = serialize (\<lparr>msg_header = default_header\<lparr>hdr_length := 10\<rparr>,
       msg_metalen = 1, msg_envelope = default_envelope, msg_metadata = [[65]], msg_payload = [66]\<rparr>) @ rest)"
proof -
  let ?raw = "[0, 1, 0, 1, 65, 0, 0, 0, 1, 66, 9] :: bytes"
  let ?m = "\<lparr>msg_header = default_header\<lparr>hdr_length := 10\<rparr>, msg_metalen = 1,
     msg_envelope = default_envelope, msg_metadata = [[65]], msg_payload = [66]\<rparr>"
  have "deserialize ?raw = Inr ?m"
    by (simp add: message_eval default_header_def deserialize_metadata_rec)
  moreover have "?raw ! 1 AND kExtendedFormatFlag = 0" by (simp add: kExtendedFormatFlag_def)
  ultimately show ?thesis using deserialize_compact_inverse [of ?raw ?m] by blast
qed

text \<open>Decoding never reads past the end of the buffer.\<close>

definition no_undefined :: "'a cpp \<Rightarrow> bool" where
  "no_undefined r \<longleftrightarrow> (\<forall>e. r = Inl e \<longrightarrow> is_exception e)"

lemma no_undefined_simps [simp]:
  "no_undefined (Inr x)" "no_undefined (Inl (RuntimeError s))" "no_undefined (Inl (OverflowError s))"
  by (simp_all add: no_undefined_def)

lemma no_undefined_bindr [intro]:
  "no_undefined r \<Longrightarrow> (\<And>x. r = Inr x \<Longrightarrow> no_undefined (f x)) \<Longrightarrow> no_undefined (bindr r f)"
  by (cases r) (auto simp: no_undefined_def)

lemma no_undefined_reads:
  "i < length raw \<Longrightarrow> no_undefined (at raw i)"
  "off + 4 \<le> length raw \<Longrightarrow> no_undefined (read_u32 raw off)"
  "off + 8 \<le> length raw \<Longrightarrow> no_undefined (read_u64 raw off)"
  "off + len \<le> length raw \<Longrightarrow> no_undefined (range_at raw off len)"
  "no_undefined (compute_serialized_size l ms p)"
  using read_u32_ok [of off raw]
  by (auto simp: at_def read_u64_def compute_serialized_size_def Let_def)

lemma no_undefined_metadata: "no_undefined (deserialize_metadata raw n off)"
  by (induction n arbitrary: off) (auto intro!: no_undefined_bindr no_undefined_reads simp: Let_def split: prod.splits)

lemma no_undefined_payload: "no_undefined (deserialize_payload raw off)"
  by (auto simp: deserialize_payload_def intro!: no_undefined_bindr no_undefined_reads)

lemma no_undefined_short: "no_undefined (deserialize_short raw off e1 e2)"
  by (auto simp: deserialize_short_def intro!: no_undefined_bindr no_undefined_reads)

lemma no_undefined_deserialize: "no_undefined (deserialize raw)"
proof -
  note reads = no_undefined_reads no_undefined_metadata no_undefined_payload no_undefined_short
  have "no_undefined (deserialize_compact raw t s)" for t s
    by (auto simp: deserialize_compact_def split: prod.splits intro!: no_undefined_bindr reads)
  moreover have "no_undefined (deserialize_extended raw t s)" for t s
    by (auto simp: deserialize_extended_def Let_def split: prod.splits intro!: no_undefined_bindr reads)
  ultimately show ?thesis
    by (auto simp: deserialize_def intro!: no_undefined_bindr reads)
qed

text \<open>C5: \<open>deserialize\<close> is memory safe. On every byte sequence it either returns a message or throws
  one of its own exceptions; no element and no range of elements (a metadata entry, the payload, a sender or recipient) is read
  beyond the end of the buffer, which the model gives the value \<open>Undefined\<close>: each bounds check of the source is needed.\<close>

theorem deserialize_no_undefined: "no_undefined (deserialize raw)"
  by (rule no_undefined_deserialize)

lemma serialize_compact_cong:
  "get_type m = get_type m' \<Longrightarrow> msg_metalen m = msg_metalen m' \<Longrightarrow> msg_metadata m = msg_metadata m'
    \<Longrightarrow> msg_payload m = msg_payload m' \<Longrightarrow> serialize_compact m = serialize_compact m'"
  by (simp add: serialize_compact_eq)

text \<open>A truncated message is rejected. Every proper prefix of a serialised compact message makes
  \<open>deserialize\<close> throw one of its exceptions.\<close>

theorem deserialize_prefix_rejected:
  assumes "wire_ok m" "\<not> use_extended_format m" "length (msg_metadata m) < 128" "n < length (serialize m)"
  shows "\<exists>e. deserialize (take n (serialize m)) = Inl e \<and> is_exception e"
proof (cases "deserialize (take n (serialize m))")
  case (Inl e)
  then show ?thesis using no_undefined_deserialize [of "take n (serialize m)"] by (auto simp: no_undefined_def)
next
  case (Inr m')
  let ?s = "serialize m"
  have n: "6 \<le> n" using deserialize_InrD(1) [OF Inr] by simp
  have "unat (msg_metalen m) = length (msg_metadata m)"
    using assms(1) by (auto simp: wire_ok_def dest: compute_serialized_size_metalen)
  moreover have "take n ?s ! 1 = msg_metalen m"
    using n assms(2) by (simp add: serialize_def serialize_compact_eq)
  ultimately have "take n ?s ! 1 AND kExtendedFormatFlag = 0"
    using assms(3) by (simp add: extended_flag_iff)
  from compact_inverse [OF Inr this] obtain rest where
    m': "take n ?s = serialize m' @ rest" "wire_ok m'" "\<not> use_extended_format m'" "length (msg_metadata m') < 128"
    by auto
  have "?s = serialize m' @ rest @ drop n ?s" using m'(1) by (metis append.assoc append_take_drop_id)
  then have "deserialize ?s = Inr (m'\<lparr>msg_header := (msg_header m')\<lparr>hdr_timestamp := 0, hdr_checksum := 0\<rparr>\<rparr>)"
    using compact_roundtrip [OF m'(2-4)] by metis
  moreover have "deserialize ?s = Inr (m\<lparr>msg_header := (msg_header m)\<lparr>hdr_timestamp := 0, hdr_checksum := 0\<rparr>\<rparr>)"
    using compact_roundtrip [OF assms(1-3), of "[]"] by simp
  ultimately have eq: "m'\<lparr>msg_header := (msg_header m')\<lparr>hdr_timestamp := 0, hdr_checksum := 0\<rparr>\<rparr>
      = m\<lparr>msg_header := (msg_header m)\<lparr>hdr_timestamp := 0, hdr_checksum := 0\<rparr>\<rparr>" by simp
  have "serialize_compact m' = serialize_compact m"
    by (rule serialize_compact_cong) (use eq in \<open>(cases m, cases m', cases "msg_header m", cases "msg_header m'", simp add: get_type_def)+\<close>)
  then have "length (serialize m) \<le> n"
    using m'(1,3) assms(2) by (metis serialize_def length_append length_take le_add1 min.boundedE)
  with assms(4) show ?thesis by simp
qed

theorem deserialize_prefix_rejected_witness:
  "\<exists>e. deserialize (take 15 (serialize sample_message)) = Inl e \<and> is_exception e"
  by (rule deserialize_prefix_rejected [OF sample_message_ok])
    (simp only: serialize_def sample_message_ok(2) not_False_eq_True if_True serialize_compact_eq, simp add: sample_message_def)


section \<open>Constructed messages\<close>

text \<open>
  The object a successful constructor call leaves, written out, and the argument sizes for which
  the call succeeds and the wire format holds the result.
\<close>

definition built :: "64 word \<Rightarrow> bytes \<Rightarrow> bytes list \<Rightarrow> MessageType \<Rightarrow> Message" where
  "built now p ms t = \<lparr>msg_header = \<lparr>hdr_type = t,
       hdr_length = word_of_nat (2 + (\<Sum>m\<leftarrow>ms. 2 + length m) + 4 + length p), hdr_checksum = 0,
       hdr_timestamp = now, hdr_protocol_version = kProtocolVersion\<rparr>,
     msg_metalen = word_of_nat (length ms), msg_envelope = default_envelope,
     msg_metadata = ms, msg_payload = p\<rparr>"

definition fits :: "bytes list \<Rightarrow> bytes \<Rightarrow> bool" where
  "fits ms p \<longleftrightarrow> length ms < 128 \<and> (\<forall>m\<in>set ms. length m < 65536)
     \<and> 6 + (\<Sum>m\<leftarrow>ms. 2 + length m) + length p \<le> 4294967295"

lemma built_sel [simp]:
  "get_type (built now p ms t) = t" "get_payload (built now p ms t) = p" "msg_payload (built now p ms t) = p"
  "msg_metadata (built now p ms t) = ms" "meta_count (built now p ms t) = length ms"
  "get_meta (built now p ms t) i = (if i < length ms then ms ! i else [])"
  by (simp_all add: built_def get_type_def get_payload_def meta_count_def get_meta_def)

lemma built_not_extended [simp]: "\<not> use_extended_format (built now p ms t)"
  by (simp add: built_def use_extended_format_def default_envelope_def)

lemma compute_serialized_size_ok:
  assumes "length ms \<le> 255" "6 + (\<Sum>m\<leftarrow>ms. 2 + length m) + length p \<le> 4294967295"
  shows "compute_serialized_size (word_of_nat (length ms)) ms p =
    Inr (word_of_nat (2 + (\<Sum>m\<leftarrow>ms. 2 + length m) + 4 + length p))"
proof -
  have "unat (word_of_nat (length ms) :: byte) = length ms"
    using assms(1) by (simp add: unat_of_length8)
  moreover have "(2 + (\<Sum>m\<leftarrow>ms. 2 + length m) + 4 + length p) mod 2 ^ 64 = 2 + (\<Sum>m\<leftarrow>ms. 2 + length m) + 4 + length p"
    using assms(2) by (intro mod_less) simp
  ultimately show ?thesis
    using assms(2) by (simp add: compute_serialized_size_def Let_def)
qed

lemma Message_ctor_built:
  assumes "length ms \<le> 255" "6 + (\<Sum>m\<leftarrow>ms. 2 + length m) + length p \<le> 4294967295"
  shows "Message_ctor now p ms t = Inr (built now p ms t)"
  using compute_serialized_size_ok [OF assms] by (simp add: Message_ctor_def built_def)

lemma Message_ctor_fits [simp]: "fits ms p \<Longrightarrow> Message_ctor now p ms t = Inr (built now p ms t)"
  by (intro Message_ctor_built) (auto simp: fits_def)

lemma wire_ok_built: "fits ms p \<Longrightarrow> canonical_type t \<Longrightarrow> wire_ok (built now p ms t)"
  using compute_serialized_size_ok [of ms p] by (auto simp: wire_ok_def fits_def built_def get_type_def)

lemma deserialize_built:
  "fits ms p \<Longrightarrow> canonical_type t \<Longrightarrow> deserialize (serialize (built now p ms t) @ rest) = Inr (built 0 p ms t)"
  using compact_roundtrip [of "built now p ms t"] wire_ok_built [of ms p t now]
  by (simp add: fits_def) (simp add: built_def)

lemma deserialize_built_exact:
  "fits ms p \<Longrightarrow> canonical_type t \<Longrightarrow> deserialize (serialize (built now p ms t)) = Inr (built 0 p ms t)"
  using deserialize_built [of ms p t now "[]"] by simp

lemma serialize_built_now: "serialize (built now p ms t) = serialize (built 0 p ms t)"
  by (simp add: serialize_def serialize_compact_eq) (simp add: built_def)

lemma length_serialize_built: "length (serialize (built now p ms t)) = 6 + (\<Sum>m\<leftarrow>ms. 2 + length m) + length p"
  by (simp add: serialize_def serialize_compact_eq length_concat_meta)

text \<open>The constructors. Whenever the serialised size fits 32 bits, the constructor gives a
  message with the given type, metadata and payload that passes \<open>validate\<close> if there are at most 255
  metadata entries, and throws \<open>Malformed message metadata count\<close> if there are more (the
  8-bit count no longer equals the number of entries).\<close>

theorem Message_ctor_outcome:
  assumes "6 + (\<Sum>m\<leftarrow>ms. 2 + length m) + length p \<le> 4294967295"
  shows "if length ms \<le> 255
    then \<exists>m. Message_ctor now p ms t = Inr m \<and> get_type m = t \<and> msg_metadata m = ms
           \<and> msg_payload m = p \<and> validate m \<and> \<not> use_extended_format m
    else Message_ctor now p ms t = Inl (RuntimeError ''Malformed message metadata count'')"
proof (cases "length ms \<le> 255")
  case True
  then have "validate (built now p ms t)"
    by (simp add: validate_def) (simp add: built_def unat_of_length8)
  with True show ?thesis using Message_ctor_built [OF True assms] by auto
next
  case False
  then have "unat (word_of_nat (length ms) :: byte) \<noteq> length ms"
    using unat_byte_less [of "word_of_nat (length ms)"] by auto
  with False show ?thesis by (simp add: Message_ctor_def compute_serialized_size_def)
qed

theorem Message_ctor_outcome_witness:
  "if length ([[2], [97]] :: bytes list) \<le> 255
    then \<exists>m. Message_ctor 0 [98] [[2], [97]] Command = Inr m \<and> get_type m = Command \<and> msg_metadata m = [[2], [97]]
           \<and> msg_payload m = [98] \<and> validate m \<and> \<not> use_extended_format m
    else Message_ctor 0 [98] [[2], [97]] Command = Inl (RuntimeError ''Malformed message metadata count'')"
  by (rule Message_ctor_outcome) simp

text \<open>The prebuilt responses, with the text each is meant to show.\<close>

definition static_responses :: "(bytes \<times> string) list" where
  "static_responses =
     [(CHAT_NOT_FOUND, ''Chat not found''),
      (USER_NOT_FOUND, ''[ERROR] User not found''),
      (YOU_NEED_TO_LOGIN, ''[Error]: You must authenticate first''),
      (WRONG_COMMAND_USAGE, ''[Error]: Wrong command usage. Please use /help to get a help''),
      (EMPTY_CHAT_NAME, ''[Error]: Empty chat name''),
      (CHAT_ALREADY_EXISTS, ''[Error]: Chat is already exists''),
      (YOU_ARE_ALREADY_MEMBER, ''[Error]: You are already member of this chat''),
      (PUBLIC_KEY_HAS_NOT_SET, ''[Error]: Public key has not been set''),
      (YOU_ARE_LOGGED_IN, ''[Error]: You are already logged in''),
      (YOU_ARE_NOT_MEMBER, ''[Error]: You are not member of this chat'')]"

lemmas static_response_defs = CHAT_NOT_FOUND_def USER_NOT_FOUND_def YOU_NEED_TO_LOGIN_def
  WRONG_COMMAND_USAGE_def EMPTY_CHAT_NAME_def CHAT_ALREADY_EXISTS_def YOU_ARE_ALREADY_MEMBER_def
  PUBLIC_KEY_HAS_NOT_SET_def YOU_ARE_LOGGED_IN_def YOU_ARE_NOT_MEMBER_def

lemma serialize_text: "serialize (built now p [] Text) = [0, 0] @ be32_bytes (word_of_nat (length p)) @ p"
  by (simp add: serialize_def serialize_compact_eq) (simp add: built_def)

lemma static_responses_serialized:
  "list_all (\<lambda>(r, s). r = serialize (built 0 (to_bytes s) [] Text)) static_responses"
  by (simp add: static_responses_def static_response_defs serialize_text to_bytes_def byte_of_char_def
      be32_bytes_def)

text \<open>The prebuilt responses are well formed. Each of the ten byte strings written out by hand is
  what the serializer produces for a text message with the intended wording, so a client decodes it
  to that text.\<close>

theorem static_responses_decode:
  "list_all (\<lambda>(r, s). deserialize r = Inr (built 0 (to_bytes s) [] Text)) static_responses"
proof -
  have "fits [] (to_bytes s)" if "length s < 1000" for s
    using that by (simp add: fits_def)
  moreover have "list_all (\<lambda>(r, s). length s < 1000) static_responses"
    by (simp add: static_responses_def)
  ultimately show ?thesis
    using static_responses_serialized
    by (fastforce simp: list_all_iff deserialize_built_exact)
qed


section \<open>Received messages are well formed\<close>








end
