(* ===== verification/Command_Parser.thy ===== *)
theory Command_Parser
  imports Message_Model
begin

text \<open>
  What a line typed by the user becomes: the template matcher
  (\<open>src/src/application/commands/command_pattern_matcher.cpp\<close>), the catalogue of templates
  (\<open>command_catalog.cpp\<close>) and the parser (\<open>src/src/protocol/parser.cpp\<close>) that turns a line
  into a command or text message and a received command message back into its name and arguments.
  The clock \<open>now_seconds()\<close> is the argument \<open>now\<close>.
\<close>

section \<open>Templates\<close>

datatype PatternTokenKind = Literal | Capture | TailCapture

record PatternToken =
  tok_kind :: PatternTokenKind
  tok_value :: string

record CommandPattern =
  pat_command_name :: string
  pat_template_text :: string
  pat_tokens :: "PatternToken list"

record CommandMatch =
  cm_matched :: bool
  cm_command_name :: string
  cm_captures :: "string list"

definition no_match :: CommandMatch where
  "no_match = \<lparr>cm_matched = False, cm_command_name = [], cm_captures = []\<rparr>"

text \<open>The loop of \<open>split_tokens\<close>: the word being read is \<open>cur\<close>; what is left in it at the end of the
  text is pushed even when it is empty.\<close>

fun split_loop :: "string \<Rightarrow> string list \<Rightarrow> string \<Rightarrow> string list" where
  "split_loop cur toks [] = toks @ [cur]"
| "split_loop cur toks (c # cs) =
     (if c = CHR '' '' then split_loop [] (if cur \<noteq> [] then toks @ [cur] else toks) cs
      else split_loop (cur @ [c]) toks cs)"

definition split_tokens :: "string \<Rightarrow> string list" where
  "split_tokens s = split_loop [] [] s"

definition ends_with :: "string \<Rightarrow> string \<Rightarrow> bool" where
  "ends_with s suf \<longleftrightarrow> length suf \<le> length s \<and> drop (length s - length suf) s = suf"

text \<open>\<open>substr(1, n)\<close> on a token that has at least one character.\<close>

definition compile_token :: "string \<Rightarrow> PatternToken" where
  "compile_token t =
     (if ends_with t ''...}'' then \<lparr>tok_kind = TailCapture, tok_value = take (length t - 4) (drop 1 t)\<rparr>
      else if t \<noteq> [] \<and> hd t = CHR ''{'' then \<lparr>tok_kind = Capture, tok_value = take (length t - 2) (drop 1 t)\<rparr>
      else \<lparr>tok_kind = Literal, tok_value = t\<rparr>)"

definition compile_pattern :: "string \<Rightarrow> string \<Rightarrow> CommandPattern" where
  "compile_pattern command_name template_text =
     \<lparr>pat_command_name = command_name, pat_template_text = template_text,
      pat_tokens = map compile_token (split_tokens template_text)\<rparr>"

definition add_pattern :: "CommandPattern list \<Rightarrow> string \<Rightarrow> string \<Rightarrow> CommandPattern list" where
  "add_pattern patterns command_name template_text = patterns @ [compile_pattern command_name template_text]"

text \<open>The tail of an input line: its tokens joined by single spaces.\<close>

definition join_tail :: "string list \<Rightarrow> string" where
  "join_tail ws = foldl (\<lambda>tail w. (if tail \<noteq> [] then tail @ '' '' else tail) @ w) [] ws"

text \<open>
  The loop of \<open>try_match\<close> over the pattern tokens not yet used and the input tokens not yet consumed.
  \<open>None\<close> is the early \<open>return CommandMatch{.matched = false}\<close>; otherwise the captures and the unconsumed
  input.
\<close>

fun match_loop :: "PatternToken list \<Rightarrow> string list \<Rightarrow> string list \<Rightarrow> (string list \<times> string list) option" where
  "match_loop [] input caps = Some (caps, input)"
| "match_loop (t # ts) input caps =
     (case tok_kind t of
        Literal \<Rightarrow> (case input of [] \<Rightarrow> None
                    | w # ws \<Rightarrow> if w \<noteq> tok_value t then None else match_loop ts ws caps)
      | Capture \<Rightarrow> (case input of [] \<Rightarrow> None | w # ws \<Rightarrow> match_loop ts ws (caps @ [w]))
      | TailCapture \<Rightarrow> if ts \<noteq> [] then None else Some (caps @ [join_tail input], []))"

definition try_match :: "CommandPattern \<Rightarrow> string list \<Rightarrow> CommandMatch" where
  "try_match pattern input_tokens =
     (case match_loop (pat_tokens pattern) input_tokens [] of
        None \<Rightarrow> no_match
      | Some (caps, rest) \<Rightarrow>
          if rest = [] then \<lparr>cm_matched = True, cm_command_name = pat_command_name pattern, cm_captures = caps\<rparr>
          else \<lparr>cm_matched = False, cm_command_name = [], cm_captures = caps\<rparr>)"

fun match_patterns :: "CommandPattern list \<Rightarrow> string list \<Rightarrow> CommandMatch" where
  "match_patterns [] toks = no_match"
| "match_patterns (p # ps) toks =
     (let m = try_match p toks in if cm_matched m then m else match_patterns ps toks)"

definition match :: "CommandPattern list \<Rightarrow> string \<Rightarrow> CommandMatch" where
  "match patterns input = match_patterns patterns (split_tokens input)"

definition default_command_catalog :: "(string \<times> string) list" where
  "default_command_catalog =
     [(''login'', ''/login {username}''),
      (''room'', ''/room {name}''),
      (''join'', ''/join {name}''),
      (''send'', ''/send {chat} {message...}''),
      (''pmess'', ''/pmess {recipient} {message...}''),
      (''getpub'', ''/getpub {username}''),
      (''sendfile'', ''/sendfile {recipient} {filename}''),
      (''connect'', ''/connect {ip} {port} {dh} {identity} {sig}''),
      (''disconnect'', ''/disconnect {username}''),
      (''exit'', ''/exit''),
      (''help'', ''/help'')]"


section \<open>The parser\<close>

record ParsedCommand =
  pc_name :: string
  pc_args :: "bytes list"

text \<open>The matcher the constructor \<open>Parser()\<close> fills from the catalogue.\<close>

definition Parser_ctor :: "CommandPattern list" where
  "Parser_ctor = foldl (\<lambda>ps (name, tmpl). add_pattern ps name tmpl) [] default_command_catalog"

definition command_types_map :: "string \<Rightarrow> CommandType option" where
  "command_types_map = map_of
     [(''login'', LOGIN), (''room'', MAKE_ROOM), (''join'', JOIN), (''send'', SEND),
      (''pmess'', PRIVATE_MESSAGE), (''getpub'', GET_PUBKEY), (''sendfile'', SEND_FILE),
      (''connect'', CONNECT), (''disconnect'', DISCONNECT), (''exit'', EXIT)]"

definition command_names_map :: "CommandType \<Rightarrow> string option" where
  "command_names_map = map_of
     [(LOGIN, ''login''), (MAKE_ROOM, ''room''), (JOIN, ''join''), (SEND, ''send''),
      (PRIVATE_MESSAGE, ''pmess''), (GET_PUBKEY, ''getpub''), (SEND_FILE, ''sendfile''),
      (CONNECT, ''connect''), (DISCONNECT, ''disconnect''), (EXIT, ''exit'')]"

text \<open>\<open>ss >> token\<close> skips white space and reads up to the next white space (the C locale's six).\<close>

definition isspace :: "char \<Rightarrow> bool" where
  "isspace c = (c \<in> set [CHR '' '', CHR 0x09, CHR 0x0A, CHR 0x0B, CHR 0x0C, CHR 0x0D])"

definition stream_word :: "string \<Rightarrow> (string \<times> string) option" where
  "stream_word s =
     (let t = dropWhile isspace s in
      if t = [] then None else Some (takeWhile (\<lambda>c. \<not> isspace c) t, dropWhile (\<lambda>c. \<not> isspace c) t))"

lemma stream_word_shorter: "stream_word s = Some (w, rest) \<Longrightarrow> length rest < length s"
proof -
  assume a: "stream_word s = Some (w, rest)"
  define t where "t = dropWhile isspace s"
  have t: "t \<noteq> []" "rest = dropWhile (\<lambda>c. \<not> isspace c) t"
    using a by (auto simp: stream_word_def t_def Let_def split: if_splits)
  moreover from t have "\<not> isspace (hd t)" unfolding t_def by (metis hd_dropWhile)
  ultimately obtain c cs where "t = c # cs" "\<not> isspace c" by (cases t) auto
  with t have "length rest < length t" by (simp add: length_dropWhile_le le_imp_less_Suc)
  also have "length t \<le> length s" by (simp add: t_def length_dropWhile_le)
  finally show ?thesis .
qed

function stream_words :: "string \<Rightarrow> string list" where
  "stream_words s = (case stream_word s of None \<Rightarrow> [] | Some (w, rest) \<Rightarrow> w # stream_words rest)"
  by pat_completeness auto
termination
  by (relation "measure length") (auto intro: stream_word_shorter)

declare stream_words.simps [simp del]

text \<open>
  The fallback of \<open>parse_line\<close> when no template matches. Its two loops over the tokens (all but the
  last, then the last) copy every token.
\<close>

definition parse_line :: "string \<Rightarrow> ParsedCommand" where
  "parse_line line =
     (let m = match Parser_ctor line in
      if line = [] then \<lparr>pc_name = [], pc_args = []\<rparr>
      else if cm_matched m then \<lparr>pc_name = cm_command_name m, pc_args = map to_bytes (cm_captures m)\<rparr>
      else (case stream_word line of
          None \<Rightarrow> \<lparr>pc_name = [], pc_args = []\<rparr>
        | Some (first_segment, rest) \<Rightarrow>
            \<lparr>pc_name = (if first_segment \<noteq> [] \<and> (hd first_segment = CHR ''/'' \<or> hd first_segment = CHR ''$'')
                        then drop 1 first_segment else first_segment),
             pc_args = map to_bytes (stream_words rest)\<rparr>))"

fun insert_all_metadata :: "Message \<Rightarrow> bytes list \<Rightarrow> Message cpp" where
  "insert_all_metadata msg [] = Inr msg"
| "insert_all_metadata msg (m # ms) = bindr (insert_metadata msg m) (\<lambda>msg'. insert_all_metadata msg' ms)"

definition make_command_from_struct :: "64 word \<Rightarrow> ParsedCommand \<Rightarrow> Message cpp" where
  "make_command_from_struct now cmd =
     (let header = default_header\<lparr>hdr_type := Command, hdr_protocol_version := 1, hdr_timestamp := now\<rparr>;
          msg = default_message\<lparr>msg_header := header\<rparr>;
          command_type = (case command_types_map (pc_name cmd) of Some t \<Rightarrow> t | None \<Rightarrow> UNKNOWN) in
      bindr (insert_metadata msg [byte_of_CommandType command_type]) (\<lambda>msg1.
      bindr (insert_all_metadata msg1 (pc_args cmd)) (\<lambda>msg2.
      if pc_args cmd \<noteq> [] then set_payload msg2 (last (pc_args cmd)) else set_payload msg2 [])))"

definition parse :: "64 word \<Rightarrow> string \<Rightarrow> Message cpp" where
  "parse now message =
     (if message = [] then Inr default_message
      else if hd message = CHR ''/'' then make_command_from_struct now (parse_line message)
      else set_payload (default_message\<lparr>msg_header :=
             default_header\<lparr>hdr_type := Text, hdr_protocol_version := 1, hdr_timestamp := now\<rparr>\<rparr>)
             (to_bytes message))"

definition make_struct_from_command :: "Message \<Rightarrow> ParsedCommand" where
  "make_struct_from_command msg =
     (let type_meta = get_meta msg 0 in
      if type_meta = [] then \<lparr>pc_name = ''unknown'', pc_args = []\<rparr>
      else \<lparr>pc_name = (case command_names_map (CommandType_of_byte (hd type_meta)) of
                          Some n \<Rightarrow> n | None \<Rightarrow> ''unknown''),
            pc_args = map (get_meta msg) [1..<meta_count msg]\<rparr>)"


section \<open>Splitting and matching lines\<close>

fun unwords :: "string list \<Rightarrow> string" where
  "unwords [] = []"
| "unwords [w] = w"
| "unwords (w # v # ws) = w @ '' '' @ unwords (v # ws)"

definition plain :: "string \<Rightarrow> bool" where
  "plain w \<longleftrightarrow> w \<noteq> [] \<and> CHR '' '' \<notin> set w"

lemma split_loop_word:
  "CHR '' '' \<notin> set w \<Longrightarrow> split_loop cur toks (w @ rest) = split_loop (cur @ w) toks rest"
  by (induction w arbitrary: cur) auto

lemma split_loop_unwords:
  "list_all plain ws \<Longrightarrow> ws \<noteq> [] \<Longrightarrow> split_loop [] toks (unwords ws) = toks @ ws"
proof (induction ws arbitrary: toks rule: unwords.induct)
  case (2 w)
  then show ?case using split_loop_word [of w "[]" toks "[]"] by (simp add: plain_def)
next
  case (3 w v ws)
  then show ?case
    using split_loop_word [of w "[]" toks "CHR '' '' # unwords (v # ws)"] by (simp add: plain_def)
qed simp

lemma split_tokens_unwords [simp]: "list_all plain ws \<Longrightarrow> ws \<noteq> [] \<Longrightarrow> split_tokens (unwords ws) = ws"
  by (simp add: split_tokens_def split_loop_unwords)

lemma unwords_snoc: "ws \<noteq> [] \<Longrightarrow> unwords (ws @ [w]) = unwords ws @ '' '' @ w"
  by (induction ws rule: unwords.induct) auto

lemma unwords_eq_Nil: "list_all plain ws \<Longrightarrow> unwords ws = [] \<longleftrightarrow> ws = []"
  by (induction ws rule: unwords.induct) (auto simp: plain_def)

lemma join_tail_unwords [simp]: "list_all plain ws \<Longrightarrow> join_tail ws = unwords ws"
proof (induction ws rule: rev_induct)
  case (snoc w ws)
  then show ?case by (cases "ws = []") (simp_all add: join_tail_def unwords_snoc unwords_eq_Nil)
qed (simp add: join_tail_def)

text \<open>
  The commands a user can type: name, number of one-word arguments, whether the rest of the line is
  a further argument.
\<close>

definition command_arity :: "(string \<times> nat \<times> bool) list" where
  "command_arity =
     [(''login'', 1, False), (''room'', 1, False), (''join'', 1, False), (''send'', 1, True),
      (''pmess'', 1, True), (''getpub'', 1, False), (''sendfile'', 2, False), (''connect'', 5, False),
      (''disconnect'', 1, False), (''exit'', 0, False), (''help'', 0, False)]"

definition token_pattern :: "string \<times> nat \<times> bool \<Rightarrow> PatternTokenKind list" where
  "token_pattern = (\<lambda>(name, n, tail). Literal # replicate n Capture @ (if tail then [TailCapture] else []))"

lemma Parser_ctor_shape:
  "map (\<lambda>p. (pat_command_name p, map tok_kind (pat_tokens p), tok_value (hd (pat_tokens p)))) Parser_ctor =
   map (\<lambda>e. (fst e, token_pattern e, CHR ''/'' # fst e)) command_arity"
  by (simp add: Parser_ctor_def default_command_catalog_def add_pattern_def compile_pattern_def compile_token_def
      ends_with_def split_tokens_def command_arity_def token_pattern_def numeral_eq_Suc)

lemma match_loop_captures:
  "list_all (\<lambda>t. tok_kind t = Capture) ts \<Longrightarrow> length ts \<le> length ws \<Longrightarrow>
   match_loop (ts @ rest) ws caps = match_loop rest (drop (length ts) ws) (caps @ take (length ts) ws)"
proof (induction ts arbitrary: ws caps)
  case (Cons t ts)
  then show ?case by (cases ws) auto
qed simp

definition command_args :: "nat \<Rightarrow> bool \<Rightarrow> string list \<Rightarrow> string list" where
  "command_args n tail ws = (if tail then take n ws @ [join_tail (drop n ws)] else ws)"

lemma try_match_shape:
  assumes "map tok_kind (pat_tokens p) = token_pattern (name, n, tail)"
    and "tok_value (hd (pat_tokens p)) = CHR ''/'' # name"
    and "if tail then n \<le> length ws else length ws = n"
  shows "try_match p ((CHR ''/'' # name) # ws) =
    \<lparr>cm_matched = True, cm_command_name = pat_command_name p, cm_captures = command_args n tail ws\<rparr>"
proof -
  obtain t ts where p: "pat_tokens p = t # ts" "tok_kind t = Literal"
      "map tok_kind ts = replicate n Capture @ (if tail then [TailCapture] else [])"
    using assms(1) by (auto simp: token_pattern_def map_eq_Cons_conv)
  then obtain cs ls where ts: "ts = cs @ ls" "map tok_kind cs = replicate n Capture"
      "map tok_kind ls = (if tail then [TailCapture] else [])"
    by (auto simp: map_eq_append_conv)
  have cs: "length cs = n" using ts(2) by (metis length_map length_replicate)
  have "set (map tok_kind cs) \<subseteq> {Capture}" by (simp add: ts(2) set_replicate_conv_if)
  then have "list_all (\<lambda>t. tok_kind t = Capture) cs" by (auto simp: list_all_iff)
  then have "match_loop ts ws [] = match_loop ls (drop n ws) (take n ws)"
    using match_loop_captures [of cs ws ls "[]"] assms(3) cs ts(1) by (simp split: if_splits)
  then show ?thesis
    using assms(2, 3) p(1, 2) ts(3)
    by (auto simp: try_match_def command_args_def split: if_splits)
qed

lemma try_match_other:
  assumes "map tok_kind (pat_tokens p) = token_pattern e" and "tok_value (hd (pat_tokens p)) \<noteq> w"
  shows "\<not> cm_matched (try_match p (w # ws))"
  using assms by (cases "pat_tokens p") (auto simp: token_pattern_def try_match_def no_match_def split: prod.splits)


text \<open>The patterns are tried in order; names differ, so only the one of the command typed matches.\<close>

lemma match_patterns_shape:
  assumes "map (\<lambda>p. (pat_command_name p, map tok_kind (pat_tokens p), tok_value (hd (pat_tokens p)))) ps =
      map (\<lambda>e. (fst e, token_pattern e, CHR ''/'' # fst e)) es"
    and "(name, n, tail) \<in> set es" and "distinct (map fst es)"
    and "if tail then n \<le> length ws else length ws = n"
  shows "match_patterns ps ((CHR ''/'' # name) # ws) =
    \<lparr>cm_matched = True, cm_command_name = name, cm_captures = command_args n tail ws\<rparr>"
  using assms(1-3)
proof (induction ps arbitrary: es)
  case (Cons p ps)
  then obtain e es' where es: "es = e # es'" by (cases es) auto
  with Cons.prems(1) have p: "pat_command_name p = fst e" "map tok_kind (pat_tokens p) = token_pattern e"
      "tok_value (hd (pat_tokens p)) = CHR ''/'' # fst e"
    by auto
  show ?case
  proof (cases "fst e = name")
    case True
    with Cons.prems(2, 3) es have "e = (name, n, tail)" by (auto simp: rev_image_eqI)
    with p show ?thesis using try_match_shape [of p name n tail ws] assms(4) by (simp add: Let_def)
  next
    case False
    with p(3) have "tok_value (hd (pat_tokens p)) \<noteq> CHR ''/'' # name" by simp
    from try_match_other [OF p(2) this] show ?thesis
      using Cons.IH [of es'] Cons.prems es False by auto
  qed
qed auto

lemma distinct_command_arity: "distinct (map fst command_arity)"
  by (simp add: command_arity_def)

lemma match_command:
  assumes "(name, n, tail) \<in> set command_arity" "list_all plain ((CHR ''/'' # name) # ws)"
    and "if tail then n \<le> length ws else length ws = n"
  shows "match Parser_ctor (unwords ((CHR ''/'' # name) # ws)) =
    \<lparr>cm_matched = True, cm_command_name = name, cm_captures = command_args n tail ws\<rparr>"
  unfolding match_def split_tokens_unwords [OF assms(2) list.distinct(2)]
  by (rule match_patterns_shape [OF Parser_ctor_shape assms(1) distinct_command_arity assms(3)])

lemma list_all_drop: "list_all P xs \<Longrightarrow> list_all P (drop n xs)"
  by (auto simp: list_all_iff dest: in_set_dropD)

lemma command_arity_plain: "(name, n, tail) \<in> set command_arity \<Longrightarrow> plain (CHR ''/'' # name)"
  by (auto simp: command_arity_def plain_def)

lemma parse_line_catalogue:
  assumes "(name, n, tail) \<in> set command_arity" and "list_all plain ws"
    and "if tail then n \<le> length ws else length ws = n"
  shows "parse_line (unwords ((CHR ''/'' # name) # ws)) =
    \<lparr>pc_name = name, pc_args = map to_bytes (if tail then take n ws @ [unwords (drop n ws)] else ws)\<rparr>"
proof -
  have p: "list_all plain ((CHR ''/'' # name) # ws)"
    using command_arity_plain [OF assms(1)] assms(2) by simp
  show ?thesis
    using match_command [OF assms(1) p assms(3)] unwords_eq_Nil [OF p]
    by (simp add: parse_line_def command_args_def list_all_drop [OF assms(2)])
qed

text \<open>
  C26: what a typed command parses to. For each of the eleven commands of the catalogue, a line made of
  its name and space-free words, as many as its template asks for, parses to the command's name and
  those words; for the two commands with a message the words after the recipient are joined by single
  spaces into one last argument.
\<close>

theorem parse_line_command:
  assumes "(name, n, tail) \<in> set command_arity" and "list_all plain ws"
    and "if tail then n \<le> length ws else length ws = n"
  shows "parse_line (unwords ((CHR ''/'' # name) # ws)) =
    \<lparr>pc_name = name, pc_args = map to_bytes (if tail then take n ws @ [unwords (drop n ws)] else ws)\<rparr>"
  by (rule parse_line_catalogue [OF assms])

theorem parse_line_command_witness:
  "parse_line ''/pmess bob see you'' = \<lparr>pc_name = ''pmess'', pc_args = map to_bytes [''bob'', ''see you'']\<rparr>"
  using parse_line_command [of "''pmess''" 1 True "[''bob'', ''see'', ''you'']"]
  by (simp add: command_arity_def plain_def)


section \<open>Command messages\<close>

lemma insert_metadata_built:
  assumes "length ms < 255" "6 + (\<Sum>m\<leftarrow>ms @ [m]. 2 + length m) + length p \<le> 4294967295"
  shows "insert_metadata (built now p ms t) m = Inr (built now p (ms @ [m]) t)"
proof -
  have "length (ms @ [m]) \<le> 255" using assms(1) by simp
  from compute_serialized_size_ok [OF this assms(2)] show ?thesis
    unfolding insert_metadata_def Let_def by (simp add: built_def)
qed

lemma insert_all_metadata_built:
  assumes "fits (ms @ ns) p"
  shows "insert_all_metadata (built now p ms t) ns = Inr (built now p (ms @ ns) t)"
  using assms
proof (induction ns arbitrary: ms)
  case (Cons n ns)
  have f: "length ms < 255" "6 + (\<Sum>m\<leftarrow>ms @ [n]. 2 + length m) + length p \<le> 4294967295"
    using Cons.prems by (auto simp: fits_def)
  show ?case
    using Cons.IH [of "ms @ [n]"] Cons.prems insert_metadata_built [OF f] by simp
qed simp

lemma set_payload_built: "fits ms q \<Longrightarrow> set_payload (built now p ms t) q = Inr (built now q ms t)"
  using compute_serialized_size_ok [of ms q] by (simp add: set_payload_def) (simp add: built_def fits_def)

definition command_type_byte :: "string \<Rightarrow> byte" where
  "command_type_byte name = byte_of_CommandType (case command_types_map name of Some t \<Rightarrow> t | None \<Rightarrow> UNKNOWN)"

definition last_arg :: "bytes list \<Rightarrow> bytes" where
  "last_arg as = (if as = [] then [] else last as)"

lemma insert_all_metas: "insert_all_metadata msg ms = Inr msg' \<Longrightarrow> msg_metadata msg' = msg_metadata msg @ ms"
  by (induction msg ms rule: insert_all_metadata.induct) (auto simp: insert_metadata_def Let_def bindr_eq_Inr)

lemma made_command:
  assumes "make_command_from_struct now cmd = Inr msg"
  shows "msg_metadata msg = [command_type_byte (pc_name cmd)] # pc_args cmd" "msg_payload msg = last_arg (pc_args cmd)"
proof -
  obtain m1 m2 where m: "insert_metadata (default_message\<lparr>msg_header := default_header\<lparr>hdr_type := Command, hdr_protocol_version := 1, hdr_timestamp := now\<rparr>\<rparr>)
      [command_type_byte (pc_name cmd)] = Inr m1" "insert_all_metadata m1 (pc_args cmd) = Inr m2" "set_payload m2 (last_arg (pc_args cmd)) = Inr msg"
    using assms by (auto simp: make_command_from_struct_def command_type_byte_def last_arg_def Let_def bindr_eq_Inr split: if_splits)
  then show "msg_metadata msg = [command_type_byte (pc_name cmd)] # pc_args cmd" "msg_payload msg = last_arg (pc_args cmd)"
    using insert_all_metas [OF m(2)] by (auto simp: insert_metadata_def set_payload_def default_message_def Let_def bindr_eq_Inr)
qed

lemma fits_no_payload: "fits ms p \<Longrightarrow> fits ms []"
  by (simp add: fits_def)

lemma make_command_built:
  assumes "fits ([command_type_byte (pc_name cmd)] # pc_args cmd) (last_arg (pc_args cmd))"
  shows "make_command_from_struct now cmd =
    Inr (built now (last_arg (pc_args cmd)) ([command_type_byte (pc_name cmd)] # pc_args cmd) Command)"
proof -
  let ?b = "[command_type_byte (pc_name cmd)]"
  define msg where "msg = default_message\<lparr>msg_header :=
    default_header\<lparr>hdr_type := Command, hdr_protocol_version := 1, hdr_timestamp := now\<rparr>\<rparr>"
  have "insert_metadata msg ?b = insert_metadata (built now [] [] Command) ?b"
    by (simp add: msg_def insert_metadata_def built_def default_message_def default_header_def kProtocolVersion_def)
  also have "\<dots> = Inr (built now [] [?b] Command)"
    using insert_metadata_built [of "[]" ?b "[]" now Command] by simp
  finally have m1: "insert_metadata msg ?b = Inr (built now [] [?b] Command)" .
  have m2: "insert_all_metadata (built now [] [?b] Command) (pc_args cmd) =
      Inr (built now [] (?b # pc_args cmd) Command)"
    using insert_all_metadata_built [of "[?b]" "pc_args cmd" "[]" now Command] fits_no_payload [OF assms] by simp
  show ?thesis
    using m1 m2 set_payload_built [OF assms, of now "[]" Command]
    by (simp add: make_command_from_struct_def msg_def command_type_byte_def last_arg_def Let_def split: if_splits)
qed

lemma map_get_meta_built: "map (get_meta (built now p (m # ms) t)) [1..<Suc (length ms)] = ms"
  by (rule nth_equalityI) (simp_all del: upt_Suc)

lemma command_names_types:
  "command_types_map name = Some t \<Longrightarrow> command_names_map (CommandType_of_byte (byte_of_CommandType t)) = Some name"
  by (auto simp: command_types_map_def command_names_map_def CommandType_of_byte_def split: if_splits)

lemma make_struct_built:
  "make_struct_from_command (built now p ([command_type_byte name] # as) t) =
    \<lparr>pc_name = (if command_types_map name = None then ''unknown'' else name), pc_args = as\<rparr>"
  using map_get_meta_built [of now p "[command_type_byte name]" as t] command_names_types [of name]
  by (auto simp: make_struct_from_command_def command_type_byte_def CommandType_of_byte_def
      command_names_map_def split: option.splits)

text \<open>
  A command survives the wire. Building the command message for a parsed command, serialising it,
  reading it back on the other side and taking it apart gives the same arguments, and the same name
  if it is one of the ten commands of the type table and \<open>unknown\<close> otherwise; the payload received
  is the last argument.
\<close>

theorem command_wire_roundtrip:
  assumes "fits ([command_type_byte (pc_name cmd)] # pc_args cmd) (last_arg (pc_args cmd))"
  shows "\<exists>msg received. make_command_from_struct now cmd = Inr msg \<and>
    deserialize (serialize msg) = Inr received \<and> get_type received = Command \<and>
    get_payload received = last_arg (pc_args cmd) \<and>
    make_struct_from_command received =
      \<lparr>pc_name = (if command_types_map (pc_name cmd) = None then ''unknown'' else pc_name cmd),
       pc_args = pc_args cmd\<rparr>"
  using make_command_built [OF assms] deserialize_built_exact [OF assms, of Command] by (simp add: make_struct_built)

theorem command_wire_roundtrip_witness:
  "\<exists>msg received. make_command_from_struct 7 \<lparr>pc_name = ''join'', pc_args = [to_bytes ''dev'']\<rparr> = Inr msg \<and>
    deserialize (serialize msg) = Inr received \<and> get_type received = Command \<and>
    get_payload received = to_bytes ''dev'' \<and>
    make_struct_from_command received = \<lparr>pc_name = ''join'', pc_args = [to_bytes ''dev'']\<rparr>"
  using command_wire_roundtrip [of "\<lparr>pc_name = ''join'', pc_args = [to_bytes ''dev'']\<rparr>" 7]
  by (simp add: fits_def last_arg_def command_types_map_def)

text \<open>
  \<open>/help\<close> is in the catalogue but not in the type table, so the line parses to the name \<open>help\<close> and
  becomes a command message of type \<open>UNKNOWN\<close>, as does any unknown command.
\<close>

theorem parse_help_unknown:
  "\<exists>msg. parse now ''/help'' = Inr msg \<and> get_meta msg 0 = [byte_of_CommandType UNKNOWN] \<and>
    parse_line ''/help'' = \<lparr>pc_name = ''help'', pc_args = []\<rparr>"
proof -
  have m: "match Parser_ctor ''/help'' = \<lparr>cm_matched = True, cm_command_name = ''help'', cm_captures = []\<rparr>"
    using match_command [of "''help''" 0 False "[]"]
    by (simp add: command_arity_def plain_def command_args_def)
  then have l: "parse_line ''/help'' = \<lparr>pc_name = ''help'', pc_args = []\<rparr>"
    by (simp add: parse_line_def)
  have "command_type_byte ''help'' = 0xFF"
    by (simp add: command_type_byte_def command_types_map_def)
  with l make_command_built [of "\<lparr>pc_name = ''help'', pc_args = []\<rparr>" now]
  show ?thesis by (simp add: parse_def fits_def last_arg_def)
qed

end
