(* ===== verification/Domain_Services.thy ===== *)
theory Domain_Services
  imports Message_Model
begin

text \<open>
  The server's domain objects and services: \<open>Chat\<close> and \<open>User\<close> (\<open>src/src/models/chat.cpp\<close>, \<open>user.cpp\<close>),
  \<open>UserService\<close>, \<open>ChatService\<close> and \<open>SessionManager\<close> (\<open>src/src/application/services/\<close>). A service that
  returns \<open>std::expected\<close> returns a sum with the \<open>ServiceError\<close> on the left.

  The members of a chat are a \<open>std::unordered_set\<close>; the order in which it is traversed is not specified
  and is the argument \<open>iter\<close>.
\<close>

datatype ServiceError = UserNotFound | ChatNotFound | AccessDenied | InvalidToken | AlreadyExists | AlreadyMember

type_synonym 'a ServiceResult = "ServiceError + 'a"


section \<open>Chat\<close>

datatype ChatType = Private | Group | Channel

record Chat =
  chat_id :: string
  chat_name :: string
  chat_type :: ChatType
  chat_members :: "string set"
  chat_messages :: "Message list"

definition Chat_ctor :: "string \<Rightarrow> string \<Rightarrow> ChatType \<Rightarrow> Chat" where
  "Chat_ctor i n t = \<lparr>chat_id = i, chat_name = n, chat_type = t, chat_members = {}, chat_messages = []\<rparr>"

definition addMessage :: "Chat \<Rightarrow> Message \<Rightarrow> Chat" where
  "addMessage c msg = c\<lparr>chat_messages := chat_messages c @ [msg]\<rparr>"

definition get_recent_message :: "Chat \<Rightarrow> nat \<Rightarrow> Message list" where
  "get_recent_message c count =
     (if length (chat_messages c) \<le> count then chat_messages c
      else drop (length (chat_messages c) - count) (chat_messages c))"

definition is_member :: "Chat \<Rightarrow> string \<Rightarrow> bool" where
  "is_member c user_id = (user_id \<in> chat_members c)"

definition Chat_add_member :: "Chat \<Rightarrow> string \<Rightarrow> bool \<times> Chat" where
  "Chat_add_member c user_id =
     (if chat_type c = Private then (False, c)
      else if user_id \<in> chat_members c then (False, c)
      else (True, c\<lparr>chat_members := insert user_id (chat_members c)\<rparr>))"

definition get_members :: "(string set \<Rightarrow> string list) \<Rightarrow> Chat \<Rightarrow> string list" where
  "get_members iter c = iter (chat_members c)"

definition Chat_remove_member :: "Chat \<Rightarrow> string \<Rightarrow> bool \<times> Chat" where
  "Chat_remove_member c user_id =
     (if user_id \<notin> chat_members c then (False, c)
      else (True, c\<lparr>chat_members := chat_members c - {user_id}\<rparr>))"


section \<open>User\<close>

datatype UserStatus = Online | Away | Offline

record User =
  user_id :: string
  user_username :: string
  user_publicDHKey :: bytes
  user_publicIdentityKey :: bytes
  user_signature :: bytes
  user_status :: UserStatus
  user_chat_ids :: "string list"

definition User_ctor :: "string \<Rightarrow> string \<Rightarrow> User" where
  "User_ctor i n = \<lparr>user_id = i, user_username = n, user_publicDHKey = [], user_publicIdentityKey = [],
     user_signature = [], user_status = Offline, user_chat_ids = []\<rparr>"

definition set_status :: "User \<Rightarrow> UserStatus \<Rightarrow> User" where
  "set_status u s = u\<lparr>user_status := s\<rparr>"

definition join_chat :: "User \<Rightarrow> string \<Rightarrow> User" where
  "join_chat u c = u\<lparr>user_chat_ids := user_chat_ids u @ [c]\<rparr>"

definition has_chat :: "User \<Rightarrow> string \<Rightarrow> bool" where
  "has_chat u c = (c \<in> set (user_chat_ids u))"

text \<open>The two public keys are appended to, the signature is replaced.\<close>

definition set_public_DH_key :: "User \<Rightarrow> bytes \<Rightarrow> User" where
  "set_public_DH_key u b = u\<lparr>user_publicDHKey := user_publicDHKey u @ b\<rparr>"

definition set_public_Identity_key :: "User \<Rightarrow> bytes \<Rightarrow> User" where
  "set_public_Identity_key u b = u\<lparr>user_publicIdentityKey := user_publicIdentityKey u @ b\<rparr>"

definition set_key_signature :: "User \<Rightarrow> bytes \<Rightarrow> User" where
  "set_key_signature u b = u\<lparr>user_signature := b\<rparr>"

definition verify_signature :: "User \<Rightarrow> string \<Rightarrow> string \<Rightarrow> bool" where
  "verify_signature u data signature = True"


section \<open>UserService\<close>

type_synonym UserService = "string \<Rightarrow> User option"

definition set_public_key :: "UserService \<Rightarrow> string \<Rightarrow> bytes \<Rightarrow> bytes \<Rightarrow> bytes \<Rightarrow> UserService" where
  "set_public_key users i pubkey identity_pub signature =
     (case users i of None \<Rightarrow> users
      | Some u \<Rightarrow> users(i \<mapsto> set_key_signature (set_public_Identity_key (set_public_DH_key u pubkey) identity_pub) signature))"

definition register_user :: "UserService \<Rightarrow> string \<Rightarrow> bytes \<Rightarrow> bytes \<Rightarrow> bytes \<Rightarrow> string ServiceResult \<times> UserService" where
  "register_user users name pubkey identity_pub signature =
     (if users name \<noteq> None then (Inl AlreadyExists, users)
      else (Inr name, set_public_key (users(name \<mapsto> User_ctor [] name)) name pubkey identity_pub signature))"

definition find_user :: "UserService \<Rightarrow> string \<Rightarrow> User ServiceResult" where
  "find_user users i = (case users i of None \<Rightarrow> Inl UserNotFound | Some u \<Rightarrow> Inr u)"

definition remove_user :: "UserService \<Rightarrow> string \<Rightarrow> UserService" where
  "remove_user users i = (if users i = None then users else users(i := None))"


section \<open>ChatService\<close>

type_synonym ChatService = "string \<Rightarrow> Chat option"

definition create_chat :: "ChatService \<Rightarrow> string \<Rightarrow> string \<Rightarrow> string ServiceResult \<times> ChatService" where
  "create_chat chats name creator_id =
     (if chats name \<noteq> None then (Inl AlreadyMember, chats)
      else let chats1 = chats(name \<mapsto> Chat_ctor [] name Group) in
           (Inr name, chats1(name \<mapsto> snd (Chat_add_member (the (chats1 name)) creator_id))))"

definition add_member :: "ChatService \<Rightarrow> string \<Rightarrow> string \<Rightarrow> unit ServiceResult \<times> ChatService" where
  "add_member chats cid uid =
     (case chats cid of
        None \<Rightarrow> (Inl ChatNotFound, chats)
      | Some c \<Rightarrow> if is_member c uid then (Inl AlreadyMember, chats)
                  else (Inr (), chats(cid \<mapsto> snd (Chat_add_member c uid))))"

definition post_message :: "(string set \<Rightarrow> string list) \<Rightarrow> ChatService \<Rightarrow> string \<Rightarrow> string \<Rightarrow> Message \<Rightarrow>
    string list ServiceResult \<times> ChatService" where
  "post_message iter chats cid username message =
     (case chats cid of
        None \<Rightarrow> (Inl ChatNotFound, chats)
      | Some c \<Rightarrow> if \<not> is_member c username then (Inl AccessDenied, chats)
                  else let c' = addMessage c message in (Inr (get_members iter c'), chats(cid \<mapsto> c')))"

definition remove_chat :: "ChatService \<Rightarrow> string \<Rightarrow> ChatService" where
  "remove_chat chats cid = (if chats cid = None then chats else chats(cid := None))"

definition remove_user_from_all_chats :: "ChatService \<Rightarrow> string \<Rightarrow> ChatService" where
  "remove_user_from_all_chats chats username =
     (\<lambda>i. case chats i of None \<Rightarrow> None
        | Some c \<Rightarrow> Some (if is_member c username then snd (Chat_remove_member c username) else c))"


section \<open>SessionManager\<close>

record SessionManager =
  fd_to_name :: "int \<Rightarrow> string option"
  name_to_fd :: "string \<Rightarrow> int option"

definition SessionManager_ctor :: SessionManager where
  "SessionManager_ctor = \<lparr>fd_to_name = Map.empty, name_to_fd = Map.empty\<rparr>"

definition bind :: "SessionManager \<Rightarrow> int \<Rightarrow> string \<Rightarrow> SessionManager" where
  "bind sm fd username = sm\<lparr>fd_to_name := (fd_to_name sm)(fd \<mapsto> username), name_to_fd := (name_to_fd sm)(username \<mapsto> fd)\<rparr>"

definition unbind :: "SessionManager \<Rightarrow> int \<Rightarrow> SessionManager" where
  "unbind sm fd = (case fd_to_name sm fd of None \<Rightarrow> sm
     | Some name \<Rightarrow> sm\<lparr>name_to_fd := (name_to_fd sm)(name := None), fd_to_name := (fd_to_name sm)(fd := None)\<rparr>)"

definition get_username :: "SessionManager \<Rightarrow> int \<Rightarrow> string ServiceResult" where
  "get_username sm fd = (case fd_to_name sm fd of None \<Rightarrow> Inl UserNotFound | Some n \<Rightarrow> Inr n)"

definition get_fd :: "SessionManager \<Rightarrow> string \<Rightarrow> int ServiceResult" where
  "get_fd sm username = (case name_to_fd sm username of None \<Rightarrow> Inl UserNotFound | Some fd \<Rightarrow> Inr fd)"


section \<open>What the services promise\<close>

text \<open>The two maps of a session manager are inverse to each other.\<close>

definition sessions_inv :: "SessionManager \<Rightarrow> bool" where
  "sessions_inv sm \<longleftrightarrow> (\<forall>fd name. fd_to_name sm fd = Some name \<longleftrightarrow> name_to_fd sm name = Some fd)"

lemma sessions_inv_ctor [simp]: "sessions_inv SessionManager_ctor"
  by (simp add: sessions_inv_def SessionManager_ctor_def)

text \<open>\<open>bind\<close> keeps them so only when neither side is in use.\<close>

lemma sessions_inv_bind:
  "sessions_inv sm \<Longrightarrow> fd_to_name sm fd = None \<Longrightarrow> name_to_fd sm u = None \<Longrightarrow> sessions_inv (bind sm fd u)"
  unfolding sessions_inv_def bind_def by (simp del: not_None_eq) (metis option.distinct(1))

lemma sessions_invD: "sessions_inv sm \<Longrightarrow> fd_to_name sm fd = Some u \<longleftrightarrow> name_to_fd sm u = Some fd"
  by (simp add: sessions_inv_def)

lemma sessions_inv_unbind:
  assumes "sessions_inv sm"
  shows "sessions_inv (unbind sm fd)"
proof (cases "fd_to_name sm fd")
  case None
  with assms show ?thesis by (simp add: unbind_def)
next
  case (Some u)
  then have u: "name_to_fd sm u = Some fd" using sessions_invD [OF assms] by blast
  have "(((fd_to_name sm)(fd := None)) f = Some n) = (((name_to_fd sm)(u := None)) n = Some f)" for f n
    using sessions_invD [OF assms, of f n] Some u by (cases "f = fd"; cases "n = u") auto
  with Some show ?thesis by (simp add: sessions_inv_def unbind_def)
qed

lemma unbind_lookup [lookup_simps]:
  "sessions_inv sm \<Longrightarrow> fd_to_name sm fd = Some u \<Longrightarrow> name_to_fd (unbind sm fd) = (name_to_fd sm)(u := None)"
  "fd_to_name (unbind sm fd) = (fd_to_name sm)(fd := None)"
  by (auto simp: unbind_def split: option.splits)

lemma bind_lookup [lookup_simps]:
  "fd_to_name (bind sm fd u) = (fd_to_name sm)(fd \<mapsto> u)" "name_to_fd (bind sm fd u) = (name_to_fd sm)(u \<mapsto> fd)"
  by (simp_all add: bind_def)

lemma register_user_cases:
  "register_user users name dh ik sig =
     (if name \<in> dom users then (Inl AlreadyExists, users)
      else (Inr name, users(name \<mapsto> \<lparr>user_id = [], user_username = name, user_publicDHKey = dh,
             user_publicIdentityKey = ik, user_signature = sig, user_status = Offline, user_chat_ids = []\<rparr>)))"
  by (auto simp: register_user_def set_public_key_def User_ctor_def set_key_signature_def
      set_public_Identity_key_def set_public_DH_key_def)

lemma dom_remove_user [simp]: "dom (remove_user users u) = dom users - {u}"
  by (auto simp: remove_user_def)

lemma remove_from_all_lookup [lookup_simps]:
  "remove_user_from_all_chats chats u i = map_option (\<lambda>c. c\<lparr>chat_members := chat_members c - {u}\<rparr>) (chats i)"
  by (auto simp: remove_user_from_all_chats_def is_member_def Chat_remove_member_def split: option.splits)

lemma create_chat_cases:
  "create_chat chats name u =
     (if name \<in> dom chats then (Inl AlreadyMember, chats)
      else (Inr name, chats(name \<mapsto> \<lparr>chat_id = [], chat_name = name, chat_type = Group, chat_members = {u}, chat_messages = []\<rparr>)))"
  by (auto simp: create_chat_def Chat_ctor_def Chat_add_member_def)

lemma add_member_cases:
  "add_member chats cid u = (case chats cid of None \<Rightarrow> (Inl ChatNotFound, chats)
     | Some c \<Rightarrow> if u \<in> chat_members c then (Inl AlreadyMember, chats)
        else (Inr (), chats(cid \<mapsto> if chat_type c = Private then c
               else c\<lparr>chat_members := insert u (chat_members c)\<rparr>)))"
  by (simp add: add_member_def is_member_def Chat_add_member_def split: option.splits)

lemma post_message_cases:
  "post_message iter chats cid u m = (case chats cid of None \<Rightarrow> (Inl ChatNotFound, chats)
     | Some c \<Rightarrow> if u \<notin> chat_members c then (Inl AccessDenied, chats)
        else (Inr (iter (chat_members c)), chats(cid \<mapsto> c\<lparr>chat_messages := chat_messages c @ [m]\<rparr>)))"
  by (simp add: post_message_def is_member_def addMessage_def get_members_def split: option.splits)

end
