(* ===== verification/Commands.thy ===== *)
theory Commands
  imports Command_Parser Domain_Services
begin

text \<open>
  The command objects of \<open>src/src/application/commands/impl/\<close>, the factory and the registries
  (\<open>command_factory.cpp\<close>, \<open>command_interface.cpp\<close>). An object is a constructor with the fields of its
  class that the program uses; \<open>fromMessage\<close> returns the object it leaves, with the exception if it
  throws. What each command does on the server, on a client and on a peer is in the theories of those
  components.
\<close>

section \<open>Numbers in text\<close>

definition digit_char :: "nat \<Rightarrow> char" where
  "digit_char d = char_of (48 + d)"

fun nat_to_string :: "nat \<Rightarrow> string" where
  "nat_to_string n = (if n < 10 then [digit_char n] else nat_to_string (n div 10) @ [digit_char (n mod 10)])"

declare nat_to_string.simps [simp del]

definition int_to_string :: "int \<Rightarrow> string" where
  "int_to_string i = (if i < 0 then CHR ''-'' # nat_to_string (nat (- i)) else nat_to_string (nat i))"

definition is_digit :: "char \<Rightarrow> bool" where
  "is_digit c \<longleftrightarrow> 48 \<le> (of_char c :: nat) \<and> (of_char c :: nat) \<le> 57"

definition digits_value :: "string \<Rightarrow> nat" where
  "digits_value ds = foldl (\<lambda>v c. v * 10 + (of_char c - 48)) 0 ds"

text \<open>\<open>std::stoi\<close>: white space, an optional sign, the longest run of decimal digits.\<close>

definition stoi :: "string \<Rightarrow> int cpp" where
  "stoi s =
     (let t = dropWhile isspace s;
          neg = (t \<noteq> [] \<and> hd t = CHR ''-'');
          u = (if t \<noteq> [] \<and> (hd t = CHR ''-'' \<or> hd t = CHR ''+'') then tl t else t);
          ds = takeWhile is_digit u;
          v = (if neg then - int (digits_value ds) else int (digits_value ds))
      in if ds = [] then Inl (InvalidArgument ''stoi'')
         else if v < - 2147483648 \<or> v > 2147483647 then Inl (OutOfRange ''stoi'')
         else Inr v)"


section \<open>Command objects\<close>

datatype ICommandHandler =
    LoginCommand (login_username: bytes) (login_DH: bytes) (login_identity: bytes) (login_signature: bytes)
  | JoinCommand (join_chat_name: bytes)
  | MakeRoomCommand (room_chat_name: bytes)
  | SendGroupMessageCommand (send_chat_name: bytes) (send_payload: bytes)
  | PrivateMessageCommand (pm_recipient: bytes) (pm_payload: bytes)
  | GetPubkeyCommand (getpub_username: bytes)
  | SendFileCommand (sf_filename: string) (sf_recipient: bytes)
  | ConnectCommand (con_ip: string) (con_port: int) (con_DH: bytes) (con_identity: bytes)
      (con_signature: bytes) (con_username: bytes)
  | DisconnectCommand (dis_username: string)
  | ExitCommand
  | HelpCommand

text \<open>\<open>CommandFactory::create\<close>; a fresh object has empty fields (the port of a fresh \<open>ConnectCommand\<close> is
  read only after it is set).\<close>

definition create :: "string \<Rightarrow> ICommandHandler option" where
  "create name =
     (if name = ''login'' then Some (LoginCommand [] [] [] [])
      else if name = ''room'' then Some (MakeRoomCommand [])
      else if name = ''join'' then Some (JoinCommand [])
      else if name = ''send'' then Some (SendGroupMessageCommand [] [])
      else if name = ''pmess'' then Some (PrivateMessageCommand [] [])
      else if name = ''getpub'' then Some (GetPubkeyCommand [])
      else if name = ''sendfile'' then Some (SendFileCommand [] [])
      else if name = ''connect'' then Some (ConnectCommand [] 0 [] [] [] [])
      else if name = ''disconnect'' then Some (DisconnectCommand [])
      else if name = ''exit'' then Some ExitCommand
      else if name = ''help'' then Some HelpCommand
      else None)"

fun getType :: "ICommandHandler \<Rightarrow> CommandType" where
  "getType (LoginCommand _ _ _ _) = LOGIN"
| "getType (JoinCommand _) = JOIN"
| "getType (MakeRoomCommand _) = MAKE_ROOM"
| "getType (SendGroupMessageCommand _ _) = SEND"
| "getType (PrivateMessageCommand _ _) = PRIVATE_MESSAGE"
| "getType (GetPubkeyCommand _) = GET_PUBKEY"
| "getType (SendFileCommand _ _) = SEND_FILE"
| "getType (ConnectCommand _ _ _ _ _ _) = CONNECT"
| "getType (DisconnectCommand _) = DISCONNECT"
| "getType ExitCommand = EXIT"
| "getType HelpCommand = HELP"

text \<open>The methods of each class; the virtual functions follow.\<close>

definition login_fromParsedCommand :: "bytes \<Rightarrow> bytes \<Rightarrow> bytes \<Rightarrow> bytes \<Rightarrow> ParsedCommand \<Rightarrow> ICommandHandler" where
  "login_fromParsedCommand username DH identity signature pc =
     LoginCommand (if pc_args pc \<noteq> [] then pc_args pc ! 0 else username) DH identity signature"

definition login_toMessage :: "64 word \<Rightarrow> bytes \<Rightarrow> bytes \<Rightarrow> bytes \<Rightarrow> bytes \<Rightarrow> Message cpp" where
  "login_toMessage now username DH identity signature =
     make_command_from_struct now \<lparr>pc_name = ''login'', pc_args = [username, DH, identity, signature]\<rparr>"

definition login_fromMessage :: "Message \<Rightarrow> ICommandHandler" where
  "login_fromMessage msg = LoginCommand (get_meta msg 1) (get_meta msg 2) (get_meta msg 3) (get_meta msg 4)"

definition join_fromParsedCommand :: "bytes \<Rightarrow> ParsedCommand \<Rightarrow> ICommandHandler" where
  "join_fromParsedCommand name pc = JoinCommand (if pc_args pc \<noteq> [] then pc_args pc ! 0 else name)"

definition join_toMessage :: "64 word \<Rightarrow> bytes \<Rightarrow> Message cpp" where
  "join_toMessage now name = make_command_from_struct now \<lparr>pc_name = ''join'', pc_args = [name]\<rparr>"

definition join_fromMessage :: "Message \<Rightarrow> ICommandHandler" where
  "join_fromMessage msg = JoinCommand (get_meta msg 1)"

definition room_fromParsedCommand :: "bytes \<Rightarrow> ParsedCommand \<Rightarrow> ICommandHandler" where
  "room_fromParsedCommand name pc = MakeRoomCommand (if pc_args pc \<noteq> [] then pc_args pc ! 0 else name)"

definition room_toMessage :: "64 word \<Rightarrow> bytes \<Rightarrow> Message cpp" where
  "room_toMessage now name = make_command_from_struct now \<lparr>pc_name = ''room'', pc_args = [name]\<rparr>"

definition room_fromMessage :: "Message \<Rightarrow> ICommandHandler" where
  "room_fromMessage msg = MakeRoomCommand (get_meta msg 1)"

definition send_toMessage :: "64 word \<Rightarrow> bytes \<Rightarrow> Message cpp" where
  "send_toMessage now payload = Message_ctor now payload [] Text"

definition send_fromMessage :: "Message \<Rightarrow> ICommandHandler" where
  "send_fromMessage msg = SendGroupMessageCommand (get_meta msg 1) (get_payload msg)"

definition getpub_fromParsedCommand :: "bytes \<Rightarrow> ParsedCommand \<Rightarrow> ICommandHandler" where
  "getpub_fromParsedCommand username pc = GetPubkeyCommand (if pc_args pc \<noteq> [] then pc_args pc ! 0 else username)"

definition getpub_toMessage :: "64 word \<Rightarrow> bytes \<Rightarrow> Message cpp" where
  "getpub_toMessage now username = Message_ctor now [] [[byte_of_CommandType GET_PUBKEY], username] Command"

definition getpub_fromMessage :: "Message \<Rightarrow> ICommandHandler" where
  "getpub_fromMessage msg = GetPubkeyCommand (get_meta msg 1)"

definition pmess_fromParsedCommand :: "bytes \<Rightarrow> bytes \<Rightarrow> ParsedCommand \<Rightarrow> ICommandHandler" where
  "pmess_fromParsedCommand recipient payload pc =
     (if length (pc_args pc) > 1 then PrivateMessageCommand (pc_args pc ! 0) (pc_args pc ! 1)
      else PrivateMessageCommand recipient payload)"

definition pmess_toMessage :: "64 word \<Rightarrow> bytes \<Rightarrow> Message cpp" where
  "pmess_toMessage now recipient =
     (case getpub_fromParsedCommand [] \<lparr>pc_name = ''getpub'', pc_args = [recipient]\<rparr> of
        GetPubkeyCommand username \<Rightarrow> getpub_toMessage now username)"

definition pmess_fromMessage :: "Message \<Rightarrow> ICommandHandler" where
  "pmess_fromMessage msg = PrivateMessageCommand (get_meta msg 1) (get_payload msg)"

definition sendfile_fromParsedCommand :: "string \<Rightarrow> bytes \<Rightarrow> ParsedCommand \<Rightarrow> ICommandHandler" where
  "sendfile_fromParsedCommand filename recipient pc =
     (if length (pc_args pc) \<ge> 2 then SendFileCommand (to_string (pc_args pc ! 1)) (pc_args pc ! 0)
      else SendFileCommand filename recipient)"

definition sendfile_toMessage :: "64 word \<Rightarrow> string \<Rightarrow> bytes \<Rightarrow> Message cpp" where
  "sendfile_toMessage now filename recipient =
     Message_ctor now [] [[byte_of_CommandType SEND_FILE], recipient, to_bytes filename] Command"

definition sendfile_fromMessage :: "Message \<Rightarrow> ICommandHandler" where
  "sendfile_fromMessage msg = SendFileCommand (to_string (get_meta msg 2)) (get_meta msg 1)"

definition connect_toMessage :: "64 word \<Rightarrow> string \<Rightarrow> int \<Rightarrow> bytes \<Rightarrow> bytes \<Rightarrow> bytes \<Rightarrow> bytes \<Rightarrow> Message cpp" where
  "connect_toMessage now ip port DH identity signature username =
     (let port_str = int_to_string port in
      Message_ctor now username
        [[byte_of_CommandType CONNECT], to_bytes ip, to_bytes port_str, DH, identity, signature] Command)"

text \<open>\<open>ConnectCommand::fromMessage\<close> throws out of \<open>stoi\<close> after the address has been stored.\<close>

definition connect_fromMessage :: "int \<Rightarrow> bytes \<Rightarrow> bytes \<Rightarrow> bytes \<Rightarrow> bytes \<Rightarrow> Message \<Rightarrow> unit cpp \<times> ICommandHandler" where
  "connect_fromMessage port DH identity signature username msg =
     (let ip = to_string (get_meta msg 1) in
      case stoi (to_string (get_meta msg 2)) of
        Inl e \<Rightarrow> (Inl e, ConnectCommand ip port DH identity signature username)
      | Inr p \<Rightarrow> (Inr (), ConnectCommand ip p (get_meta msg 3) (get_meta msg 4) (get_meta msg 5) (get_payload msg)))"

definition disconnect_toMessage :: "64 word \<Rightarrow> Message cpp" where
  "disconnect_toMessage now = Message_ctor now [] [[byte_of_CommandType DISCONNECT]] Command"

definition disconnect_fromMessage :: "Message \<Rightarrow> ICommandHandler" where
  "disconnect_fromMessage msg = DisconnectCommand (to_string (get_payload msg))"

definition exit_toMessage :: "64 word \<Rightarrow> Message cpp" where
  "exit_toMessage now = Message_ctor now [] [[byte_of_CommandType EXIT]] Command"

lemmas command_method_defs =
  login_fromParsedCommand_def login_toMessage_def login_fromMessage_def
  join_fromParsedCommand_def join_toMessage_def join_fromMessage_def
  room_fromParsedCommand_def room_toMessage_def room_fromMessage_def
  send_toMessage_def send_fromMessage_def
  getpub_fromParsedCommand_def getpub_toMessage_def getpub_fromMessage_def
  pmess_fromParsedCommand_def pmess_toMessage_def pmess_fromMessage_def
  sendfile_fromParsedCommand_def sendfile_toMessage_def sendfile_fromMessage_def
  connect_toMessage_def connect_fromMessage_def disconnect_toMessage_def disconnect_fromMessage_def exit_toMessage_def

declare command_method_defs [simp]

fun fromParsedCommand :: "ICommandHandler \<Rightarrow> ParsedCommand \<Rightarrow> ICommandHandler" where
  "fromParsedCommand (LoginCommand u d i s) pc = login_fromParsedCommand u d i s pc"
| "fromParsedCommand (JoinCommand c) pc = join_fromParsedCommand c pc"
| "fromParsedCommand (MakeRoomCommand c) pc = room_fromParsedCommand c pc"
| "fromParsedCommand (SendGroupMessageCommand c p) pc = SendGroupMessageCommand c p"
| "fromParsedCommand (PrivateMessageCommand r p) pc = pmess_fromParsedCommand r p pc"
| "fromParsedCommand (GetPubkeyCommand u) pc = getpub_fromParsedCommand u pc"
| "fromParsedCommand (SendFileCommand f r) pc = sendfile_fromParsedCommand f r pc"
| "fromParsedCommand (ConnectCommand ip port d i s u) pc = ConnectCommand ip port d i s u"
| "fromParsedCommand (DisconnectCommand u) pc = DisconnectCommand u"
| "fromParsedCommand ExitCommand pc = ExitCommand"
| "fromParsedCommand HelpCommand pc = HelpCommand"

fun toMessage :: "64 word \<Rightarrow> ICommandHandler \<Rightarrow> Message cpp" where
  "toMessage now (LoginCommand u d i s) = login_toMessage now u d i s"
| "toMessage now (JoinCommand c) = join_toMessage now c"
| "toMessage now (MakeRoomCommand c) = room_toMessage now c"
| "toMessage now (SendGroupMessageCommand c p) = send_toMessage now p"
| "toMessage now (PrivateMessageCommand r p) = pmess_toMessage now r"
| "toMessage now (GetPubkeyCommand u) = getpub_toMessage now u"
| "toMessage now (SendFileCommand f r) = sendfile_toMessage now f r"
| "toMessage now (ConnectCommand ip port d i s u) = connect_toMessage now ip port d i s u"
| "toMessage now (DisconnectCommand u) = disconnect_toMessage now"
| "toMessage now ExitCommand = exit_toMessage now"
| "toMessage now HelpCommand = Inr default_message"

fun fromMessage :: "ICommandHandler \<Rightarrow> Message \<Rightarrow> unit cpp \<times> ICommandHandler" where
  "fromMessage (LoginCommand _ _ _ _) msg = (Inr (), login_fromMessage msg)"
| "fromMessage (JoinCommand _) msg = (Inr (), join_fromMessage msg)"
| "fromMessage (MakeRoomCommand _) msg = (Inr (), room_fromMessage msg)"
| "fromMessage (SendGroupMessageCommand _ _) msg = (Inr (), send_fromMessage msg)"
| "fromMessage (PrivateMessageCommand _ _) msg = (Inr (), pmess_fromMessage msg)"
| "fromMessage (GetPubkeyCommand _) msg = (Inr (), getpub_fromMessage msg)"
| "fromMessage (SendFileCommand _ _) msg = (Inr (), sendfile_fromMessage msg)"
| "fromMessage (ConnectCommand ip port d i s u) msg = connect_fromMessage port d i s u msg"
| "fromMessage (DisconnectCommand _) msg = (Inr (), disconnect_fromMessage msg)"
| "fromMessage ExitCommand msg = (Inr (), ExitCommand)"
| "fromMessage HelpCommand msg = (Inr (), HelpCommand)"

fun isClientOnly :: "ICommandHandler \<Rightarrow> bool" where
  "isClientOnly (SendFileCommand _ _) = True"
| "isClientOnly HelpCommand = True"
| "isClientOnly _ = False"


section \<open>Registries\<close>

text \<open>The client's, the server's and the peer's registry are the same code three times.\<close>

type_synonym CommandRegistry = "string \<Rightarrow> ICommandHandler option"

definition registerCommand :: "CommandRegistry \<Rightarrow> string \<Rightarrow> ICommandHandler \<Rightarrow> CommandRegistry" where
  "registerCommand commands name cmd = commands(name \<mapsto> cmd)"

definition find_command :: "CommandRegistry \<Rightarrow> string \<Rightarrow> ICommandHandler option" where
  "find_command commands name = commands name"

definition command_exists :: "CommandRegistry \<Rightarrow> string \<Rightarrow> bool" where
  "command_exists commands name = (commands name \<noteq> None)"

definition register_all :: "string list \<Rightarrow> CommandRegistry" where
  "register_all names = foldl (\<lambda>r n. registerCommand r n (the (create n))) Map.empty names"


section \<open>Lemmas\<close>

text \<open>The object a class starts with.\<close>

fun blank :: "ICommandHandler \<Rightarrow> ICommandHandler" where
  "blank (LoginCommand _ _ _ _) = LoginCommand [] [] [] []"
| "blank (JoinCommand _) = JoinCommand []"
| "blank (MakeRoomCommand _) = MakeRoomCommand []"
| "blank (SendGroupMessageCommand _ _) = SendGroupMessageCommand [] []"
| "blank (PrivateMessageCommand _ _) = PrivateMessageCommand [] []"
| "blank (GetPubkeyCommand _) = GetPubkeyCommand []"
| "blank (SendFileCommand _ _) = SendFileCommand [] []"
| "blank (ConnectCommand _ _ _ _ _ _) = ConnectCommand [] 0 [] [] [] []"
| "blank (DisconnectCommand _) = DisconnectCommand []"
| "blank ExitCommand = ExitCommand"
| "blank HelpCommand = HelpCommand"

lemma blank_fromMessage [simp]: "blank (snd (fromMessage c msg)) = blank c"
  by (cases c) (auto simp: Let_def split: sum.splits)

text \<open>Reading a message overwrites every field, so what the object held before does not matter.\<close>

lemma fromMessage_blank: "blank c = blank d \<Longrightarrow> \<not> is_ConnectCommand c \<Longrightarrow> fromMessage c msg = fromMessage d msg"
  by (cases c; cases d) auto

lemma register_all_lookup:
  "list_all (\<lambda>n. create n \<noteq> None) names \<Longrightarrow> register_all names n = (if n \<in> set names then create n else None)"
proof (induction names rule: rev_induct)
  case (snoc x xs)
  then show ?case by (auto simp: register_all_def registerCommand_def)
qed (simp add: register_all_def)

lemma blank_create: "create name = Some c \<Longrightarrow> blank c = c"
  by (auto simp: create_def split: if_splits)

lemma of_char_digit: "d < 10 \<Longrightarrow> of_char (digit_char d) = 48 + d"
  by (simp add: digit_char_def)

lemma is_digit_digit_char: "d < 10 \<Longrightarrow> is_digit (digit_char d)"
  by (simp add: is_digit_def of_char_digit)

lemma nat_to_string_digits: "list_all is_digit (nat_to_string n)" "nat_to_string n \<noteq> []"
  by (induction n rule: nat_to_string.induct)
    (simp_all add: nat_to_string.simps [of n] is_digit_digit_char nat_to_string.simps)

lemma digits_value_nat_to_string: "digits_value (nat_to_string n) = n"
proof (induction n rule: nat_to_string.induct)
  case (1 n)
  then show ?case
    by (cases "n < 10") (simp_all add: nat_to_string.simps [of n] digits_value_def of_char_digit)
qed

lemma digit_not_space: "is_digit c \<Longrightarrow> \<not> isspace c \<and> c \<noteq> CHR ''-'' \<and> c \<noteq> CHR ''+''"
  by (auto simp: is_digit_def isspace_def)

text \<open>\<open>stoi\<close> reads back what \<open>std::to_string\<close> wrote, for every \<open>int\<close>.\<close>

lemma stoi_int_to_string:
  assumes "- 2147483648 \<le> i" "i \<le> 2147483647"
  shows "stoi (int_to_string i) = Inr i"
proof -
  define ds where "ds = nat_to_string (nat \<bar>i\<bar>)"
  have ds: "list_all is_digit ds" "ds \<noteq> []" "digits_value ds = nat \<bar>i\<bar>"
    by (simp_all add: ds_def nat_to_string_digits digits_value_nat_to_string)
  have tw: "takeWhile is_digit ds = ds" using ds(1) by (simp add: list_all_iff)
  obtain c cs where c: "ds = c # cs" "is_digit c" using ds by (cases ds) auto
  have dw: "dropWhile isspace ds = ds" using c digit_not_space [of c] by simp
  have hd: "hd ds \<noteq> CHR ''-''" "hd ds \<noteq> CHR ''+''" using c digit_not_space [of c] by auto
  show ?thesis
  proof (cases "i < 0")
    case True
    then have "int_to_string i = CHR ''-'' # ds" by (simp add: int_to_string_def ds_def)
    with True show ?thesis using ds assms by (simp add: stoi_def isspace_def Let_def tw)
  next
    case False
    then have "int_to_string i = ds" by (simp add: int_to_string_def ds_def)
    with False show ?thesis using ds hd assms by (simp add: stoi_def Let_def tw dw)
  qed
qed

text \<open>A registry in use: the objects registered at the start, with fields that messages have changed.\<close>

definition registry_like :: "CommandRegistry \<Rightarrow> CommandRegistry \<Rightarrow> bool" where
  "registry_like base reg \<longleftrightarrow> (\<forall>n. map_option blank (reg n) = base n)"

lemma registry_like_refl: "(\<And>n c. base n = Some c \<Longrightarrow> blank c = c) \<Longrightarrow> registry_like base base"
  unfolding registry_like_def by (metis (no_types, lifting) map_option_eq_Some not_Some_eq option.map(1))

lemma registry_like_None: "registry_like base reg \<Longrightarrow> find_command reg n = None \<longleftrightarrow> base n = None"
  unfolding registry_like_def find_command_def by (metis map_option_is_None)

lemma registry_like_Some: "registry_like base reg \<Longrightarrow> find_command reg n = Some c \<Longrightarrow> base n = Some (blank c)"
  unfolding registry_like_def find_command_def by (metis option.map(2))

lemma blank_blank [simp]: "blank (blank c) = blank c"
  by (cases c) simp_all

lemma registry_like_fromMessage:
  assumes "registry_like base reg" "find_command reg n = Some c" "\<And>d. base n = Some d \<Longrightarrow> \<not> is_ConnectCommand d"
  shows "\<exists>d. base n = Some d \<and> fromMessage c msg = fromMessage d msg"
proof -
  have d: "base n = Some (blank c)" by (rule registry_like_Some [OF assms(1, 2)])
  then have "\<not> is_ConnectCommand (blank c)" using assms(3) by blast
  then have "fromMessage c msg = fromMessage (blank c) msg" by (intro fromMessage_blank) (cases c; simp)+
  with d show ?thesis by blast
qed

lemma registry_like_update:
  "registry_like base reg \<Longrightarrow> find_command reg n = Some c \<Longrightarrow> blank c' = blank c \<Longrightarrow> registry_like base (reg(n \<mapsto> c'))"
  unfolding registry_like_def find_command_def by (metis fun_upd_apply option.map(2))

end
