(* ===== verification/Server_App.thy ===== *)
theory Server_App
  imports Commands
begin

text \<open>
  The server: \<open>ServerApplicationService\<close> (\<open>src/src/application/services/server_application_service.cpp\<close>),
  what each command does on the server, the command bus, the message handlers
  (\<open>server_*_handler*.cpp\<close>, \<open>command_handler.cpp\<close>), the dispatcher and \<open>MessagingServer\<close>
  (\<open>src/src/application/messaging/messaging_server.cpp\<close>).

  \<open>ServerContext\<close> holds the services and, in \<open>sc_sent\<close>, the calls \<open>transport_server->send(fd, data)\<close> in
  order. The pointers the service checks for null are set by the context's constructor. Console output
  is left out.
\<close>

section \<open>State\<close>

record server_env =
  se_now :: "64 word"
  se_iter :: "string set \<Rightarrow> string list"

record ServerContext =
  sc_users :: UserService
  sc_chats :: ChatService
  sc_sessions :: SessionManager
  sc_fd :: int
  sc_sent :: "(int \<times> bytes) list"

definition ServerContext_ctor :: ServerContext where
  "ServerContext_ctor = \<lparr>sc_users = Map.empty, sc_chats = Map.empty, sc_sessions = SessionManager_ctor,
     sc_fd = 0, sc_sent = []\<rparr>"

definition server_send :: "int \<Rightarrow> bytes \<Rightarrow> (unit, ServerContext) action" where
  "server_send fd data = modify (\<lambda>s. s\<lparr>sc_sent := sc_sent s @ [(fd, data)]\<rparr>)"

text \<open>\<open>transport_server_->send(fd, serializer_->serialize(Message(text, 0, {}, MessageType::Text)))\<close>.\<close>

definition send_text :: "server_env \<Rightarrow> int \<Rightarrow> string \<Rightarrow> (unit, ServerContext) action" where
  "send_text env fd str = andThen (lift (Message_ctor (se_now env) (to_bytes str) [] Text))
     (\<lambda>m. server_send fd (serialize m))"


section \<open>ServerApplicationService\<close>

definition current_username :: "ServerContext \<Rightarrow> string option" where
  "current_username s = (case get_username (sc_sessions s) (sc_fd s) of Inl _ \<Rightarrow> None | Inr u \<Rightarrow> Some u)"

definition login :: "server_env \<Rightarrow> string \<Rightarrow> bytes \<Rightarrow> bytes \<Rightarrow> bytes \<Rightarrow> (unit, ServerContext) action" where
  "login env username dh_pubkey identity_pub signature s =
     (let fd = sc_fd s in
      case get_username (sc_sessions s) fd of
        Inr _ \<Rightarrow> server_send fd YOU_ARE_LOGGED_IN s
      | Inl _ \<Rightarrow>
         let (res, users) = register_user (sc_users s) username dh_pubkey identity_pub signature;
             s1 = s\<lparr>sc_users := users\<rparr> in
         (case res of
            Inl _ \<Rightarrow> server_send fd PUBLIC_KEY_HAS_NOT_SET s1
          | Inr _ \<Rightarrow> send_text env fd (''Hello, '' @ username @ ''!'')
                       (s1\<lparr>sc_sessions := bind (sc_sessions s1) fd username\<rparr>)))"

definition join_room :: "server_env \<Rightarrow> string \<Rightarrow> (unit, ServerContext) action" where
  "join_room env cname s =
     (let fd = sc_fd s in
      case get_username (sc_sessions s) fd of
        Inl _ \<Rightarrow> server_send fd YOU_NEED_TO_LOGIN s
      | Inr username \<Rightarrow>
         if cname = [] then server_send fd EMPTY_CHAT_NAME s
         else let (res, chats) = add_member (sc_chats s) cname username; s1 = s\<lparr>sc_chats := chats\<rparr> in
           (case res of
              Inl ChatNotFound \<Rightarrow> server_send fd CHAT_NOT_FOUND s1
            | Inl AlreadyMember \<Rightarrow> server_send fd YOU_ARE_ALREADY_MEMBER s1
            | _ \<Rightarrow> send_text env fd (''You joined the room '' @ cname) s1))"

definition deliver_cipher_message :: "server_env \<Rightarrow> int \<Rightarrow> Message \<Rightarrow> (unit, ServerContext) action" where
  "deliver_cipher_message env fd msg s =
     (case get_username (sc_sessions s) fd of
        Inl _ \<Rightarrow> server_send fd YOU_NEED_TO_LOGIN s
      | Inr username \<Rightarrow>
         (case get_fd (sc_sessions s) (to_string (get_meta msg 0)) of
            Inl _ \<Rightarrow> server_send fd USER_NOT_FOUND s
          | Inr recipient_fd \<Rightarrow>
             (case find_user (sc_users s) username of
                Inl _ \<Rightarrow> server_send fd YOU_NEED_TO_LOGIN s
              | Inr sender \<Rightarrow>
                 andThen (lift (Message_ctor (se_now env) (get_payload msg)
                     [get_meta msg 0, get_meta msg 1, user_publicDHKey sender, user_publicIdentityKey sender,
                      user_signature sender] CipherMessage))
                   (\<lambda>m. server_send recipient_fd (serialize m)) s)))"

definition create_room :: "server_env \<Rightarrow> string \<Rightarrow> (unit, ServerContext) action" where
  "create_room env cname s =
     (let fd = sc_fd s in
      case get_username (sc_sessions s) fd of
        Inl _ \<Rightarrow> server_send fd YOU_NEED_TO_LOGIN s
      | Inr username \<Rightarrow>
         if cname = [] then server_send fd EMPTY_CHAT_NAME s
         else let (res, chats) = create_chat (sc_chats s) cname username; s1 = s\<lparr>sc_chats := chats\<rparr> in
           (case res of
              Inl _ \<Rightarrow> server_send fd CHAT_ALREADY_EXISTS s1
            | Inr _ \<Rightarrow> send_text env fd (''Room '' @ cname @ '' was created!'') s1))"

text \<open>The loop over the members: one send per member that is connected.\<close>

fun send_to_members :: "string list \<Rightarrow> Message \<Rightarrow> (unit, ServerContext) action" where
  "send_to_members [] message s = (Inr (), s)"
| "send_to_members (u # us) message s =
     (case get_fd (sc_sessions s) u of
        Inl _ \<Rightarrow> send_to_members us message s
      | Inr his_fd \<Rightarrow> andThen (server_send his_fd (serialize message)) (\<lambda>_. send_to_members us message) s)"

definition send_group_message :: "server_env \<Rightarrow> string \<Rightarrow> Message \<Rightarrow> (unit, ServerContext) action" where
  "send_group_message env cname message s =
     (let fd = sc_fd s in
      case get_username (sc_sessions s) fd of
        Inl _ \<Rightarrow> server_send fd YOU_NEED_TO_LOGIN s
      | Inr username \<Rightarrow>
         let (res, chats) = post_message (se_iter env) (sc_chats s) cname username message; s1 = s\<lparr>sc_chats := chats\<rparr> in
           (case res of
              Inl AccessDenied \<Rightarrow> server_send fd YOU_ARE_NOT_MEMBER s1
            | Inl ChatNotFound \<Rightarrow> server_send fd CHAT_NOT_FOUND s1
            | Inl _ \<Rightarrow> (Inl (Undefined ''value of an empty expected''), s1)
            | Inr members \<Rightarrow> send_to_members members message s1))"

definition disconnect_username :: "string \<Rightarrow> (unit, ServerContext) action" where
  "disconnect_username username s =
     (case get_fd (sc_sessions s) username of
        Inl _ \<Rightarrow> (Inr (), s)
      | Inr fd \<Rightarrow> (Inr (), s\<lparr>sc_users := remove_user (sc_users s) username, sc_sessions := unbind (sc_sessions s) fd\<rparr>))"

definition exit_current_session :: "(unit, ServerContext) action" where
  "exit_current_session s =
     (case get_username (sc_sessions s) (sc_fd s) of
        Inl _ \<Rightarrow> (Inr (), s)
      | Inr username \<Rightarrow> (Inr (), s\<lparr>sc_users := remove_user (sc_users s) username,
                                   sc_chats := remove_user_from_all_chats (sc_chats s) username,
                                   sc_sessions := unbind (sc_sessions s) (sc_fd s)\<rparr>))"

definition send_pubkey :: "server_env \<Rightarrow> bytes \<Rightarrow> (unit, ServerContext) action" where
  "send_pubkey env username s =
     (let fd = sc_fd s in
      if username = [] then server_send fd WRONG_COMMAND_USAGE s
      else (case find_user (sc_users s) (to_string username) of
          Inl _ \<Rightarrow> server_send fd USER_NOT_FOUND s
        | Inr user \<Rightarrow>
            andThen (lift (Message_ctor (se_now env) (user_publicDHKey user)
                [[byte_of_CommandType GET_PUBKEY], username, user_publicIdentityKey user, user_signature user] Response))
              (\<lambda>m. server_send fd (serialize m)) s))"


section \<open>Commands on the server\<close>

definition login_on_server :: "server_env \<Rightarrow> bytes \<Rightarrow> bytes \<Rightarrow> bytes \<Rightarrow> bytes \<Rightarrow> (unit, ServerContext) action" where
  "login_on_server env username DH identity signature = login env (to_string username) DH identity signature"

definition join_on_server :: "server_env \<Rightarrow> bytes \<Rightarrow> (unit, ServerContext) action" where
  "join_on_server env name = join_room env (to_string name)"

definition room_on_server :: "server_env \<Rightarrow> bytes \<Rightarrow> (unit, ServerContext) action" where
  "room_on_server env name = create_room env (to_string name)"

definition send_on_server :: "server_env \<Rightarrow> bytes \<Rightarrow> bytes \<Rightarrow> (unit, ServerContext) action" where
  "send_on_server env name payload =
     andThen (lift (send_toMessage (se_now env) payload)) (send_group_message env (to_string name))"

definition sendfile_on_server :: "server_env \<Rightarrow> string \<Rightarrow> bytes \<Rightarrow> (unit, ServerContext) action" where
  "sendfile_on_server env filename recipient s =
     send_text env (sc_fd s)
       (''Server should send a file '' @ [CHR 0x27] @ filename @ [CHR 0x27] @ '' to '' @ to_string recipient) s"

fun execeuteOnServer :: "server_env \<Rightarrow> ICommandHandler \<Rightarrow> (unit, ServerContext) action" where
  "execeuteOnServer env (LoginCommand u d i sig) = login_on_server env u d i sig"
| "execeuteOnServer env (JoinCommand c) = join_on_server env c"
| "execeuteOnServer env (MakeRoomCommand c) = room_on_server env c"
| "execeuteOnServer env (SendGroupMessageCommand c p) = send_on_server env c p"
| "execeuteOnServer env (PrivateMessageCommand _ _) = ret ()"
| "execeuteOnServer env (GetPubkeyCommand u) = send_pubkey env u"
| "execeuteOnServer env (SendFileCommand f r) = sendfile_on_server env f r"
| "execeuteOnServer env (ConnectCommand _ _ _ _ _ _) = ret ()"
| "execeuteOnServer env (DisconnectCommand _) = ret ()"
| "execeuteOnServer env ExitCommand = exit_current_session"
| "execeuteOnServer env HelpCommand = ret ()"

declare login_on_server_def [simp] join_on_server_def [simp] room_on_server_def [simp] send_on_server_def [simp]
  sendfile_on_server_def [simp]

text \<open>\<open>ServerCommandBus::dispatch\<close>; the registry holds the command objects, which \<open>fromMessage\<close> changes.\<close>

definition server_bus_dispatch :: "server_env \<Rightarrow> Message \<Rightarrow> (unit, CommandRegistry \<times> ServerContext) action" where
  "server_bus_dispatch env msg = (\<lambda>(registry, ctx).
     (let name = pc_name (make_struct_from_command msg) in
      case find_command registry name of
        None \<Rightarrow> (Inr (), (registry, ctx))
      | Some handler \<Rightarrow>
         (case fromMessage handler msg of
            (Inl e, handler') \<Rightarrow> (Inl e, (registry(name \<mapsto> handler'), ctx))
          | (Inr _, handler') \<Rightarrow>
             let (res, ctx') = execeuteOnServer env handler' ctx in (res, (registry(name \<mapsto> handler'), ctx')))))"

definition server_registry :: CommandRegistry where
  "server_registry = register_all [''exit'', ''login'', ''room'', ''send'', ''join'', ''getpub'', ''help'', ''sendfile'']"


section \<open>Handlers and dispatcher\<close>

datatype IServerMessageHandler =
    ServerTextHandler
  | ServerCommandHandler (server_commands: CommandRegistry)
  | ServerCipherHandler
  | ServerFileStartHandler
  | ServerFileChunkHandler
  | ServerFileEndHandler

definition recipient_from :: "Message \<Rightarrow> string" where
  "recipient_from msg = to_string (get_meta msg 0)"

text \<open>The three file handlers are the same code.\<close>

definition relay_file_message :: "Message \<Rightarrow> (unit, ServerContext) action" where
  "relay_file_message msg s =
     (case get_fd (sc_sessions s) (recipient_from msg) of
        Inl _ \<Rightarrow> server_send (sc_fd s) USER_NOT_FOUND s
      | Inr recipient_fd \<Rightarrow> server_send recipient_fd (serialize msg) s)"

fun handleMessage :: "server_env \<Rightarrow> Message \<Rightarrow> IServerMessageHandler \<times> ServerContext \<Rightarrow>
    unit cpp \<times> IServerMessageHandler \<times> ServerContext" where
  "handleMessage env msg (ServerTextHandler, ctx) = (Inr (), ServerTextHandler, ctx)"
| "handleMessage env msg (ServerCommandHandler reg, ctx) =
     (let (res, reg', ctx') = server_bus_dispatch env msg (reg, ctx) in (res, ServerCommandHandler reg', ctx'))"
| "handleMessage env msg (ServerCipherHandler, ctx) =
     (let (res, ctx') = deliver_cipher_message env (sc_fd ctx) msg ctx in (res, ServerCipherHandler, ctx'))"
| "handleMessage env msg (ServerFileStartHandler, ctx) =
     (let (res, ctx') = relay_file_message msg ctx in (res, ServerFileStartHandler, ctx'))"
| "handleMessage env msg (ServerFileChunkHandler, ctx) =
     (let (res, ctx') = relay_file_message msg ctx in (res, ServerFileChunkHandler, ctx'))"
| "handleMessage env msg (ServerFileEndHandler, ctx) =
     (let (res, ctx') = relay_file_message msg ctx in (res, ServerFileEndHandler, ctx'))"

record MessagingServer =
  ms_handlers :: "MessageType \<Rightarrow> IServerMessageHandler option"
  ms_context :: ServerContext

definition server_registerHandler :: "MessagingServer \<Rightarrow> MessageType \<Rightarrow> IServerMessageHandler \<Rightarrow> MessagingServer" where
  "server_registerHandler ms t h = ms\<lparr>ms_handlers := (ms_handlers ms)(t \<mapsto> h)\<rparr>"

definition server_HasHandlerFor :: "MessagingServer \<Rightarrow> MessageType \<Rightarrow> bool" where
  "server_HasHandlerFor ms t = (ms_handlers ms t \<noteq> None)"

definition server_clear :: "MessagingServer \<Rightarrow> MessagingServer" where
  "server_clear ms = ms\<lparr>ms_handlers := Map.empty\<rparr>"

definition handle_with :: "server_env \<Rightarrow> IServerMessageHandler \<Rightarrow> Message \<Rightarrow> (bool, MessagingServer) action" where
  "handle_with env h msg ms =
     (let (res, h', ctx') = handleMessage env msg (h, ms_context ms) in
      (bindr res (\<lambda>_. Inr True), ms\<lparr>ms_handlers := (ms_handlers ms)(get_type msg \<mapsto> h'), ms_context := ctx'\<rparr>))"

definition server_dispatch :: "server_env \<Rightarrow> Message \<Rightarrow> (bool, MessagingServer) action" where
  "server_dispatch env msg ms =
     (case ms_handlers ms (get_type msg) of
        None \<Rightarrow> (Inr False, ms)
      | Some h \<Rightarrow> try_catch (handle_with env h msg) (ret False) ms)"

definition server_dispatchFromRawBytes :: "server_env \<Rightarrow> bytes \<Rightarrow> (bool, MessagingServer) action" where
  "server_dispatchFromRawBytes env raw =
     try_catch (andThen (lift (deserialize raw)) (server_dispatch env)) (ret False)"

definition MessagingServer_ctor :: MessagingServer where
  "MessagingServer_ctor =
     foldl (\<lambda>ms (t, h). server_registerHandler ms t h) \<lparr>ms_handlers = Map.empty, ms_context = ServerContext_ctor\<rparr>
       [(Text, ServerTextHandler), (Command, ServerCommandHandler server_registry),
        (CipherMessage, ServerCipherHandler), (FileStart, ServerFileStartHandler),
        (FileChunk, ServerFileChunkHandler), (FileEnd, ServerFileEndHandler)]"

definition set_current_fd :: "int \<Rightarrow> MessagingServer \<Rightarrow> MessagingServer" where
  "set_current_fd fd ms = ms\<lparr>ms_context := (ms_context ms)\<lparr>sc_fd := fd\<rparr>\<rparr>"

text \<open>The deserializer is called outside any \<open>try\<close> block: what it throws leaves the callback.\<close>

definition on_tcp_data_received :: "server_env \<Rightarrow> int \<Rightarrow> bytes \<Rightarrow> (unit, MessagingServer) action" where
  "on_tcp_data_received env fd raw ms =
     (case deserialize raw of
        Inl e \<Rightarrow> (Inl e, ms)
      | Inr msg \<Rightarrow> andThen (server_dispatch env msg) (\<lambda>_. ret ()) (set_current_fd fd ms))"

text \<open>The second callback of \<open>start_server\<close>: a lost connection is dispatched as an exit command.\<close>

definition on_tcp_disconnected :: "server_env \<Rightarrow> int \<Rightarrow> (unit, MessagingServer) action" where
  "on_tcp_disconnected env fd ms =
     (let ms1 = set_current_fd fd ms in
      case Message_ctor (se_now env) [] [[byte_of_CommandType EXIT]] Command of
        Inl e \<Rightarrow> (Inl e, ms1)
      | Inr msg \<Rightarrow> andThen (server_dispatch env msg) (\<lambda>_. ret ()) ms1)"

definition send_error :: "int \<Rightarrow> string \<Rightarrow> (unit, ServerContext) action" where
  "send_error fd error_string = server_send fd (to_bytes ''error'')"

end
