(* ===== verification/Server_Properties.thy ===== *)
theory Server_Properties
  imports Server_App
begin

text \<open>
  Properties of the server: the invariant of the services kept by every message and disconnection, the
  dispatcher's refinement to the function \<open>serve\<close>, what each command does for logged-in and anonymous
  connections, and the reachable states of the server.
\<close>

section \<open>The invariant\<close>

text \<open>
  Connections and user names correspond one to one, exactly the connected users are registered, and the
  members of every chat are registered users.
\<close>

definition chats_ok :: "string set \<Rightarrow> ChatService \<Rightarrow> bool" where
  "chats_ok users chats \<longleftrightarrow> (\<forall>i c. chats i = Some c \<longrightarrow>
     finite (chat_members c) \<and> chat_members c \<subseteq> users \<and> chat_type c = Group)"

definition server_inv :: "ServerContext \<Rightarrow> bool" where
  "server_inv s \<longleftrightarrow> sessions_inv (sc_sessions s) \<and> dom (sc_users s) = dom (name_to_fd (sc_sessions s)) \<and>
     chats_ok (dom (sc_users s)) (sc_chats s)"

lemma chats_okD:
  "chats_ok us chats \<Longrightarrow> chats i = Some c \<Longrightarrow> finite (chat_members c) \<and> chat_members c \<subseteq> us \<and> chat_type c = Group"
  by (simp add: chats_ok_def)

lemma chats_ok_update:
  "chats_ok us chats \<Longrightarrow> finite (chat_members c) \<Longrightarrow> chat_members c \<subseteq> us \<Longrightarrow> chat_type c = Group \<Longrightarrow>
   chats_ok us (chats(i \<mapsto> c))"
  by (simp add: chats_ok_def)

lemma chats_ok_mono: "chats_ok us chats \<Longrightarrow> us \<subseteq> vs \<Longrightarrow> chats_ok vs chats"
  by (fastforce simp: chats_ok_def)

lemma chats_ok_services:
  assumes "chats_ok us chats" "u \<in> us"
  shows "chats_ok us (snd (add_member chats i u))" "chats_ok us (snd (create_chat chats i u))"
    "chats_ok us (snd (post_message iter chats i v m))" "chats_ok (us - {w}) (remove_user_from_all_chats chats w)"
proof -
  show "chats_ok us (snd (add_member chats i u))"
    using assms chats_okD [OF assms(1), of i] by (auto simp: add_member_cases intro!: chats_ok_update split: option.splits)
  show "chats_ok us (snd (create_chat chats i u))"
    using assms by (auto simp: create_chat_cases intro: chats_ok_update)
  show "chats_ok us (snd (post_message iter chats i v m))"
    using assms chats_okD [OF assms(1), of i] by (auto simp: post_message_cases intro!: chats_ok_update split: option.splits)
  show "chats_ok (us - {w}) (remove_user_from_all_chats chats w)"
    using assms(1) by (fastforce simp: chats_ok_def lookup_simps)
qed

lemma server_inv_chats:
  "server_inv s \<Longrightarrow> chats_ok (dom (sc_users s)) chats \<Longrightarrow> server_inv (s\<lparr>sc_chats := chats\<rparr>)"
  by (simp add: server_inv_def)

lemma server_inv_chats_ok: "server_inv s \<Longrightarrow> chats_ok (dom (sc_users s)) (sc_chats s)"
  unfolding server_inv_def by blast

lemma server_inv_frame [simp]:
  "server_inv (s\<lparr>sc_sent := x\<rparr>) = server_inv s" "server_inv (s\<lparr>sc_fd := fd\<rparr>) = server_inv s"
  by (simp_all add: server_inv_def)

lemma server_inv_ctor: "server_inv ServerContext_ctor"
  by (simp add: server_inv_def ServerContext_ctor_def chats_ok_def) (simp add: SessionManager_ctor_def)

lemma snd_server_send [simp]: "server_send fd d s = (Inr (), s\<lparr>sc_sent := sc_sent s @ [(fd, d)]\<rparr>)"
  by (simp add: server_send_def modify_def)

lemma send_text_cases:
  "send_text env fd str s = (case Message_ctor (se_now env) (to_bytes str) [] Text of
     Inl e \<Rightarrow> (Inl e, s) | Inr m \<Rightarrow> (Inr (), s\<lparr>sc_sent := sc_sent s @ [(fd, serialize m)]\<rparr>))"
  by (simp add: send_text_def action_simps split: sum.splits)

lemma server_inv_send_text [simp]: "server_inv (snd (send_text env fd str s)) = server_inv s"
  by (simp add: send_text_cases split: sum.splits)

lemma get_username_Inr: "get_username sm fd = Inr u \<longleftrightarrow> fd_to_name sm fd = Some u"
  by (simp add: get_username_def split: option.splits)

lemma get_username_Inl: "get_username sm fd = Inl e \<longleftrightarrow> fd_to_name sm fd = None \<and> e = UserNotFound"
  by (auto simp: get_username_def split: option.splits)

lemma get_fd_Inr: "get_fd sm u = Inr fd \<longleftrightarrow> name_to_fd sm u = Some fd"
  by (simp add: get_fd_def split: option.splits)

lemma get_fd_Inl: "get_fd sm u = Inl e \<longleftrightarrow> name_to_fd sm u = None \<and> e = UserNotFound"
  by (auto simp: get_fd_def split: option.splits)

lemma find_user_Inr: "find_user us u = Inr x \<longleftrightarrow> us u = Some x"
  by (simp add: find_user_def split: option.splits)

lemmas service_lookups = get_username_Inr get_username_Inl get_fd_Inr get_fd_Inl find_user_Inr

lemma server_inv_login_state:
  assumes "server_inv s" "fd_to_name (sc_sessions s) fd = None" "u \<notin> dom (sc_users s)"
  shows "server_inv (s\<lparr>sc_users := (sc_users s)(u \<mapsto> x), sc_sessions := bind (sc_sessions s) fd u\<rparr>)"
proof -
  have "name_to_fd (sc_sessions s) u = None" using assms by (auto simp: server_inv_def)
  with assms show ?thesis
    by (auto simp: server_inv_def sessions_inv_bind lookup_simps intro: chats_ok_mono)
qed

lemma server_inv_login: "server_inv s \<Longrightarrow> server_inv (snd (login env u d i sig s))"
  using server_inv_login_state [of s "sc_fd s" u]
  by (auto simp: login_def register_user_cases service_lookups Let_def split: sum.splits)

lemma logged_in_registered:
  "server_inv s \<Longrightarrow> fd_to_name (sc_sessions s) fd = Some u \<Longrightarrow> u \<in> dom (sc_users s)"
  by (auto simp: server_inv_def sessions_inv_def)

lemma server_inv_join: "server_inv s \<Longrightarrow> server_inv (snd (join_room env c s))"
proof -
  assume i: "server_inv s"
  have "server_inv (s\<lparr>sc_chats := snd (add_member (sc_chats s) c u)\<rparr>)" if "fd_to_name (sc_sessions s) (sc_fd s) = Some u" for u
    by (rule server_inv_chats [OF i chats_ok_services(1) [OF server_inv_chats_ok [OF i] logged_in_registered [OF i that]]])
  with i show ?thesis
    by (auto simp: join_room_def service_lookups Let_def split_def split: sum.splits ServiceError.splits)
qed

lemma server_inv_create: "server_inv s \<Longrightarrow> server_inv (snd (create_room env c s))"
proof -
  assume i: "server_inv s"
  have "server_inv (s\<lparr>sc_chats := snd (create_chat (sc_chats s) c u)\<rparr>)" if "fd_to_name (sc_sessions s) (sc_fd s) = Some u" for u
    by (rule server_inv_chats [OF i chats_ok_services(2) [OF server_inv_chats_ok [OF i] logged_in_registered [OF i that]]])
  with i show ?thesis
    by (auto simp: create_room_def service_lookups Let_def split_def split: sum.splits)
qed

lemma send_to_members_eq:
  "send_to_members us m s = (Inr (), s\<lparr>sc_sent := sc_sent s @
     map (\<lambda>u. (the (name_to_fd (sc_sessions s) u), serialize m)) (filter (\<lambda>u. name_to_fd (sc_sessions s) u \<noteq> None) us)\<rparr>)"
proof (induction us arbitrary: s)
  case (Cons u us)
  then show ?case
    by (cases "name_to_fd (sc_sessions s) u") (auto simp: get_fd_def andThen_def)
qed simp

lemma server_inv_group: "server_inv s \<Longrightarrow> server_inv (snd (send_group_message env c m s))"
proof -
  assume i: "server_inv s"
  have "server_inv (s\<lparr>sc_chats := snd (post_message (se_iter env) (sc_chats s) c u m)\<rparr>)"
    if "fd_to_name (sc_sessions s) (sc_fd s) = Some u" for u
    by (rule server_inv_chats [OF i chats_ok_services(3) [OF server_inv_chats_ok [OF i] logged_in_registered [OF i that]]])
  with i show ?thesis
    by (auto simp: send_group_message_def send_to_members_eq service_lookups Let_def split_def
        split: sum.splits ServiceError.splits)
qed

lemma server_inv_exit:
  assumes i: "server_inv s"
  shows "server_inv (snd (exit_current_session s))"
proof (cases "fd_to_name (sc_sessions s) (sc_fd s)")
  case (Some u)
  have si: "sessions_inv (sc_sessions s)" using i by (simp add: server_inv_def)
  have "chats_ok (dom (sc_users s) - {u}) (remove_user_from_all_chats (sc_chats s) u)"
    by (rule chats_ok_services(4) [OF server_inv_chats_ok [OF i] logged_in_registered [OF i Some]])
  moreover have "dom (name_to_fd (unbind (sc_sessions s) (sc_fd s))) = dom (sc_users s) - {u}"
    using i unbind_lookup(1) [OF si Some] by (auto simp: server_inv_def)
  ultimately show ?thesis
    using Some si by (simp add: exit_current_session_def get_username_def server_inv_def sessions_inv_unbind)
qed (use i in \<open>simp add: exit_current_session_def get_username_def\<close>)

lemma server_inv_pubkey: "server_inv s \<Longrightarrow> server_inv (snd (send_pubkey env u s))"
  by (auto simp: send_pubkey_def Let_def action_simps split: sum.splits)

lemma server_inv_cipher: "server_inv s \<Longrightarrow> server_inv (snd (deliver_cipher_message env fd msg s))"
  by (auto simp: deliver_cipher_message_def action_simps split: sum.splits)

lemma server_inv_relay: "server_inv s \<Longrightarrow> server_inv (snd (relay_file_message msg s))"
  by (auto simp: relay_file_message_def split: sum.splits)

lemma server_inv_command: "server_inv s \<Longrightarrow> server_inv (snd (execeuteOnServer env c s))"
  by (cases c) (auto simp: server_inv_login server_inv_join server_inv_create server_inv_group server_inv_exit
      server_inv_pubkey action_simps split: sum.splits)

section \<open>The dispatcher\<close>

text \<open>No operation of the server has undefined behaviour: what leaves it is an exception.\<close>

definition only_exceptions :: "'a cpp \<times> 's \<Rightarrow> bool" where
  "only_exceptions r \<longleftrightarrow> (\<forall>e. fst r = Inl e \<longrightarrow> is_exception e)"

lemma Message_ctor_error: "Message_ctor now p ms t = Inl e \<Longrightarrow> is_exception e"
  by (auto simp: Message_ctor_def compute_serialized_size_def Let_def bindr_eq_Inl split: if_splits)

lemma fromMessage_error: "fst (fromMessage c msg) = Inl e \<Longrightarrow> is_exception e"
  by (cases c) (auto simp: stoi_def Let_def split: sum.splits if_splits)

lemma only_exceptions_command: "only_exceptions (execeuteOnServer env c s)"
  by (cases c)
    (auto simp: only_exceptions_def action_simps login_def join_room_def create_room_def send_pubkey_def
      send_group_message_def post_message_cases exit_current_session_def send_text_cases send_to_members_eq Let_def split_def
      dest: Message_ctor_error split: sum.splits option.splits ServiceError.splits if_splits)

lemma only_exceptions_cipher: "only_exceptions (deliver_cipher_message env fd msg s)"
  by (auto simp: only_exceptions_def action_simps deliver_cipher_message_def dest: Message_ctor_error split: sum.splits)

lemma only_exceptions_relay: "only_exceptions (relay_file_message msg s)"
  by (auto simp: only_exceptions_def relay_file_message_def split: sum.splits)

text \<open>The handlers the constructor registers, and the command objects up to their fields.\<close>

definition handlers_of :: "CommandRegistry \<Rightarrow> MessageType \<Rightarrow> IServerMessageHandler option" where
  "handlers_of reg = [Text \<mapsto> ServerTextHandler, Command \<mapsto> ServerCommandHandler reg, CipherMessage \<mapsto> ServerCipherHandler,
     FileStart \<mapsto> ServerFileStartHandler, FileChunk \<mapsto> ServerFileChunkHandler, FileEnd \<mapsto> ServerFileEndHandler]"

abbreviation registry_ok :: "CommandRegistry \<Rightarrow> bool" where
  "registry_ok \<equiv> registry_like server_registry"

definition ms_inv :: "MessagingServer \<Rightarrow> bool" where
  "ms_inv ms \<longleftrightarrow> (\<exists>reg. ms_handlers ms = handlers_of reg \<and> registry_ok reg) \<and> server_inv (ms_context ms)"

text \<open>What the server does with a message, without dispatcher, registries and command objects.\<close>

definition serve :: "server_env \<Rightarrow> Message \<Rightarrow> (unit, ServerContext) action" where
  "serve env msg s =
     (if get_type msg = Command then
        (case server_registry (pc_name (make_struct_from_command msg)) of
           None \<Rightarrow> (Inr (), s) | Some c \<Rightarrow> execeuteOnServer env (snd (fromMessage c msg)) s)
      else if get_type msg = CipherMessage then deliver_cipher_message env (sc_fd s) msg s
      else if get_type msg \<in> {FileStart, FileChunk, FileEnd} then relay_file_message msg s
      else (Inr (), s))"

lemma server_registry_lookup:
  "server_registry n = (if n \<in> set [''exit'', ''login'', ''room'', ''send'', ''join'', ''getpub'', ''help'', ''sendfile'']
     then create n else None)"
  unfolding server_registry_def by (rule register_all_lookup) (simp add: create_def)

lemma server_registry_no_connect: "server_registry n = Some c \<Longrightarrow> \<not> is_ConnectCommand c \<and> blank c = c"
  by (auto simp: server_registry_lookup create_def split: if_splits)

lemma bus_dispatch_serve:
  assumes "registry_ok reg" "get_type msg = Command"
  obtains reg' where "server_bus_dispatch env msg (reg, ctx) = (fst (serve env msg ctx), (reg', snd (serve env msg ctx)))"
    "registry_ok reg'"
proof (cases "find_command reg (pc_name (make_struct_from_command msg))")
  case None
  then have "server_registry (pc_name (make_struct_from_command msg)) = None" using registry_like_None [OF assms(1)] by simp
  with None that [of reg] assms show ?thesis by (simp add: server_bus_dispatch_def serve_def)
next
  case (Some c)
  let ?n = "pc_name (make_struct_from_command msg)"
  obtain d where d: "server_registry ?n = Some d" "fromMessage c msg = fromMessage d msg"
    using registry_like_fromMessage [OF assms(1) Some] server_registry_no_connect by metis
  then have ok: "fst (fromMessage c msg) = Inr ()"
    using server_registry_no_connect [OF d(1)] by (cases d) auto
  let ?c' = "snd (fromMessage c msg)"
  have "registry_ok (reg(?n \<mapsto> ?c'))" by (rule registry_like_update [OF assms(1) Some]) simp
  moreover have "server_bus_dispatch env msg (reg, ctx) =
      (fst (serve env msg ctx), (reg(?n \<mapsto> ?c'), snd (serve env msg ctx)))"
    using Some d ok assms(2) by (cases "fromMessage d msg") (simp add: server_bus_dispatch_def serve_def Let_def split_def)
  ultimately show ?thesis using that by blast
qed

lemma only_exceptions_serve: "only_exceptions (serve env msg s)"
  using only_exceptions_command only_exceptions_cipher only_exceptions_relay
  by (auto simp: serve_def only_exceptions_def split: option.splits)

lemma server_inv_serve: "server_inv s \<Longrightarrow> server_inv (snd (serve env msg s))"
  by (auto simp: serve_def server_inv_command server_inv_cipher server_inv_relay split: option.splits)

lemma handlers_of_update: "handlers_of reg t = Some h \<Longrightarrow> (\<And>r. h \<noteq> ServerCommandHandler r) \<Longrightarrow> (handlers_of reg)(t \<mapsto> h) = handlers_of reg"
  by (rule ext) simp

lemma handleMessage_serve:
  assumes "registry_ok reg" "handlers_of reg (get_type msg) = Some h"
  obtains h' reg' where "handleMessage env msg (h, ctx) = (fst (serve env msg ctx), h', snd (serve env msg ctx))"
    "(handlers_of reg)(get_type msg \<mapsto> h') = handlers_of reg'" "registry_ok reg'"
proof (cases "get_type msg = Command")
  case True
  with assms(2) have h: "h = ServerCommandHandler reg" by (simp add: handlers_of_def)
  obtain reg' where r: "server_bus_dispatch env msg (reg, ctx) = (fst (serve env msg ctx), (reg', snd (serve env msg ctx)))"
    "registry_ok reg'" by (rule bus_dispatch_serve [OF assms(1) True])
  show ?thesis
    by (rule that [of "ServerCommandHandler reg'" reg']) (use r True h in \<open>auto simp: handlers_of_def\<close>)
next
  case False
  then have "handleMessage env msg (h, ctx) = (fst (serve env msg ctx), h, snd (serve env msg ctx))"
    using assms(2) by (auto simp: handlers_of_def serve_def split: if_splits prod.splits)
  moreover have "(handlers_of reg)(get_type msg \<mapsto> h) = handlers_of reg"
    using assms(2) False by (intro handlers_of_update) (auto simp: handlers_of_def split: if_splits)
  ultimately show ?thesis using that assms(1) by blast
qed

lemma dispatch_serve:
  assumes "ms_inv ms"
  obtains b ms' where "server_dispatch env msg ms = (Inr b, ms')" "ms_context ms' = snd (serve env msg (ms_context ms))" "ms_inv ms'"
proof -
  obtain reg where reg: "ms_handlers ms = handlers_of reg" "registry_ok reg" and i: "server_inv (ms_context ms)"
    using assms by (auto simp: ms_inv_def)
  show ?thesis
  proof (cases "handlers_of reg (get_type msg)")
    case None
    then have "serve env msg (ms_context ms) = (Inr (), ms_context ms)"
      by (auto simp: handlers_of_def serve_def split: if_splits)
    with None reg assms that [of False ms] show ?thesis by (simp add: server_dispatch_def)
  next
    case (Some h)
    obtain h' reg' where h: "handleMessage env msg (h, ms_context ms) =
        (fst (serve env msg (ms_context ms)), h', snd (serve env msg (ms_context ms)))"
        "(handlers_of reg)(get_type msg \<mapsto> h') = handlers_of reg'" "registry_ok reg'"
      by (rule handleMessage_serve [OF reg(2) Some])
    let ?ms = "ms\<lparr>ms_handlers := (ms_handlers ms)(get_type msg \<mapsto> h'), ms_context := snd (serve env msg (ms_context ms))\<rparr>"
    have "ms_inv ?ms" using reg h i server_inv_serve [OF i] by (auto simp: ms_inv_def)
    moreover have "\<exists>b. server_dispatch env msg ms = (Inr b, ?ms)"
      using Some reg h only_exceptions_serve [of env msg "ms_context ms"]
      by (cases "fst (serve env msg (ms_context ms))")
        (auto simp: server_dispatch_def try_catch_def handle_with_def only_exceptions_def ret_def)
    ultimately show ?thesis using that by fastforce
  qed
qed

section \<open>Reachable states\<close>

text \<open>
  The events of the transport: a frame arrives on a connection, or a connection is lost. Each event has its
  own clock value and its own traversal order.
\<close>

inductive server_step :: "MessagingServer \<Rightarrow> MessagingServer \<Rightarrow> bool" where
  frame_received: "on_tcp_data_received env fd raw ms = (Inr (), ms') \<Longrightarrow> server_step ms ms'"
| connection_lost: "on_tcp_disconnected env fd ms = (Inr (), ms') \<Longrightarrow> server_step ms ms'"

lemma ms_inv_ctor: "ms_inv MessagingServer_ctor"
proof -
  have "registry_ok server_registry"
    by (rule registry_like_refl) (use server_registry_no_connect in blast)
  moreover have "ms_handlers MessagingServer_ctor = handlers_of server_registry"
    by (rule ext) (simp add: MessagingServer_ctor_def server_registerHandler_def handlers_of_def)
  ultimately show ?thesis using server_inv_ctor
    by (auto simp: ms_inv_def) (simp add: MessagingServer_ctor_def server_registerHandler_def)
qed

lemma ms_inv_set_fd: "ms_inv ms \<Longrightarrow> ms_inv (set_current_fd fd ms)"
  by (simp add: ms_inv_def set_current_fd_def)

lemma on_tcp_message:
  assumes "ms_inv ms" "deserialize raw = Inr msg"
  obtains ms' where "on_tcp_data_received env fd raw ms = (Inr (), ms')" "ms_inv ms'"
    "ms_context ms' = snd (serve env msg ((ms_context ms)\<lparr>sc_fd := fd\<rparr>))"
proof -
  obtain b ms' where "server_dispatch env msg (set_current_fd fd ms) = (Inr b, ms')" "ms_inv ms'"
      "ms_context ms' = snd (serve env msg (ms_context (set_current_fd fd ms)))"
    using dispatch_serve [OF ms_inv_set_fd [OF assms(1)], of env msg fd] by metis
  with that assms show ?thesis
    by (simp add: on_tcp_data_received_def andThen_def ret_def set_current_fd_def)
qed

lemma on_tcp_lost:
  assumes "ms_inv ms"
  obtains ms' where "on_tcp_disconnected env fd ms = (Inr (), ms')" "ms_inv ms'"
    "ms_context ms' = snd (serve env (built (se_now env) [] [[0xFE]] Command) ((ms_context ms)\<lparr>sc_fd := fd\<rparr>))"
proof -
  let ?msg = "built (se_now env) [] [[0xFE]] Command"
  obtain b ms' where "server_dispatch env ?msg (set_current_fd fd ms) = (Inr b, ms')" "ms_inv ms'"
      "ms_context ms' = snd (serve env ?msg (ms_context (set_current_fd fd ms)))"
    using dispatch_serve [OF ms_inv_set_fd [OF assms(1)], of env ?msg fd] by metis
  moreover have "Message_ctor (se_now env) [] [[0xFE]] Command = Inr ?msg"
    by (rule Message_ctor_fits) (simp add: fits_def)
  ultimately show ?thesis using that
    by (simp add: on_tcp_disconnected_def andThen_def ret_def Let_def set_current_fd_def)
qed

lemma server_step_inv: "server_step ms ms' \<Longrightarrow> ms_inv ms \<Longrightarrow> ms_inv ms'"
proof (induction rule: server_step.induct)
  case (frame_received env fd raw ms ms')
  then obtain msg where "deserialize raw = Inr msg"
    by (auto simp: on_tcp_data_received_def split: sum.splits)
  with frame_received on_tcp_message [of ms raw msg env fd] show ?case by auto
next
  case (connection_lost env fd ms ms')
  with on_tcp_lost [of ms env fd] show ?case by auto
qed

lemma reachable_inv: "server_step\<^sup>*\<^sup>* MessagingServer_ctor ms \<Longrightarrow> ms_inv ms"
  by (induction rule: rtranclp_induct) (auto simp: ms_inv_ctor server_step_inv)

text \<open>
  C10: whatever frames arrive and whatever connections are lost, in any order, the server's tables agree:
  a connection is bound to a user name exactly when that name is bound to the connection, the registered
  users are exactly the connected ones, and every member of every chat is a registered user.
\<close>

theorem server_tables_agree:
  assumes "server_step\<^sup>*\<^sup>* MessagingServer_ctor ms"
  shows "(\<forall>fd u. fd_to_name (sc_sessions (ms_context ms)) fd = Some u \<longleftrightarrow>
        name_to_fd (sc_sessions (ms_context ms)) u = Some fd) \<and>
    dom (sc_users (ms_context ms)) = dom (name_to_fd (sc_sessions (ms_context ms))) \<and>
    (\<forall>i c. sc_chats (ms_context ms) i = Some c \<longrightarrow> chat_members c \<subseteq> dom (sc_users (ms_context ms)))"
  using reachable_inv [OF assms] unfolding ms_inv_def server_inv_def sessions_inv_def chats_ok_def by blast

definition sample_env :: server_env where
  "sample_env = \<lparr>se_now = 0, se_iter = (\<lambda>_. [''a''])\<rparr>"

lemma sample_login_fits: "fits [[2], [97], [7], [8], [9]] [9]"
  by (simp add: fits_def)

lemma sample_login_reachable:
  obtains ms where "server_step\<^sup>*\<^sup>* MessagingServer_ctor ms" "fd_to_name (sc_sessions (ms_context ms)) 5 = Some ''a''"
proof -
  have d: "deserialize (serialize (built 0 [9] [[2], [97], [7], [8], [9]] Command)) =
      Inr (built 0 [9] [[2], [97], [7], [8], [9]] Command)"
    by (rule deserialize_built_exact [OF sample_login_fits]) simp
  obtain ms where ms: "on_tcp_data_received sample_env 5 (serialize (built 0 [9] [[2], [97], [7], [8], [9]] Command))
      MessagingServer_ctor = (Inr (), ms)"
    "ms_context ms = snd (serve sample_env (built 0 [9] [[2], [97], [7], [8], [9]] Command)
      ((ms_context MessagingServer_ctor)\<lparr>sc_fd := 5\<rparr>))"
    by (rule on_tcp_message [OF ms_inv_ctor d])
  have "make_struct_from_command (built 0 [9] [[2], [97], [7], [8], [9]] Command) =
      \<lparr>pc_name = ''login'', pc_args = [[97], [7], [8], [9]]\<rparr>"
    using make_struct_built [of 0 "[9]" "''login''" "[[97], [7], [8], [9]]" Command]
    by (simp add: command_type_byte_def command_types_map_def)
  moreover have "ms_context MessagingServer_ctor = ServerContext_ctor"
    by (simp add: MessagingServer_ctor_def server_registerHandler_def)
  moreover have "to_string [97] = ''a''" using to_string_to_bytes [of "''a''"] by (simp add: to_bytes_def byte_of_char_def)
  ultimately have "fd_to_name (sc_sessions (ms_context ms)) 5 = Some ''a''"
    by (simp add: ms(2) serve_def server_registry_lookup create_def login_def register_user_cases send_text_cases
        ServerContext_ctor_def SessionManager_ctor_def get_username_def bind_def Let_def split: sum.splits)
  moreover have "server_step MessagingServer_ctor ms" using ms(1) by (rule frame_received)
  ultimately show ?thesis using that by blast
qed

theorem server_tables_agree_witness:
  "\<exists>ms. server_step\<^sup>*\<^sup>* MessagingServer_ctor ms \<and> name_to_fd (sc_sessions (ms_context ms)) ''a'' = Some 5"
proof -
  obtain ms where "server_step\<^sup>*\<^sup>* MessagingServer_ctor ms" "fd_to_name (sc_sessions (ms_context ms)) 5 = Some ''a''"
    by (rule sample_login_reachable)
  then show ?thesis using server_tables_agree [of ms] by blast
qed

text \<open>
  The server handles every well-formed frame. From a state with consistent tables, a frame that decodes
  is handled to the end: no exception and no undefined behaviour leaves the callback, the tables stay
  consistent, and the services end up as the direct function \<open>serve\<close> says. A frame that does not decode
  makes the callback throw and leaves the server as it was.
\<close>

theorem on_tcp_data_received_outcome:
  assumes "ms_inv ms"
  shows "case deserialize raw of
      Inr msg \<Rightarrow> \<exists>ms'. on_tcp_data_received env fd raw ms = (Inr (), ms') \<and> ms_inv ms' \<and>
        ms_context ms' = snd (serve env msg ((ms_context ms)\<lparr>sc_fd := fd\<rparr>))
    | Inl e \<Rightarrow> on_tcp_data_received env fd raw ms = (Inl e, ms) \<and> is_exception e"
proof (cases "deserialize raw")
  case (Inl e)
  then show ?thesis using no_undefined_deserialize [of raw] by (simp add: on_tcp_data_received_def no_undefined_def)
next
  case (Inr msg)
  with on_tcp_message [OF assms Inr, of env fd] show ?thesis by auto
qed

theorem on_tcp_data_received_outcome_witness:
  "on_tcp_data_received sample_env 5 [1, 2, 3] MessagingServer_ctor =
    (Inl (RuntimeError ''Malformed message: too short''), MessagingServer_ctor)"
  using on_tcp_data_received_outcome [OF ms_inv_ctor, where raw = "[1, 2, 3]" and env = sample_env and fd = 5] by (simp add: deserialize_def)

section \<open>Requests\<close>

text \<open>
  The requests below are the bytes a client sends: a command message of the given type with its
  arguments, or another kind of message. \<open>serves\<close> says that the server handles the bytes to the end,
  with consistent tables before and after, and gives the context it reaches.
\<close>

definition serves :: "server_env \<Rightarrow> int \<Rightarrow> bytes \<Rightarrow> MessagingServer \<Rightarrow> ServerContext \<Rightarrow> bool" where
  "serves env fd raw ms ctx \<longleftrightarrow> (\<exists>ms'. on_tcp_data_received env fd raw ms = (Inr (), ms') \<and> ms_inv ms' \<and> ms_context ms' = ctx)"

definition request :: "CommandType \<Rightarrow> bytes list \<Rightarrow> bytes \<Rightarrow> bytes" where
  "request ct args payload = serialize (built 0 payload ([byte_of_CommandType ct] # args) Command)"

lemma serves_built:
  assumes "ms_inv ms" "fits metas p" "canonical_type t"
  shows "serves env fd (serialize (built now p metas t)) ms (snd (serve env (built 0 p metas t) ((ms_context ms)\<lparr>sc_fd := fd\<rparr>)))"
  using on_tcp_message [OF assms(1) deserialize_built_exact [OF assms(2, 3), of now], of env fd]
  unfolding serves_def by blast

lemma make_struct_name:
  "pc_name (make_struct_from_command (built now p ([b] # args) t)) =
    (case command_names_map (CommandType_of_byte b) of Some n \<Rightarrow> n | None \<Rightarrow> ''unknown'')"
  by (simp add: make_struct_from_command_def)

lemma serve_command:
  assumes "command_names_map ct = Some n" "server_registry n = Some c"
  shows "serve env (built now p ([byte_of_CommandType ct] # args) Command) s =
    execeuteOnServer env (snd (fromMessage c (built now p ([byte_of_CommandType ct] # args) Command))) s"
proof -
  have "CommandType_of_byte (byte_of_CommandType ct) = ct"
    using assms(1) by (auto simp: command_names_map_def CommandType_of_byte_def split: if_splits)
  with assms show ?thesis by (simp add: serve_def make_struct_name)
qed

lemma serves_request:
  assumes "ms_inv ms" "fits ([byte_of_CommandType ct] # args) p" "command_names_map ct = Some n" "server_registry n = Some c"
  shows "serves env fd (request ct args p) ms
    (snd (execeuteOnServer env (snd (fromMessage c (built 0 p ([byte_of_CommandType ct] # args) Command)))
      ((ms_context ms)\<lparr>sc_fd := fd\<rparr>)))"
  using serves_built [OF assms(1, 2), of Command env fd 0] serve_command [OF assms(3, 4)]
  by (simp add: request_def)

lemma server_command_objects:
  "command_names_map LOGIN = Some ''login''" "server_registry ''login'' = Some (LoginCommand [] [] [] [])"
  "command_names_map JOIN = Some ''join''" "server_registry ''join'' = Some (JoinCommand [])"
  "command_names_map MAKE_ROOM = Some ''room''" "server_registry ''room'' = Some (MakeRoomCommand [])"
  "command_names_map SEND = Some ''send''" "server_registry ''send'' = Some (SendGroupMessageCommand [] [])"
  "command_names_map GET_PUBKEY = Some ''getpub''" "server_registry ''getpub'' = Some (GetPubkeyCommand [])"
  "command_names_map EXIT = Some ''exit''" "server_registry ''exit'' = Some ExitCommand"
  by (simp_all add: command_names_map_def server_registry_lookup create_def)

text \<open>The server's text replies are short enough for a message when the name they quote is.\<close>

lemma fits_text: "length s < 4294967289 \<Longrightarrow> fits [] (to_bytes s)"
  by (simp add: fits_def)

lemma send_text_ok:
  "length str < 4294967289 \<Longrightarrow>
   send_text env fd str s = (Inr (), s\<lparr>sc_sent := sc_sent s @ [(fd, serialize (built 0 (to_bytes str) [] Text))]\<rparr>)"
  using serialize_built_now [of "se_now env" "to_bytes str" "[]" Text] fits_text [of str]
  by (simp add: send_text_cases)

definition text_frame :: "string \<Rightarrow> bytes" where
  "text_frame str = serialize (built 0 (to_bytes str) [] Text)"

lemma fits_meta_length: "fits ms p \<Longrightarrow> m \<in> set ms \<Longrightarrow> length m < 65536"
  by (simp add: fits_def)

subsection \<open>Login\<close>

definition new_user :: "string \<Rightarrow> bytes \<Rightarrow> bytes \<Rightarrow> bytes \<Rightarrow> User" where
  "new_user u dh ik sig = \<lparr>user_id = [], user_username = u, user_publicDHKey = dh, user_publicIdentityKey = ik,
     user_signature = sig, user_status = Offline, user_chat_ids = []\<rparr>"

text \<open>
  Login. A connection that is already logged in gets an error and nothing changes; a name that is taken
  gets the reply that no public key was set and nothing changes; otherwise the user is registered with
  exactly the keys sent, the connection and the name are bound to each other, and the user is greeted.
\<close>

theorem login_outcome:
  assumes "ms_inv ms" "fits ([byte_of_CommandType LOGIN] # [to_bytes u, dh, ik, sig]) p"
  shows "serves env fd (request LOGIN [to_bytes u, dh, ik, sig] p) ms
    (let ctx = ms_context ms in
     if fd_to_name (sc_sessions ctx) fd \<noteq> None
     then ctx\<lparr>sc_fd := fd, sc_sent := sc_sent ctx @ [(fd, YOU_ARE_LOGGED_IN)]\<rparr>
     else if u \<in> dom (sc_users ctx)
     then ctx\<lparr>sc_fd := fd, sc_sent := sc_sent ctx @ [(fd, PUBLIC_KEY_HAS_NOT_SET)]\<rparr>
     else ctx\<lparr>sc_fd := fd, sc_users := (sc_users ctx)(u \<mapsto> new_user u dh ik sig),
              sc_sessions := bind (sc_sessions ctx) fd u,
              sc_sent := sc_sent ctx @ [(fd, text_frame (''Hello, '' @ u @ ''!''))]\<rparr>)"
proof -
  have len: "length u < 65536" using fits_meta_length [OF assms(2), of "to_bytes u"] by simp
  show ?thesis
    using serves_request [OF assms server_command_objects(1, 2), of env fd] len
    by (auto simp: login_def register_user_cases send_text_ok text_frame_def new_user_def get_username_def
        Let_def split: option.splits if_splits)
qed

lemma sample_login_request_fits: "fits ([byte_of_CommandType LOGIN] # [to_bytes ''a'', [7], [8], [9]]) [9]"
  by (simp add: fits_def)

lemma ctor_context: "ms_context MessagingServer_ctor = ServerContext_ctor"
  by (simp add: MessagingServer_ctor_def server_registerHandler_def)

theorem login_outcome_witness:
  "serves sample_env 5 (request LOGIN [to_bytes ''a'', [7], [8], [9]] [9]) MessagingServer_ctor
    (ServerContext_ctor\<lparr>sc_fd := 5, sc_users := [''a'' \<mapsto> new_user ''a'' [7] [8] [9]],
       sc_sessions := bind SessionManager_ctor 5 ''a'', sc_sent := [(5, text_frame ''Hello, a!'')]\<rparr>)"
  using login_outcome [OF ms_inv_ctor sample_login_request_fits, of sample_env 5]
  by (simp add: ctor_context ServerContext_ctor_def) (simp add: SessionManager_ctor_def)


subsection \<open>Rooms\<close>

text \<open>
  Creating a room. An anonymous connection, an empty name and a name in use each get their error and
  nothing else changes; otherwise the room exists with the creator as its only member.
\<close>

theorem create_room_outcome:
  assumes "ms_inv ms" "fits ([byte_of_CommandType MAKE_ROOM] # [to_bytes cname]) p"
  shows "serves env fd (request MAKE_ROOM [to_bytes cname] p) ms
    (let ctx = (ms_context ms)\<lparr>sc_fd := fd\<rparr>; reply = (\<lambda>c r. c\<lparr>sc_sent := sc_sent c @ [(fd, r)]\<rparr>) in
     case fd_to_name (sc_sessions ctx) fd of
       None \<Rightarrow> reply ctx YOU_NEED_TO_LOGIN
     | Some u \<Rightarrow>
         if cname = [] then reply ctx EMPTY_CHAT_NAME
         else if cname \<in> dom (sc_chats ctx) then reply ctx CHAT_ALREADY_EXISTS
         else reply (ctx\<lparr>sc_chats := (sc_chats ctx)(cname \<mapsto>
                \<lparr>chat_id = [], chat_name = cname, chat_type = Group, chat_members = {u}, chat_messages = []\<rparr>)\<rparr>)
                (text_frame (''Room '' @ cname @ '' was created!'')))"
proof -
  have len: "length cname < 65536" using fits_meta_length [OF assms(2), of "to_bytes cname"] by simp
  show ?thesis
    using serves_request [OF assms server_command_objects(5, 6), of env fd] len
    by (auto simp: create_room_def create_chat_cases send_text_ok text_frame_def get_username_def Let_def
        split: option.splits if_splits)
qed

lemma sample_room_fits: "fits ([byte_of_CommandType MAKE_ROOM] # [to_bytes ''dev'']) []"
  by (simp add: fits_def)

theorem create_room_outcome_witness:
  "serves sample_env 5 (request MAKE_ROOM [to_bytes ''dev''] []) MessagingServer_ctor
    (ServerContext_ctor\<lparr>sc_fd := 5, sc_sent := [(5, YOU_NEED_TO_LOGIN)]\<rparr>)"
  using create_room_outcome [OF ms_inv_ctor sample_room_fits, of sample_env 5]
  by (simp add: ctor_context ServerContext_ctor_def) (simp add: SessionManager_ctor_def)

text \<open>
  Joining a room. An anonymous connection, an empty name, an unknown room and a user who is a member already
  each get their error and nothing else changes; otherwise the user is added to the room's members.
\<close>

theorem join_room_outcome:
  assumes "ms_inv ms" "fits ([byte_of_CommandType JOIN] # [to_bytes cname]) p"
  shows "serves env fd (request JOIN [to_bytes cname] p) ms
    (let ctx = (ms_context ms)\<lparr>sc_fd := fd\<rparr>; reply = (\<lambda>c r. c\<lparr>sc_sent := sc_sent c @ [(fd, r)]\<rparr>) in
     case fd_to_name (sc_sessions ctx) fd of
       None \<Rightarrow> reply ctx YOU_NEED_TO_LOGIN
     | Some u \<Rightarrow>
         if cname = [] then reply ctx EMPTY_CHAT_NAME
         else (case sc_chats ctx cname of
             None \<Rightarrow> reply ctx CHAT_NOT_FOUND
           | Some c \<Rightarrow> if u \<in> chat_members c then reply ctx YOU_ARE_ALREADY_MEMBER
               else reply (ctx\<lparr>sc_chats := (sc_chats ctx)(cname \<mapsto> c\<lparr>chat_members := insert u (chat_members c)\<rparr>)\<rparr>)
                      (text_frame (''You joined the room '' @ cname))))"
proof -
  have len: "length cname < 65536" using fits_meta_length [OF assms(2), of "to_bytes cname"] by simp
  have g: "sc_chats (ms_context ms) cname = Some c \<Longrightarrow> chat_type c = Group" for c
    using assms(1) by (auto simp: ms_inv_def server_inv_def chats_ok_def)
  show ?thesis
    using serves_request [OF assms server_command_objects(3, 4), of env fd] len g
    by (auto simp: join_room_def add_member_cases send_text_ok text_frame_def get_username_def Let_def
        split: option.splits if_splits)
qed

lemma sample_join_fits: "fits ([byte_of_CommandType JOIN] # [to_bytes ''dev'']) []"
  by (simp add: fits_def)

theorem join_room_outcome_witness:
  "serves sample_env 5 (request JOIN [to_bytes ''dev''] []) MessagingServer_ctor
    (ServerContext_ctor\<lparr>sc_fd := 5, sc_sent := [(5, YOU_NEED_TO_LOGIN)]\<rparr>)"
  using join_room_outcome [OF ms_inv_ctor sample_join_fits, of sample_env 5]
  by (simp add: ctor_context ServerContext_ctor_def) (simp add: SessionManager_ctor_def)


subsection \<open>Group messages\<close>

lemma members_online:
  assumes "server_inv s" "sc_chats s i = Some c" "u \<in> chat_members c"
  shows "name_to_fd (sc_sessions s) u \<noteq> None"
  using chats_okD [OF server_inv_chats_ok [OF assms(1)] assms(2)] assms(1, 3) unfolding server_inv_def by blast

lemma member_fds_distinct:
  assumes "server_inv s" "distinct us" "list_all (\<lambda>u. name_to_fd (sc_sessions s) u \<noteq> None) us"
  shows "distinct (map (\<lambda>u. the (name_to_fd (sc_sessions s) u)) us)"
proof -
  have "inj_on (\<lambda>u. the (name_to_fd (sc_sessions s) u)) (set us)"
  proof (rule inj_onI)
    fix x y
    assume "x \<in> set us" "y \<in> set us" and e: "the (name_to_fd (sc_sessions s) x) = the (name_to_fd (sc_sessions s) y)"
    then obtain f g where fg: "name_to_fd (sc_sessions s) x = Some f" "name_to_fd (sc_sessions s) y = Some g"
      using assms(3) unfolding list_all_iff by blast
    with assms(1) have "fd_to_name (sc_sessions s) f = Some x" "fd_to_name (sc_sessions s) g = Some y"
      by (auto simp: server_inv_def sessions_inv_def)
    with e fg show "x = y" by simp
  qed
  with assms(2) show ?thesis by (simp add: distinct_map)
qed

definition delivered :: "ServerContext \<Rightarrow> string list \<Rightarrow> bytes \<Rightarrow> (int \<times> bytes) list" where
  "delivered s us frame = map (\<lambda>u. (the (name_to_fd (sc_sessions s) u), frame)) us"

lemma group_delivery:
  assumes i: "ms_inv ms" and f: "fits ([byte_of_CommandType SEND] # [to_bytes cname]) p"
    and u: "fd_to_name (sc_sessions (ms_context ms)) fd = Some u"
    and c: "sc_chats (ms_context ms) cname = Some c" "u \<in> chat_members c"
    and it: "set (se_iter env (chat_members c)) = chat_members c"
  shows "serves env fd (request SEND [to_bytes cname] p) ms
    ((ms_context ms)\<lparr>sc_fd := fd,
       sc_chats := (sc_chats (ms_context ms))(cname \<mapsto> c\<lparr>chat_messages := chat_messages c @ [built (se_now env) p [] Text]\<rparr>),
       sc_sent := sc_sent (ms_context ms) @
         delivered (ms_context ms) (se_iter env (chat_members c)) (serialize (built 0 p [] Text))\<rparr>)"
proof -
  have p: "fits [] p" using f by (simp add: fits_def)
  have "server_inv (ms_context ms)" using i by (simp add: ms_inv_def)
  then have on: "filter (\<lambda>u. name_to_fd (sc_sessions (ms_context ms)) u \<noteq> None) (se_iter env (chat_members c)) = se_iter env (chat_members c)"
    using members_online [OF _ c(1)] it by (intro filter_True) auto
  show ?thesis
    using serves_request [OF i f server_command_objects(7, 8), of env fd] u c on p serialize_built_now [of "se_now env" p "[]" Text]
    by (simp add: action_simps send_group_message_def post_message_cases get_username_def send_to_members_eq delivered_def Let_def)
qed

text \<open>
  Group delivery. When a member of a chat sends a message to it, the server sends the same text frame once
  to the connection of every member of the chat, the sender included, and to no other connection; the message
  is appended to the chat's history and nothing else changes.
\<close>

theorem group_message_delivery:
  assumes "ms_inv ms" "fits ([byte_of_CommandType SEND] # [to_bytes cname]) p"
    and "fd_to_name (sc_sessions (ms_context ms)) fd = Some u"
    and "sc_chats (ms_context ms) cname = Some c" "u \<in> chat_members c"
    and "set (se_iter env (chat_members c)) = chat_members c" "distinct (se_iter env (chat_members c))"
  shows "\<exists>ctx out. serves env fd (request SEND [to_bytes cname] p) ms ctx \<and>
    sc_sent ctx = sc_sent (ms_context ms) @ out \<and> distinct (map fst out) \<and>
    set out = {(fd', serialize (built 0 p [] Text)) | fd' v. v \<in> chat_members c \<and> name_to_fd (sc_sessions (ms_context ms)) v = Some fd'} \<and>
    sc_chats ctx = (sc_chats (ms_context ms))(cname \<mapsto> c\<lparr>chat_messages := chat_messages c @ [built (se_now env) p [] Text]\<rparr>) \<and>
    sc_users ctx = sc_users (ms_context ms) \<and> sc_sessions ctx = sc_sessions (ms_context ms)"
proof -
  let ?out = "delivered (ms_context ms) (se_iter env (chat_members c)) (serialize (built 0 p [] Text))"
  have i: "server_inv (ms_context ms)" using assms(1) by (simp add: ms_inv_def)
  have on: "list_all (\<lambda>u. name_to_fd (sc_sessions (ms_context ms)) u \<noteq> None) (se_iter env (chat_members c))"
    using members_online [OF i assms(4)] assms(6) by (auto simp: list_all_iff)
  have d: "distinct (map fst ?out)"
    using member_fds_distinct [OF i assms(7) on] by (simp add: delivered_def comp_def)
  have o: "set ?out = {(fd', serialize (built 0 p [] Text)) | fd' v. v \<in> chat_members c \<and> name_to_fd (sc_sessions (ms_context ms)) v = Some fd'}"
    using on assms(6) by (force simp: delivered_def list_all_iff)
  show ?thesis
    by (rule exI, rule exI [of _ ?out], rule conjI, rule group_delivery [OF assms(1-6)]) (simp add: d o)
qed

text \<open>A server with two users, one chat they are both in, and a third connection that is not logged in.\<close>

definition sample_chat :: Chat where
  "sample_chat = \<lparr>chat_id = [], chat_name = ''dev'', chat_type = Group, chat_members = {''a'', ''b''}, chat_messages = []\<rparr>"

definition sample_context :: ServerContext where
  "sample_context = \<lparr>sc_users = [''a'' \<mapsto> new_user ''a'' [1] [2] [3], ''b'' \<mapsto> new_user ''b'' [4] [5] [6]],
     sc_chats = [''dev'' \<mapsto> sample_chat],
     sc_sessions = \<lparr>fd_to_name = [5 \<mapsto> ''a'', 6 \<mapsto> ''b''], name_to_fd = [''a'' \<mapsto> 5, ''b'' \<mapsto> 6]\<rparr>, sc_fd = 0, sc_sent = []\<rparr>"

definition sample_server :: MessagingServer where
  "sample_server = MessagingServer_ctor\<lparr>ms_context := sample_context\<rparr>"

lemma sample_context_sel [simp]:
  "sc_sessions sample_context = \<lparr>fd_to_name = [5 \<mapsto> ''a'', 6 \<mapsto> ''b''], name_to_fd = [''a'' \<mapsto> 5, ''b'' \<mapsto> 6]\<rparr>"
  "sc_users sample_context = [''a'' \<mapsto> new_user ''a'' [1] [2] [3], ''b'' \<mapsto> new_user ''b'' [4] [5] [6]]"
  "sc_chats sample_context = [''dev'' \<mapsto> sample_chat]" "sc_sent sample_context = []"
  "ms_context sample_server = sample_context" "chat_members sample_chat = {''a'', ''b''}" "chat_type sample_chat = Group"
  by (simp_all add: sample_context_def sample_server_def sample_chat_def)

lemma sample_server_inv: "ms_inv sample_server"
proof -
  have "sessions_inv (sc_sessions sample_context)"
    by (auto simp: sessions_inv_def)
  then have "server_inv sample_context" by (auto simp: server_inv_def chats_ok_def)
  with ms_inv_ctor show ?thesis by (simp add: ms_inv_def) (simp add: sample_server_def)
qed

definition sample_env2 :: server_env where
  "sample_env2 = \<lparr>se_now = 0, se_iter = (\<lambda>S. if S = {''a'', ''b''} then [''b'', ''a''] else [])\<rparr>"

lemma sample_iter: "se_iter sample_env2 {''a'', ''b''} = [''b'', ''a'']"
  by (simp add: sample_env2_def)

lemma sample_send_fits: "fits ([byte_of_CommandType SEND] # [to_bytes ''dev'']) [104, 105]"
  by (simp add: fits_def)

lemma sample_member:
  "fd_to_name (sc_sessions (ms_context sample_server)) 5 = Some ''a''"
  "sc_chats (ms_context sample_server) ''dev'' = Some sample_chat" "''a'' \<in> chat_members sample_chat"
  "set (se_iter sample_env2 (chat_members sample_chat)) = chat_members sample_chat"
  "distinct (se_iter sample_env2 (chat_members sample_chat))"
  by (simp_all add: sample_iter) auto

theorem group_message_delivery_witness:
  "\<exists>ctx. serves sample_env2 5 (request SEND [to_bytes ''dev''] [104, 105]) sample_server ctx \<and>
    distinct (map fst (sc_sent ctx)) \<and>
    set (sc_sent ctx) = {(5, serialize (built 0 [104, 105] [] Text)), (6, serialize (built 0 [104, 105] [] Text))}"
proof -
  have e: "{(fd', F) | fd' v. v \<in> chat_members sample_chat \<and>
      name_to_fd (sc_sessions (ms_context sample_server)) v = Some fd'} = {(5, F), (6, F)}" for F :: bytes
  proof -
    have "v \<in> chat_members sample_chat \<and> name_to_fd (sc_sessions (ms_context sample_server)) v = Some fd' \<longleftrightarrow>
        v = ''a'' \<and> fd' = 5 \<or> v = ''b'' \<and> fd' = 6" for v fd'
      by (cases "v = ''a''"; cases "v = ''b''") (simp_all add: eq_commute [of _ fd'])
    then show ?thesis by (simp only:) blast
  qed
  show ?thesis
    using group_message_delivery [OF sample_server_inv sample_send_fits sample_member] unfolding e
    by (elim exE conjE) (rule exI, rule conjI, assumption, simp)
qed

text \<open>
  Group messages are refused to outsiders. An anonymous connection is told to log in, an unknown chat is
  reported, and a user who is not a member is told so; nobody else receives anything and neither the chat's
  history nor any table changes.
\<close>

theorem group_message_refused:
  assumes "ms_inv ms" "fits ([byte_of_CommandType SEND] # [to_bytes cname]) p"
    and "\<forall>u c. fd_to_name (sc_sessions (ms_context ms)) fd = Some u \<longrightarrow> sc_chats (ms_context ms) cname = Some c \<longrightarrow> u \<notin> chat_members c"
  shows "serves env fd (request SEND [to_bytes cname] p) ms
    ((ms_context ms)\<lparr>sc_fd := fd, sc_sent := sc_sent (ms_context ms) @
       [(fd, if fd_to_name (sc_sessions (ms_context ms)) fd = None then YOU_NEED_TO_LOGIN
             else if sc_chats (ms_context ms) cname = None then CHAT_NOT_FOUND else YOU_ARE_NOT_MEMBER)]\<rparr>)"
proof -
  have p: "fits [] p" using assms(2) by (simp add: fits_def)
  show ?thesis
    using serves_request [OF assms(1, 2) server_command_objects(7, 8), of env fd] assms(3) p
    by (auto simp: action_simps send_group_message_def post_message_cases get_username_def Let_def split: option.splits if_splits)
qed

lemma sample_outsider: "\<forall>u c. fd_to_name (sc_sessions (ms_context sample_server)) 7 = Some u \<longrightarrow>
    sc_chats (ms_context sample_server) ''dev'' = Some c \<longrightarrow> u \<notin> chat_members c"
  by simp

theorem group_message_refused_witness:
  "serves sample_env2 7 (request SEND [to_bytes ''dev''] [104, 105]) sample_server
    (sample_context\<lparr>sc_fd := 7, sc_sent := [(7, YOU_NEED_TO_LOGIN)]\<rparr>)"
  using group_message_refused [OF sample_server_inv sample_send_fits sample_outsider, of sample_env2] by simp


subsection \<open>Private messages and files\<close>

lemma serve_cipher: "serve env (built now p ms CipherMessage) s = deliver_cipher_message env (sc_fd s) (built now p ms CipherMessage) s"
  by (simp add: serve_def)

definition cipher_frame :: "bytes \<Rightarrow> bytes \<Rightarrow> bytes \<Rightarrow> bytes" where
  "cipher_frame recipient sender p = serialize (built 0 p [recipient, sender] CipherMessage)"

lemma cipher_served:
  assumes "ms_inv ms" "fits [to_bytes r, claimed] p"
    and "fits [to_bytes r, claimed, user_publicDHKey x, user_publicIdentityKey x, user_signature x] p"
    and "fd_to_name (sc_sessions (ms_context ms)) fd = Some u" "sc_users (ms_context ms) u = Some x"
  shows "serves env fd (cipher_frame (to_bytes r) claimed p) ms
    ((ms_context ms)\<lparr>sc_fd := fd, sc_sent := sc_sent (ms_context ms) @
       [case name_to_fd (sc_sessions (ms_context ms)) r of
          None \<Rightarrow> (fd, USER_NOT_FOUND)
        | Some rfd \<Rightarrow> (rfd, serialize (built 0 p
            [to_bytes r, claimed, user_publicDHKey x, user_publicIdentityKey x, user_signature x] CipherMessage))]\<rparr>)"
  using serves_built [OF assms(1, 2), of CipherMessage env fd 0] assms(3-5)
    serialize_built_now [of "se_now env" p "[to_bytes r, claimed, user_publicDHKey x, user_publicIdentityKey x, user_signature x]" CipherMessage]
  by (auto simp: cipher_frame_def serve_cipher deliver_cipher_message_def get_username_def get_fd_def find_user_def action_simps
      split: option.splits)

text \<open>
  Private delivery. From a logged-in connection, a cipher message for a connected recipient is sent to that
  recipient's connection only, with the keys and the signature the sender registered at login; a recipient who
  is not connected is reported to the sender. The name in the sender field is passed on as it came: the server
  does not compare it with the name the connection is logged in as.
\<close>

theorem cipher_delivery:
  assumes "ms_inv ms" "fits [to_bytes r, claimed] p"
    and "fits [to_bytes r, claimed, user_publicDHKey x, user_publicIdentityKey x, user_signature x] p"
    and "fd_to_name (sc_sessions (ms_context ms)) fd = Some u" "sc_users (ms_context ms) u = Some x"
  shows "serves env fd (cipher_frame (to_bytes r) claimed p) ms
    ((ms_context ms)\<lparr>sc_fd := fd, sc_sent := sc_sent (ms_context ms) @
       [case name_to_fd (sc_sessions (ms_context ms)) r of
          None \<Rightarrow> (fd, USER_NOT_FOUND)
        | Some rfd \<Rightarrow> (rfd, serialize (built 0 p
            [to_bytes r, claimed, user_publicDHKey x, user_publicIdentityKey x, user_signature x] CipherMessage))]\<rparr>)"
  by (rule cipher_served [OF assms])

theorem cipher_delivery_witness:
  "serves sample_env2 5 (cipher_frame (to_bytes ''b'') (to_bytes ''eve'') [9]) sample_server
    (sample_context\<lparr>sc_fd := 5, sc_sent := [(6, serialize (built 0 [9] [to_bytes ''b'', to_bytes ''eve'', [1], [2], [3]] CipherMessage))]\<rparr>)"
  using cipher_delivery [OF sample_server_inv, of "''b''" "to_bytes ''eve''" "[9]" "new_user ''a'' [1] [2] [3]" 5 "''a''" sample_env2]
  by (simp add: fits_def new_user_def)

lemma pubkey_served:
  assumes "ms_inv ms" "fits [[byte_of_CommandType GET_PUBKEY], to_bytes r] []" "r \<noteq> []" "sc_users (ms_context ms) r = Some x"
    and "fits [[byte_of_CommandType GET_PUBKEY], to_bytes r, user_publicIdentityKey x, user_signature x] (user_publicDHKey x)"
  shows "serves env fd (request GET_PUBKEY [to_bytes r] []) ms ((ms_context ms)\<lparr>sc_fd := fd, sc_sent := sc_sent (ms_context ms) @
    [(fd, serialize (built 0 (user_publicDHKey x) [[byte_of_CommandType GET_PUBKEY], to_bytes r, user_publicIdentityKey x, user_signature x] Response))]\<rparr>)"
  using serves_request [OF assms(1, 2) server_command_objects(9, 10), of env fd] assms(3-5)
    serialize_built_now [of "se_now env" "user_publicDHKey x" "[[byte_of_CommandType GET_PUBKEY], to_bytes r, user_publicIdentityKey x, user_signature x]" Response]
  by (simp add: send_pubkey_def find_user_def action_simps Let_def)

lemma anonymous_cipher:
  assumes "ms_inv ms" "fits metas p" "fd_to_name (sc_sessions (ms_context ms)) fd = None"
  shows "serves env fd (serialize (built 0 p metas CipherMessage)) ms
    ((ms_context ms)\<lparr>sc_fd := fd, sc_sent := sc_sent (ms_context ms) @ [(fd, YOU_NEED_TO_LOGIN)]\<rparr>)"
  using serves_built [OF assms(1, 2), of CipherMessage env fd 0] assms(3)
  by (simp add: serve_cipher deliver_cipher_message_def get_username_def)

lemma file_relayed:
  assumes "ms_inv ms" "fits (to_bytes r # metas) p" "t \<in> {FileStart, FileChunk, FileEnd}" "name_to_fd (sc_sessions (ms_context ms)) r = Some rfd"
  shows "serves env fd (serialize (built 0 p (to_bytes r # metas) t)) ms
    ((ms_context ms)\<lparr>sc_fd := fd, sc_sent := sc_sent (ms_context ms) @ [(rfd, serialize (built 0 p (to_bytes r # metas) t))]\<rparr>)"
proof -
  have t: "canonical_type t" "serve env (built 0 p (to_bytes r # metas) t) s = relay_file_message (built 0 p (to_bytes r # metas) t) s" for s
    using assms(3) by (auto simp: serve_def)
  show ?thesis
    using serves_built [OF assms(1, 2) t(1), of env fd 0] assms(4) by (simp add: t(2) relay_file_message_def recipient_from_def get_fd_def)
qed

text \<open>
  Files are relayed for anyone. A file message from a connection that is not logged in, for which a cipher
  message is refused, is forwarded unchanged to the recipient it names.
\<close>

theorem file_relay_anonymous:
  assumes "ms_inv ms" "fits (to_bytes r # metas) p" "t \<in> {FileStart, FileChunk, FileEnd}"
    and "fd_to_name (sc_sessions (ms_context ms)) fd = None" "name_to_fd (sc_sessions (ms_context ms)) r = Some rfd"
  shows "serves env fd (serialize (built 0 p (to_bytes r # metas) t)) ms
      ((ms_context ms)\<lparr>sc_fd := fd, sc_sent := sc_sent (ms_context ms) @ [(rfd, serialize (built 0 p (to_bytes r # metas) t))]\<rparr>) \<and>
    serves env fd (serialize (built 0 p (to_bytes r # metas) CipherMessage)) ms
      ((ms_context ms)\<lparr>sc_fd := fd, sc_sent := sc_sent (ms_context ms) @ [(fd, YOU_NEED_TO_LOGIN)]\<rparr>)"
  using file_relayed [OF assms(1-3, 5), of env fd] anonymous_cipher [OF assms(1, 2, 4), of env] by simp

theorem file_relay_anonymous_witness:
  "serves sample_env2 7 (serialize (built 0 [9] (to_bytes ''b'' # [[1]]) FileChunk)) sample_server
    (sample_context\<lparr>sc_fd := 7, sc_sent := [(6, serialize (built 0 [9] (to_bytes ''b'' # [[1]]) FileChunk))]\<rparr>)"
  using file_relay_anonymous [OF sample_server_inv, of "''b''" "[[1]]" "[9]" FileChunk 7 6 sample_env2]
  by (simp add: fits_def)


subsection \<open>Leaving\<close>

text \<open>
  Leaving cleans up. When a logged-in connection sends the exit command or is lost, its user is no longer
  registered, no longer bound to a connection and no longer a member of any chat; every other user, binding and
  membership stays.
\<close>

theorem exit_cleans_up:
  assumes "ms_inv ms" "fd_to_name (sc_sessions (ms_context ms)) fd = Some u"
  shows "\<exists>ms'. on_tcp_disconnected env fd ms = (Inr (), ms') \<and>
    serves env fd (request EXIT [] []) ms (ms_context ms') \<and>
    sc_users (ms_context ms') = (sc_users (ms_context ms))(u := None) \<and>
    fd_to_name (sc_sessions (ms_context ms')) = (fd_to_name (sc_sessions (ms_context ms)))(fd := None) \<and>
    name_to_fd (sc_sessions (ms_context ms')) = (name_to_fd (sc_sessions (ms_context ms)))(u := None) \<and>
    (\<forall>i. sc_chats (ms_context ms') i =
      map_option (\<lambda>c. c\<lparr>chat_members := chat_members c - {u}\<rparr>) (sc_chats (ms_context ms) i)) \<and>
    sc_sent (ms_context ms') = sc_sent (ms_context ms)"
proof -
  have f: "fits ([byte_of_CommandType EXIT] # []) []" by (simp add: fits_def)
  obtain ms' where ms': "on_tcp_disconnected env fd ms = (Inr (), ms')"
    "ms_context ms' = snd (serve env (built (se_now env) [] [[byte_of_CommandType EXIT]] Command) ((ms_context ms)\<lparr>sc_fd := fd\<rparr>))"
    using on_tcp_lost [OF assms(1), of env fd] by auto
  have ctx: "ms_context ms' = snd (exit_current_session ((ms_context ms)\<lparr>sc_fd := fd\<rparr>))"
    unfolding ms'(2) using serve_command [OF server_command_objects(11, 12), of env _ "[]" "[]"] by simp
  then have s: "serves env fd (request EXIT [] []) ms (ms_context ms')"
    using serves_request [OF assms(1) f server_command_objects(11, 12), of env fd] by simp
  have "sessions_inv (sc_sessions (ms_context ms))" "dom (sc_users (ms_context ms)) = dom (name_to_fd (sc_sessions (ms_context ms)))"
    using assms(1) by (simp_all add: ms_inv_def server_inv_def)
  then have "remove_user (sc_users (ms_context ms)) u = (sc_users (ms_context ms))(u := None)"
    by (auto simp: remove_user_def)
  with \<open>sessions_inv (sc_sessions (ms_context ms))\<close> ms'(1) s show ?thesis
    using assms(2) by (auto simp: ctx exit_current_session_def get_username_def lookup_simps)
qed

theorem exit_cleans_up_witness:
  "\<exists>ms'. on_tcp_disconnected sample_env2 5 sample_server = (Inr (), ms') \<and>
    sc_chats (ms_context ms') ''dev'' = Some (sample_chat\<lparr>chat_members := {''b''}\<rparr>) \<and> sc_users (ms_context ms') ''a'' = None"
proof -
  have "{''a'', ''b''} - {''a''} = {''b''}" by auto
  then show ?thesis
    using exit_cleans_up [OF sample_server_inv, of 5 "''a''" sample_env2] by auto
qed

end
