(* ===== verification/Framing.thy ===== *)
theory Framing
  imports Messenger_Prelude
begin

text \<open>
  Length-prefixed framing: \<open>FramerMessage\<close> of \<open>src/src/protocol/framing.cpp\<close>, the free
  function \<open>extract_complete_message\<close> of \<open>src/src/transport/transport.cpp\<close>, and the loop that
  drains a receive buffer frame by frame. The source copies a \<open>uint32_t\<close> to and from the buffer with
  \<open>memcpy\<close> on a little-endian host and converts it with \<open>htonl\<close>/\<open>ntohl\<close>; the model has the memory
  image and the byte swap as definitions. \<open>has_message_in_buffer\<close> adds \<open>4\<close> to the length in
  32-bit arithmetic, as written; \<open>extract_complete_message\<close> adds in \<open>size_t\<close>.

  The locale \<open>frame_codec\<close> states what a frame decoder promises and proves stream reassembly; the transports' decoder interprets
  it, and the framer is shown to do the same on every part of a stream of frames below \<open>2 ^ 32 - 4\<close> bytes.
\<close>

section \<open>Host memory and network order\<close>

definition mem_u32 :: "32 word \<Rightarrow> bytes" where
  "mem_u32 v = [ucast v, ucast (drop_bit 8 v), ucast (drop_bit 16 v), ucast (drop_bit 24 v)]"

definition u32_mem :: "byte \<Rightarrow> byte \<Rightarrow> byte \<Rightarrow> byte \<Rightarrow> 32 word" where
  "u32_mem m0 m1 m2 m3 = be32_word m3 m2 m1 m0"

definition htonl :: "32 word \<Rightarrow> 32 word" where
  "htonl v = be32_word (ucast v) (ucast (drop_bit 8 v)) (ucast (drop_bit 16 v)) (ucast (drop_bit 24 v))"

definition ntohl :: "32 word \<Rightarrow> 32 word" where
  "ntohl v = htonl v"

lemma mem_u32_htonl [codec_simps]: "mem_u32 (htonl v) = be32_bytes v"
  using be32_bytes_of_word [of "ucast v" "ucast (drop_bit 8 v)" "ucast (drop_bit 16 v)" "ucast (drop_bit 24 v)"]
  by (simp add: mem_u32_def htonl_def be32_bytes_def)

lemma ntohl_u32_mem [codec_simps]: "ntohl (u32_mem b0 b1 b2 b3) = be32_word b0 b1 b2 b3"
  using be32_bytes_of_word [of b3 b2 b1 b0]
  by (simp add: ntohl_def htonl_def u32_mem_def be32_bytes_def)


section \<open>FramerMessage\<close>

text \<open>\<open>memcpy(&len, buffer.data(), 4)\<close> followed by \<open>ntohl\<close>.\<close>

definition frame_length :: "bytes \<Rightarrow> 32 word" where
  "frame_length buffer = ntohl (u32_mem (buffer ! 0) (buffer ! 1) (buffer ! 2) (buffer ! 3))"

definition has_message_in_buffer :: "bytes \<Rightarrow> bool" where
  "has_message_in_buffer buffer =
     (if length buffer < 4 then False
      else length buffer \<ge> unat (4 + frame_length buffer))"

text \<open>
  The result is the message and what stays in the buffer. Reading the header of a shorter buffer,
  or constructing the range past the end, has no defined outcome.
\<close>

definition extract_message :: "bytes \<Rightarrow> (bytes \<times> bytes) cpp" where
  "extract_message buffer =
     (if length buffer < 4 then Inl (Undefined ''memcpy past the end of the buffer'')
      else let len = unat (frame_length buffer) in
        if 4 + len > length buffer then Inl (Undefined ''range past the end of the buffer'')
        else Inr (slice buffer 4 len, drop (4 + len) buffer))"

definition form_message :: "bytes \<Rightarrow> bytes \<Rightarrow> bytes" where
  "form_message data buffer = buffer @ mem_u32 (htonl (word_of_nat (length data))) @ data"

text \<open>\<open>extract_complete_message\<close> of the transports: \<open>None\<close> leaves the buffer as it is.\<close>

definition extract_complete_message :: "bytes \<Rightarrow> (bytes \<times> bytes) option" where
  "extract_complete_message buffer =
     (if length buffer < 4 then None
      else let len = unat (frame_length buffer) in
        if length buffer < 4 + len then None
        else Some (slice buffer 4 len, drop (4 + len) buffer))"

text \<open>
  The loop \<open>while (has_message_in_buffer(buf)) extract_message(buf)\<close> of the receivers, with fuel; what \<open>extract_message\<close> cannot
  give a meaning to ends it. \<open>read_all\<close> runs it after every read of a stream that arrives in pieces.
\<close>

fun framer_drain_fuel :: "nat \<Rightarrow> bytes \<Rightarrow> (bytes list \<times> bytes) cpp" where
  "framer_drain_fuel 0 buf = Inr ([], buf)"
| "framer_drain_fuel (Suc n) buf =
     (if \<not> has_message_in_buffer buf then Inr ([], buf)
      else bindr (extract_message buf) (\<lambda>(m, rest). bindr (framer_drain_fuel n rest) (\<lambda>(ms, left). Inr (m # ms, left))))"

definition framer_drain :: "bytes \<Rightarrow> (bytes list \<times> bytes) cpp" where
  "framer_drain buf = framer_drain_fuel (length buf) buf"

fun read_all :: "bytes \<Rightarrow> bytes list \<Rightarrow> (bytes list \<times> bytes) cpp" where
  "read_all buf [] = Inr ([], buf)"
| "read_all buf (piece # pieces) =
     bindr (framer_drain (buf @ piece)) (\<lambda>(ms, left). bindr (read_all left pieces) (\<lambda>(ms', left'). Inr (ms @ ms', left')))"


section \<open>Frame decoders\<close>

definition frame :: "bytes \<Rightarrow> bytes" where
  "frame data = form_message data []"

lemma frame_eq: "frame data = be32_bytes (word_of_nat (length data)) @ data"
  by (simp add: frame_def form_message_def mem_u32_htonl)

lemma form_message_eq: "form_message data buffer = buffer @ frame data"
  by (simp add: frame_def form_message_def)

lemma length_frame [simp]: "length (frame data) = 4 + length data"
  by (simp add: frame_eq)

lemma frame_length_be32 [codec_simps]: "frame_length (be32_bytes v @ rest) = v"
  unfolding frame_length_def ntohl_u32_mem by (simp add: be32_bytes_def be32_word_of_bytes)

lemma frame_length_append: "4 \<le> length buf \<Longrightarrow> frame_length (buf @ more) = frame_length buf"
  by (cases "buf = []") (auto simp: frame_length_def nth_append Suc_le_eq)

text \<open>
  The loop \<open>drain\<close> takes frames off the buffer until the decoder says there is none. Each frame
  removes at least its header, so a buffer of \<open>n\<close> bytes needs at most \<open>n\<close> steps; \<open>drain\<close> runs with
  that much fuel and the lemma \<open>drain_complete\<close> shows no frame is left when it stops.
\<close>

fun drain_fuel :: "(bytes \<Rightarrow> (bytes \<times> bytes) option) \<Rightarrow> nat \<Rightarrow> bytes \<Rightarrow> bytes list \<times> bytes" where
  "drain_fuel nxt 0 buf = ([], buf)"
| "drain_fuel nxt (Suc n) buf =
     (case nxt buf of None \<Rightarrow> ([], buf)
      | Some (m, rest) \<Rightarrow> (let (ms, left) = drain_fuel nxt n rest in (m # ms, left)))"

definition drain :: "(bytes \<Rightarrow> (bytes \<times> bytes) option) \<Rightarrow> bytes \<Rightarrow> bytes list \<times> bytes" where
  "drain nxt buf = drain_fuel nxt (length buf) buf"

locale frame_codec =
  fixes nxt :: "bytes \<Rightarrow> (bytes \<times> bytes) option"
    and ok :: "bytes \<Rightarrow> bool"
  assumes next_frame: "ok d \<Longrightarrow> nxt (frame d @ rest) = Some (d, rest)"
    and next_shrinks: "nxt buf = Some (d, rest) \<Longrightarrow> length rest < length buf"
    and next_prefix: "nxt buf = Some (d, rest) \<Longrightarrow> nxt (buf @ more) = Some (d, rest @ more)"
begin

lemma drain_fuel_enough:
  "length buf \<le> n \<Longrightarrow> drain_fuel nxt n buf = drain_fuel nxt (length buf) buf"
proof (induction n arbitrary: buf rule: less_induct)
  case (less n)
  show ?case
  proof (cases "nxt buf")
    case None
    then show ?thesis by (cases n; cases "length buf") auto
  next
    case (Some r)
    obtain d rest where r: "r = (d, rest)" by (cases r)
    from Some r have short: "length rest < length buf" by (simp add: next_shrinks)
    then obtain k where k: "length buf = Suc k" by (cases "length buf") auto
    obtain j where j: "n = Suc j" using less.prems k by (cases n) auto
    have "drain_fuel nxt j rest = drain_fuel nxt (length rest) rest"
      using less.IH [of j rest] short less.prems k j by simp
    moreover have "drain_fuel nxt k rest = drain_fuel nxt (length rest) rest"
      using less.IH [of k rest] short less.prems k j by simp
    ultimately show ?thesis using Some r k j by simp
  qed
qed

lemma drain_unfold:
  "drain nxt buf = (case nxt buf of None \<Rightarrow> ([], buf)
     | Some (m, rest) \<Rightarrow> (let (ms, left) = drain nxt rest in (m # ms, left)))"
proof (cases "nxt buf")
  case None
  then show ?thesis by (cases "length buf") (auto simp: drain_def)
next
  case (Some r)
  obtain d rest where r: "r = (d, rest)" by (cases r)
  from Some r have short: "length rest < length buf" by (simp add: next_shrinks)
  then obtain k where k: "length buf = Suc k" by (cases "length buf") auto
  have "drain_fuel nxt k rest = drain_fuel nxt (length rest) rest"
    using short k by (intro drain_fuel_enough) simp
  with Some r k show ?thesis by (simp add: drain_def)
qed

lemma drain_complete: "drain nxt buf = (ms, left) \<Longrightarrow> nxt left = None"
proof (induction "length buf" arbitrary: buf ms rule: less_induct)
  case less
  show ?case
  proof (cases "nxt buf")
    case None
    with less.prems show ?thesis by (simp add: drain_unfold [of buf])
  next
    case (Some r)
    obtain d rest where r: "r = (d, rest)" by (cases r)
    obtain ms' left' where d: "drain nxt rest = (ms', left')" by (cases "drain nxt rest")
    with less.prems Some r have "left' = left" by (simp add: drain_unfold [of buf])
    with less.hyps [of rest ms'] d Some r show ?thesis by (simp add: next_shrinks)
  qed
qed

lemma drain_frames:
  "\<forall>d\<in>set ds. ok d \<Longrightarrow> nxt left = None \<Longrightarrow> drain nxt (concat (map frame ds) @ left) = (ds, left)"
proof (induction ds)
  case Nil
  then show ?case by (simp add: drain_unfold [of left])
next
  case (Cons d ds)
  then show ?case by (simp add: next_frame drain_unfold [of "frame d @ concat (map frame ds) @ left"])
qed

text \<open>Receiving the stream in two pieces gives the same messages as receiving it at once.\<close>

lemma drain_append:
  "drain nxt a = (ms, left) \<Longrightarrow> drain nxt (a @ b) = (let (ms', left') = drain nxt (left @ b) in (ms @ ms', left'))"
proof (induction "length a" arbitrary: a ms rule: less_induct)
  case less
  show ?case
  proof (cases "nxt a")
    case None
    with less.prems show ?thesis by (simp add: drain_unfold [of a])
  next
    case (Some r)
    obtain d rest where r: "r = (d, rest)" by (cases r)
    obtain ms0 left0 where d: "drain nxt rest = (ms0, left0)" by (cases "drain nxt rest")
    with less.prems Some r have m: "ms = d # ms0" "left0 = left" by (simp_all add: drain_unfold [of a])
    have "drain nxt (rest @ b) = (let (ms', left') = drain nxt (left @ b) in (ms0 @ ms', left'))"
      using less.hyps [of rest ms0] Some r d m by (simp add: next_shrinks)
    moreover have "nxt (a @ b) = Some (d, rest @ b)" using Some r by (simp add: next_prefix)
    ultimately show ?thesis
      using m by (simp add: drain_unfold [of "a @ b"] split: prod.splits)
  qed
qed

end

text \<open>The decoder of the transports keeps the contract; the framer agrees with it as long as its 32-bit sum does not wrap.\<close>

lemma frame_length_frame: "length d < 4294967296 \<Longrightarrow> unat (frame_length (frame d @ rest)) = length d"
  by (simp add: frame_eq frame_length_be32 unat_of_length32)

lemma slice_frame: "slice (frame d @ rest) 4 (length d) = d"
  by (simp add: frame_eq slice_def)

interpretation complete: frame_codec extract_complete_message "\<lambda>d. length d < 4294967296"
proof
  fix d rest :: bytes
  assume d: "length d < 4294967296"
  show "extract_complete_message (frame d @ rest) = Some (d, rest)"
    using frame_length_frame [OF d, of rest] slice_frame [of d rest] by (simp add: extract_complete_message_def)
next
  fix buf d rest :: bytes
  assume "extract_complete_message buf = Some (d, rest)"
  then show "length rest < length buf"
    by (auto simp: extract_complete_message_def Let_def split: if_splits)
next
  fix buf d rest more :: bytes
  assume "extract_complete_message buf = Some (d, rest)"
  then show "extract_complete_message (buf @ more) = Some (d, rest @ more)"
    by (auto simp: extract_complete_message_def Let_def frame_length_append slice_def split: if_splits)
qed

lemma unat_4_plus: "unat (v :: 32 word) < 4294967292 \<Longrightarrow> unat (4 + v) = 4 + unat v"
  by (simp add: unat_word_ariths)

text \<open>The 32-bit sum of the guard is at most the exact one, so a complete frame is always seen.\<close>

lemma has_message_complete: "4 + unat (frame_length buf) \<le> length buf \<Longrightarrow> has_message_in_buffer buf"
proof -
  assume "4 + unat (frame_length buf) \<le> length buf"
  moreover have "unat (4 + frame_length buf) \<le> 4 + unat (frame_length buf)"
    by (simp add: unat_word_ariths)
  ultimately show ?thesis by (simp add: has_message_in_buffer_def)
qed


section \<open>Properties\<close>

lemma form_message_extract:
  assumes "length d < 4294967296"
  shows "extract_message (form_message d [] @ rest) = Inr (d, rest)"
  using frame_length_frame [OF assms, of rest] slice_frame [of d rest]
  by (simp add: extract_message_def form_message_eq)

text \<open>
  Appending a message to a send buffer with \<open>form_message\<close> and taking it off the front again
  with \<open>extract_message\<close> gives the message back and leaves the rest of the stream, for every
  message the 32-bit length can describe; the guard \<open>has_message_in_buffer\<close> accepts it.
\<close>

theorem framer_roundtrip:
  assumes "length d < 4294967296"
  shows "has_message_in_buffer (form_message d [] @ rest) \<and>
    extract_message (form_message d [] @ rest) = Inr (d, rest)"
  using form_message_extract [OF assms] frame_length_frame [OF assms, of rest]
    has_message_complete [of "frame d @ rest"]
  by (simp add: form_message_eq)

theorem framer_roundtrip_witness:
  "has_message_in_buffer (form_message [1, 2, 3] [] @ [0, 0]) \<and>
    extract_message (form_message [1, 2, 3] [] @ [0, 0]) = Inr ([1, 2, 3], [0, 0])"
  using framer_roundtrip [of "[1, 2, 3]" "[0, 0]"] by simp

text \<open>
  The guard of \<open>FramerMessage\<close> and the transports' \<open>extract_complete_message\<close> agree whenever
  the announced length is at most \<open>2 ^ 32 - 5\<close>: the guard is true exactly when the transport
  function finds a frame, and then \<open>extract_message\<close> returns the same message and remainder.
\<close>

theorem framer_agrees_with_transport:
  assumes "unat (frame_length buf) < 4294967292"
  shows "has_message_in_buffer buf = (extract_complete_message buf \<noteq> None) \<and>
    (has_message_in_buffer buf \<longrightarrow> extract_message buf = Inr (the (extract_complete_message buf)))"
  using unat_4_plus [OF assms]
  by (auto simp: has_message_in_buffer_def extract_complete_message_def extract_message_def Let_def)

theorem framer_agrees_with_transport_witness:
  "has_message_in_buffer [0, 0, 0, 1, 9] \<and> extract_message [0, 0, 0, 1, 9] = Inr ([9], [])"
proof -
  have "frame_length [0, 0, 0, 1, 9] = 1"
    using frame_length_be32 [of 1 "[9]"] by (simp add: be32_bytes_def)
  then have "extract_complete_message [0, 0, 0, 1, 9] = Some ([9], [])"
    and "unat (frame_length [0, 0, 0, 1, 9]) < 4294967292"
    by (simp_all add: extract_complete_message_def slice_def)
  with framer_agrees_with_transport [of "[0, 0, 0, 1, 9]"] show ?thesis by simp
qed

text \<open>On a part of a stream of such frames the loop of the framer does what the decoder of the transports does.\<close>

lemma framer_drain_fuel_stream:
  "buf @ more = concat (map frame ds) \<Longrightarrow> \<forall>d\<in>set ds. length d < 4294967292 \<Longrightarrow>
   framer_drain_fuel n buf = Inr (drain_fuel extract_complete_message n buf)"
proof (induction n arbitrary: buf ds)
  case (Suc n)
  show ?case
  proof (cases "length buf < 4")
    case True
    then show ?thesis by (simp add: has_message_in_buffer_def extract_complete_message_def)
  next
    case False
    then obtain d ds' where ds: "ds = d # ds'" using Suc.prems(1) by (cases ds) auto
    have d: "length d < 4294967296" using Suc.prems(2) ds by auto
    have len: "unat (frame_length buf) = length d"
      using frame_length_append [of buf more] frame_length_frame [OF d, of "concat (map frame ds')"] False Suc.prems(1) ds by simp
    have same: "has_message_in_buffer buf = (extract_complete_message buf \<noteq> None)"
        "has_message_in_buffer buf \<Longrightarrow> extract_message buf = Inr (the (extract_complete_message buf))"
      using framer_agrees_with_transport [of buf] len Suc.prems(2) ds by auto
    show ?thesis
    proof (cases "extract_complete_message buf")
      case (Some r)
      obtain m rest where r: "r = (m, rest)" by (cases r)
      have "extract_complete_message (frame d @ concat (map frame ds')) = Some (m, rest @ more)"
        using complete.next_prefix [of buf m rest more] Some r Suc.prems(1) ds by simp
      then have "rest @ more = concat (map frame ds')" using complete.next_frame [OF d] by simp
      from Suc.IH [OF this] Suc.prems(2) ds Some r same show ?thesis by (simp split: prod.splits)
    qed (use same in simp)
  qed
qed simp

lemma framer_drain_stream:
  "buf @ more = concat (map frame ds) \<Longrightarrow> \<forall>d\<in>set ds. length d < 4294967292 \<Longrightarrow> framer_drain buf = Inr (drain extract_complete_message buf)"
  by (simp add: framer_drain_def drain_def framer_drain_fuel_stream)

lemma framer_drain_frames:
  assumes "\<forall>d\<in>set ds. length d < 4294967292"
  shows "framer_drain (concat (map frame ds)) = Inr (ds, [])"
proof -
  have "extract_complete_message [] = None" by (simp add: extract_complete_message_def)
  then show ?thesis
    using framer_drain_stream [of _ "[]", OF _ assms] complete.drain_frames [of ds "[]"] assms by fastforce
qed

lemma drained_stream:
  assumes "buf @ more = concat (map frame ds)" "\<forall>d\<in>set ds. length d < 4294967292" "drain extract_complete_message buf = (ms, left)"
  obtains ds' where "left @ more = concat (map frame ds')" "ds = ms @ ds'" "extract_complete_message left = None"
proof -
  have "\<exists>ds'. left @ more = concat (map frame ds') \<and> ds = ms @ ds'"
    using assms
  proof (induction "length buf" arbitrary: buf ds ms rule: less_induct)
    case less
    show ?case
    proof (cases "extract_complete_message buf")
      case None
      with less.prems show ?thesis by (auto simp: complete.drain_unfold [of buf])
    next
      case (Some r)
      obtain m rest where r: "r = (m, rest)" by (cases r)
      then have "4 \<le> length buf" using Some by (auto simp: extract_complete_message_def split: if_splits)
      then obtain d ds1 where ds: "ds = d # ds1" using less.prems(1) by (cases ds) auto
      have "extract_complete_message (frame d @ concat (map frame ds1)) = Some (m, rest @ more)"
        using complete.next_prefix [of buf m rest more] Some r less.prems(1) ds by simp
      then have step: "m = d" "rest @ more = concat (map frame ds1)" using complete.next_frame [of d] less.prems(2) ds by auto
      obtain ms1 where ms1: "drain extract_complete_message rest = (ms1, left)" "ms = d # ms1"
        using less.prems(3) Some r step(1) by (auto simp: complete.drain_unfold [of buf] split: prod.splits)
      show ?thesis
        using less.hyps [OF _ step(2) _ ms1(1)] complete.next_shrinks [of buf m rest] Some r less.prems(2) ds ms1(2) by auto
    qed
  qed
  with that complete.drain_complete [OF assms(3)] show ?thesis by blast
qed

lemma read_all_stream:
  assumes "\<forall>d\<in>set ds. length d < 4294967292" "buf @ concat pieces = concat (map frame ds)" "extract_complete_message buf = None"
  shows "read_all buf pieces = Inr (ds, [])"
  using assms
proof (induction pieces arbitrary: buf ds)
  case Nil
  have "\<forall>d\<in>set ds. length d < 4294967296" using Nil(1) by fastforce
  from complete.drain_frames [OF this, of "[]"] have "drain extract_complete_message buf = (ds, [])"
    using Nil(2) by (simp add: extract_complete_message_def [of "[]"])
  moreover have "drain extract_complete_message buf = ([], buf)" using Nil(3) by (simp add: complete.drain_unfold [of buf])
  ultimately show ?case by simp
next
  case (Cons piece pieces)
  obtain ms left where d: "drain extract_complete_message (buf @ piece) = (ms, left)" by (cases "drain extract_complete_message (buf @ piece)")
  have whole: "(buf @ piece) @ concat pieces = concat (map frame ds)" using Cons.prems(2) by simp
  obtain ds' where ds': "left @ concat pieces = concat (map frame ds')" "ds = ms @ ds'" "extract_complete_message left = None"
    by (rule drained_stream [OF whole Cons.prems(1) d])
  have "read_all left pieces = Inr (ds', [])" by (rule Cons.IH [OF _ ds'(1, 3)]) (use Cons.prems(1) ds'(2) in simp)
  then show ?case using framer_drain_stream [OF whole Cons.prems(1)] d ds'(2) by simp
qed

text \<open>
  C7: stream reassembly. Whatever messages of less than \<open>2 ^ 32 - 4\<close> bytes were framed, and into however many reads the byte stream is cut, the
  receivers' loop, run after every read on what is left over and what has come, never does anything undefined, returns exactly the messages sent,
  in order, and ends with an empty buffer. For longer messages it does not hold (\<open>framer_guard_wraps\<close>).
\<close>

theorem framer_stream_reassembly:
  assumes "\<forall>d\<in>set ds. length d < 4294967292" "concat pieces = concat (map frame ds)"
  shows "read_all [] pieces = Inr (ds, [])"
  by (rule read_all_stream [OF assms(1)]) (use assms(2) in \<open>simp_all add: extract_complete_message_def\<close>)

theorem framer_stream_reassembly_witness:
  "read_all [] [[0, 0], [0, 1, 7, 0], [0, 0, 0]] = Inr ([[7], []], [])"
  by (rule framer_stream_reassembly) (simp_all add: frame_eq be32_bytes_def)

text \<open>
  C32: for an announced length of \<open>2 ^ 32 - 4\<close> or more the 32-bit sum of the guard wraps to at most
  3, so the guard accepts every buffer that holds the header while \<open>extract_message\<close> would read past
  the end of a buffer shorter than the announced frame.
\<close>

theorem framer_guard_wraps:
  assumes "4 \<le> length buf" and "4294967292 \<le> unat (frame_length buf)"
    and "length buf < 4 + unat (frame_length buf)"
  shows "has_message_in_buffer buf \<and> extract_complete_message buf = None \<and>
    (\<exists>what. extract_message buf = Inl (Undefined what))"
proof -
  have "unat (frame_length buf) < 4294967296" using unsigned_less [of "frame_length buf"] by simp
  then have "unat (4 + frame_length buf) = unat (frame_length buf) - 4294967292"
    using assms(2) by (simp add: unat_word_ariths mod_if)
  with assms show ?thesis
    using \<open>unat (frame_length buf) < 4294967296\<close>
    by (simp add: has_message_in_buffer_def extract_complete_message_def extract_message_def Let_def)
qed

theorem framer_guard_wraps_witness:
  "has_message_in_buffer [255, 255, 255, 255, 0] \<and>
    extract_complete_message [255, 255, 255, 255, 0] = None \<and>
    (\<exists>what. extract_message [255, 255, 255, 255, 0] = Inl (Undefined what))"
proof -
  have "frame_length [255, 255, 255, 255, 0] = 4294967295"
    by code_simp
  then show ?thesis using framer_guard_wraps [of "[255, 255, 255, 255, 0]"] by simp
qed

end
