(* ===== verification/Transport.thy ===== *)
theory Transport
  imports Framing
begin

text \<open>
  The transports (\<open>src/src/transport/transport.cpp\<close>), the receive buffer \<open>NetBuffer\<close>
  (\<open>src/include/transport/interface.hpp\<close>) and the connections (\<open>src/src/transport/connection.cpp\<close>,
  \<open>PeerSession\<close> of \<open>src/src/transport/peer.cpp\<close>).

  The kernel and the TLS library are parameters: a receiving function takes the results its
  \<open>recv\<close>, \<open>recvfrom\<close> or \<open>SSL_read\<close> calls return, in order; a sending function takes the return value of its
  \<open>send\<close>, \<open>sendto\<close> or \<open>SSL_write\<close> call and returns, beside its own value, the bytes that went out. The
  sockets are non-blocking: when the list is exhausted the call reports that it would block.

  Every message is framed twice: \<open>queue_send\<close> puts a length in front of each message in the send buffer, and
  the transport puts another length in front of the whole buffer when it is flushed.
\<close>

section \<open>NetBuffer\<close>

definition SBO_SIZE :: nat where
  "SBO_SIZE = 128"

datatype net_storage = SmallArray bytes | LargeVector bytes

record NetBuffer =
  nb_storage :: net_storage
  nb_length :: nat
  nb_is_large :: bool

definition NetBuffer_ctor :: NetBuffer where
  "NetBuffer_ctor = \<lparr>nb_storage = SmallArray (replicate SBO_SIZE 0), nb_length = 0, nb_is_large = False\<rparr>"

text \<open>\<open>std::get\<close> on a buffer that already holds a vector throws \<open>std::bad_variant_access\<close>.\<close>

definition set_data :: "bytes \<Rightarrow> (unit, NetBuffer) action" where
  "set_data src nb =
     (let nb1 = nb\<lparr>nb_length := length src\<rparr> in
      if length src \<le> SBO_SIZE then
        (case nb_storage nb1 of
           SmallArray arr \<Rightarrow> (Inr (), nb1\<lparr>nb_storage := SmallArray (src @ drop (length src) arr)\<rparr>)
         | LargeVector _ \<Rightarrow> (Inl (RuntimeError ''bad_variant_access''), nb1))
      else (Inr (), nb1\<lparr>nb_storage := LargeVector src\<rparr>))"

text \<open>What \<open>data()\<close> points to, and the \<open>length\<close> bytes the callers copy from there.\<close>

definition nb_data :: "NetBuffer \<Rightarrow> bytes" where
  "nb_data nb = (case nb_storage nb of SmallArray arr \<Rightarrow> arr | LargeVector v \<Rightarrow> v)"

definition nb_bytes :: "NetBuffer \<Rightarrow> bytes" where
  "nb_bytes nb = take (nb_length nb) (nb_data nb)"

datatype ReceiveStatus = OK | WOULDBLOCK | CLOSED | ERROR

record ReceiveResult =
  rr_status :: ReceiveStatus
  rr_data :: NetBuffer
  rr_error_code :: int

definition receive_result :: "ReceiveStatus \<Rightarrow> bytes \<Rightarrow> int \<Rightarrow> ReceiveResult cpp" where
  "receive_result status data code =
     (case set_data data NetBuffer_ctor of
        (Inl e, _) \<Rightarrow> Inl e
      | (Inr _, nb) \<Rightarrow> Inr \<lparr>rr_status = status, rr_data = nb, rr_error_code = code\<rparr>)"


section \<open>Transports\<close>

type_synonym sockaddr = "32 word \<times> 16 word"

datatype recv_result = Recv sockaddr bytes | RecvClosed | RecvAgain | RecvError int

definition EINVAL :: int where "EINVAL = 22"
definition EBADMSG :: int where "EBADMSG = 74"

text \<open>The header and the data, as one buffer; \<open>size_t\<close> is cut to 32 bits.\<close>

definition send_frame :: "bytes \<Rightarrow> bytes" where
  "send_frame data = mem_u32 (htonl (word_of_nat (length data))) @ data"

text \<open>A write never takes more than it is given.\<close>

definition written :: "int \<Rightarrow> bytes \<Rightarrow> int" where
  "written accepted buffer = min accepted (int (length buffer))"

text \<open>\<open>return ::send(...) - sizeof(uint32_t)\<close>: the header is taken off an error value too.\<close>

definition tcp_send :: "int \<Rightarrow> bytes \<Rightarrow> int \<times> bytes" where
  "tcp_send accepted data =
     (let send_buffer = send_frame data; sent = written accepted send_buffer in (sent - 4, take (nat sent) send_buffer))"

fun receive_loop :: "bytes \<Rightarrow> recv_result list \<Rightarrow> ReceiveResult cpp \<times> bytes \<times> recv_result list" where
  "receive_loop acc [] = (receive_result WOULDBLOCK acc 0, acc, [])"
| "receive_loop acc (Recv from_addr temp # rs) =
     (case extract_complete_message (acc @ temp) of
        Some (message, left) \<Rightarrow> (receive_result OK message 0, left, rs)
      | None \<Rightarrow> receive_loop (acc @ temp) rs)"
| "receive_loop acc (RecvClosed # rs) = (receive_result CLOSED acc 0, acc, rs)"
| "receive_loop acc (RecvAgain # rs) = (receive_result WOULDBLOCK acc 0, acc, rs)"
| "receive_loop acc (RecvError errno # rs) = (receive_result ERROR acc errno, acc, rs)"

text \<open>\<open>accumulation_buffer.clear()\<close> comes first: what an earlier call left there is gone.\<close>

definition tcp_receive :: "bytes \<Rightarrow> recv_result list \<Rightarrow> ReceiveResult cpp \<times> bytes \<times> recv_result list" where
  "tcp_receive accumulation_buffer rs = receive_loop [] rs"

definition udp_send :: "bool \<Rightarrow> int \<Rightarrow> bytes \<Rightarrow> int \<times> bytes" where
  "udp_send connected accepted data =
     (if \<not> connected then (0, [])
      else let send_buffer = send_frame data; sent = written accepted send_buffer in
        (if sent > 0 then sent - 4 else sent, take (nat sent) send_buffer))"

fun udp_receive :: "sockaddr \<Rightarrow> recv_result list \<Rightarrow> ReceiveResult cpp \<times> recv_result list" where
  "udp_receive addr [] = (Inr \<lparr>rr_status = WOULDBLOCK, rr_data = NetBuffer_ctor, rr_error_code = 0\<rparr>, [])"
| "udp_receive addr (Recv from_addr temp # rs) =
     (if fst from_addr \<noteq> fst addr \<or> snd from_addr \<noteq> snd addr
             then Inr \<lparr>rr_status = ERROR, rr_data = NetBuffer_ctor, rr_error_code = EINVAL\<rparr>
           else if length temp < 4 then Inr \<lparr>rr_status = ERROR, rr_data = NetBuffer_ctor, rr_error_code = EBADMSG\<rparr>
           else let declared_len = unat (frame_length temp) in
             if length temp \<noteq> 4 + declared_len
             then Inr \<lparr>rr_status = ERROR, rr_data = NetBuffer_ctor, rr_error_code = EBADMSG\<rparr>
             else receive_result OK (slice temp 4 declared_len) 0, rs)"
| "udp_receive addr (RecvClosed # rs) = (Inr \<lparr>rr_status = CLOSED, rr_data = NetBuffer_ctor, rr_error_code = 0\<rparr>, rs)"
| "udp_receive addr (RecvAgain # rs) = (Inr \<lparr>rr_status = WOULDBLOCK, rr_data = NetBuffer_ctor, rr_error_code = 0\<rparr>, rs)"
| "udp_receive addr (RecvError errno # rs) = (Inr \<lparr>rr_status = ERROR, rr_data = NetBuffer_ctor, rr_error_code = errno\<rparr>, rs)"

text \<open>\<open>TLSTransport\<close> is \<open>TCPTransport\<close> with \<open>SSL_write\<close> and \<open>SSL_read\<close>; \<open>errno\<close> is read after both.\<close>

definition tls_send :: "int \<Rightarrow> bytes \<Rightarrow> int \<times> bytes" where
  "tls_send accepted data =
     (let send_buffer = send_frame data; sent = written accepted send_buffer in (sent - 4, take (nat sent) send_buffer))"

definition tls_receive :: "bytes \<Rightarrow> recv_result list \<Rightarrow> ReceiveResult cpp \<times> bytes \<times> recv_result list" where
  "tls_receive accumulation_buffer rs = receive_loop [] rs"

text \<open>The variant of the three, and what one call gets from the kernel.\<close>

datatype ITransport =
    TCPTransport (tr_fd: int) (tr_accumulation: bytes)
  | UDPTransport (tr_fd: int) (tr_addr: sockaddr) (tr_accumulation: bytes)
  | TLSTransport (tr_fd: int) (tr_accumulation: bytes)

record io =
  io_reads :: "recv_result list"
  io_written :: int
  io_connected :: bool
  io_errno_again :: bool

definition create_tcp :: "int \<Rightarrow> ITransport" where
  "create_tcp fd = TCPTransport fd []"

definition create_udp :: "int \<Rightarrow> sockaddr \<Rightarrow> ITransport" where
  "create_udp fd addr = UDPTransport fd addr []"

definition create_tls :: "int \<Rightarrow> ITransport" where
  "create_tls fd = TLSTransport fd []"

fun transport_send :: "io \<Rightarrow> ITransport \<Rightarrow> bytes \<Rightarrow> int \<times> bytes" where
  "transport_send i (TCPTransport _ _) data = tcp_send (io_written i) data"
| "transport_send i (UDPTransport _ _ _) data = udp_send (io_connected i) (io_written i) data"
| "transport_send i (TLSTransport _ _) data = tls_send (io_written i) data"

fun transport_receive :: "io \<Rightarrow> ITransport \<Rightarrow> ReceiveResult cpp \<times> ITransport" where
  "transport_receive i (TCPTransport fd acc) =
     (let (r, acc', _) = tcp_receive acc (io_reads i) in (r, TCPTransport fd acc'))"
| "transport_receive i (UDPTransport fd addr acc) =
     (let (r, _) = udp_receive addr (io_reads i) in (r, UDPTransport fd addr acc))"
| "transport_receive i (TLSTransport fd acc) =
     (let (r, acc', _) = tls_receive acc (io_reads i) in (r, TLSTransport fd acc'))"


section \<open>Connections\<close>

record ClientConnection =
  cn_fd :: int
  cn_transport :: ITransport
  cn_recv_buffer :: bytes
  cn_send_buffer :: bytes

definition ClientConnection_ctor :: "int \<Rightarrow> ITransport \<Rightarrow> ClientConnection" where
  "ClientConnection_ctor fd transport =
     \<lparr>cn_fd = fd, cn_transport = transport, cn_recv_buffer = [], cn_send_buffer = []\<rparr>"

definition init_transport :: "ITransport \<Rightarrow> ClientConnection \<Rightarrow> ClientConnection" where
  "init_transport transport c = c\<lparr>cn_transport := transport\<rparr>"

text \<open>\<open>flush\<close>: the value returned, the bytes written, the connection after it. \<open>erase\<close> past the end is
  undefined.\<close>

definition flush_buffer :: "io \<Rightarrow> ITransport \<Rightarrow> bytes \<Rightarrow> bool cpp \<times> bytes \<times> bytes" where
  "flush_buffer i transport send_buffer =
     (if send_buffer = [] then (Inr True, [], [])
      else let (sent, wire) = transport_send i transport send_buffer in
        if sent > 0 then
          (if nat sent > length send_buffer then (Inl (Undefined ''erase past the end''), wire, send_buffer)
           else (Inr (drop (nat sent) send_buffer = []), wire, drop (nat sent) send_buffer))
        else (Inr (sent = - 1 \<and> io_errno_again i), wire, send_buffer))"

definition conn_flush :: "io \<Rightarrow> ClientConnection \<Rightarrow> bool cpp \<times> bytes \<times> ClientConnection" where
  "conn_flush i c =
     (let (r, wire, buf) = flush_buffer i (cn_transport c) (cn_send_buffer c) in (r, wire, c\<lparr>cn_send_buffer := buf\<rparr>))"

definition received_ok :: "ReceiveResult \<Rightarrow> bool" where
  "received_ok result \<longleftrightarrow> rr_status result = OK \<or> rr_status result = WOULDBLOCK"

definition conn_try_receive :: "io \<Rightarrow> ClientConnection \<Rightarrow> bool cpp \<times> ClientConnection" where
  "conn_try_receive i c =
     (let (r, t) = transport_receive i (cn_transport c) in
      case r of
        Inl e \<Rightarrow> (Inl e, c\<lparr>cn_transport := t\<rparr>)
      | Inr result \<Rightarrow> (Inr (received_ok result),
          c\<lparr>cn_transport := t, cn_recv_buffer := cn_recv_buffer c @ nb_bytes (rr_data result)\<rparr>))"

definition conn_has_complete_message :: "ClientConnection \<Rightarrow> bool" where
  "conn_has_complete_message c = has_message_in_buffer (cn_recv_buffer c)"

definition conn_extract_message :: "(bytes, ClientConnection) action" where
  "conn_extract_message c = (case extract_message (cn_recv_buffer c) of
       Inl e \<Rightarrow> (Inl e, c) | Inr (msg, left) \<Rightarrow> (Inr msg, c\<lparr>cn_recv_buffer := left\<rparr>))"

definition conn_queue_send :: "bytes \<Rightarrow> ClientConnection \<Rightarrow> ClientConnection" where
  "conn_queue_send data c = c\<lparr>cn_send_buffer := form_message data (cn_send_buffer c)\<rparr>"

text \<open>\<open>PeerSession\<close> has the same methods on \<open>in\<close> and \<open>out\<close>.\<close>

record PeerSession =
  ps_fd :: int
  ps_ip :: string
  ps_in :: bytes
  ps_out :: bytes
  ps_transport :: ITransport

definition PeerSession_ctor :: "int \<Rightarrow> string \<Rightarrow> ITransport \<Rightarrow> PeerSession" where
  "PeerSession_ctor fd ip transport = \<lparr>ps_fd = fd, ps_ip = ip, ps_in = [], ps_out = [], ps_transport = transport\<rparr>"

definition session_try_receive :: "io \<Rightarrow> PeerSession \<Rightarrow> bool cpp \<times> PeerSession" where
  "session_try_receive i s =
     (let (r, t) = transport_receive i (ps_transport s) in
      case r of
        Inl e \<Rightarrow> (Inl e, s\<lparr>ps_transport := t\<rparr>)
      | Inr result \<Rightarrow> (Inr (received_ok result),
          s\<lparr>ps_transport := t, ps_in := ps_in s @ nb_bytes (rr_data result)\<rparr>))"

definition session_has_complete_message :: "PeerSession \<Rightarrow> bool" where
  "session_has_complete_message s = has_message_in_buffer (ps_in s)"

definition session_extract_message :: "(bytes, PeerSession) action" where
  "session_extract_message s = (case extract_message (ps_in s) of
       Inl e \<Rightarrow> (Inl e, s) | Inr (msg, left) \<Rightarrow> (Inr msg, s\<lparr>ps_in := left\<rparr>))"

definition session_send_to_buffer :: "bytes \<Rightarrow> PeerSession \<Rightarrow> PeerSession" where
  "session_send_to_buffer data s = s\<lparr>ps_out := form_message data (ps_out s)\<rparr>"

definition session_flush :: "io \<Rightarrow> PeerSession \<Rightarrow> bool cpp \<times> bytes \<times> PeerSession" where
  "session_flush i s =
     (let (r, wire, buf) = flush_buffer i (ps_transport s) (ps_out s) in (r, wire, s\<lparr>ps_out := buf\<rparr>))"


section \<open>Lemmas\<close>

lemma send_frame_eq: "send_frame data = frame data"
  by (simp add: send_frame_def frame_def form_message_def)

text \<open>A fresh buffer holds what is stored into it, below and above the size of the inline array.\<close>

lemma set_data_fresh: "\<exists>nb. set_data src NetBuffer_ctor = (Inr (), nb) \<and> nb_bytes nb = src"
  by (cases "length src \<le> 128") (simp_all add: set_data_def NetBuffer_ctor_def nb_bytes_def nb_data_def SBO_SIZE_def Let_def)

lemma receive_result_eq:
  obtains nb where "receive_result st data code = Inr \<lparr>rr_status = st, rr_data = nb, rr_error_code = code\<rparr>" "nb_bytes nb = data"
  using set_data_fresh [of data] by (auto simp: receive_result_def)

text \<open>No receiving function throws: each result has a buffer of its own.\<close>

lemma receive_result_defined: "\<exists>res. receive_result st data code = Inr res"
  by (rule receive_result_eq) blast

lemma receive_loop_defined: "\<exists>res. fst (receive_loop acc rs) = Inr res"
  by (induction acc rs rule: receive_loop.induct) (simp_all add: receive_result_defined split: option.split)

lemma udp_receive_defined: "\<exists>res. fst (udp_receive a rs) = Inr res"
  by (cases "(a, rs)" rule: udp_receive.cases) (auto simp: receive_result_defined Let_def)

lemma transport_receive_defined: "\<exists>res. fst (transport_receive i t) = Inr res"
  using receive_loop_defined [of "[]" "io_reads i"] udp_receive_defined
  by (cases t) (simp_all add: tcp_receive_def tls_receive_def split_beta)

lemma frame_prefix_incomplete:
  assumes "length p < 4294967296" "frame p = x @ y" "y \<noteq> []"
  shows "extract_complete_message x = None"
proof (cases "length x < 4")
  case False
  then have "frame_length x = frame_length (frame p)" using assms(2) frame_length_append [of x y] by simp
  moreover have "unat (frame_length (frame p)) = length p" using frame_length_frame [OF assms(1), of "[]"] by simp
  moreover have "length x < 4 + length p" using arg_cong [OF assms(2), of length] assms(3) by simp
  ultimately show ?thesis by (simp add: extract_complete_message_def)
qed (simp add: extract_complete_message_def)

text \<open>However the kernel cuts a frame into reads, the loop returns its payload.\<close>

lemma receive_loop_frame:
  assumes "length p < 4294967296" "acc @ concat pieces = frame p" "extract_complete_message acc = None"
  shows "\<exists>rs'. receive_loop acc (map (Recv a) pieces) = (receive_result OK p 0, [], rs')"
  using assms
proof (induction pieces arbitrary: acc)
  case Nil
  then show ?case using complete.next_frame [of p "[]"] by simp
next
  case (Cons x pieces)
  show ?case
  proof (cases "concat pieces = []")
    case True
    have "acc @ x = frame p" using Cons.prems(2) unfolding concat.simps True by simp
    then show ?thesis using complete.next_frame [of p "[]"] Cons.prems(1) by simp
  next
    case False
    then have "extract_complete_message (acc @ x) = None"
      using frame_prefix_incomplete [of p "acc @ x" "concat pieces"] Cons.prems by simp
    then show ?thesis using Cons.IH [of "acc @ x"] Cons.prems by simp
  qed
qed

lemma extract_complete_Nil [simp]: "extract_complete_message [] = None"
  by (simp add: extract_complete_message_def)

text \<open>The two stream transports behave alike.\<close>

definition is_stream :: "ITransport \<Rightarrow> bool" where
  "is_stream t = (\<not> is_UDPTransport t)"

fun with_accumulation :: "ITransport \<Rightarrow> bytes \<Rightarrow> ITransport" where
  "with_accumulation (TCPTransport fd _) acc = TCPTransport fd acc"
| "with_accumulation (UDPTransport fd a _) acc = UDPTransport fd a acc"
| "with_accumulation (TLSTransport fd _) acc = TLSTransport fd acc"

lemma stream_receive:
  "is_stream t \<Longrightarrow> transport_receive i t = (let (r, acc, _) = receive_loop [] (io_reads i) in (r, with_accumulation t acc))"
  by (cases t) (simp_all add: is_stream_def tcp_receive_def tls_receive_def)

lemma stream_send: "is_stream t \<Longrightarrow> transport_send i t data =
    (min (io_written i) (4 + int (length data)) - 4, take (nat (io_written i)) (frame data))"
  by (cases t) (auto simp: is_stream_def tcp_send_def tls_send_def send_frame_eq written_def Let_def min_def)

text \<open>So no flush erases past the end of its buffer, and what is left of the buffer is a suffix of it.\<close>

lemma transport_send_bound: "fst (transport_send i t data) \<le> int (length data)"
  by (cases t) (auto simp: tcp_send_def tls_send_def udp_send_def send_frame_eq written_def Let_def min_def)

lemma flush_buffer_defined: "\<exists>b. fst (flush_buffer i t buf) = Inr b"
  using transport_send_bound [of i t buf] by (auto simp: flush_buffer_def Let_def split: prod.splits)

lemma is_stream_with [simp]: "is_stream (with_accumulation t acc) = is_stream t"
  by (cases t) (simp_all add: is_stream_def)


section \<open>The contract of a connection\<close>

text \<open>
  What the server's handler, the peer's handler and the senders rely on: messages queued are framed into the send
  buffer in order, a flush hands the buffer to the transport, what the transport receives is appended to the receive
  buffer, and messages are taken off it by the framer.
\<close>

locale stream_connection =
  fixes queue :: "bytes \<Rightarrow> 'c \<Rightarrow> 'c"
    and flush :: "io \<Rightarrow> 'c \<Rightarrow> bool cpp \<times> bytes \<times> 'c"
    and receive :: "io \<Rightarrow> 'c \<Rightarrow> bool cpp \<times> 'c"
    and take_msg :: "(bytes, 'c) action"
    and inb :: "'c \<Rightarrow> bytes"
    and outb :: "'c \<Rightarrow> bytes"
    and trans :: "'c \<Rightarrow> ITransport"
  assumes queue_out: "outb (queue d c) = form_message d (outb c)"
    and queue_trans: "trans (queue d c) = trans c"
    and flush_out: "flush i c = (r, w, c') \<Longrightarrow> flush_buffer i (trans c) (outb c) = (r, w, outb c')"
    and receive_in: "transport_receive i (trans c) = (Inr res, t) \<Longrightarrow>
      \<exists>c'. receive i c = (Inr (received_ok res), c') \<and> inb c' = inb c @ nb_bytes (rr_data res) \<and> trans c' = t"
    and extract_in: "extract_message (inb c) = Inr (m, left) \<Longrightarrow> \<exists>c'. take_msg c = (Inr m, c') \<and> inb c' = left"
begin

lemma queue_all: "outb (fold queue ds c) = outb c @ concat (map frame ds)" "trans (fold queue ds c) = trans c"
  by (induction ds arbitrary: c) (simp_all add: queue_out queue_trans form_message_eq)

lemma flush_whole:
  assumes "is_stream (trans c)" "outb c \<noteq> []" "io_written i = 4 + int (length (outb c))"
  shows "\<exists>c'. flush i c = (Inr True, frame (outb c), c') \<and> outb c' = []"
proof -
  obtain r w c' where f: "flush i c = (r, w, c')" by (metis prod_cases3)
  have "nat (io_written i) = length (frame (outb c))" using assms(3) by simp
  then show ?thesis
    using flush_out [OF f] assms f by (simp add: flush_buffer_def stream_send del: length_frame)
qed

lemma receive_frame:
  assumes "is_stream (trans c)" "length p < 4294967296" "io_reads i = map (Recv a) pieces" "concat pieces = frame p"
  shows "\<exists>c'. receive i c = (Inr True, c') \<and> inb c' = inb c @ p \<and> is_stream (trans c')"
proof -
  obtain rs' where rs': "receive_loop [] (io_reads i) = (receive_result OK p 0, [], rs')"
    using receive_loop_frame [of p "[]" pieces a] assms(2-4) by auto
  obtain nb where nb: "receive_result OK p 0 = Inr \<lparr>rr_status = OK, rr_data = nb, rr_error_code = 0\<rparr>" "nb_bytes nb = p"
    by (rule receive_result_eq)
  have "transport_receive i (trans c) = (Inr \<lparr>rr_status = OK, rr_data = nb, rr_error_code = 0\<rparr>, with_accumulation (trans c) [])"
    using rs' nb assms(1) by (simp add: stream_receive)
  from receive_in [OF this] show ?thesis using nb(2) assms(1) by (auto simp: received_ok_def)
qed

lemma queue_flush:
  assumes "is_stream (trans c)" "outb c = []" "ds \<noteq> []"
    and "io_written i = 4 + int (length (concat (map frame ds)))"
  shows "\<exists>c'. flush i (fold queue ds c) = (Inr True, frame (concat (map frame ds)), c') \<and> outb c' = []"
proof -
  have out: "outb (fold queue ds c) = concat (map frame ds)" using queue_all(1) [of ds c] assms(2) by simp
  have "concat (map frame ds) \<noteq> []" using assms(3) by (cases ds) (auto simp: frame_eq be32_bytes_def)
  then show ?thesis using flush_whole [of "fold queue ds c" i] assms out queue_all(2) [of ds c] by simp
qed

lemma extract_first:
  assumes "inb c = concat (map frame (d # ds))" "length d < 4294967296"
  shows "\<exists>c'. take_msg c = (Inr d, c') \<and> inb c' = concat (map frame ds)"
  using extract_in [of c d "concat (map frame ds)"] form_message_extract [OF assms(2), of "concat (map frame ds)"] assms(1)
  by (simp add: frame_def)

end

interpretation client_conn: stream_connection conn_queue_send conn_flush conn_try_receive conn_extract_message
  cn_recv_buffer cn_send_buffer cn_transport
  by unfold_locales
    (auto simp: conn_queue_send_def conn_flush_def conn_try_receive_def conn_extract_message_def split: prod.splits)

interpretation peer_session: stream_connection session_send_to_buffer session_flush session_try_receive session_extract_message
  ps_in ps_out ps_transport
  by unfold_locales
    (auto simp: session_send_to_buffer_def session_flush_def session_try_receive_def session_extract_message_def split: prod.splits)

section \<open>What a link delivers\<close>

text \<open>
  C37: a link delivers what was queued, in order. Messages queued on a connection with an empty send buffer and
  flushed by one complete write go out as one frame; if the reads of the other side cut that frame anywhere but
  no read reports that data is missing, and nothing else arrives, the receive buffer holds exactly the queued messages and
  the framer returns them in order.
\<close>

theorem link_delivers:
  assumes "is_stream (cn_transport c)" "cn_send_buffer c = []" "ds \<noteq> []" "\<forall>d\<in>set ds. length d < 4294967296"
    and "length (concat (map frame ds)) < 4294967296" "io_written i = 4 + int (length (concat (map frame ds)))"
    and "is_stream (ps_transport s)" "ps_in s = []" "io_reads j = map (Recv a) pieces"
    and "concat pieces = fst (snd (conn_flush i (fold conn_queue_send ds c)))"
  shows "\<exists>c' s'. conn_flush i (fold conn_queue_send ds c) = (Inr True, concat pieces, c') \<and> cn_send_buffer c' = [] \<and>
    session_try_receive j s = (Inr True, s') \<and> framer_drain (ps_in s') = Inr (ds, [])"
proof -
  obtain c' where c': "conn_flush i (fold conn_queue_send ds c) = (Inr True, frame (concat (map frame ds)), c')" "cn_send_buffer c' = []"
    using client_conn.queue_flush [OF assms(1-3, 6)] by blast
  obtain s' where s': "session_try_receive j s = (Inr True, s')" "ps_in s' = concat (map frame ds)"
    using peer_session.receive_frame [OF assms(7, 5, 9)] assms(8, 10) c'(1) by auto
  have "\<forall>d\<in>set ds. length d < 4294967292"
  proof
    fix d assume "d \<in> set ds"
    then have "length (frame d) \<le> length (concat (map frame ds))" by (auto simp: length_concat intro!: member_le_sum_list)
    then show "length d < 4294967292" using assms(5) by simp
  qed
  then have "framer_drain (ps_in s') = Inr (ds, [])" using framer_drain_frames s'(2) by simp
  with c' s' assms(10) show ?thesis by auto
qed

definition sample_conn :: ClientConnection where
  "sample_conn = ClientConnection_ctor 4 (create_tls 4)"

definition sample_session :: PeerSession where
  "sample_session = PeerSession_ctor 5 ''10.0.0.1'' (create_tcp 5)"

definition sample_io :: io where
  "sample_io = \<lparr>io_reads = map (Recv (0, 0)) [[0, 0, 0], [6, 0, 0, 0, 1, 7], [8]], io_written = 10, io_connected = True, io_errno_again = False\<rparr>"

lemma frame_78: "frame [7] = [0, 0, 0, 1, 7]" "frame [0, 0, 0, 1, 7] = [0, 0, 0, 5, 0, 0, 0, 1, 7]"
  by (simp_all add: frame_eq be32_bytes_def) 

theorem link_delivers_witness:
  "\<exists>s'. session_try_receive (sample_io\<lparr>io_reads := map (Recv (0, 0)) [[0, 0, 0], [5, 0, 0, 0, 1], [7]]\<rparr>) sample_session = (Inr True, s') \<and>
    framer_drain (ps_in s') = Inr ([[7]], [])"
proof -
  let ?i = "sample_io\<lparr>io_written := 9\<rparr>" and ?j = "sample_io\<lparr>io_reads := map (Recv (0, 0)) [[0, 0, 0], [5, 0, 0, 0, 1], [7]]\<rparr>"
  have s: "is_stream (cn_transport sample_conn)" "cn_send_buffer sample_conn = []" "is_stream (ps_transport sample_session)" "ps_in sample_session = []"
    by (simp_all add: sample_conn_def sample_session_def ClientConnection_ctor_def PeerSession_ctor_def create_tcp_def create_tls_def is_stream_def)
  have "fst (snd (conn_flush ?i (fold conn_queue_send [[7]] sample_conn))) = concat [[0, 0, 0], [5, 0, 0, 0, 1], [7]]"
    using s frame_78
    by (simp add: conn_flush_def flush_buffer_def conn_queue_send_def form_message_eq stream_send sample_io_def)
  then show ?thesis
    using link_delivers [of sample_conn "[[7]]" ?i sample_session ?j "(0, 0)" "[[0, 0, 0], [5, 0, 0, 0, 1], [7]]"] s frame_78
    by (auto simp: sample_io_def)
qed

text \<open>
  C38: of two frames that arrive in one read the second is lost. The first is appended to the receive
  buffer; the bytes of the second stay in the accumulation buffer, which the next call clears: if nothing else arrives
  that call reports success and the receive buffer has not changed, whatever the second frame was.
\<close>

theorem second_frame_lost:
  assumes "is_stream (cn_transport c)" "length p < 4294967296" "io_reads i = [Recv a (frame p @ rest)]" "io_reads j = [RecvAgain]"
  shows "\<exists>c1 c2. conn_try_receive i c = (Inr True, c1) \<and> cn_recv_buffer c1 = cn_recv_buffer c @ p \<and>
    tr_accumulation (cn_transport c1) = rest \<and>
    conn_try_receive j c1 = (Inr True, c2) \<and> cn_recv_buffer c2 = cn_recv_buffer c @ p \<and> tr_accumulation (cn_transport c2) = []"
proof -
  obtain nb where nb: "receive_result OK p 0 = Inr \<lparr>rr_status = OK, rr_data = nb, rr_error_code = 0\<rparr>" "nb_bytes nb = p"
    by (rule receive_result_eq)
  obtain nb' where nb': "receive_result WOULDBLOCK [] 0 = Inr \<lparr>rr_status = WOULDBLOCK, rr_data = nb', rr_error_code = 0\<rparr>" "nb_bytes nb' = []"
    by (rule receive_result_eq)
  have acc: "tr_accumulation (with_accumulation t b) = b" for t b by (cases t) simp_all
  show ?thesis
    using complete.next_frame [OF assms(2), of rest] nb nb' assms
    by (simp add: conn_try_receive_def stream_receive received_ok_def acc)
qed

theorem second_frame_lost_witness:
  "\<exists>c1 c2. conn_try_receive (sample_io\<lparr>io_reads := [Recv (0, 0) (frame [1] @ frame [2])]\<rparr>) sample_conn = (Inr True, c1) \<and>
    conn_try_receive (sample_io\<lparr>io_reads := [RecvAgain]\<rparr>) c1 = (Inr True, c2) \<and> cn_recv_buffer c2 = [1]"
  using second_frame_lost [of sample_conn "[1]" "sample_io\<lparr>io_reads := [Recv (0, 0) (frame [1] @ frame [2])]\<rparr>" "(0, 0)" "frame [2]"
      "sample_io\<lparr>io_reads := [RecvAgain]\<rparr>"]
  by (auto simp: sample_conn_def ClientConnection_ctor_def create_tls_def is_stream_def)

text \<open>
  A frame that arrives in two readiness events reaches the framer with its outer header. If the first
  event delivers a proper part of the frame and the rest, which is not itself a complete frame, comes with the
  next, both calls report success and the receive buffer holds the whole frame, header included; a
  message \<open>d\<close> sent that way is then extracted as \<open>frame d\<close>, with four bytes in front of it that are not part of it.
\<close>

theorem split_frame_keeps_header:
  assumes "is_stream (cn_transport c)" "length d < 4294967288" "frame (frame d) = x @ y" "y \<noteq> []" "extract_complete_message y = None"
    and "cn_recv_buffer c = []" "io_reads i = [Recv a x, RecvAgain]" "io_reads j = [Recv a y, RecvAgain]"
  shows "\<exists>c1 c2. conn_try_receive i c = (Inr True, c1) \<and> conn_try_receive j c1 = (Inr True, c2) \<and>
    conn_has_complete_message c2 \<and> fst (conn_extract_message c2) = Inr (frame d)"
proof -
  have len: "length (frame d) < 4294967296" using assms(2) by simp
  obtain nb where nb: "receive_result WOULDBLOCK x 0 = Inr \<lparr>rr_status = WOULDBLOCK, rr_data = nb, rr_error_code = 0\<rparr>" "nb_bytes nb = x"
    by (rule receive_result_eq)
  obtain nb' where nb': "receive_result WOULDBLOCK y 0 = Inr \<lparr>rr_status = WOULDBLOCK, rr_data = nb', rr_error_code = 0\<rparr>" "nb_bytes nb' = y"
    by (rule receive_result_eq)
  obtain c1 c2 where c: "conn_try_receive i c = (Inr True, c1)" "conn_try_receive j c1 = (Inr True, c2)" "cn_recv_buffer c2 = x @ y"
    using frame_prefix_incomplete [OF len assms(3, 4)] nb nb' assms
    by (simp add: conn_try_receive_def stream_receive received_ok_def)
  have b: "cn_recv_buffer c2 = form_message (frame d) [] @ []" using c(3) assms(3) by (simp add: frame_def)
  have "unat (frame_length (frame (frame d))) = length (frame d)" using frame_length_frame [OF len, of "[]"] by simp
  then have "conn_has_complete_message c2"
    unfolding conn_has_complete_message_def c(3) assms(3) [symmetric] by (intro has_message_complete) simp
  moreover have "fst (conn_extract_message c2) = Inr (frame d)"
    unfolding conn_extract_message_def b using form_message_extract [OF len, of "[]"] by simp
  ultimately show ?thesis using c by blast
qed

theorem split_frame_keeps_header_witness:
  "\<exists>c1 c2. conn_try_receive (sample_io\<lparr>io_reads := [Recv (0, 0) [0, 0, 0, 5, 0, 0], RecvAgain]\<rparr>) sample_conn = (Inr True, c1) \<and>
    conn_try_receive (sample_io\<lparr>io_reads := [Recv (0, 0) [0, 1, 7], RecvAgain]\<rparr>) c1 = (Inr True, c2) \<and>
    fst (conn_extract_message c2) = Inr [0, 0, 0, 1, 7]"
proof -
  have "is_stream (cn_transport sample_conn)" "cn_recv_buffer sample_conn = []"
    by (simp_all add: sample_conn_def ClientConnection_ctor_def create_tls_def is_stream_def)
  moreover have "frame (frame [7]) = [0, 0, 0, 5, 0, 0] @ [0, 1, 7]" by (simp add: frame_78)
  moreover have "extract_complete_message [0, 1, 7] = None" by (simp add: extract_complete_message_def)
  ultimately show ?thesis
    using split_frame_keeps_header [of sample_conn "[7]" "[0, 0, 0, 5, 0, 0]" "[0, 1, 7]"
      "sample_io\<lparr>io_reads := [Recv (0, 0) [0, 0, 0, 5, 0, 0], RecvAgain]\<rparr>" "(0, 0)" "sample_io\<lparr>io_reads := [Recv (0, 0) [0, 1, 7], RecvAgain]\<rparr>"]
      frame_78 by auto
qed

text \<open>
  C39: a partial write corrupts the stream of a peer. The sessions of a peer write to plain TCP sockets, where \<open>send\<close> may take a part of
  what it is given. When the first write takes the header and only \<open>k\<close> of the buffer's bytes, the next flush puts a new header in front of
  the rest; the other side, which expects as many bytes as the first header announced, decodes the first \<open>k\<close> bytes followed by the second
  header as one message. (\<open>SSL_write\<close> takes everything or fails, so the server's connections are not concerned.)
\<close>

theorem partial_write_reframed:
  assumes "ps_transport s = TCPTransport fd acc" "0 < k" "k < length (ps_out s)" "length (ps_out s) < 4294967296"
    and "io_written i = 4 + int k" "io_written j = 4 + int (length (ps_out s) - k)"
  shows "\<exists>w1 s1 w2 s2. session_flush i s = (Inr False, w1, s1) \<and> session_flush j s1 = (Inr True, w2, s2) \<and> ps_out s2 = [] \<and>
    extract_complete_message (w1 @ w2) =
      Some (take k (ps_out s) @ take (length (ps_out s) - k) (frame (drop k (ps_out s))),
            drop (length (ps_out s) - k) (frame (drop k (ps_out s))))"
proof -
  let ?b = "ps_out s"
  have t: "is_stream (ps_transport s)" using assms(1) by (simp add: is_stream_def)
  have nat: "nat (4 + int k) = 4 + k" "nat (4 + int (length ?b - k)) = 4 + (length ?b - k)" by simp_all
  define s1 where "s1 = s\<lparr>ps_out := drop k ?b\<rparr>"
  have 1: "session_flush i s = (Inr False, take (4 + k) (frame ?b), s1)"
    using t assms(2-6) by (auto simp: session_flush_def flush_buffer_def stream_send s1_def nat)
  have 2: "session_flush j s1 = (Inr True, frame (drop k ?b), s1\<lparr>ps_out := []\<rparr>)"
    using t assms(2-6) by (auto simp: session_flush_def flush_buffer_def stream_send s1_def nat)
  have h: "take (4 + k) (frame ?b) = be32_bytes (word_of_nat (length ?b)) @ take k ?b" by (simp add: frame_eq)
  have l: "unat (frame_length (take (4 + k) (frame ?b) @ frame (drop k ?b))) = length ?b"
    unfolding h using assms(4) by (simp add: frame_length_be32 unat_of_length32)
  have "extract_complete_message (take (4 + k) (frame ?b) @ frame (drop k ?b)) =
      Some (take k ?b @ take (length ?b - k) (frame (drop k ?b)), drop (length ?b - k) (frame (drop k ?b)))"
    unfolding extract_complete_message_def l using assms(3) by (simp add: h slice_def Let_def)
  then show ?thesis using 1 2 by auto
qed

theorem partial_write_reframed_witness:
  "\<exists>w1 s1 w2 s2. session_flush (sample_io\<lparr>io_written := 6\<rparr>) (sample_session\<lparr>ps_out := [1, 2, 3]\<rparr>) = (Inr False, w1, s1) \<and>
    session_flush (sample_io\<lparr>io_written := 5\<rparr>) s1 = (Inr True, w2, s2) \<and>
    extract_complete_message (w1 @ w2) = Some ([1, 2, 0], [0, 0, 1, 3])"
proof -
  obtain fd acc where "ps_transport sample_session = TCPTransport fd acc" by (simp add: sample_session_def PeerSession_ctor_def create_tcp_def)
  then show ?thesis
    using partial_write_reframed [of "sample_session\<lparr>ps_out := [1, 2, 3]\<rparr>" fd acc 2 "sample_io\<lparr>io_written := 6\<rparr>" "sample_io\<lparr>io_written := 5\<rparr>"]
    by (auto simp: frame_eq be32_bytes_def)
qed

text \<open>A failed write gives \<open>- 5\<close>, so the test for \<open>- 1\<close> with \<open>EAGAIN\<close> never succeeds for it.\<close>

lemma flush_would_block:
  "is_stream (cn_transport c) \<Longrightarrow> cn_send_buffer c \<noteq> [] \<Longrightarrow> io_written i = - 1 \<Longrightarrow> conn_flush i c = (Inr False, [], c)"
  by (simp add: conn_flush_def flush_buffer_def stream_send)

section \<open>A buffer is written in the end\<close>

text \<open>
  The send buffer empties. If every write the kernel accepts takes more than the four bytes of the header, then
  after at most as many writable events as the buffer has bytes it is empty, and the next flush reports that there is
  nothing left, so that the event loop stops asking for writability.
\<close>

theorem flushes_empty_buffer:
  assumes "is_stream (cn_transport c)" "\<forall>i\<in>set is. 4 < io_written i" "length (cn_send_buffer c) \<le> length is"
  shows "cn_send_buffer (fold (\<lambda>i c. snd (snd (conn_flush i c))) is c) = [] \<and>
    fst (conn_flush j (fold (\<lambda>i c. snd (snd (conn_flush i c))) is c)) = Inr True"
  using assms
proof (induction "is" arbitrary: c)
  case Nil
  then show ?case by (simp add: conn_flush_def flush_buffer_def)
next
  case (Cons i "is")
  define c1 where "c1 = snd (snd (conn_flush i c))"
  have c1: "is_stream (cn_transport c1)" "length (cn_send_buffer c1) \<le> length (cn_send_buffer c) - 1"
    using Cons.prems(1, 2) by (auto simp: c1_def conn_flush_def flush_buffer_def stream_send)
  then have "length (cn_send_buffer c1) \<le> length is" using Cons.prems(3) by simp
  then show ?case using Cons.IH [OF c1(1)] Cons.prems(2) by (simp add: c1_def)
qed

theorem flushes_empty_buffer_witness:
  "cn_send_buffer (fold (\<lambda>i c. snd (snd (conn_flush i c))) (replicate 3 (sample_io\<lparr>io_written := 5\<rparr>)) (sample_conn\<lparr>cn_send_buffer := [1, 2, 3]\<rparr>)) = []"
  using flushes_empty_buffer [of "sample_conn\<lparr>cn_send_buffer := [1, 2, 3]\<rparr>" "replicate 3 (sample_io\<lparr>io_written := 5\<rparr>)" sample_io]
  by (simp add: sample_conn_def ClientConnection_ctor_def create_tls_def is_stream_def)

end
