(* ===== verification/Event_Loop.thy ===== *)
theory Event_Loop
  imports Transport
begin

text \<open>
  The event loop (\<open>src/src/transport/event_loop.cpp\<close>) and \<open>ConnectionManager\<close>
  (\<open>src/src/transport/connection.cpp\<close>). \<open>el_interest\<close> is the kernel's interest list of the epoll instance:
  adding a descriptor that is there and modifying one that is not are errors the code ignores. What
  \<open>epoll_wait\<close> returns is an argument of \<open>run_once\<close>. The loop looks the handler of every event up when it comes
  to that event, so an event whose descriptor an earlier handler removed is skipped.
\<close>

unbundle bit_operations_syntax

section \<open>EventLoop\<close>

definition EPOLLIN :: "32 word" where "EPOLLIN = 0x001"
definition EPOLLOUT :: "32 word" where "EPOLLOUT = 0x004"
definition EPOLLERR :: "32 word" where "EPOLLERR = 0x008"
definition EPOLLHUP :: "32 word" where "EPOLLHUP = 0x010"
definition EPOLLRDHUP :: "32 word" where "EPOLLRDHUP = 0x2000"

definition MAX_EVENTS :: nat where
  "MAX_EVENTS = 10"

definition has_flag :: "32 word \<Rightarrow> 32 word \<Rightarrow> bool" where
  "has_flag evm flags \<longleftrightarrow> evm AND flags \<noteq> 0"

datatype IEventHandler = AcceptHandler | ServerHandler | ClientHandler | PeerAcceptHandler | PeerEventHandler

record EventLoop =
  el_epollfd :: int
  el_wakeup_fd :: int
  el_wakeup :: bool
  el_handlers :: "int \<Rightarrow> IEventHandler option"
  el_interest :: "int \<Rightarrow> 32 word option"

definition EventLoop_ctor :: "int \<Rightarrow> int \<Rightarrow> EventLoop cpp" where
  "EventLoop_ctor epoll_create1 eventfd =
     (if epoll_create1 = - 1 then Inl (RuntimeError ''epoll_create1 failed'')
      else if eventfd = - 1 then Inl (RuntimeError ''eventfd failed'')
      else Inr \<lparr>el_epollfd = epoll_create1, el_wakeup_fd = eventfd, el_wakeup = False,
                el_handlers = Map.empty, el_interest = [eventfd \<mapsto> EPOLLIN]\<rparr>)"

definition remove_fd :: "int \<Rightarrow> EventLoop \<Rightarrow> EventLoop" where
  "remove_fd fd el = el\<lparr>el_interest := (el_interest el)(fd := None), el_handlers := (el_handlers el)(fd := None)\<rparr>"

definition add_fd :: "int \<Rightarrow> IEventHandler \<Rightarrow> 32 word \<Rightarrow> EventLoop \<Rightarrow> EventLoop" where
  "add_fd fd handler events el =
     el\<lparr>el_interest := (if el_interest el fd = None then (el_interest el)(fd \<mapsto> events) else el_interest el),
        el_handlers := (el_handlers el)(fd \<mapsto> handler)\<rparr>"

definition el_stop :: "EventLoop \<Rightarrow> EventLoop" where
  "el_stop el = el\<lparr>el_wakeup := True\<rparr>"

definition epoll_mod :: "int \<Rightarrow> 32 word \<Rightarrow> EventLoop \<Rightarrow> EventLoop" where
  "epoll_mod fd events el =
     el\<lparr>el_interest := (if el_interest el fd = None then el_interest el else (el_interest el)(fd \<mapsto> events))\<rparr>"

definition enable_write :: "int \<Rightarrow> EventLoop \<Rightarrow> EventLoop" where
  "enable_write fd = epoll_mod fd (EPOLLIN OR EPOLLOUT OR EPOLLERR OR EPOLLHUP OR EPOLLRDHUP)"

definition disable_write :: "int \<Rightarrow> EventLoop \<Rightarrow> EventLoop" where
  "disable_write fd = epoll_mod fd (EPOLLIN OR EPOLLERR OR EPOLLHUP OR EPOLLRDHUP)"

text \<open>The text of the exception of \<open>run_once\<close>, in UTF-8.\<close>

definition epoll_error_text :: string where
  "epoll_error_text = to_string [0xD0, 0xBE, 0xD1, 0x88, 0xD0, 0xB8, 0xD0, 0xB1, 0xD0, 0xBA, 0xD0, 0xB0, 0x20] @ ''epoll_wait''"

text \<open>
  \<open>run_once\<close> for an object with state \<open>'s\<close> that holds the loop: \<open>get\<close> and \<open>put\<close> read and replace the loop, and
  \<open>handle\<close> is the call of a handler, with what the system calls inside it return (\<open>'o\<close>).
\<close>

datatype 'o epoll_result = Events "(int \<times> 32 word \<times> 'o) list" | Interrupted | EpollError string

fun dispatch_events :: "('s \<Rightarrow> EventLoop) \<Rightarrow> (EventLoop \<Rightarrow> 's \<Rightarrow> 's) \<Rightarrow>
    (IEventHandler \<Rightarrow> 'o \<Rightarrow> int \<Rightarrow> 32 word \<Rightarrow> (unit, 's) action) \<Rightarrow> (int \<times> 32 word \<times> 'o) list \<Rightarrow> (unit, 's) action" where
  "dispatch_events get put handle [] = ret ()"
| "dispatch_events get put handle ((fd, evm, orc) # evs) =
     andThen (\<lambda>s.
        if fd = el_wakeup_fd (get s) then (Inr (), put ((get s)\<lparr>el_wakeup := False\<rparr>) s)
        else (case el_handlers (get s) fd of
                None \<Rightarrow> (Inr (), s)
              | Some h \<Rightarrow> handle h orc fd evm s))
       (\<lambda>_. dispatch_events get put handle evs)"

fun run_once :: "('s \<Rightarrow> EventLoop) \<Rightarrow> (EventLoop \<Rightarrow> 's \<Rightarrow> 's) \<Rightarrow>
    (IEventHandler \<Rightarrow> 'o \<Rightarrow> int \<Rightarrow> 32 word \<Rightarrow> (unit, 's) action) \<Rightarrow> 'o epoll_result \<Rightarrow> (unit, 's) action" where
  "run_once get put handle (Events evs) = dispatch_events get put handle (take MAX_EVENTS evs)"
| "run_once get put handle Interrupted = ret ()"
| "run_once get put handle (EpollError errno_text) = lift (Inl (RuntimeError (epoll_error_text @ errno_text)))"


section \<open>ConnectionManager\<close>

type_synonym ConnectionManager = "int \<Rightarrow> ClientConnection option"

definition add_connection :: "int \<Rightarrow> ClientConnection \<Rightarrow> ConnectionManager \<Rightarrow> ConnectionManager" where
  "add_connection fd conn connections = connections(fd \<mapsto> conn)"

definition find_connection :: "int \<Rightarrow> ConnectionManager \<Rightarrow> bool" where
  "find_connection fd connections = (connections fd \<noteq> None)"

definition remove_connection :: "int \<Rightarrow> ConnectionManager \<Rightarrow> ConnectionManager" where
  "remove_connection fd connections = (if find_connection fd connections then connections(fd := None) else connections)"

definition get_connection :: "int \<Rightarrow> ConnectionManager \<Rightarrow> ClientConnection option" where
  "get_connection fd connections = (if find_connection fd connections then connections fd else None)"

definition send_to_buffer :: "int \<Rightarrow> bytes \<Rightarrow> ConnectionManager \<Rightarrow> ConnectionManager" where
  "send_to_buffer fd data connections =
     (case get_connection fd connections of None \<Rightarrow> connections | Some c \<Rightarrow> connections(fd \<mapsto> conn_queue_send data c))"


section \<open>Lemmas\<close>

lemma el_simps [simp]:
  "el_handlers (remove_fd fd el) = (el_handlers el)(fd := None)" "el_interest (remove_fd fd el) = (el_interest el)(fd := None)"
  "el_handlers (add_fd fd h ev el) = (el_handlers el)(fd \<mapsto> h)" "el_handlers (epoll_mod fd ev el) = el_handlers el"
  "el_handlers (enable_write fd el) = el_handlers el" "el_handlers (disable_write fd el) = el_handlers el"
  "el_handlers (el_stop el) = el_handlers el"
  "el_wakeup_fd (remove_fd fd el) = el_wakeup_fd el" "el_wakeup_fd (add_fd fd h ev el) = el_wakeup_fd el"
  "el_wakeup_fd (enable_write fd el) = el_wakeup_fd el" "el_wakeup_fd (disable_write fd el) = el_wakeup_fd el"
  "dom (el_interest (enable_write fd el)) = dom (el_interest el)" "dom (el_interest (disable_write fd el)) = dom (el_interest el)"
  by (auto simp: remove_fd_def add_fd_def epoll_mod_def enable_write_def disable_write_def el_stop_def)

lemma connection_simps [simp]:
  "remove_connection fd cs = cs(fd := None)" "get_connection fd cs = cs fd" "find_connection fd cs \<longleftrightarrow> cs fd \<noteq> None"
  "dom (send_to_buffer fd data cs) = dom cs"
  by (auto simp: remove_connection_def get_connection_def find_connection_def send_to_buffer_def split: option.splits)

text \<open>The system calls of each event of a round behave as \<open>valid\<close> says in the state that event finds.\<close>

fun valid_events :: "('s \<Rightarrow> EventLoop) \<Rightarrow> (EventLoop \<Rightarrow> 's \<Rightarrow> 's) \<Rightarrow>
    (IEventHandler \<Rightarrow> 'o \<Rightarrow> int \<Rightarrow> 32 word \<Rightarrow> (unit, 's) action) \<Rightarrow> ('o \<Rightarrow> 's \<Rightarrow> bool) \<Rightarrow>
    (int \<times> 32 word \<times> 'o) list \<Rightarrow> 's \<Rightarrow> bool" where
  "valid_events get put handle valid [] s = True"
| "valid_events get put handle valid ((fd, evm, orc) # evs) s \<longleftrightarrow> valid orc s \<and>
     (case dispatch_events get put handle [(fd, evm, orc)] s of
        (Inl _, _) \<Rightarrow> True | (Inr _, s') \<Rightarrow> valid_events get put handle valid evs s')"

text \<open>
  What the loop runs: if every handler call keeps an invariant, is free of undefined behaviour, and only ends
  with errors in \<open>E\<close>, so does a round of the loop.
\<close>

locale event_loop_client =
  fixes get :: "'s \<Rightarrow> EventLoop"
    and put :: "EventLoop \<Rightarrow> 's \<Rightarrow> 's"
    and handle :: "IEventHandler \<Rightarrow> 'o \<Rightarrow> int \<Rightarrow> 32 word \<Rightarrow> (unit, 's) action"
    and inv :: "'s \<Rightarrow> bool"
    and valid :: "'o \<Rightarrow> 's \<Rightarrow> bool"
    and bad :: "cpp_error \<Rightarrow> bool"
  assumes wake: "inv s \<Longrightarrow> inv (put ((get s)\<lparr>el_wakeup := b\<rparr>) s)"
    and handler_inv: "inv s \<Longrightarrow> el_handlers (get s) fd = Some h \<Longrightarrow> valid orc s \<Longrightarrow> handle h orc fd evm s = (Inr (), s') \<Longrightarrow> inv s'"
    and handler_safe: "inv s \<Longrightarrow> el_handlers (get s) fd = Some h \<Longrightarrow> valid orc s \<Longrightarrow> handle h orc fd evm s = (Inl e, s') \<Longrightarrow> \<not> bad e"
begin

lemma dispatch_one:
  assumes "inv s" "valid orc s" "dispatch_events get put handle [(fd, evm, orc)] s = (r, s')"
  shows "(r = Inr () \<longrightarrow> inv s') \<and> (\<forall>e. r = Inl e \<longrightarrow> \<not> bad e)"
  using assms wake [OF assms(1), of False] handler_inv [OF assms(1) _ assms(2)] handler_safe [OF assms(1) _ assms(2)]
  by (auto simp: andThen_def ret_def split: if_splits option.splits prod.splits sum.splits)

lemma dispatch_all:
  "inv s \<Longrightarrow> valid_events get put handle valid evs s \<Longrightarrow> dispatch_events get put handle evs s = (r, s') \<Longrightarrow>
   (r = Inr () \<longrightarrow> inv s') \<and> (\<forall>e. r = Inl e \<longrightarrow> \<not> bad e)"
proof (induction evs arbitrary: s)
  case (Cons ev evs)
  obtain fd evm orc where ev: "ev = (fd, evm, orc)" by (metis prod_cases3)
  obtain r1 s1 where 1: "dispatch_events get put handle [(fd, evm, orc)] s = (r1, s1)" by force
  have inv1: "(r1 = Inr () \<longrightarrow> inv s1) \<and> (\<forall>e. r1 = Inl e \<longrightarrow> \<not> bad e)"
    using dispatch_one [OF Cons.prems(1) _ 1] Cons.prems(2) ev by simp
  have split: "dispatch_events get put handle (ev # evs) s =
      (case r1 of Inl e \<Rightarrow> (Inl e, s1) | Inr _ \<Rightarrow> dispatch_events get put handle evs s1)"
    using 1 unfolding ev by (auto simp: andThen_def ret_def split: prod.splits sum.splits)
  show ?case
  proof (cases r1)
    case (Inl e)
    with split inv1 Cons.prems(3) show ?thesis by auto
  next
    case (Inr u)
    then have "valid_events get put handle valid evs s1" using Cons.prems(2) 1 by (simp add: ev)
    then show ?thesis using Cons.IH [of s1] split Cons.prems(3) inv1 Inr by auto
  qed
qed (auto simp: ret_def)

end

end
