(* ===== verification/Server_Transport.thy ===== *)
theory Server_Transport
  imports Event_Loop
begin

text \<open>
  The server's transport: \<open>TCPAcceptor\<close> (\<open>src/src/transport/acceptor.cpp\<close>), \<open>ServerTLSWrapper\<close>
  (\<open>tls.cpp\<close>), \<open>AcceptHandler\<close> and \<open>ServerHandler\<close> (\<open>handling.cpp\<close>) and \<open>Server\<close> (\<open>server.cpp\<close>).

  The application is a parameter: its callbacks take its state and return the messages they sent through
  \<open>Server::send\<close>, in order, with the state they leave. \<open>ServerHandler::clients\<close> holds weak pointers to the connections
  of \<open>connection_manager\<close>; it is the set of its descriptors, and locking one is looking the connection up. What
  the system calls and the TLS library return during the handling of one event is the record \<open>server_io\<close>. \<open>sv_wire\<close>
  records the bytes written, in order. Logging is left out.
\<close>

section \<open>State\<close>

text \<open>\<open>SSL_accept\<close>: done, to be continued, or failed.\<close>

datatype handshake = HsDone | HsWant | HsFailed

record server_io =
  si_accept :: int
  si_handshake :: handshake
  si_io :: io

record 'a server_callbacks =
  on_data_callback :: "int \<Rightarrow> bytes \<Rightarrow> 'a \<Rightarrow> unit cpp \<times> (int \<times> bytes) list \<times> 'a"
  on_disconnected_callback :: "int \<Rightarrow> 'a \<Rightarrow> unit cpp \<times> (int \<times> bytes) list \<times> 'a"

record 'a Server =
  sv_running :: bool
  sv_event_loop :: EventLoop
  sv_connections :: ConnectionManager
  sv_clients :: "int set"
  sv_tls_wrapper :: "int \<Rightarrow> bool option"
  sv_socket_fd :: int
  sv_wire :: "(int \<times> bytes) list"
  sv_app :: 'a

definition sv_put_loop :: "EventLoop \<Rightarrow> 'a Server \<Rightarrow> 'a Server" where
  "sv_put_loop el s = s\<lparr>sv_event_loop := el\<rparr>"

text \<open>\<open>EPOLLIN | EPOLLOUT | EPOLLERR | EPOLLHUP | EPOLLRDHUP\<close>.\<close>

definition all_events :: "32 word" where
  "all_events = EPOLLIN OR EPOLLOUT OR EPOLLERR OR EPOLLHUP OR EPOLLRDHUP"


section \<open>Server\<close>

text \<open>The constructor; \<open>tls_setup\<close> is what OpenSSL returns for the context, the certificate and the private key.\<close>

record tls_setup =
  ts_context :: bool
  ts_certificate :: bool
  ts_private_key :: bool

definition Server_ctor :: "tls_setup \<Rightarrow> EventLoop \<Rightarrow> 'a \<Rightarrow> 'a Server cpp" where
  "Server_ctor ssl el app =
     (if \<not> ts_context ssl then Inl (RuntimeError ''TLS context initialization failed!'')
      else if \<not> ts_certificate ssl \<or> \<not> ts_private_key ssl then Inl (RuntimeError ''TLS certificate load failed!'')
      else Inr \<lparr>sv_running = False, sv_event_loop = el, sv_connections = Map.empty, sv_clients = {}, sv_tls_wrapper = Map.empty,
                sv_socket_fd = - 1, sv_wire = [], sv_app = app\<rparr>)"

definition Server_send :: "int \<Rightarrow> bytes \<Rightarrow> 'a Server \<Rightarrow> 'a Server" where
  "Server_send fd raw_data s =
     s\<lparr>sv_connections := send_to_buffer fd raw_data (sv_connections s), sv_event_loop := enable_write fd (sv_event_loop s)\<rparr>"

definition run_callback :: "('a \<Rightarrow> unit cpp \<times> (int \<times> bytes) list \<times> 'a) \<Rightarrow> (unit, 'a Server) action" where
  "run_callback cb s =
     (let (r, sends, a) = cb (sv_app s) in (r, fold (\<lambda>(fd, data). Server_send fd data) sends (s\<lparr>sv_app := a\<rparr>)))"

definition Server_start :: "int \<Rightarrow> 'a Server \<Rightarrow> 'a Server" where
  "Server_start socket_fd s =
     (let s1 = s\<lparr>sv_socket_fd := socket_fd\<rparr> in
      if socket_fd \<noteq> - 1 then
        s1\<lparr>sv_running := True, sv_event_loop := add_fd socket_fd AcceptHandler all_events (sv_event_loop s1)\<rparr>
      else s1)"

definition Server_stop :: "'a Server \<Rightarrow> 'a Server" where
  "Server_stop s = (if \<not> sv_running s then s else s\<lparr>sv_running := False, sv_event_loop := el_stop (sv_event_loop s)\<rparr>)"

definition Server_dtor :: "'a Server \<Rightarrow> 'a Server" where
  "Server_dtor s = Server_stop s"

text \<open>\<open>tls_wrapper_[fd]->handshake_done_\<close>: for a descriptor without a wrapper the map gives a null pointer.\<close>

definition tls_handshake_done :: "int \<Rightarrow> 'a Server \<Rightarrow> bool cpp" where
  "tls_handshake_done fd s = (case sv_tls_wrapper s fd of
       None \<Rightarrow> Inl (Undefined ''null tls wrapper'') | Some done_flag \<Rightarrow> Inr done_flag)"

definition wrapper_handshake :: "handshake \<Rightarrow> bool \<Rightarrow> bool cpp" where
  "wrapper_handshake rc handshake_done = (case rc of
       HsDone \<Rightarrow> Inr True | HsWant \<Rightarrow> Inr handshake_done | HsFailed \<Rightarrow> Inl (RuntimeError ''TLS SSL accept error''))"

definition tls_handshake :: "handshake \<Rightarrow> int \<Rightarrow> (unit, 'a Server) action" where
  "tls_handshake rc fd s = (case sv_tls_wrapper s fd of
       None \<Rightarrow> (Inl (Undefined ''null tls wrapper''), s)
     | Some d \<Rightarrow> (case wrapper_handshake rc d of
           Inl e \<Rightarrow> (Inl e, s)
         | Inr d' \<Rightarrow> (Inr (), s\<lparr>sv_tls_wrapper := (sv_tls_wrapper s)(fd \<mapsto> d')\<rparr>)))"

definition add_client :: "int \<Rightarrow> 'a Server \<Rightarrow> 'a Server" where
  "add_client fd s = s\<lparr>sv_clients := insert fd (sv_clients s)\<rparr>"

text \<open>The wrapper's constructor starts the handshake; if that throws, the wrapper is not stored.\<close>

definition on_client_connected :: "handshake \<Rightarrow> ClientConnection \<Rightarrow> (unit, 'a Server) action" where
  "on_client_connected rc conn s =
     (let fd = cn_fd conn;
          s1 = (add_client fd (s\<lparr>sv_connections := add_connection fd conn (sv_connections s)\<rparr>))
                 \<lparr>sv_event_loop := add_fd fd ServerHandler all_events (sv_event_loop s)\<rparr> in
      case wrapper_handshake rc False of
        Inl e \<Rightarrow> (Inl e, s1)
      | Inr d \<Rightarrow> (Inr (), s1\<lparr>sv_tls_wrapper := (sv_tls_wrapper s1)(fd \<mapsto> d),
                            sv_connections := (sv_connections s1)(fd \<mapsto> init_transport (create_tls fd) conn)\<rparr>))"

definition on_client_disconnected :: "'a server_callbacks \<Rightarrow> int \<Rightarrow> (unit, 'a Server) action" where
  "on_client_disconnected cb fd =
     andThen (modify (\<lambda>s. s\<lparr>sv_event_loop := remove_fd fd (sv_event_loop s)\<rparr>)) (\<lambda>_.
     andThen (run_callback (on_disconnected_callback cb fd)) (\<lambda>_.
     modify (\<lambda>s. s\<lparr>sv_connections := remove_connection fd (sv_connections s),
                   sv_tls_wrapper := (sv_tls_wrapper s)(fd := None)\<rparr>)))"

definition on_client_message :: "'a server_callbacks \<Rightarrow> int \<Rightarrow> bytes \<Rightarrow> (unit, 'a Server) action" where
  "on_client_message cb fd data =
     (if data \<noteq> [] then
        (if to_string data = ''/exit'' then ret () else run_callback (on_data_callback cb fd data))
      else ret ())"

definition on_client_writable :: "io \<Rightarrow> int \<Rightarrow> (unit, 'a Server) action" where
  "on_client_writable i fd s = (case get_connection fd (sv_connections s) of
       None \<Rightarrow> (Inr (), s)
     | Some conn \<Rightarrow>
        (let (r, wire, conn') = conn_flush i conn;
             s1 = s\<lparr>sv_connections := (sv_connections s)(fd \<mapsto> conn'), sv_wire := sv_wire s @ [(fd, wire)]\<rparr> in
         case r of
           Inl e \<Rightarrow> (Inl e, s1)
         | Inr flushed \<Rightarrow> (Inr (), if flushed then s1\<lparr>sv_event_loop := disable_write fd (sv_event_loop s1)\<rparr> else s1)))"


section \<open>Handlers\<close>

definition remove_client :: "int \<Rightarrow> 'a Server \<Rightarrow> 'a Server" where
  "remove_client fd s = s\<lparr>sv_clients := sv_clients s - {fd}\<rparr>"

definition server_drop :: "'a server_callbacks \<Rightarrow> int \<Rightarrow> (unit, 'a Server) action" where
  "server_drop cb fd = andThen (modify (remove_client fd)) (\<lambda>_. on_client_disconnected cb fd)"

text \<open>The readable branch; \<open>True\<close> when the function goes on to the writable branch. It takes at most one message off
  the receive buffer.\<close>

definition server_readable :: "'a server_callbacks \<Rightarrow> io \<Rightarrow> int \<Rightarrow> (bool, 'a Server) action" where
  "server_readable cb i fd s =
     (if fd \<notin> sv_clients s then (Inr False, s)
      else case sv_connections s fd of
        None \<Rightarrow> (Inl (Undefined ''expired connection''), s)
      | Some conn \<Rightarrow>
         (let (r, conn1) = conn_try_receive i conn; s1 = s\<lparr>sv_connections := (sv_connections s)(fd \<mapsto> conn1)\<rparr> in
          case r of
            Inl e \<Rightarrow> (Inl e, s1)
          | Inr True \<Rightarrow>
             (if \<not> conn_has_complete_message conn1 then (Inr False, s1)
              else let (m, conn2) = conn_extract_message conn1; s2 = s1\<lparr>sv_connections := (sv_connections s1)(fd \<mapsto> conn2)\<rparr> in
                case m of
                  Inl e \<Rightarrow> (Inl e, s2)
                | Inr msg \<Rightarrow> andThen (on_client_message cb fd msg) (\<lambda>_. ret True) s2)
          | Inr False \<Rightarrow> andThen (server_drop cb fd) (\<lambda>_. ret True) s1))"

definition server_handle_event :: "'a server_callbacks \<Rightarrow> server_io \<Rightarrow> int \<Rightarrow> 32 word \<Rightarrow> (unit, 'a Server) action" where
  "server_handle_event cb orc fd event_mask s =
     (if has_flag event_mask (EPOLLERR OR EPOLLHUP OR EPOLLRDHUP) then server_drop cb fd s
      else case tls_handshake_done fd s of
        Inl e \<Rightarrow> (Inl e, s)
      | Inr False \<Rightarrow>
         (if has_flag event_mask (EPOLLIN OR EPOLLOUT) then tls_handshake (si_handshake orc) fd s else (Inr (), s))
      | Inr True \<Rightarrow>
         andThen (if has_flag event_mask EPOLLIN then server_readable cb (si_io orc) fd else ret True) (\<lambda>go_on s1.
           if go_on \<and> has_flag event_mask EPOLLOUT then
             (if fd \<notin> sv_clients s1 then (Inr (), s1) else on_client_writable (si_io orc) fd s1)
           else (Inr (), s1)) s)"

text \<open>\<open>TCPAcceptor::accept\<close> and \<open>AcceptHandler::handle_event\<close>.\<close>

definition tcp_accept :: "server_io \<Rightarrow> ClientConnection option" where
  "tcp_accept orc =
     (if si_accept orc = - 1 then None
      else Some (init_transport (create_tcp (si_accept orc)) (ClientConnection_ctor (si_accept orc) (create_tcp (si_accept orc)))))"

text \<open>\<open>UDPAcceptor::accept\<close>, with what the peeking \<open>recvfrom\<close> returns; every connection has the server's descriptor.\<close>

definition udp_accept :: "int \<Rightarrow> int \<Rightarrow> sockaddr \<Rightarrow> ClientConnection option" where
  "udp_accept server_fd peeked addr =
     (if peeked < 0 then None
      else Some (init_transport (create_udp server_fd addr) (ClientConnection_ctor server_fd (create_udp server_fd addr))))"

definition accept_handle_event :: "server_io \<Rightarrow> int \<Rightarrow> 32 word \<Rightarrow> (unit, 'a Server) action" where
  "accept_handle_event orc fd event_mask s =
     (if has_flag event_mask EPOLLIN then
        (case tcp_accept orc of
           None \<Rightarrow> (Inr (), s)
         | Some conn \<Rightarrow> on_client_connected (si_handshake orc) conn s)
      else (Inr (), s))"

fun handle_event :: "'a server_callbacks \<Rightarrow> IEventHandler \<Rightarrow> server_io \<Rightarrow> int \<Rightarrow> 32 word \<Rightarrow> (unit, 'a Server) action" where
  "handle_event cb AcceptHandler orc fd event_mask = accept_handle_event orc fd event_mask"
| "handle_event cb ServerHandler orc fd event_mask = server_handle_event cb orc fd event_mask"
| "handle_event cb _ orc fd event_mask = ret ()"

text \<open>\<open>run_event_loop\<close>, for a given sequence of rounds; an exception ends it.\<close>

definition server_round :: "'a server_callbacks \<Rightarrow> server_io epoll_result \<Rightarrow> (unit, 'a Server) action" where
  "server_round cb = run_once sv_event_loop sv_put_loop (handle_event cb)"

fun run_event_loop :: "'a server_callbacks \<Rightarrow> server_io epoll_result list \<Rightarrow> (unit, 'a Server) action" where
  "run_event_loop cb [] = ret ()"
| "run_event_loop cb (ep # eps) =
     (\<lambda>s. if \<not> sv_running s then (Inr (), s) else andThen (server_round cb ep) (\<lambda>_. run_event_loop cb eps) s)"

section \<open>Invariant\<close>

text \<open>
  The four tables agree: the connections, the handler's clients, the TLS wrappers and the descriptors the loop hands to
  the server's handler are the same set, which the listening socket and the wakeup descriptor are not in.
\<close>

definition fd_ok :: "'a Server \<Rightarrow> int \<Rightarrow> bool" where
  "fd_ok s fd \<longleftrightarrow> (sv_connections s fd \<noteq> None \<longleftrightarrow> fd \<in> sv_clients s) \<and> (sv_tls_wrapper s fd \<noteq> None \<longleftrightarrow> fd \<in> sv_clients s) \<and>
     (el_handlers (sv_event_loop s) fd = Some ServerHandler \<longleftrightarrow> fd \<in> sv_clients s) \<and>
     (fd \<in> sv_clients s \<longrightarrow> el_interest (sv_event_loop s) fd \<noteq> None \<and> fd \<noteq> el_wakeup_fd (sv_event_loop s))"

definition transport_inv :: "'a Server \<Rightarrow> bool" where
  "transport_inv s \<longleftrightarrow> (\<forall>fd. fd_ok s fd)"

text \<open>The kernel hands out descriptors that are not open.\<close>

definition fresh_accept :: "server_io \<Rightarrow> 'a Server \<Rightarrow> bool" where
  "fresh_accept orc s \<longleftrightarrow> el_handlers (sv_event_loop s) (si_accept orc) = None \<and> si_accept orc \<noteq> el_wakeup_fd (sv_event_loop s)"

lemma send_to_buffer_None: "send_to_buffer fd d cs x = None \<longleftrightarrow> cs x = None"
  by (auto simp: send_to_buffer_def split: option.splits)

lemma interest_write: "el_interest (enable_write fd el) x = None \<longleftrightarrow> el_interest el x = None"
    "el_interest (disable_write fd el) x = None \<longleftrightarrow> el_interest el x = None"
  by (auto simp: enable_write_def disable_write_def epoll_mod_def)

lemma fd_ok_send [simp]: "fd_ok (Server_send fd d s) x = fd_ok s x"
  by (simp add: fd_ok_def Server_send_def send_to_buffer_None interest_write)

lemma fd_ok_sends [simp]: "fd_ok (fold (\<lambda>(fd, d). Server_send fd d) sends s) x = fd_ok s x"
proof (induction sends arbitrary: s)
  case (Cons p sends)
  then show ?case by (cases p) simp
qed simp

lemma sv_app_sends [simp]: "sv_app (fold (\<lambda>(fd, d). Server_send fd d) sends s) = sv_app s"
  by (induction sends arbitrary: s) (auto simp: Server_send_def)

lemma sv_frame_sends [simp]:
  "sv_tls_wrapper (fold (\<lambda>(fd, d). Server_send fd d) sends s) = sv_tls_wrapper s" "sv_wire (fold (\<lambda>(fd, d). Server_send fd d) sends s) = sv_wire s"
  by (induction sends arbitrary: s) (auto simp: Server_send_def)

lemma sv_clients_sends [simp]: "sv_clients (fold (\<lambda>(fd, d). Server_send fd d) sends s) = sv_clients s"
  by (induction sends arbitrary: s) (auto simp: Server_send_def)

lemma el_handlers_sends [simp]:
  "el_handlers (sv_event_loop (fold (\<lambda>(fd, d). Server_send fd d) sends s)) = el_handlers (sv_event_loop s)"
  by (induction sends arbitrary: s) (auto simp: Server_send_def)

lemma fd_ok_app [simp]: "fd_ok (s\<lparr>sv_app := a\<rparr>) x = fd_ok s x" "fd_ok (s\<lparr>sv_wire := w\<rparr>) x = fd_ok s x"
    "fd_ok (s\<lparr>sv_event_loop := disable_write fd (sv_event_loop s)\<rparr>) x = fd_ok s x"
  by (simp_all add: fd_ok_def interest_write)

lemma transport_inv_conn: "transport_inv s \<Longrightarrow> fd \<in> sv_clients s \<Longrightarrow> transport_inv (s\<lparr>sv_connections := (sv_connections s)(fd \<mapsto> c)\<rparr>)"
  by (simp add: transport_inv_def fd_ok_def)

lemma transport_inv_tls: "transport_inv s \<Longrightarrow> fd \<in> sv_clients s \<Longrightarrow> transport_inv (s\<lparr>sv_tls_wrapper := (sv_tls_wrapper s)(fd \<mapsto> d)\<rparr>)"
  by (simp add: transport_inv_def fd_ok_def)

lemma on_client_connected_inv:
  assumes "transport_inv s" "cn_fd conn \<noteq> el_wakeup_fd (sv_event_loop s)" "on_client_connected rc conn s = (Inr (), s')"
  shows "transport_inv s' \<and> sv_app s' = sv_app s"
proof -
  obtain d where d: "wrapper_handshake rc False = Inr d" using assms(3) by (auto simp: on_client_connected_def Let_def split: sum.splits)
  have "fd_ok s' fd" for fd
  proof (cases "fd = cn_fd conn")
    case True
    with assms d show ?thesis
      by (auto simp: on_client_connected_def add_client_def Let_def fd_ok_def add_fd_def add_connection_def)
  next
    case False
    have "fd_ok s fd" using assms(1) by (simp add: transport_inv_def)
    with False assms(3) d show ?thesis
      by (auto simp: on_client_connected_def add_client_def Let_def fd_ok_def add_fd_def add_connection_def)
  qed
  then show ?thesis using assms(3) d by (auto simp: transport_inv_def on_client_connected_def add_client_def Let_def)
qed

lemma transport_inv_handler: "transport_inv s \<Longrightarrow> el_handlers (sv_event_loop s) fd = Some ServerHandler \<Longrightarrow>
    fd \<in> sv_clients s \<and> (\<exists>c. sv_connections s fd = Some c) \<and> (\<exists>d. sv_tls_wrapper s fd = Some d)"
  unfolding transport_inv_def fd_ok_def by blast

text \<open>What is left to agree on while a client is being dropped.\<close>

definition dropping :: "int \<Rightarrow> 'a Server \<Rightarrow> bool" where
  "dropping fd s \<longleftrightarrow> (\<forall>x. x \<noteq> fd \<longrightarrow> fd_ok s x) \<and> fd \<notin> sv_clients s \<and> el_handlers (sv_event_loop s) fd \<noteq> Some ServerHandler"

lemma dropping_sends: "dropping fd (fold (\<lambda>(fd, d). Server_send fd d) sends (s\<lparr>sv_app := a\<rparr>)) = dropping fd s"
  by (simp add: dropping_def)

lemma dropping_start:
  "transport_inv s \<Longrightarrow> dropping fd ((remove_client fd s)\<lparr>sv_event_loop := remove_fd fd (sv_event_loop s)\<rparr>)"
  by (simp add: transport_inv_def dropping_def fd_ok_def remove_client_def)

lemma dropping_done:
  "dropping fd s \<Longrightarrow> transport_inv (s\<lparr>sv_connections := remove_connection fd (sv_connections s), sv_tls_wrapper := (sv_tls_wrapper s)(fd := None)\<rparr>)"
  by (simp add: transport_inv_def dropping_def fd_ok_def)


text \<open>Receiving and flushing never fail by themselves.\<close>

lemma transport_receive_Inr:
  obtains res t' where "transport_receive i t = (Inr res, t')"
proof -
  have "\<exists>res. fst (receive_loop acc rs) = Inr res" for acc rs
  proof (induction acc rs rule: receive_loop.induct)
    case (2 acc a temp rs)
    then show ?case using receive_result_eq by (auto split: option.splits) metis
  qed (use receive_result_eq in \<open>simp; metis\<close>)+
  moreover have "\<exists>res. fst (udp_receive a rs) = Inr res" for a rs
    by (cases "(a, rs)" rule: udp_receive.cases) (use receive_result_eq in \<open>auto simp: Let_def; metis\<close>)+
  ultimately have "\<exists>res. fst (transport_receive i t) = Inr res"
    by (cases t) (auto simp: tcp_receive_def tls_receive_def split: prod.splits; metis fst_conv)+
  then show ?thesis using that by (metis prod.collapse)
qed

lemma try_receive_Inr:
  obtains b c' where "conn_try_receive i c = (Inr b, c')"
  by (rule transport_receive_Inr [of i "cn_transport c"]) (use that in \<open>auto simp: conn_try_receive_def\<close>)

lemma conn_flush_Inr:
  obtains b wire c' where "conn_flush i c = (Inr b, wire, c')"
proof -
  obtain r wire buf where f: "flush_buffer i (cn_transport c) (cn_send_buffer c) = (r, wire, buf)" by (metis prod_cases3)
  obtain b where "r = Inr b" using flush_buffer_defined [of i "cn_transport c" "cn_send_buffer c"] f by auto
  with f show ?thesis by (intro that [of b wire "c\<lparr>cn_send_buffer := buf\<rparr>"]) (simp add: conn_flush_def)
qed


section \<open>The contract of the application\<close>

text \<open>The callbacks keep an invariant of the application and are free of undefined behaviour; they may throw.\<close>

locale server_application =
  fixes cb :: "'a server_callbacks"
    and P :: "'a \<Rightarrow> bool"
  assumes data_callback: "P a \<Longrightarrow> on_data_callback cb fd d a = (r, sends, a') \<Longrightarrow> P a' \<and> (\<forall>w. r \<noteq> Inl (Undefined w))"
    and disconnected_callback: "P a \<Longrightarrow> on_disconnected_callback cb fd a = (r, sends, a') \<Longrightarrow> P a' \<and> (\<forall>w. r \<noteq> Inl (Undefined w))"
begin

definition inv :: "'a Server \<Rightarrow> bool" where
  "inv s \<longleftrightarrow> transport_inv s \<and> P (sv_app s)"

text \<open>The one undefined operation a handler can reach: the framer's, on a frame whose announced length wraps.\<close>

definition bad :: "cpp_error \<Rightarrow> bool" where
  "bad e \<longleftrightarrow> (\<exists>w. e = Undefined w \<and> w \<noteq> ''range past the end of the buffer'')"

lemma run_data:
  assumes "inv s" "run_callback (on_data_callback cb fd d) s = (r, s')"
  shows "inv s' \<and> sv_clients s' = sv_clients s \<and> (\<forall>e. r = Inl e \<longrightarrow> \<not> bad e)"
  using assms data_callback [of "sv_app s" fd d]
  by (auto simp: run_callback_def inv_def transport_inv_def bad_def split: prod.splits)

lemma drop_client:
  assumes "inv s" "server_drop cb fd s = (r, s')"
  shows "(r = Inr () \<longrightarrow> inv s') \<and> (\<forall>e. r = Inl e \<longrightarrow> \<not> bad e)"
proof -
  let ?s1 = "(remove_client fd s)\<lparr>sv_event_loop := remove_fd fd (sv_event_loop s)\<rparr>"
  obtain r1 sends a' where c: "on_disconnected_callback cb fd (sv_app s) = (r1, sends, a')" by (metis prod_cases3)
  have a: "P a'" "\<forall>w. r1 \<noteq> Inl (Undefined w)" using disconnected_callback [OF _ c] assms(1) by (auto simp: inv_def)
  define s2 where "s2 = fold (\<lambda>(fd, data). Server_send fd data) sends (?s1\<lparr>sv_app := a'\<rparr>)"
  have "dropping fd s2" unfolding s2_def dropping_sends using dropping_start assms(1) by (auto simp: inv_def)
  from dropping_done [OF this]
  have i: "inv (s2\<lparr>sv_connections := remove_connection fd (sv_connections s2), sv_tls_wrapper := (sv_tls_wrapper s2)(fd := None)\<rparr>)"
    using a(1) by (simp add: inv_def s2_def)
  have "server_drop cb fd s = (case r1 of Inl e \<Rightarrow> (Inl e, s2)
      | Inr _ \<Rightarrow> (Inr (), s2\<lparr>sv_connections := remove_connection fd (sv_connections s2), sv_tls_wrapper := (sv_tls_wrapper s2)(fd := None)\<rparr>))"
    using c by (simp add: server_drop_def on_client_disconnected_def run_callback_def action_simps andThen_def s2_def remove_client_def modify_def
        split: sum.splits)
  with i a(2) assms(2) show ?thesis by (auto simp: bad_def split: sum.splits)
qed

lemma message_ok:
  assumes "inv s" "on_client_message cb fd msg s = (r, s')"
  shows "inv s' \<and> sv_clients s' = sv_clients s \<and> (\<forall>e. r = Inl e \<longrightarrow> \<not> bad e)"
  using assms run_data [of s fd msg r s'] by (auto simp: on_client_message_def ret_def split: if_splits)

lemma inv_conn: "inv s \<Longrightarrow> fd \<in> sv_clients s \<Longrightarrow> inv (s\<lparr>sv_connections := (sv_connections s)(fd \<mapsto> c)\<rparr>)"
  by (simp add: inv_def transport_inv_conn)

lemma readable_ok:
  assumes "inv s" "server_readable cb i fd s = (r, s')"
  shows "(\<forall>b. r = Inr b \<longrightarrow> inv s') \<and> (\<forall>e. r = Inl e \<longrightarrow> \<not> bad e)"
proof (cases "fd \<in> sv_clients s")
  case True
  then obtain c where c: "sv_connections s fd = Some c" using assms(1) by (auto simp: inv_def transport_inv_def fd_ok_def)
  obtain b c1 where b: "conn_try_receive i c = (Inr b, c1)" by (rule try_receive_Inr)
  let ?s1 = "s\<lparr>sv_connections := (sv_connections s)(fd \<mapsto> c1)\<rparr>"
  have i1: "inv ?s1" using assms(1) True by (rule inv_conn)
  show ?thesis
  proof (cases "b \<and> conn_has_complete_message c1")
    case False
    show ?thesis
    proof (cases b)
      case True
      with False assms(2) \<open>fd \<in> sv_clients s\<close> c b i1 show ?thesis by (auto simp: server_readable_def)
    next
      case False
      obtain r1 s1 where d: "server_drop cb fd ?s1 = (r1, s1)" by force
      have "(r, s') = (case r1 of Inl e \<Rightarrow> (Inl e, s1) | Inr _ \<Rightarrow> (Inr True, s1))"
        using assms(2) \<open>fd \<in> sv_clients s\<close> c b False d by (auto simp: server_readable_def andThen_def ret_def split: sum.splits)
      with drop_client [OF i1 d] show ?thesis by (auto split: sum.splits)
    qed
  next
    case complete: True
    show ?thesis
    proof (cases "extract_message (cn_recv_buffer c1)")
      case (Inl e)
      then have "r = Inl e" using assms(2) True c b complete by (auto simp: server_readable_def conn_extract_message_def)
      moreover have "e = Undefined ''range past the end of the buffer''"
        using Inl complete by (auto simp: conn_has_complete_message_def has_message_in_buffer_def extract_message_def Let_def split: if_splits)
      ultimately show ?thesis by (simp add: bad_def)
    next
      case (Inr ml)
      obtain msg left where ml: "ml = (msg, left)" by force
      let ?s2 = "?s1\<lparr>sv_connections := (sv_connections ?s1)(fd \<mapsto> c1\<lparr>cn_recv_buffer := left\<rparr>)\<rparr>"
      have i2: "inv ?s2" by (rule inv_conn [OF i1]) (use True in simp)
      obtain r1 s1 where m: "on_client_message cb fd msg ?s2 = (r1, s1)" by force
      have "(r, s') = (case r1 of Inl e \<Rightarrow> (Inl e, s1) | Inr _ \<Rightarrow> (Inr True, s1))"
        using assms(2) True c b complete Inr ml m
        by (auto simp: server_readable_def conn_extract_message_def andThen_def ret_def split: sum.splits)
      with message_ok [OF i2 m] show ?thesis by (auto split: sum.splits)
    qed
  qed
next
  case False
  with assms show ?thesis by (auto simp: server_readable_def)
qed

lemma writable_ok:
  assumes "inv s" "fd \<in> sv_clients s" "on_client_writable i fd s = (r, s')"
  shows "r = Inr () \<and> inv s'"
proof -
  obtain c where c: "sv_connections s fd = Some c" using assms(1, 2) by (auto simp: inv_def transport_inv_def fd_ok_def)
  obtain b wire c' where f: "conn_flush i c = (Inr b, wire, c')" by (rule conn_flush_Inr)
  define s1 where "s1 = s\<lparr>sv_connections := (sv_connections s)(fd \<mapsto> c'), sv_wire := sv_wire s @ [(fd, wire)]\<rparr>"
  have i1: "inv s1" using inv_conn [OF assms(1, 2), of c'] by (simp add: inv_def transport_inv_def fd_ok_def s1_def)
  then have "inv (s1\<lparr>sv_event_loop := disable_write fd (sv_event_loop s1)\<rparr>)" by (simp add: inv_def transport_inv_def)
  moreover have "on_client_writable i fd s = (Inr (), if b then s1\<lparr>sv_event_loop := disable_write fd (sv_event_loop s1)\<rparr> else s1)"
    using c f by (simp add: on_client_writable_def s1_def Let_def)
  ultimately show ?thesis using i1 assms(3) by (auto split: if_splits)
qed

lemma server_event_ok:
  assumes "inv s" "el_handlers (sv_event_loop s) fd = Some ServerHandler" "server_handle_event cb orc fd evm s = (r, s')"
  shows "(r = Inr () \<longrightarrow> inv s') \<and> (\<forall>e. r = Inl e \<longrightarrow> \<not> bad e)"
proof (cases "has_flag evm (EPOLLERR OR EPOLLHUP OR EPOLLRDHUP)")
  case True
  with assms(3) drop_client [OF assms(1), of fd r s'] show ?thesis by (simp add: server_handle_event_def)
next
  case alive: False
  obtain d where d: "sv_tls_wrapper s fd = Some d" "fd \<in> sv_clients s"
    using transport_inv_handler assms(1, 2) by (auto simp: inv_def)
  show ?thesis
  proof (cases d)
    case False
    have "inv (s\<lparr>sv_tls_wrapper := (sv_tls_wrapper s)(fd \<mapsto> x)\<rparr>)" for x
      using assms(1) d(2) by (simp add: inv_def transport_inv_tls)
    with False assms alive d show ?thesis
      by (auto simp: server_handle_event_def tls_handshake_done_def tls_handshake_def wrapper_handshake_def bad_def
          split: handshake.splits if_splits)
  next
    case True
    obtain r1 s1 where 1: "(if has_flag evm EPOLLIN then server_readable cb (si_io orc) fd else ret True) s = (r1, s1)" by force
    have i1: "(\<forall>b. r1 = Inr b \<longrightarrow> inv s1) \<and> (\<forall>e. r1 = Inl e \<longrightarrow> \<not> bad e)"
      using 1 readable_ok [OF assms(1), of "si_io orc" fd r1 s1] assms(1) by (auto simp: ret_def split: if_splits)
    have "(r, s') = (case r1 of Inl e \<Rightarrow> (Inl e, s1) | Inr go_on \<Rightarrow>
        if go_on \<and> has_flag evm EPOLLOUT then (if fd \<notin> sv_clients s1 then (Inr (), s1) else on_client_writable (si_io orc) fd s1)
        else (Inr (), s1))"
      using assms(3) alive d True 1 by (simp add: server_handle_event_def tls_handshake_done_def andThen_def)
    with i1 writable_ok [of s1 fd "si_io orc" r s'] show ?thesis by (auto split: sum.splits if_splits)
  qed
qed

lemma accept_event_ok:
  assumes "inv s" "fresh_accept orc s" "accept_handle_event orc fd evm s = (r, s')"
  shows "(r = Inr () \<longrightarrow> inv s') \<and> (\<forall>e. r = Inl e \<longrightarrow> \<not> bad e)"
proof (cases "tcp_accept orc")
  case (Some conn)
  then have fd: "cn_fd conn = si_accept orc"
    by (auto simp: tcp_accept_def init_transport_def ClientConnection_ctor_def split: if_splits)
  show ?thesis
  proof (cases "has_flag evm EPOLLIN")
    case True
    then have c: "on_client_connected (si_handshake orc) conn s = (r, s')" using Some assms(3) by (simp add: accept_handle_event_def)
    have "\<forall>e. r = Inl e \<longrightarrow> \<not> bad e"
      using c by (auto simp: on_client_connected_def wrapper_handshake_def bad_def Let_def split: handshake.splits)
    moreover have "r = Inr () \<longrightarrow> inv s'"
      using on_client_connected_inv [of s conn "si_handshake orc" s'] c assms(1, 2) fd by (auto simp: inv_def fresh_accept_def)
    ultimately show ?thesis by blast
  qed (use assms in \<open>auto simp: accept_handle_event_def\<close>)
qed (use assms in \<open>auto simp: accept_handle_event_def split: if_splits\<close>)

lemma event_ok:
  assumes "inv s" "el_handlers (sv_event_loop s) fd = Some h" "fresh_accept orc s" "handle_event cb h orc fd evm s = (r, s')"
  shows "(r = Inr () \<longrightarrow> inv s') \<and> (\<forall>e. r = Inl e \<longrightarrow> \<not> bad e)"
  using assms accept_event_ok [OF assms(1, 3)] server_event_ok [OF assms(1)] by (cases h) (auto simp: ret_def)

end

sublocale server_application \<subseteq> loop: event_loop_client sv_event_loop sv_put_loop "handle_event cb" inv fresh_accept bad
proof
  show "inv (sv_put_loop ((sv_event_loop s)\<lparr>el_wakeup := b\<rparr>) s)" if "inv s" for s b
    using that by (simp add: inv_def transport_inv_def fd_ok_def sv_put_loop_def)
qed (use event_ok in blast)+

end
