(* ===== verification/Server_System.thy ===== *)
theory Server_System
  imports Server_Properties Server_Transport
begin

text \<open>
  The server as a whole: \<open>MessagingServer\<close> as the application of \<open>Server\<close>. The callbacks are the two lambdas
  of \<open>MessagingServer::start_server\<close> (\<open>src/src/application/messaging/messaging_server.cpp\<close>); what they send is
  what the application's context records during the call.
\<close>

definition clear_sent :: "MessagingServer \<Rightarrow> MessagingServer" where
  "clear_sent ms = ms\<lparr>ms_context := (ms_context ms)\<lparr>sc_sent := []\<rparr>\<rparr>"

definition with_sends :: "unit cpp \<times> MessagingServer \<Rightarrow> unit cpp \<times> (int \<times> bytes) list \<times> MessagingServer" where
  "with_sends out = (fst out, sc_sent (ms_context (snd out)), snd out)"

definition messaging_callbacks :: "server_env \<Rightarrow> MessagingServer server_callbacks" where
  "messaging_callbacks env =
     \<lparr>on_data_callback = (\<lambda>fd data ms. with_sends (on_tcp_data_received env fd data (clear_sent ms))),
      on_disconnected_callback = (\<lambda>fd ms. with_sends (on_tcp_disconnected env fd (clear_sent ms)))\<rparr>"

lemma ms_inv_clear: "ms_inv ms \<Longrightarrow> ms_inv (clear_sent ms)"
  by (simp add: ms_inv_def clear_sent_def)

interpretation chat_server: server_application "messaging_callbacks env" ms_inv for env
proof
  fix a fd d r sends a'
  assume a: "ms_inv a" and c: "on_data_callback (messaging_callbacks env) fd d a = (r, sends, a')"
  show "ms_inv a' \<and> (\<forall>w. r \<noteq> Inl (Undefined w))"
  proof (cases "deserialize d")
    case (Inl e)
    then have "is_exception e" using no_undefined_deserialize [of d] by (simp add: no_undefined_def)
    with Inl c ms_inv_clear [OF a] show ?thesis by (auto simp: messaging_callbacks_def with_sends_def on_tcp_data_received_def)
  next
    case (Inr msg)
    obtain ms' where "on_tcp_data_received env fd d (clear_sent a) = (Inr (), ms')" "ms_inv ms'"
      using on_tcp_message [OF ms_inv_clear [OF a] Inr, of env fd] by blast
    with c show ?thesis by (auto simp: messaging_callbacks_def with_sends_def)
  qed
next
  fix a fd r sends a'
  assume a: "ms_inv a" and c: "on_disconnected_callback (messaging_callbacks env) fd a = (r, sends, a')"
  obtain ms' where "on_tcp_disconnected env fd (clear_sent a) = (Inr (), ms')" "ms_inv ms'"
    using on_tcp_lost [OF ms_inv_clear [OF a], of env fd] by blast
  with c show "ms_inv a' \<and> (\<forall>w. r \<noteq> Inl (Undefined w))" by (auto simp: messaging_callbacks_def with_sends_def)
qed

section \<open>One event of a connected client\<close>

lemma epollin_flags: "\<not> has_flag EPOLLIN (EPOLLERR OR EPOLLHUP OR EPOLLRDHUP)" "has_flag EPOLLIN EPOLLIN" "\<not> has_flag EPOLLIN EPOLLOUT"
  by (simp_all add: has_flag_def EPOLLIN_def EPOLLOUT_def EPOLLERR_def EPOLLHUP_def EPOLLRDHUP_def)

lemma sends_buffers:
  "sv_connections (fold (\<lambda>(fd, d). Server_send fd d) sends s) fd =
   map_option (\<lambda>c. c\<lparr>cn_send_buffer := cn_send_buffer c @ concat (map (frame \<circ> snd) (filter (\<lambda>p. fst p = fd) sends))\<rparr>) (sv_connections s fd)"
proof (induction sends arbitrary: s)
  case Nil
  then show ?case by (cases "sv_connections s fd") simp_all
next
  case (Cons p sends)
  then show ?case
    by (cases p; cases "sv_connections s fd")
      (auto simp: Server_send_def send_to_buffer_def conn_queue_send_def form_message_eq split: option.splits)
qed

text \<open>A client whose handshake is done, with nothing left over from earlier, whose message arrives with one event, in whatever reads.\<close>

definition message_arrives :: "server_io \<Rightarrow> int \<Rightarrow> bytes \<Rightarrow> 'a Server \<Rightarrow> bool" where
  "message_arrives orc fd raw s \<longleftrightarrow> el_handlers (sv_event_loop s) fd = Some ServerHandler \<and> sv_tls_wrapper s fd = Some True \<and>
     (\<exists>c. sv_connections s fd = Some c \<and> is_stream (cn_transport c) \<and> cn_recv_buffer c = []) \<and>
     (\<exists>a pieces. io_reads (si_io orc) = map (Recv a) pieces \<and> concat pieces = frame (frame raw)) \<and> length raw < 4294967288"

lemma message_event:
  assumes "transport_inv s" "message_arrives orc fd raw s"
  obtains s1 where "server_handle_event cb orc fd EPOLLIN s = andThen (on_client_message cb fd raw) (\<lambda>_. ret ()) s1"
    "sv_app s1 = sv_app s" "\<And>fd'. map_option cn_send_buffer (sv_connections s1 fd') = map_option cn_send_buffer (sv_connections s fd')"
    "\<And>fd'. map_option (is_stream \<circ> cn_transport) (sv_connections s1 fd') = map_option (is_stream \<circ> cn_transport) (sv_connections s fd')"
    "s1 = s\<lparr>sv_connections := sv_connections s1\<rparr>"
proof -
  obtain c a pieces where c: "sv_connections s fd = Some c" "is_stream (cn_transport c)" "cn_recv_buffer c = []"
      "io_reads (si_io orc) = map (Recv a) pieces" "concat pieces = frame (frame raw)" and len: "length (frame raw) < 4294967296" "length raw < 4294967296"
      and h: "el_handlers (sv_event_loop s) fd = Some ServerHandler" "sv_tls_wrapper s fd = Some True"
    using assms(2) by (auto simp: message_arrives_def)
  obtain c1 where c1: "conn_try_receive (si_io orc) c = (Inr True, c1)" "cn_recv_buffer c1 = frame raw" "is_stream (cn_transport c1)"
    using client_conn.receive_frame [OF c(2) len(1) c(4, 5)] c(3) by auto
  have send: "cn_send_buffer c1 = cn_send_buffer c" using c1(1) by (auto simp: conn_try_receive_def split: prod.splits sum.splits)
  have full: "conn_has_complete_message c1"
    unfolding conn_has_complete_message_def c1(2) using frame_length_frame [OF len(2), of "[]"] by (intro has_message_complete) simp
  have take_msg: "conn_extract_message c1 = (Inr raw, c1\<lparr>cn_recv_buffer := []\<rparr>)"
    using form_message_extract [OF len(2), of "[]"] c1(2) by (simp add: conn_extract_message_def frame_def)
  define s1 where "s1 = s\<lparr>sv_connections := (sv_connections s)(fd \<mapsto> c1\<lparr>cn_recv_buffer := []\<rparr>)\<rparr>"
  have "fd \<in> sv_clients s" using transport_inv_handler [OF assms(1) h(1)] by simp
  then have r: "server_readable cb (si_io orc) fd s = andThen (on_client_message cb fd raw) (\<lambda>_. ret True) s1"
    using c(1) c1(1) full take_msg by (simp add: server_readable_def s1_def Let_def)
  have "server_handle_event cb orc fd EPOLLIN s = andThen (on_client_message cb fd raw) (\<lambda>_. ret ()) s1"
    using h(2) r
    by (simp add: server_handle_event_def epollin_flags tls_handshake_done_def)
      (auto simp: andThen_def ret_def split: prod.splits sum.splits)
  moreover have "map_option cn_send_buffer (sv_connections s1 fd') = map_option cn_send_buffer (sv_connections s fd')" for fd'
    using c(1) send by (simp add: s1_def)
  moreover have "map_option (is_stream \<circ> cn_transport) (sv_connections s1 fd') = map_option (is_stream \<circ> cn_transport) (sv_connections s fd')" for fd'
    using c(1, 2) c1(3) by (simp add: s1_def)
  ultimately show ?thesis using that by (simp add: s1_def)
qed

lemma round_single:
  assumes "el_handlers (sv_event_loop s) fd = Some ServerHandler" "fd \<noteq> el_wakeup_fd (sv_event_loop s)"
  shows "server_round cb (Events [(fd, evm, orc)]) s = server_handle_event cb orc fd evm s"
  using assms by (simp add: server_round_def MAX_EVENTS_def andThen_def ret_def split: prod.splits sum.splits) 

text \<open>The text \<open>/exit\<close>, which \<open>on_client_message\<close> ignores, is not the serialisation of a message.\<close>

lemma exit_text_malformed: "to_string raw = ''/exit'' \<Longrightarrow> \<exists>e. deserialize raw = Inl e"
proof -
  assume "to_string raw = ''/exit''"
  then have "to_bytes (to_string raw) = to_bytes ''/exit''" by simp
  then have "raw = [47, 101, 120, 105, 116]" by (simp add: to_bytes_to_string) (simp add: to_bytes_def byte_of_char_def)
  then show ?thesis by (simp add: deserialize_def)
qed

section \<open>The whole server\<close>

text \<open>
  C11: the server's loop is safe. From a state in which the transport's tables agree and the application's tables
  agree, a round of the event loop over any events, with any data, handshakes and new connections, either ends
  with both still true or ends with an exception; the only undefined behaviour it can reach is the framer's, on a frame
  whose announced length wraps.
\<close>

theorem server_round_safe:
  assumes "transport_inv s" "ms_inv (sv_app s)"
    and "valid_events sv_event_loop sv_put_loop (handle_event (messaging_callbacks env)) fresh_accept (take MAX_EVENTS evs) s"
    and "server_round (messaging_callbacks env) (Events evs) s = (r, s')"
  shows "(r = Inr () \<longrightarrow> transport_inv s' \<and> ms_inv (sv_app s')) \<and>
    (\<forall>w. r = Inl (Undefined w) \<longrightarrow> w = ''range past the end of the buffer'')"
proof -
  have "chat_server.inv s" using assms(1, 2) by (simp add: chat_server.inv_def)
  from chat_server.loop.dispatch_all [OF this assms(3)] assms(4)
  show ?thesis by (auto simp: server_round_def chat_server.inv_def chat_server.bad_def)
qed

definition sample_sv :: "MessagingServer Server" where
  "sample_sv = Server_start 3 \<lparr>sv_running = False,
     sv_event_loop = \<lparr>el_epollfd = 1, el_wakeup_fd = 2, el_wakeup = False, el_handlers = Map.empty, el_interest = [2 \<mapsto> EPOLLIN]\<rparr>,
     sv_connections = Map.empty, sv_clients = {}, sv_tls_wrapper = Map.empty, sv_socket_fd = - 1, sv_wire = [], sv_app = MessagingServer_ctor\<rparr>"

definition sample_accept :: server_io where
  "sample_accept = \<lparr>si_accept = 7, si_handshake = HsDone, si_io = sample_io\<rparr>"

lemma sample_sv_sel [simp]:
  "el_handlers (sv_event_loop sample_sv) = [3 \<mapsto> AcceptHandler]" "el_wakeup_fd (sv_event_loop sample_sv) = 2"
  "sv_app sample_sv = MessagingServer_ctor" "sv_clients sample_sv = {}" "sv_running sample_sv"
  "sv_connections sample_sv = Map.empty" "sv_tls_wrapper sample_sv = Map.empty"
  by (simp_all add: sample_sv_def Server_start_def)

lemma sample_sv_inv: "transport_inv sample_sv"
  by (simp add: transport_inv_def fd_ok_def)

lemma sample_sv_round:
  obtains s' where "server_round (messaging_callbacks env) (Events [(3, EPOLLIN, sample_accept)]) sample_sv = (Inr (), s')"
    "sv_connections s' = [7 \<mapsto> ClientConnection_ctor 7 (create_tls 7)]" "sv_tls_wrapper s' = [7 \<mapsto> True]" "sv_clients s' = {7}"
    "el_handlers (sv_event_loop s') = [3 \<mapsto> AcceptHandler, 7 \<mapsto> ServerHandler]" "el_wakeup_fd (sv_event_loop s') = 2"
    "sv_app s' = MessagingServer_ctor" "sv_running s'"
proof -
  have "server_round (messaging_callbacks env) (Events [(3, EPOLLIN, sample_accept)]) sample_sv =
      on_client_connected HsDone (ClientConnection_ctor 7 (create_tcp 7)) sample_sv"
    by (simp add: server_round_def MAX_EVENTS_def andThen_ret_unit)
      (simp add: accept_handle_event_def epollin_flags tcp_accept_def sample_accept_def init_transport_def ClientConnection_ctor_def)
  then show ?thesis
    by (intro that [of "snd (on_client_connected HsDone (ClientConnection_ctor 7 (create_tcp 7)) sample_sv)"])
      (simp_all add: on_client_connected_def add_client_def wrapper_handshake_def ClientConnection_ctor_def init_transport_def add_connection_def
        Let_def fun_upd_twist)
qed

theorem server_round_safe_witness:
  "\<exists>s'. server_round (messaging_callbacks sample_env) (Events [(3, EPOLLIN, sample_accept)]) sample_sv = (Inr (), s') \<and>
    transport_inv s' \<and> ms_inv (sv_app s')"
proof -
  obtain s' where s': "server_round (messaging_callbacks sample_env) (Events [(3, EPOLLIN, sample_accept)]) sample_sv = (Inr (), s')"
    by (rule sample_sv_round) blast
  have "valid_events sv_event_loop sv_put_loop (handle_event (messaging_callbacks sample_env)) fresh_accept
      (take MAX_EVENTS [(3, EPOLLIN, sample_accept)]) sample_sv"
    by (simp add: MAX_EVENTS_def fresh_accept_def sample_accept_def split: prod.splits sum.splits)
  from server_round_safe [OF sample_sv_inv _ this s'] s' ms_inv_ctor show ?thesis by simp
qed

text \<open>A round in which a message arrives and decodes: the application's function has been applied, what it sent is in the send buffers, and the
  tables of the transport are as they were.\<close>

lemma served_round:
  fixes env :: server_env
  assumes "transport_inv s" "ms_inv (sv_app s)" "message_arrives orc fd raw s" "deserialize raw = Inr msg"
  defines "ctx \<equiv> snd (serve env msg ((ms_context (clear_sent (sv_app s)))\<lparr>sc_fd := fd\<rparr>))"
  obtains s2 where "server_round (messaging_callbacks env) (Events [(fd, EPOLLIN, orc)]) s = (Inr (), s2)" "ms_context (sv_app s2) = ctx"
    "\<forall>fd' c. sv_connections s fd' = Some c \<longrightarrow> (\<exists>c'. sv_connections s2 fd' = Some c' \<and> is_stream (cn_transport c') = is_stream (cn_transport c) \<and>
      cn_send_buffer c' = cn_send_buffer c @ concat (map (frame \<circ> snd) (filter (\<lambda>p. fst p = fd') (sc_sent ctx))))"
    "transport_inv s2" "el_handlers (sv_event_loop s2) = el_handlers (sv_event_loop s)" "sv_tls_wrapper s2 = sv_tls_wrapper s" "sv_wire s2 = sv_wire s"
proof -
  obtain s1 where s1: "server_handle_event (messaging_callbacks env) orc fd EPOLLIN s =
      andThen (on_client_message (messaging_callbacks env) fd raw) (\<lambda>_. ret ()) s1" "sv_app s1 = sv_app s"
      "\<And>fd'. map_option cn_send_buffer (sv_connections s1 fd') = map_option cn_send_buffer (sv_connections s fd')"
      "\<And>fd'. map_option (is_stream \<circ> cn_transport) (sv_connections s1 fd') = map_option (is_stream \<circ> cn_transport) (sv_connections s fd')"
      "s1 = s\<lparr>sv_connections := sv_connections s1\<rparr>"
    by (rule message_event [OF assms(1, 3), of "messaging_callbacks env"]) blast
  obtain ms' where ms': "on_tcp_data_received env fd raw (clear_sent (sv_app s)) = (Inr (), ms')" "ms_context ms' = ctx"
    using on_tcp_message [OF ms_inv_clear [OF assms(2)] assms(4), of env fd] unfolding ctx_def by blast
  let ?sends = "sc_sent (ms_context ms')"
  define s2 where "s2 = fold (\<lambda>(fd, data). Server_send fd data) ?sends (s1\<lparr>sv_app := ms'\<rparr>)"
  have "raw \<noteq> []" using assms(4) by (auto simp: deserialize_def)
  then have "on_client_message (messaging_callbacks env) fd raw s1 = (Inr (), s2)"
    using exit_text_malformed [of raw] assms(4) ms'(1) s1(2) by (auto simp: on_client_message_def run_callback_def messaging_callbacks_def with_sends_def s2_def)
  then have e: "server_round (messaging_callbacks env) (Events [(fd, EPOLLIN, orc)]) s = (Inr (), s2)"
    using round_single [of s fd] s1(1) assms(1, 3) by (auto simp: message_arrives_def transport_inv_def fd_ok_def andThen_def ret_def)
  have conns: "\<exists>c'. sv_connections s2 fd' = Some c' \<and> is_stream (cn_transport c') = is_stream (cn_transport c) \<and>
      cn_send_buffer c' = cn_send_buffer c @ concat (map (frame \<circ> snd) (filter (\<lambda>p. fst p = fd') (sc_sent ctx)))"
    if "sv_connections s fd' = Some c" for fd' c
    using s1(3) [of fd'] s1(4) [of fd'] that ms'(2) by (auto simp: s2_def sends_buffers)
  have rest: "sv_clients s1 = sv_clients s" "sv_tls_wrapper s1 = sv_tls_wrapper s" "sv_event_loop s1 = sv_event_loop s" "sv_wire s1 = sv_wire s"
    by (subst s1(5), simp)+
  have none: "sv_connections s1 fd' = None \<longleftrightarrow> sv_connections s fd' = None" for fd'
    using s1(3) [of fd'] by (cases "sv_connections s1 fd'"; cases "sv_connections s fd'") auto
  then have "transport_inv s1" using assms(1) rest by (simp add: transport_inv_def fd_ok_def)
  then have "transport_inv s2" by (simp add: s2_def transport_inv_def)
  with that e ms'(2) conns rest show ?thesis by (simp add: s2_def)
qed

text \<open>
  C12: a message from a client takes effect as the application says. When a framed message arrives complete on a
  connection whose handshake is done and it decodes, the round ends normally, the application's state is the one
  \<open>serve\<close> computes, and every connection's send buffer has grown by exactly the frames the application
  sent to it, in order.
\<close>

theorem server_serves_message:
  assumes "transport_inv s" "ms_inv (sv_app s)" "message_arrives orc fd raw s" "deserialize raw = Inr msg"
  shows "let ctx = snd (serve env msg ((ms_context (clear_sent (sv_app s)))\<lparr>sc_fd := fd\<rparr>));
             out = server_round (messaging_callbacks env) (Events [(fd, EPOLLIN, orc)]) s in
    fst out = Inr () \<and> ms_context (sv_app (snd out)) = ctx \<and>
    (\<forall>fd' c. sv_connections s fd' = Some c \<longrightarrow> (\<exists>c'. sv_connections (snd out) fd' = Some c' \<and>
      cn_send_buffer c' = cn_send_buffer c @ concat (map (frame \<circ> snd) (filter (\<lambda>p. fst p = fd') (sc_sent ctx)))))"
proof -
  obtain s2 where "server_round (messaging_callbacks env) (Events [(fd, EPOLLIN, orc)]) s = (Inr (), s2)"
      "ms_context (sv_app s2) = snd (serve env msg ((ms_context (clear_sent (sv_app s)))\<lparr>sc_fd := fd\<rparr>))"
      "\<forall>fd' c. sv_connections s fd' = Some c \<longrightarrow> (\<exists>c'. sv_connections s2 fd' = Some c' \<and> cn_send_buffer c' = cn_send_buffer c @
        concat (map (frame \<circ> snd) (filter (\<lambda>p. fst p = fd') (sc_sent (snd (serve env msg ((ms_context (clear_sent (sv_app s)))\<lparr>sc_fd := fd\<rparr>)))))))"
    by (rule served_round [OF assms, of env]) blast
  then show ?thesis by (simp add: Let_def)
qed

definition sample_join :: bytes where
  "sample_join = request JOIN [to_bytes ''dev''] []"

lemma sample_join_decodes:
  "deserialize sample_join = Inr (built 0 [] [[byte_of_CommandType JOIN], to_bytes ''dev''] Command)"
  unfolding sample_join_def request_def by (rule deserialize_built_exact) (simp_all add: fits_def)

lemma sample_join_small: "length sample_join < 4294967288"
  unfolding sample_join_def request_def by (simp add: length_serialize_built)

definition sample_reads :: "bytes \<Rightarrow> server_io" where
  "sample_reads data = sample_accept\<lparr>si_io := sample_io\<lparr>io_reads := [Recv (0, 0) data]\<rparr>\<rparr>"

text \<open>That server after one connection has been accepted and its handshake is done.\<close>

definition sample_up :: "MessagingServer Server" where
  "sample_up = snd (on_client_connected HsDone (ClientConnection_ctor 7 (create_tcp 7)) sample_sv)"

lemma sample_up_sel [simp]:
  "sv_connections sample_up = [7 \<mapsto> ClientConnection_ctor 7 (create_tls 7)]" "sv_tls_wrapper sample_up = [7 \<mapsto> True]"
  "el_handlers (sv_event_loop sample_up) 7 = Some ServerHandler" "sv_app sample_up = MessagingServer_ctor" "sv_running sample_up"
  by (simp_all add: sample_up_def on_client_connected_def add_client_def wrapper_handshake_def ClientConnection_ctor_def init_transport_def
      add_connection_def Let_def)

lemma sample_up_inv: "transport_inv sample_up"
proof -
  have "on_client_connected HsDone (ClientConnection_ctor 7 (create_tcp 7)) sample_sv = (Inr (), sample_up)"
    by (simp add: sample_up_def on_client_connected_def add_client_def wrapper_handshake_def Let_def)
  from on_client_connected_inv [OF sample_sv_inv _ this] show ?thesis by (simp add: ClientConnection_ctor_def)
qed

lemma sample_up_message: "length raw < 4294967288 \<Longrightarrow> message_arrives (sample_reads (frame (frame raw))) 7 raw sample_up"
  by (auto simp: message_arrives_def sample_reads_def ClientConnection_ctor_def create_tls_def is_stream_def
      intro!: exI [of _ 0] exI [of _ "[frame (frame raw)]"])

theorem server_serves_message_witness:
  "\<exists>c'. sv_connections (snd (server_round (messaging_callbacks sample_env)
      (Events [(7, EPOLLIN, sample_reads (frame (frame sample_join)))]) sample_up)) 7 = Some c' \<and>
    cn_send_buffer c' = frame YOU_NEED_TO_LOGIN"
proof -
  let ?ctx = "snd (serve sample_env (built 0 [] [[byte_of_CommandType JOIN], to_bytes ''dev''] Command)
      ((ms_context (clear_sent (sv_app sample_up)))\<lparr>sc_fd := 7\<rparr>))"
  have sent: "sc_sent ?ctx = [(7, YOU_NEED_TO_LOGIN)]"
    unfolding serve_command [OF server_command_objects(3, 4)]
    by (simp add: join_room_def get_username_def clear_sent_def ctor_context ServerContext_ctor_def SessionManager_ctor_def)
  have "\<forall>fd' c. sv_connections sample_up fd' = Some c \<longrightarrow> (\<exists>c'. sv_connections (snd (server_round (messaging_callbacks sample_env)
      (Events [(7, EPOLLIN, sample_reads (frame (frame sample_join)))]) sample_up)) fd' = Some c' \<and>
      cn_send_buffer c' = cn_send_buffer c @ concat (map (frame \<circ> snd) (filter (\<lambda>p. fst p = fd') (sc_sent ?ctx))))"
    using server_serves_message [OF sample_up_inv _ sample_up_message [OF sample_join_small] sample_join_decodes, of sample_env]
      ms_inv_ctor by (simp add: Let_def)
  from this [rule_format, of 7 "ClientConnection_ctor 7 (create_tls 7)"] show ?thesis
    unfolding sent by (simp add: ClientConnection_ctor_def)
qed

text \<open>
  C13: any client can stop the server with one frame. When a framed message that does not decode arrives on a
  connection whose handshake is done, logged in or not, the exception of the deserializer leaves the callback, the handler
  and the event loop: no \<open>catch\<close> is on the way, and the thread that runs the loop ends with it.
\<close>

theorem malformed_frame_stops_server:
  assumes "transport_inv s" "sv_running s" "message_arrives orc fd raw s" "raw \<noteq> []" "to_string raw \<noteq> ''/exit''" "deserialize raw = Inl e"
  shows "is_exception e \<and> fst (run_event_loop (messaging_callbacks env) (Events [(fd, EPOLLIN, orc)] # rounds) s) = Inl e"
proof -
  obtain s1 where s1: "server_handle_event (messaging_callbacks env) orc fd EPOLLIN s =
      andThen (on_client_message (messaging_callbacks env) fd raw) (\<lambda>_. ret ()) s1"
    by (rule message_event [OF assms(1, 3), of "messaging_callbacks env"]) blast
  have "fst (on_client_message (messaging_callbacks env) fd raw s1) = Inl e"
    using assms(4-6) by (simp add: on_client_message_def run_callback_def messaging_callbacks_def with_sends_def on_tcp_data_received_def)
  then have "fst (server_round (messaging_callbacks env) (Events [(fd, EPOLLIN, orc)]) s) = Inl e"
    using round_single [of s fd] s1 assms(1, 3)
    by (simp add: message_arrives_def transport_inv_def fd_ok_def andThen_ret_unit)
  moreover have "is_exception e" using no_undefined_deserialize [of raw] assms(6) by (simp add: no_undefined_def)
  ultimately show ?thesis using assms(2) by (simp add: andThen_eq)
qed

theorem malformed_frame_stops_server_witness:
  "fst (run_event_loop (messaging_callbacks sample_env) [Events [(7, EPOLLIN, sample_reads (frame (frame [1, 2, 3])))]] sample_up) =
    Inl (RuntimeError ''Malformed message: too short'')"
proof -
  have "to_string [1, 2, 3] \<noteq> ''/exit''" by (simp add: to_string_def)
  moreover have "deserialize [1, 2, 3] = Inl (RuntimeError ''Malformed message: too short'')" by (simp add: deserialize_def)
  ultimately show ?thesis 
    using malformed_frame_stops_server [OF sample_up_inv _ sample_up_message [of "[1, 2, 3]"], of _ sample_env "[]"] by simp
qed

end
