(* ===== verification/Wire_Exchange.thy ===== *)
theory Wire_Exchange
  imports Server_System
begin

text \<open>
  A request and its answers through the server's transport: the readable event that brings the request and the writable event that flushes the answers, over
  a connection that delivers the bytes of the request, in order, in whatever pieces.

  The function the server's application computes (\<open>serve\<close>) is the specification; the theorem says that reassembling the stream, taking off two
  layers of framing, buffering and framing twice again amount to calling it, and that a reader of the bytes gets the answers. The reader is the
  receiving half of the same transport code followed by the framer; the client's own transport object lacks its framer and is the subject of
  \<open>Client_Transport\<close>.
\<close>

definition carries :: "io \<Rightarrow> bytes \<Rightarrow> bool" where
  "carries i data \<longleftrightarrow> (\<exists>a pieces. io_reads i = map (Recv a) pieces \<and> concat pieces = data)"

definition answers :: "server_env \<Rightarrow> int \<Rightarrow> Message \<Rightarrow> MessagingServer Server \<Rightarrow> bytes list" where
  "answers env fd msg s =
     map snd (filter (\<lambda>p. fst p = fd) (sc_sent (snd (serve env msg ((ms_context (clear_sent (sv_app s)))\<lparr>sc_fd := fd\<rparr>)))))"

text \<open>Two rounds of the loop: the server reads and serves, the server flushes.\<close>

definition exchange :: "server_env \<Rightarrow> server_io \<Rightarrow> server_io \<Rightarrow> int \<Rightarrow> (unit, MessagingServer Server) action" where
  "exchange env reads writes fd =
     andThen (server_round (messaging_callbacks env) (Events [(fd, EPOLLIN, reads)])) (\<lambda>_.
       server_round (messaging_callbacks env) (Events [(fd, EPOLLOUT, writes)]))"

section \<open>The steps\<close>

lemma epollout_flags: "\<not> has_flag EPOLLOUT (EPOLLERR OR EPOLLHUP OR EPOLLRDHUP)" "\<not> has_flag EPOLLOUT EPOLLIN" "has_flag EPOLLOUT EPOLLOUT"
  by (simp_all add: has_flag_def EPOLLIN_def EPOLLOUT_def EPOLLERR_def EPOLLHUP_def EPOLLRDHUP_def)

lemma flush_round:
  assumes "transport_inv s" "el_handlers (sv_event_loop s) fd = Some ServerHandler" "sv_tls_wrapper s fd = Some True"
    and "sv_connections s fd = Some c" "is_stream (cn_transport c)" "cn_send_buffer c \<noteq> []"
    and "io_written (si_io orc) = 4 + int (length (cn_send_buffer c))"
  obtains s' where "server_round cb (Events [(fd, EPOLLOUT, orc)]) s = (Inr (), s')" "sv_wire s' = sv_wire s @ [(fd, frame (cn_send_buffer c))]"
    "sv_app s' = sv_app s"
proof -
  obtain c' where c': "conn_flush (si_io orc) c = (Inr True, frame (cn_send_buffer c), c')"
    using client_conn.flush_whole [OF assms(5-7)] by blast
  have "fd \<in> sv_clients s" using transport_inv_handler [OF assms(1, 2)] by simp
  then have "server_handle_event cb orc fd EPOLLOUT s = on_client_writable (si_io orc) fd s"
    using assms(3) by (simp add: server_handle_event_def epollout_flags tls_handshake_done_def andThen_def ret_def)
  moreover have "fd \<noteq> el_wakeup_fd (sv_event_loop s)" using assms(1, 2) by (auto simp: transport_inv_def fd_ok_def)
  ultimately have "server_round cb (Events [(fd, EPOLLOUT, orc)]) s = on_client_writable (si_io orc) fd s"
    using round_single [OF assms(2)] by simp
  then show ?thesis using that assms(4) c' by (simp add: on_client_writable_def Let_def)
qed

section \<open>The exchange\<close>

text \<open>
  C16: a request is answered on the wire. When the bytes of a request, framed twice, reach the server cut anywhere, and
  the write that follows takes the whole buffer, both rounds succeed; the server's application is the one \<open>serve\<close> computes
  from the request; and what the server wrote is one packet to this client from which, however the bytes are cut, the receiving
  transport takes one message, whose frames are the application's answers to this client, one after the other.
\<close>

theorem request_answered_on_wire:
  assumes "length raw < 4294967288" "deserialize raw = Inr msg" "transport_inv s" "ms_inv (sv_app s)"
    and "el_handlers (sv_event_loop s) fd = Some ServerHandler" "sv_tls_wrapper s fd = Some True"
    and "sv_connections s fd = Some conn" "is_stream (cn_transport conn)" "cn_recv_buffer conn = []" "cn_send_buffer conn = []"
    and "carries (si_io reads) (frame (frame raw))"
    and "answers senv fd msg s \<noteq> []" "length (concat (map frame (answers senv fd msg s))) < 4294967292"
    and "io_written (si_io writes) = 4 + int (length (concat (map frame (answers senv fd msg s))))"
  shows "\<exists>s2 packet. exchange senv reads writes fd s = (Inr (), s2) \<and>
    ms_context (sv_app s2) = snd (serve senv msg ((ms_context (clear_sent (sv_app s)))\<lparr>sc_fd := fd\<rparr>)) \<and>
    sv_wire s2 = sv_wire s @ [(fd, packet)] \<and>
    (\<forall>a pieces. concat pieces = packet \<longrightarrow>
      (\<exists>p rest. receive_loop [] (map (Recv a) pieces) = (receive_result OK p 0, [], rest) \<and> framer_drain p = Inr (answers senv fd msg s, [])))"
proof -
  let ?as = "answers senv fd msg s" and ?ctx = "snd (serve senv msg ((ms_context (clear_sent (sv_app s)))\<lparr>sc_fd := fd\<rparr>))"
  have m: "message_arrives reads fd raw s"
    using assms(1, 5-9, 11) by (auto simp: message_arrives_def carries_def)
  obtain s1 where s1: "server_round (messaging_callbacks senv) (Events [(fd, EPOLLIN, reads)]) s = (Inr (), s1)"
      "ms_context (sv_app s1) = ?ctx"
      and buf: "\<forall>fd' c. sv_connections s fd' = Some c \<longrightarrow> (\<exists>c'. sv_connections s1 fd' = Some c' \<and> is_stream (cn_transport c') = is_stream (cn_transport c) \<and>
        cn_send_buffer c' = cn_send_buffer c @ concat (map (frame \<circ> snd) (filter (\<lambda>p. fst p = fd') (sc_sent ?ctx))))"
      and inv: "transport_inv s1" and same: "el_handlers (sv_event_loop s1) = el_handlers (sv_event_loop s)" "sv_tls_wrapper s1 = sv_tls_wrapper s" "sv_wire s1 = sv_wire s"
    by (rule served_round [OF assms(3, 4) m assms(2), of senv])
  have up: "el_handlers (sv_event_loop s1) fd = Some ServerHandler" "sv_tls_wrapper s1 fd = Some True" using same assms(5, 6) by simp_all
  obtain c' where c': "sv_connections s1 fd = Some c'" "is_stream (cn_transport c')" "cn_send_buffer c' = concat (map frame ?as)"
    using buf [rule_format, OF assms(7)] assms(8, 10) by (auto simp: answers_def)
  have ne: "concat (map frame ?as) \<noteq> []" using assms(12) by (cases ?as) (auto simp: frame_eq be32_bytes_def)
  obtain s2 where s2: "server_round (messaging_callbacks senv) (Events [(fd, EPOLLOUT, writes)]) s1 = (Inr (), s2)"
      "sv_wire s2 = sv_wire s1 @ [(fd, frame (concat (map frame ?as)))]" "sv_app s2 = sv_app s1"
    using flush_round [OF inv up c'(1, 2), of writes "messaging_callbacks senv"] c'(3) ne assms(14) by metis
  have small: "\<forall>d\<in>set ?as. length d < 4294967292"
    using assms(13) member_le_sum_list [of _ "map (length \<circ> frame) ?as"] by (fastforce simp: length_concat comp_def)
  have "\<exists>p rest. receive_loop [] (map (Recv a) pieces) = (receive_result OK p 0, [], rest) \<and> framer_drain p = Inr (?as, [])"
    if "concat pieces = frame (concat (map frame ?as))" for a pieces
    using receive_loop_frame [of "concat (map frame ?as)" "[]" pieces a] that assms(13) framer_drain_frames [OF small]
    by (auto simp: extract_complete_message_def)
  with s1 s2 same(3) show ?thesis
    by (intro exI [of _ s2] exI [of _ "frame (concat (map frame ?as))"]) (simp add: exchange_def andThen_def)
qed

lemma sample_answer:
  "answers sample_env 7 (built 0 [] [[byte_of_CommandType JOIN], to_bytes ''dev''] Command) sample_up = [YOU_NEED_TO_LOGIN]"
  unfolding answers_def serve_command [OF server_command_objects(3, 4)]
  by (simp add: join_room_def get_username_def clear_sent_def ctor_context ServerContext_ctor_def SessionManager_ctor_def)

theorem request_answered_on_wire_witness:
  "\<exists>s2 packet. exchange sample_env (sample_reads (frame (frame sample_join)))
      (sample_accept\<lparr>si_io := sample_io\<lparr>io_written := 8 + int (length YOU_NEED_TO_LOGIN)\<rparr>\<rparr>) 7 sample_up = (Inr (), s2) \<and>
    sv_wire s2 = sv_wire sample_up @ [(7, packet)] \<and>
    (\<forall>a pieces. concat pieces = packet \<longrightarrow>
      (\<exists>p rest. receive_loop [] (map (Recv a) pieces) = (receive_result OK p 0, [], rest) \<and> framer_drain p = Inr ([YOU_NEED_TO_LOGIN], [])))"
proof -
  have "carries (si_io (sample_reads (frame (frame sample_join)))) (frame (frame sample_join))"
    by (auto simp: carries_def sample_reads_def intro!: exI [of _ 0] exI [of _ "[frame (frame sample_join)]"])
  then show ?thesis
    using request_answered_on_wire [OF sample_join_small sample_join_decodes sample_up_inv, of 7 "ClientConnection_ctor 7 (create_tls 7)"
        "sample_reads (frame (frame sample_join))" sample_env "sample_accept\<lparr>si_io := sample_io\<lparr>io_written := 8 + int (length YOU_NEED_TO_LOGIN)\<rparr>\<rparr>"]
      sample_answer ms_inv_ctor
    by (simp add: ClientConnection_ctor_def create_tls_def is_stream_def YOU_NEED_TO_LOGIN_def to_bytes_def) blast
qed

end
