(* ===== verification/Raw_Socket.thy ===== *)
theory Raw_Socket
  imports Messenger_Prelude
begin

text \<open>
  The sockets (\<open>src/src/transport/raw_socket.cpp\<close>, \<open>src/include/transport/raw_socket.hpp\<close>). The results of the
  system calls made while a socket is set up are the record \<open>sock_io\<close>; the descriptor a failed call leaves
  behind is not closed, as in the source. \<open>setup_server\<close> and \<open>setup_connection\<close> of \<open>ISocket\<close> copy the descriptor of
  the socket they use.
\<close>

section \<open>State\<close>

datatype SocketType = TCP | UDP

record sock_io =
  sk_socket :: int
  sk_inet_pton :: int
  sk_bind :: int
  sk_listen :: int
  sk_setsockopt :: int
  sk_connect :: int
  sk_errno :: int
  sk_strerror :: string

text \<open>The address part of \<open>sockaddr_in\<close>: \<open>None\<close> is \<open>INADDR_ANY\<close>.\<close>

record RawSocket =
  rs_fd :: int
  rs_ip :: "string option"
  rs_port :: "16 word"

definition RawSocket_ctor :: RawSocket where
  "RawSocket_ctor = \<lparr>rs_fd = - 1, rs_ip = None, rs_port = 0\<rparr>"

definition EINPROGRESS :: int where "EINPROGRESS = 115"
definition EISCONN :: int where "EISCONN = 106"
definition EALREADY :: int where "EALREADY = 114"
definition ECONNREFUSED :: int where "ECONNREFUSED = 111"
definition ETIMEDOUT :: int where "ETIMEDOUT = 110"
definition EINVAL_pton :: int where "EINVAL_pton = 22"


section \<open>Operations\<close>

definition create_socket :: "sock_io \<Rightarrow> int" where
  "create_socket i = (if sk_socket i < 0 then - 1 else sk_socket i)"

definition tcp_server :: "sock_io \<Rightarrow> string \<Rightarrow> 16 word \<Rightarrow> (unit, RawSocket) action" where
  "tcp_server i ip port s =
     (let fd = create_socket i; s1 = s\<lparr>rs_fd := fd\<rparr> in
      if fd < 0 then (Inr (), s1)
      else let s2 = s1\<lparr>rs_port := port\<rparr> in
        if ip \<noteq> ''0.0.0.0'' \<and> sk_inet_pton i \<le> 0 then (Inl (RuntimeError (''Wrong IP: '' @ ip)), s2\<lparr>rs_fd := - 1\<rparr>)
        else let s3 = s2\<lparr>rs_ip := (if ip = ''0.0.0.0'' then None else Some ip)\<rparr> in
          if sk_bind i < 0 then (Inl (RuntimeError ''bind error''), s3\<lparr>rs_fd := - 1\<rparr>)
          else if sk_listen i < 0 then (Inl (RuntimeError ''listen error''), s3\<lparr>rs_fd := - 1\<rparr>)
          else if sk_setsockopt i < 0 then (Inl (RuntimeError (''setsockopt error: '' @ sk_strerror i)), s3\<lparr>rs_fd := - 1\<rparr>)
          else (Inr (), s3))"

definition tcp_client :: "sock_io \<Rightarrow> string \<Rightarrow> 16 word \<Rightarrow> RawSocket \<Rightarrow> int \<times> RawSocket" where
  "tcp_client i ip port s =
     (let fd = create_socket i; s1 = s\<lparr>rs_fd := fd\<rparr> in
      if fd < 0 then (- 1, s1)
      else let s2 = s1\<lparr>rs_port := port\<rparr> in
        if sk_inet_pton i \<le> 0 then (- EINVAL_pton, s2)
        else let s3 = s2\<lparr>rs_ip := Some ip\<rparr> in
          if sk_connect i = 0 then (0, s3)
          else if sk_errno i = EINPROGRESS then (0, s3)
          else if sk_errno i = EISCONN then (0, s3)
          else if sk_errno i = EALREADY then (0, s3)
          else if sk_errno i = ECONNREFUSED then (- ECONNREFUSED, s3)
          else if sk_errno i = ETIMEDOUT then (- ETIMEDOUT, s3)
          else (- sk_errno i, s3))"

text \<open>The text of the exception, in UTF-8.\<close>

definition wrong_ip_text :: string where
  "wrong_ip_text = to_string [0xD0, 0x9D, 0xD0, 0xB5, 0xD0, 0xB2, 0xD0, 0xB5, 0xD1, 0x80, 0xD0, 0xBD, 0xD1, 0x8B, 0xD0, 0xB9, 0x20] @ ''IP: ''"

definition udp_server :: "sock_io \<Rightarrow> string \<Rightarrow> 16 word \<Rightarrow> (unit, RawSocket) action" where
  "udp_server i ip port s =
     (let fd = create_socket i; s1 = s\<lparr>rs_fd := fd\<rparr> in
      if fd < 0 then (Inr (), s1)
      else let s2 = s1\<lparr>rs_port := port\<rparr> in
        if ip \<noteq> ''0.0.0.0'' \<and> sk_inet_pton i \<le> 0 then (Inl (RuntimeError (wrong_ip_text @ ip)), s2\<lparr>rs_fd := - 1\<rparr>)
        else let s3 = s2\<lparr>rs_ip := (if ip = ''0.0.0.0'' then None else Some ip)\<rparr> in
          if sk_bind i < 0 then (Inl (RuntimeError ''UDP bind failed''), s3)
          else if sk_setsockopt i < 0 then (Inl (RuntimeError (''setsockopt error: '' @ sk_strerror i)), s3\<lparr>rs_fd := - 1\<rparr>)
          else (Inr (), s3))"

text \<open>The descriptor is set to \<open>- 1\<close> and tested in the next line: the rest of the function is never reached.\<close>

definition udp_client :: "sock_io \<Rightarrow> string \<Rightarrow> 16 word \<Rightarrow> RawSocket \<Rightarrow> int \<times> RawSocket" where
  "udp_client i ip port s =
     (let s1 = s\<lparr>rs_fd := - 1\<rparr> in
      if rs_fd s1 < 0 then (- 1, s1)
      else if sk_inet_pton i \<le> 0 then (- 1, s1\<lparr>rs_port := port\<rparr>)
      else if sk_connect i < 0 then (- 2, s1\<lparr>rs_port := port, rs_ip := Some ip\<rparr>)
      else (0, s1\<lparr>rs_port := port, rs_ip := Some ip\<rparr>))"

text \<open>\<open>select\<close> on the socket: its result, membership in the two sets, and \<open>SO_ERROR\<close>.\<close>

record select_io =
  sel_ret :: int
  sel_except :: bool
  sel_write :: bool
  sel_so_error :: int

definition tcp_check_connection_complete :: "select_io \<Rightarrow> bool" where
  "tcp_check_connection_complete i =
     (if sel_ret i > 0 then
        (if sel_except i then False else if sel_write i then sel_so_error i = 0 else False)
      else False)"

definition udp_check_connection_complete :: bool where
  "udp_check_connection_complete = True"

record ISocket =
  is_type :: SocketType
  is_fd :: int
  is_socket :: RawSocket

definition ISocket_ctor :: "SocketType \<Rightarrow> int \<Rightarrow> ISocket" where
  "ISocket_ctor t indeterminate = \<lparr>is_type = t, is_fd = indeterminate, is_socket = RawSocket_ctor\<rparr>"

text \<open>An exception of \<open>server\<close> leaves \<open>fd\<close> of \<open>ISocket\<close> as it was.\<close>

definition setup_server :: "sock_io \<Rightarrow> string \<Rightarrow> 16 word \<Rightarrow> (unit, ISocket) action" where
  "setup_server i ip port s =
     (let (r, sock) = (case is_type s of TCP \<Rightarrow> tcp_server i ip port (is_socket s) | UDP \<Rightarrow> udp_server i ip port (is_socket s)) in
      case r of
        Inl e \<Rightarrow> (Inl e, s\<lparr>is_socket := sock\<rparr>)
      | Inr _ \<Rightarrow> (Inr (), s\<lparr>is_socket := sock, is_fd := rs_fd sock\<rparr>))"

definition setup_connection :: "sock_io \<Rightarrow> string \<Rightarrow> 16 word \<Rightarrow> ISocket \<Rightarrow> int \<times> ISocket" where
  "setup_connection i ip port s =
     (let (r, sock) = (case is_type s of TCP \<Rightarrow> tcp_client i ip port RawSocket_ctor | UDP \<Rightarrow> udp_client i ip port RawSocket_ctor) in
      (r, s\<lparr>is_socket := sock, is_fd := rs_fd sock\<rparr>))"

definition check_connection_complete :: "select_io \<Rightarrow> ISocket \<Rightarrow> bool" where
  "check_connection_complete i s = (case is_type s of
       TCP \<Rightarrow> tcp_check_connection_complete i | UDP \<Rightarrow> udp_check_connection_complete)"


section \<open>Lemmas\<close>

text \<open>A UDP client never gets a socket.\<close>

lemma udp_client_fails: "udp_client i ip port s = (- 1, s\<lparr>rs_fd := - 1\<rparr>)"
  by (simp add: udp_client_def)

text \<open>A server that is set up without an exception has a descriptor or could not create one.\<close>

lemma setup_server_fd:
  "setup_server i ip port s = (Inr (), s') \<Longrightarrow> is_fd s' = create_socket i"
  by (auto simp: setup_server_def tcp_server_def udp_server_def Let_def split: SocketType.splits if_splits prod.splits)

text \<open>A connection that is set up, or on its way, has the descriptor the kernel gave.\<close>

lemma setup_connection_fd:
  assumes "is_type s = TCP" "setup_connection i ip port s = (r, s')" "r \<ge> 0" "sk_errno i > 0"
  shows "is_fd s' = sk_socket i \<and> sk_socket i \<ge> 0"
  using assms
  by (auto simp: setup_connection_def tcp_client_def create_socket_def EINVAL_pton_def ECONNREFUSED_def ETIMEDOUT_def Let_def
      split: if_splits)

end
