(* ===== verification/Client_Transport.thy ===== *)
theory Client_Transport
  imports Server_Transport Raw_Socket
begin

text \<open>
  The client's transport: \<open>Client\<close> (\<open>src/src/transport/client.cpp\<close>, \<open>src/include/transport/client.hpp\<close>),
  \<open>ClientTLSWrapper\<close> (\<open>tls.cpp\<close>) and \<open>ClientHandler\<close> (\<open>handling.cpp\<close>).

  The application is the field \<open>cl_app\<close>; its callback is an action on the whole client, because it sends through
  it. \<open>cl_wire\<close> collects what was written to the socket. \<open>cl_tls\<close> is the wrapper with its flag \<open>handshake_done_\<close>; \<open>None\<close> is the
  null pointer. \<open>cl_framer\<close> says whether the \<open>unique_ptr\<close> to the framer holds an object. No constructor and no method sets it
  (\<open>client.hpp:20\<close>), and a call through the null pointer is undefined behaviour, so it ends a run like every other \<open>Undefined\<close>. What the
  code does with a framer is stated under the hypothesis that the pointer is set; a compiled program can behave like that, because
  \<open>FramerMessage\<close> has no data and its methods do not look at the object. Log output is left out.
\<close>

section \<open>State\<close>

record 'a Client =
  cl_socket :: ISocket
  cl_event_loop :: EventLoop
  cl_transport :: "ITransport option"
  cl_framer :: bool
  cl_recv_buffer :: bytes
  cl_tls :: "bool option"
  cl_ssl_ctx :: bool
  cl_wire :: bytes
  cl_app :: 'a

definition cl_put_loop :: "EventLoop \<Rightarrow> 'a Client \<Rightarrow> 'a Client" where
  "cl_put_loop el c = c\<lparr>cl_event_loop := el\<rparr>"

definition Client_ctor :: "EventLoop \<Rightarrow> ISocket \<Rightarrow> 'a \<Rightarrow> 'a Client" where
  "Client_ctor el sock app = \<lparr>cl_socket = sock, cl_event_loop = el, cl_transport = None, cl_framer = False, cl_recv_buffer = [],
     cl_tls = None, cl_ssl_ctx = True, cl_wire = [], cl_app = app\<rparr>"


section \<open>ClientTLSWrapper\<close>

definition client_wrapper_handshake :: "handshake \<Rightarrow> bool \<Rightarrow> bool cpp" where
  "client_wrapper_handshake rc handshake_done = (case rc of
       HsDone \<Rightarrow> Inr True | HsWant \<Rightarrow> Inr handshake_done | HsFailed \<Rightarrow> Inl (RuntimeError ''TLS SSL accept error''))"

text \<open>The constructor starts the handshake; when that throws there is no wrapper.\<close>

definition ClientTLSWrapper_ctor :: "handshake \<Rightarrow> bool cpp" where
  "ClientTLSWrapper_ctor rc = client_wrapper_handshake rc False"


section \<open>Client\<close>

definition client_connect :: "sock_io \<Rightarrow> handshake \<Rightarrow> string \<Rightarrow> int \<Rightarrow> (bool, 'a Client) action" where
  "client_connect i rc server_ip port c =
     (let (r, sock) = setup_connection i server_ip (word_of_int port) (cl_socket c); c1 = c\<lparr>cl_socket := sock\<rparr> in
      if r < 0 then (Inr False, c1)
      else let c2 = c1\<lparr>cl_event_loop := add_fd (is_fd sock) ClientHandler (EPOLLIN OR EPOLLRDHUP) (cl_event_loop c1)\<rparr> in
        (case ClientTLSWrapper_ctor rc of
           Inl e \<Rightarrow> (Inl e, c2)
         | Inr d \<Rightarrow> (Inr True, c2\<lparr>cl_tls := Some d, cl_transport := Some (create_tls (is_fd sock))\<rparr>)))"

definition client_tls_handshake :: "handshake \<Rightarrow> (unit, 'a Client) action" where
  "client_tls_handshake rc c = (case cl_tls c of
       None \<Rightarrow> (Inl (Undefined ''null tls wrapper''), c)
     | Some d \<Rightarrow> (case client_wrapper_handshake rc d of Inl e \<Rightarrow> (Inl e, c) | Inr d' \<Rightarrow> (Inr (), c\<lparr>cl_tls := Some d'\<rparr>)))"

definition client_tls_handshake_done :: "'a Client \<Rightarrow> bool cpp" where
  "client_tls_handshake_done c = (case cl_tls c of None \<Rightarrow> Inl (Undefined ''null tls wrapper'') | Some d \<Rightarrow> Inr d)"

definition client_disconnect :: "'a Client \<Rightarrow> 'a Client" where
  "client_disconnect c =
     (let c1 = (if is_fd (cl_socket c) \<noteq> - 1
                then c\<lparr>cl_event_loop := el_stop (remove_fd (is_fd (cl_socket c)) (cl_event_loop c)), cl_socket := (cl_socket c)\<lparr>is_fd := - 1\<rparr>\<rparr>
                else c) in
      if cl_ssl_ctx c1 then c1\<lparr>cl_ssl_ctx := False\<rparr> else c1)"

text \<open>The packet is formed before the transport is looked at. The number of bytes written is not looked at.\<close>

definition client_send_to_server :: "io \<Rightarrow> bytes \<Rightarrow> (unit, 'a Client) action" where
  "client_send_to_server i data c =
     (if \<not> cl_framer c then (Inl (Undefined ''null framer''), c)
      else case cl_transport c of
       None \<Rightarrow> (Inl (Undefined ''null transport''), c)
     | Some t \<Rightarrow> (let packet = form_message data []; (_, wire) = transport_send i t packet in (Inr (), c\<lparr>cl_wire := cl_wire c @ wire\<rparr>)))"

text \<open>
  The loop over the complete messages of the buffer. \<open>fuel\<close> bounds the rounds; the length of the buffer is enough for a callback that does
  not put anything into it (\<open>client_loop_delivers\<close>).
\<close>

fun client_loop :: "(bytes \<Rightarrow> (unit, 'a Client) action) \<Rightarrow> nat \<Rightarrow> (unit, 'a Client) action" where
  "client_loop cb fuel c =
     (if \<not> cl_framer c then (Inl (Undefined ''null framer''), c)
      else if \<not> has_message_in_buffer (cl_recv_buffer c) then (Inr (), c)
      else case fuel of
        0 \<Rightarrow> (Inl (Undefined ''out of fuel''), c)
      | Suc fuel' \<Rightarrow> (case extract_message (cl_recv_buffer c) of
           Inl e \<Rightarrow> (Inl e, c)
         | Inr (raw_bytes, left) \<Rightarrow> andThen (cb raw_bytes) (\<lambda>_. client_loop cb fuel') (c\<lparr>cl_recv_buffer := left\<rparr>)))"

declare client_loop.simps [simp del]

text \<open>\<open>on_disconnected\<close> only logs; a result that is neither complete nor closed is dropped with its data.\<close>

definition on_server_message :: "(bytes \<Rightarrow> (unit, 'a Client) action) \<Rightarrow> io \<Rightarrow> (unit, 'a Client) action" where
  "on_server_message cb i c = (case cl_transport c of
       None \<Rightarrow> (Inl (Undefined ''null transport''), c)
     | Some t \<Rightarrow>
        (let (r, t') = transport_receive i t; c1 = c\<lparr>cl_transport := Some t'\<rparr> in
         case r of
           Inl e \<Rightarrow> (Inl e, c1)
         | Inr result \<Rightarrow>
            (if rr_status result = OK then
               (let c2 = c1\<lparr>cl_recv_buffer := cl_recv_buffer c1 @ nb_bytes (rr_data result)\<rparr> in client_loop cb (length (cl_recv_buffer c2)) c2)
             else (Inr (), c1))))"

definition isConnected :: "'a Client \<Rightarrow> bool" where
  "isConnected c = (is_fd (cl_socket c) \<noteq> - 1)"

definition client_get_fd :: "'a Client \<Rightarrow> int" where
  "client_get_fd c = is_fd (cl_socket c)"

definition on_writable :: "int \<Rightarrow> 'a Client \<Rightarrow> 'a Client" where
  "on_writable fd c = c"

text \<open>\<open>ClientHandler\<close>; until the handshake is done errors of the connection are ignored.\<close>

record client_io =
  ci_io :: io
  ci_handshake :: handshake

definition client_handle_event :: "(bytes \<Rightarrow> (unit, 'a Client) action) \<Rightarrow> client_io \<Rightarrow> int \<Rightarrow> 32 word \<Rightarrow> (unit, 'a Client) action" where
  "client_handle_event cb orc fd event_mask c = (case client_tls_handshake_done c of
       Inl e \<Rightarrow> (Inl e, c)
     | Inr False \<Rightarrow> (if has_flag event_mask (EPOLLIN OR EPOLLOUT) then client_tls_handshake (ci_handshake orc) c else (Inr (), c))
     | Inr True \<Rightarrow>
        (if has_flag event_mask (EPOLLERR OR EPOLLHUP OR EPOLLRDHUP) then (Inr (), client_disconnect c)
         else if has_flag event_mask EPOLLIN then on_server_message cb (ci_io orc) c
         else (Inr (), c)))"

fun client_handle :: "(bytes \<Rightarrow> (unit, 'a Client) action) \<Rightarrow> IEventHandler \<Rightarrow> client_io \<Rightarrow> int \<Rightarrow> 32 word \<Rightarrow> (unit, 'a Client) action" where
  "client_handle cb ClientHandler orc fd event_mask = client_handle_event cb orc fd event_mask"
| "client_handle cb _ orc fd event_mask = ret ()"

definition client_round :: "(bytes \<Rightarrow> (unit, 'a Client) action) \<Rightarrow> client_io epoll_result \<Rightarrow> (unit, 'a Client) action" where
  "client_round cb = run_once cl_event_loop cl_put_loop (client_handle cb)"

fun client_run_event_loop :: "(bytes \<Rightarrow> (unit, 'a Client) action) \<Rightarrow> client_io epoll_result list \<Rightarrow> (unit, 'a Client) action" where
  "client_run_event_loop cb [] = ret ()"
| "client_run_event_loop cb (ep # eps) =
     (\<lambda>c. if \<not> isConnected c then (Inr (), c) else andThen (client_round cb ep) (\<lambda>_. client_run_event_loop cb eps) c)"

definition make_tcp_client :: "EventLoop \<Rightarrow> sock_io \<Rightarrow> handshake \<Rightarrow> string \<Rightarrow> int \<Rightarrow> 'a \<Rightarrow> bool cpp \<times> 'a Client" where
  "make_tcp_client el i rc ip port app = client_connect i rc ip port (Client_ctor el (ISocket_ctor TCP 0) app)"

definition make_udp_client :: "EventLoop \<Rightarrow> sock_io \<Rightarrow> handshake \<Rightarrow> string \<Rightarrow> int \<Rightarrow> 'a \<Rightarrow> bool cpp \<times> 'a Client" where
  "make_udp_client el i rc ip port app = client_connect i rc ip port (Client_ctor el (ISocket_ctor UDP 0) app)"

section \<open>The framer that is never there\<close>

text \<open>What a client without a framer has done: nothing reached the application and nothing was written.\<close>

definition mute :: "'a \<Rightarrow> 'a Client \<Rightarrow> bool" where
  "mute app c \<longleftrightarrow> \<not> cl_framer c \<and> cl_wire c = [] \<and> cl_app c = app"

lemma mute_send: "mute app c \<Longrightarrow> client_send_to_server i data c = (Inl (Undefined ''null framer''), c)"
  by (simp add: mute_def client_send_to_server_def)

lemma mute_loop: "mute app c \<Longrightarrow> client_loop cb fuel c = (Inl (Undefined ''null framer''), c)"
  by (simp add: mute_def client_loop.simps)

lemma mute_message: "mute app c \<Longrightarrow> on_server_message cb i c = (r, c') \<Longrightarrow> mute app c'"
  by (auto simp: mute_def on_server_message_def client_loop.simps Let_def split: option.splits prod.splits sum.splits if_splits)

lemma mute_simps [simp]:
  "mute app (cl_put_loop el c) = mute app c" "mute app (client_disconnect c) = mute app c" "mute app (c\<lparr>cl_tls := d\<rparr>) = mute app c"
  by (simp_all add: mute_def cl_put_loop_def client_disconnect_def Let_def)

lemma mute_handle:
  assumes "mute app c" "client_handle cb h orc fd evm c = (r, c')"
  shows "mute app c'"
proof (cases "h = ClientHandler")
  case True
  with assms mute_message [OF assms(1)] show ?thesis
    by (auto simp: client_handle_event_def client_tls_handshake_def split: sum.splits bool.splits option.splits if_splits)
next
  case False
  with assms show ?thesis by (cases h) (simp_all add: ret_def)
qed

lemma mute_dispatch: "mute app c \<Longrightarrow> dispatch_events cl_event_loop cl_put_loop (client_handle cb) evs c = (r, c') \<Longrightarrow> mute app c'"
proof (induction evs arbitrary: c)
  case (Cons ev evs)
  obtain fd evm orc where ev: "ev = (fd, evm, orc)" by (metis prod_cases3)
  let ?one = "\<lambda>c. if fd = el_wakeup_fd (cl_event_loop c) then (Inr (), cl_put_loop ((cl_event_loop c)\<lparr>el_wakeup := False\<rparr>) c)
        else (case el_handlers (cl_event_loop c) fd of None \<Rightarrow> (Inr (), c) | Some h \<Rightarrow> client_handle cb h orc fd evm c)"
  obtain r1 c1 where c1: "?one c = (r1, c1)" by force
  then have "mute app c1" using Cons.prems(1) mute_handle by (fastforce split: if_splits option.splits)
  with Cons c1 show ?case unfolding ev by (cases r1) (auto simp: andThen_def simp del: split_paired_All)
qed (simp add: ret_def)

lemma mute_round: "mute app c \<Longrightarrow> client_round cb ep c = (r, c') \<Longrightarrow> mute app c'"
  by (cases ep) (auto simp: client_round_def ret_def lift_def dest: mute_dispatch)

lemma mute_run: "mute app c \<Longrightarrow> client_run_event_loop cb eps c = (r, c') \<Longrightarrow> mute app c'"
proof (induction eps arbitrary: c)
  case (Cons ep eps)
  obtain r1 c1 where "client_round cb ep c = (r1, c1)" by force
  with Cons mute_round [OF Cons.prems(1) this] show ?case by (cases r1) (auto simp: andThen_def split: if_splits)
qed (simp add: ret_def)

lemma mute_connect: "mute app c \<Longrightarrow> client_connect i rc ip port c = (r, c') \<Longrightarrow> mute app c'"
  by (auto simp: mute_def client_connect_def Let_def split: prod.splits if_splits sum.splits)

lemma mute_made: "make_tcp_client el i rc ip port app = (r, c) \<Longrightarrow> mute app c" "make_udp_client el i rc ip port app = (r, c) \<Longrightarrow> mute app c"
  by (auto simp: make_tcp_client_def make_udp_client_def mute_def Client_ctor_def dest: mute_connect [where app = app, rotated])

text \<open>
  C40: the client's transport has no framer, and everything it is for runs into the null pointer. For a client the factory made, whatever its connection
  attempt returned, whatever application it serves and whatever rounds of its event loop have run: nothing has ever been written to the server and the
  application has never been called; sending a message is undefined behaviour before the transport is reached; and so is every
  readable event whose receive is successful, whether or not a whole message has arrived.
\<close>

theorem client_without_framer:
  assumes "make_tcp_client el si rc ip port app = (r0, c0)" "client_run_event_loop cb eps c0 = (r, c)"
  shows "cl_wire c = [] \<and> cl_app c = app \<and> client_send_to_server i data c = (Inl (Undefined ''null framer''), c) \<and>
    (\<forall>t t' res. cl_transport c = Some t \<longrightarrow> transport_receive i t = (Inr res, t') \<longrightarrow> rr_status res = OK \<longrightarrow>
      fst (on_server_message cb i c) = Inl (Undefined ''null framer''))"
proof -
  have "mute app c" by (rule mute_run [OF mute_made(1) [OF assms(1)] assms(2)])
  then show ?thesis by (auto simp: mute_def mute_send on_server_message_def client_loop.simps Let_def)
qed

text \<open>A client that is connected and whose handshake is done.\<close>

definition sample_sock :: sock_io where
  "sample_sock = \<lparr>sk_socket = 5, sk_inet_pton = 1, sk_bind = 0, sk_listen = 0, sk_setsockopt = 0, sk_connect = 0, sk_errno = 0, sk_strerror = []\<rparr>"

definition sample_el :: EventLoop where
  "sample_el = \<lparr>el_epollfd = 3, el_wakeup_fd = 4, el_wakeup = False, el_handlers = Map.empty, el_interest = Map.empty\<rparr>"

theorem client_without_framer_witness:
  "\<exists>c0 c. make_tcp_client sample_el sample_sock HsDone ''127.0.0.1'' 8080 () = (Inr True, c0) \<and>
    client_run_event_loop (\<lambda>_. ret ()) [Interrupted] c0 = (Inr (), c) \<and>
    client_send_to_server sample_io [7] c = (Inl (Undefined ''null framer''), c) \<and>
    fst (on_server_message (\<lambda>_. ret ()) (sample_io\<lparr>io_reads := [Recv (0, 0) (frame (frame [7]))]\<rparr>) c) = Inl (Undefined ''null framer'')"
proof -
  let ?i = "sample_io\<lparr>io_reads := [Recv (0, 0) (frame (frame [7]))]\<rparr>" and ?cb = "\<lambda>_. ret ()"
  obtain c0 where c0: "make_tcp_client sample_el sample_sock HsDone ''127.0.0.1'' 8080 () = (Inr True, c0)" "cl_transport c0 = Some (create_tls 5)"
      "is_fd (cl_socket c0) = 5"
    by (simp add: make_tcp_client_def Client_ctor_def client_connect_def setup_connection_def tcp_client_def create_socket_def sample_sock_def ISocket_ctor_def
        ClientTLSWrapper_ctor_def client_wrapper_handshake_def Let_def)
  have run: "client_run_event_loop ?cb [Interrupted] c0 = (Inr (), c0)"
    using c0(3) by (simp add: isConnected_def client_round_def andThen_def ret_def)
  have "length (frame [7 :: 8 word]) < 4294967296" by simp
  from receive_loop_frame [OF this, of "[]" "[frame (frame [7])]" "(0, 0)"]
  obtain rs' where rs': "receive_loop [] [Recv (0, 0) (frame (frame [7]))] = (receive_result OK (frame [7]) 0, [], rs')" by auto
  obtain nb where "receive_result OK (frame [7]) 0 = Inr \<lparr>rr_status = OK, rr_data = nb, rr_error_code = 0\<rparr>"
    by (rule receive_result_eq)
  then have "transport_receive ?i (create_tls 5) = (Inr \<lparr>rr_status = OK, rr_data = nb, rr_error_code = 0\<rparr>, create_tls 5)"
    using rs' stream_receive [of "create_tls 5" ?i] by (simp add: create_tls_def is_stream_def)
  with client_without_framer [OF c0(1) run, of ?i "[7]"] client_without_framer [OF c0(1) run, of sample_io "[7]"] c0 run show ?thesis by auto
qed

section \<open>The contract of the application\<close>

fun client_deliver :: "(bytes \<Rightarrow> (unit, 'a Client) action) \<Rightarrow> bytes list \<Rightarrow> (unit, 'a Client) action" where
  "client_deliver cb [] = ret ()"
| "client_deliver cb (m # ms) =
     andThen (modify (\<lambda>c. c\<lparr>cl_recv_buffer := drop (4 + length m) (cl_recv_buffer c)\<rparr>)) (\<lambda>_. andThen (cb m) (\<lambda>_. client_deliver cb ms))"

locale client_application =
  fixes cb :: "bytes \<Rightarrow> (unit, 'a Client) action"
  assumes cb_buffer: "cb m c = (r, c') \<Longrightarrow> cl_recv_buffer c' = cl_recv_buffer c"
    and cb_framer: "cb m c = (r, c') \<Longrightarrow> cl_framer c' = cl_framer c"
begin

lemma client_loop_delivers:
  "cl_framer c \<Longrightarrow> cl_recv_buffer c = concat (map frame ds) @ left \<Longrightarrow> \<forall>d\<in>set ds. length d < 4294967296 \<Longrightarrow> \<not> has_message_in_buffer left \<Longrightarrow>
   length ds \<le> fuel \<Longrightarrow> client_loop cb fuel c = client_deliver cb ds c"
proof (induction ds arbitrary: c fuel)
  case Nil
  then show ?case by (simp add: client_loop.simps ret_def)
next
  case (Cons d ds)
  let ?left = "concat (map frame ds) @ left"
  obtain f where f: "fuel = Suc f" "length ds \<le> f" using Cons.prems(5) by (cases fuel) auto
  have len: "length d < 4294967296" using Cons.prems(3) by simp
  have buf: "cl_recv_buffer c = frame d @ ?left" using Cons.prems(2) by simp
  have has: "has_message_in_buffer (cl_recv_buffer c)"
    unfolding buf using frame_length_frame [OF len] by (intro has_message_complete) simp
  have ext: "extract_message (cl_recv_buffer c) = Inr (d, ?left)"
    using form_message_extract [OF len, of ?left] buf by (simp add: frame_def)
  define c1 where "c1 = c\<lparr>cl_recv_buffer := ?left\<rparr>"
  have step: "client_loop cb fuel c = andThen (cb d) (\<lambda>_. client_loop cb f) c1"
    unfolding c1_def f(1) using has ext Cons.prems(1) by (subst client_loop.simps) simp
  have del: "client_deliver cb (d # ds) c = andThen (cb d) (\<lambda>_. client_deliver cb ds) c1"
    using buf by (simp add: andThen_eval c1_def)
  obtain r2 c2 where c2: "cb d c1 = (r2, c2)" by force
  have "cl_recv_buffer c2 = ?left" "cl_framer c2" using cb_buffer [OF c2] cb_framer [OF c2] Cons.prems(1) by (simp_all add: c1_def)
  then have "client_loop cb f c2 = client_deliver cb ds c2" using Cons.IH [of c2 f] Cons.prems(3, 4) f(2) by simp
  then show ?case unfolding step del using c2 by (simp add: andThen_def split: sum.split)
qed

text \<open>With a framer, a frame of the transport that arrives with one event, whatever the reads: every message in it reaches the callback, in order.\<close>

lemma message_frame:
  assumes "cl_framer c" "cl_transport c = Some t" "is_stream t" "cl_recv_buffer c = []" "\<forall>d\<in>set ds. length d < 4294967296"
    and "length (concat (map frame ds)) < 4294967296" "io_reads i = map (Recv a) pieces" "concat pieces = frame (concat (map frame ds))"
  shows "on_server_message cb i c =
    client_deliver cb ds (c\<lparr>cl_transport := Some (with_accumulation t []), cl_recv_buffer := concat (map frame ds)\<rparr>)"
proof -
  let ?p = "concat (map frame ds)"
  obtain rs' where rs': "receive_loop [] (io_reads i) = (receive_result OK ?p 0, [], rs')"
    using receive_loop_frame [of ?p "[]" pieces a] assms(6-8) by auto
  obtain nb where nb: "receive_result OK ?p 0 = Inr \<lparr>rr_status = OK, rr_data = nb, rr_error_code = 0\<rparr>" "nb_bytes nb = ?p"
    by (rule receive_result_eq)
  have r: "transport_receive i t = (Inr \<lparr>rr_status = OK, rr_data = nb, rr_error_code = 0\<rparr>, with_accumulation t [])"
    using rs' nb assms(3) by (simp add: stream_receive)
  let ?c = "c\<lparr>cl_transport := Some (with_accumulation t []), cl_recv_buffer := ?p\<rparr>"
  have "length ds \<le> length ?p" by (induction ds) simp_all
  then have "client_loop cb (length ?p) ?c = client_deliver cb ds ?c"
    by (intro client_loop_delivers [where left = "[]"]) (use assms(1, 5) in \<open>simp_all add: has_message_in_buffer_def\<close>)
  then show ?thesis using r assms(2, 4) nb(2) by (simp add: on_server_message_def Let_def)
qed

end

end
