(* ===== verification/Message_Queue.thy ===== *)
theory Message_Queue
  imports Messenger_Prelude
begin

text \<open>
  The queue of messages that wait for a recipient's key
  (\<open>src/src/application/messaging/message_queue.cpp\<close>): the ring buffer \<open>LockFreeQueue\<close>, the map of
  rings \<open>MessageQueue\<close>, and the interleavings of one producer and one consumer on a ring.

  The contract of a bounded FIFO queue is the locale \<open>bounded_fifo\<close>; the ring interprets it. The
  interleaving model has one atomic step per atomic load, store or slot access and is sequentially
  consistent (the source pairs release stores with acquire loads).
\<close>

section \<open>The ring\<close>

record OutgoingMessage =
  om_bytes :: bytes

definition default_outgoing :: OutgoingMessage where
  "default_outgoing = \<lparr>om_bytes = []\<rparr>"

text \<open>\<open>head\<close> and \<open>tail\<close> are atomics that only ever hold indices below \<open>Size\<close>.\<close>

record LockFreeQueue =
  lfq_buffer :: "OutgoingMessage list"
  lfq_head :: nat
  lfq_tail :: nat

definition LockFreeQueue_ctor :: "nat \<Rightarrow> LockFreeQueue" where
  "LockFreeQueue_ctor Size = \<lparr>lfq_buffer = replicate Size default_outgoing, lfq_head = 0, lfq_tail = 0\<rparr>"

definition lfq_push :: "nat \<Rightarrow> LockFreeQueue \<Rightarrow> OutgoingMessage \<Rightarrow> bool \<times> LockFreeQueue" where
  "lfq_push Size q item =
     (let t = lfq_tail q; t_next = (t + 1) mod Size in
      if t_next = lfq_head q then (False, q)
      else (True, q\<lparr>lfq_buffer := (lfq_buffer q)[t := item], lfq_tail := t_next\<rparr>))"

text \<open>Moving the item out leaves an empty byte vector in the slot.\<close>

definition lfq_pop :: "nat \<Rightarrow> LockFreeQueue \<Rightarrow> OutgoingMessage option \<times> LockFreeQueue" where
  "lfq_pop Size q =
     (let h = lfq_head q in
      if h = lfq_tail q then (None, q)
      else (Some (lfq_buffer q ! h),
            q\<lparr>lfq_buffer := (lfq_buffer q)[h := default_outgoing], lfq_head := (h + 1) mod Size\<rparr>))"


section \<open>MessageQueue\<close>

definition kQueueSize :: nat where
  "kQueueSize = 4096"

record MessageQueue =
  mq_queues :: "bytes \<Rightarrow> LockFreeQueue option"

definition MessageQueue_ctor :: MessageQueue where
  "MessageQueue_ctor = \<lparr>mq_queues = Map.empty\<rparr>"

definition mq_push :: "MessageQueue \<Rightarrow> bytes \<Rightarrow> bytes \<Rightarrow> MessageQueue" where
  "mq_push mq recipient_username data =
     (let queues = (case mq_queues mq recipient_username of
                      None \<Rightarrow> (mq_queues mq)(recipient_username \<mapsto> LockFreeQueue_ctor kQueueSize)
                    | Some _ \<Rightarrow> mq_queues mq);
          q = the (queues recipient_username)
      in mq\<lparr>mq_queues := queues(recipient_username \<mapsto> snd (lfq_push kQueueSize q \<lparr>om_bytes = data\<rparr>))\<rparr>)"

definition mq_empty :: "MessageQueue \<Rightarrow> bytes \<Rightarrow> bool" where
  "mq_empty mq recipient_username = False"

definition mq_pop :: "MessageQueue \<Rightarrow> OutgoingMessage option cpp" where
  "mq_pop mq = Inl (RuntimeError ''MessageQueue is empty'')"

definition mq_find_pending :: "MessageQueue \<Rightarrow> bytes \<Rightarrow> OutgoingMessage option \<times> MessageQueue" where
  "mq_find_pending mq recipient_username =
     (case mq_queues mq recipient_username of
        Some q \<Rightarrow> (let (msg, q') = lfq_pop kQueueSize q in
                   (msg, mq\<lparr>mq_queues := (mq_queues mq)(recipient_username \<mapsto> q')\<rparr>))
      | None \<Rightarrow> (None, mq))"


section \<open>The contract of a bounded FIFO queue\<close>

locale bounded_fifo =
  fixes enq :: "'q \<Rightarrow> 'a \<Rightarrow> bool \<times> 'q"
    and deq :: "'q \<Rightarrow> 'a option \<times> 'q"
    and elems :: "'q \<Rightarrow> 'a list"
    and inv :: "'q \<Rightarrow> bool"
    and cap :: nat
  assumes enq_ok: "inv q \<Longrightarrow> length (elems q) < cap \<Longrightarrow>
      fst (enq q x) \<and> inv (snd (enq q x)) \<and> elems (snd (enq q x)) = elems q @ [x]"
    and enq_full: "inv q \<Longrightarrow> length (elems q) = cap \<Longrightarrow> enq q x = (False, q)"
    and deq_ok: "inv q \<Longrightarrow> elems q = x # xs \<Longrightarrow>
      fst (deq q) = Some x \<and> inv (snd (deq q)) \<and> elems (snd (deq q)) = xs"
    and deq_empty: "inv q \<Longrightarrow> elems q = [] \<Longrightarrow> deq q = (None, q)"
    and elems_cap: "inv q \<Longrightarrow> length (elems q) \<le> cap"
begin

lemma enq_inv: "inv q \<Longrightarrow> inv (snd (enq q x))"
  using enq_ok [of q x] enq_full [of q x] elems_cap [of q] by (cases "length (elems q) = cap") auto

lemma deq_inv: "inv q \<Longrightarrow> inv (snd (deq q))"
  using deq_ok [of q] deq_empty [of q] by (cases "elems q") auto

lemma enq_elems: "inv q \<Longrightarrow> elems (snd (enq q x)) = (if length (elems q) < cap then elems q @ [x] else elems q)"
  using enq_ok [of q x] enq_full [of q x] elems_cap [of q] by (cases "length (elems q) = cap") auto

lemma deq_elems: "inv q \<Longrightarrow> elems (snd (deq q)) = tl (elems q) \<and> fst (deq q) = (case elems q of [] \<Rightarrow> None | x # _ \<Rightarrow> Some x)"
  using deq_ok [of q] deq_empty [of q] by (cases "elems q") auto

text \<open>Items that fit come out in the order they went in.\<close>

lemma enq_all:
  "inv q \<Longrightarrow> length (elems q) + length xs \<le> cap \<Longrightarrow>
   inv (foldl (\<lambda>q x. snd (enq q x)) q xs) \<and> elems (foldl (\<lambda>q x. snd (enq q x)) q xs) = elems q @ xs"
proof (induction xs arbitrary: q)
  case (Cons x xs)
  then show ?case using enq_ok [of q x] Cons.IH [of "snd (enq q x)"] by simp
qed simp

end

definition ring_inv :: "nat \<Rightarrow> LockFreeQueue \<Rightarrow> bool" where
  "ring_inv n q \<longleftrightarrow> length (lfq_buffer q) = n \<and> lfq_head q < n \<and> lfq_tail q < n"

definition ring_count :: "nat \<Rightarrow> LockFreeQueue \<Rightarrow> nat" where
  "ring_count n q = (if lfq_head q \<le> lfq_tail q then lfq_tail q - lfq_head q else lfq_tail q + n - lfq_head q)"

definition ring_elems :: "nat \<Rightarrow> LockFreeQueue \<Rightarrow> OutgoingMessage list" where
  "ring_elems n q = map (\<lambda>i. lfq_buffer q ! ((lfq_head q + i) mod n)) [0..<ring_count n q]"

lemma ring_count_less: "ring_inv n q \<Longrightarrow> ring_count n q < n"
  by (auto simp: ring_inv_def ring_count_def)

lemma length_ring_elems [simp]: "length (ring_elems n q) = ring_count n q"
  by (simp add: ring_elems_def)

lemma ring_tail: "ring_inv n q \<Longrightarrow> lfq_tail q = (lfq_head q + ring_count n q) mod n"
  by (auto simp: ring_inv_def ring_count_def mod_if)

lemma ring_full: "ring_inv n q \<Longrightarrow> (lfq_tail q + 1) mod n = lfq_head q \<longleftrightarrow> ring_count n q = n - 1"
  by (auto simp: ring_inv_def ring_count_def mod_if)

lemma ring_empty: "ring_inv n q \<Longrightarrow> lfq_head q = lfq_tail q \<longleftrightarrow> ring_count n q = 0"
  by (auto simp: ring_inv_def ring_count_def)

text \<open>Slots of elements differ from the slot at the tail, so writing the tail slot changes no element.\<close>

lemma slot_mod: "a < n \<Longrightarrow> i < n \<Longrightarrow> (a + i) mod n = (if a + i < n then a + i else a + i - (n :: nat))"
  by (simp add: mod_if)

lemma ring_slot_neq: "ring_inv n q \<Longrightarrow> i < ring_count n q \<Longrightarrow> (lfq_head q + i) mod n \<noteq> lfq_tail q"
  using slot_mod [of "lfq_head q" n i] ring_count_less [of n q]
  by (auto simp: ring_inv_def ring_count_def split: if_splits)

lemma ring_elems_write_tail:
  "ring_inv n q \<Longrightarrow> ring_elems n (q\<lparr>lfq_buffer := (lfq_buffer q)[lfq_tail q := x]\<rparr>) = ring_elems n q"
proof -
  assume "ring_inv n q"
  then have "(lfq_buffer q)[lfq_tail q := x] ! ((lfq_head q + i) mod n) = lfq_buffer q ! ((lfq_head q + i) mod n)"
    if "i < ring_count n q" for i
    using ring_slot_neq [of n q i] that by (metis nth_list_update_neq)
  then show ?thesis by (simp add: ring_elems_def) (simp add: ring_count_def)
qed

lemma ring_elems_advance_tail:
  assumes "ring_inv n q" "(lfq_tail q + 1) mod n \<noteq> lfq_head q"
  shows "ring_elems n (q\<lparr>lfq_tail := (lfq_tail q + 1) mod n\<rparr>) = ring_elems n q @ [lfq_buffer q ! lfq_tail q]"
proof -
  have "ring_count n (q\<lparr>lfq_tail := (lfq_tail q + 1) mod n\<rparr>) = Suc (ring_count n q)"
    using assms by (auto simp: ring_inv_def ring_count_def mod_if split: if_splits)
  then show ?thesis using ring_tail [OF assms(1)] by (simp add: ring_elems_def)
qed

lemma ring_elems_advance_head:
  assumes "ring_inv n q" "lfq_head q \<noteq> lfq_tail q"
  shows "ring_elems n q = lfq_buffer q ! lfq_head q # ring_elems n (q\<lparr>lfq_head := (lfq_head q + 1) mod n\<rparr>)"
proof -
  have c: "ring_count n q = Suc (ring_count n (q\<lparr>lfq_head := (lfq_head q + 1) mod n\<rparr>))"
    using assms by (auto simp: ring_inv_def ring_count_def mod_if split: if_splits)
  have h: "lfq_head q mod n = lfq_head q" using assms(1) by (simp add: ring_inv_def)
  have "(Suc (lfq_head q) mod n + i) mod n = (lfq_head q + Suc i) mod n" for i
    by (simp add: mod_add_left_eq)
  with c h show ?thesis by (simp add: ring_elems_def upt_conv_Cons map_Suc_upt [symmetric] comp_def del: upt_Suc)
qed

text \<open>The slot at the head is not one of the elements after it.\<close>

lemma ring_elems_clear_head:
  assumes "ring_inv n q" "lfq_head q \<noteq> lfq_tail q"
  shows "ring_elems n (q\<lparr>lfq_buffer := (lfq_buffer q)[lfq_head q := x], lfq_head := (lfq_head q + 1) mod n\<rparr>) =
    ring_elems n (q\<lparr>lfq_head := (lfq_head q + 1) mod n\<rparr>)"
proof -
  let ?q = "q\<lparr>lfq_head := (lfq_head q + 1) mod n\<rparr>"
  have "lfq_head q \<noteq> ((lfq_head q + 1) mod n + i) mod n" if "i < ring_count n ?q" for i
  proof -
    have h: "lfq_head q < n" and next_slot: "(lfq_head q + 1) mod n = (if lfq_head q + 1 = n then 0 else lfq_head q + 1)"
      using assms(1) by (auto simp: ring_inv_def)
    have q: "ring_inv n ?q" using assms(1) h next_slot by (auto simp: ring_inv_def)
    have "i < n" "(lfq_head q + 1) mod n < n" using ring_count_less [OF q] that q by (auto simp: ring_inv_def)
    then show ?thesis
      using slot_mod [of "(lfq_head q + 1) mod n" n i] h that assms unfolding next_slot
      by (auto simp: ring_inv_def ring_count_def split: if_splits)
  qed
  then show ?thesis
    by (auto simp: ring_elems_def ring_count_def simp del: One_nat_def add_Suc_right intro!: nth_list_update_neq)
qed

lemma ring_push_elems:
  assumes "ring_inv n q" "ring_count n q < n - 1"
  shows "fst (lfq_push n q x) \<and> ring_inv n (snd (lfq_push n q x)) \<and>
    ring_elems n (snd (lfq_push n q x)) = ring_elems n q @ [x]"
proof -
  let ?q = "q\<lparr>lfq_buffer := (lfq_buffer q)[lfq_tail q := x]\<rparr>"
  have nf: "(lfq_tail q + 1) mod n \<noteq> lfq_head q" using ring_full [OF assms(1)] assms(2) by simp
  have q: "ring_inv n ?q" using assms(1) by (simp add: ring_inv_def)
  have "ring_elems n (?q\<lparr>lfq_tail := (lfq_tail ?q + 1) mod n\<rparr>) = ring_elems n ?q @ [lfq_buffer ?q ! lfq_tail ?q]"
    using nf by (intro ring_elems_advance_tail [OF q]) simp
  with nf show ?thesis
    using assms(1) ring_elems_write_tail [OF assms(1), of x]
    by (simp add: lfq_push_def Let_def ring_inv_def)
qed

lemma ring_pop_elems:
  assumes "ring_inv n q" "ring_elems n q = x # xs"
  shows "fst (lfq_pop n q) = Some x \<and> ring_inv n (snd (lfq_pop n q)) \<and> ring_elems n (snd (lfq_pop n q)) = xs"
proof -
  have "ring_count n q \<noteq> 0" using assms(2) by (metis length_ring_elems list.size(3) list.distinct(1) length_0_conv)
  then have ne: "lfq_head q \<noteq> lfq_tail q" using ring_empty [OF assms(1)] by simp
  with assms show ?thesis
    using ring_elems_advance_head [OF assms(1) ne] ring_elems_clear_head [OF assms(1) ne, of default_outgoing]
    by (simp add: lfq_pop_def Let_def ring_inv_def)
qed

text \<open>A ring of \<open>n\<close> slots is a FIFO queue of capacity \<open>n - 1\<close>; the program's rings have 4096 slots.\<close>

interpretation ring: bounded_fifo "lfq_push kQueueSize" "lfq_pop kQueueSize" "ring_elems kQueueSize"
  "ring_inv kQueueSize" "kQueueSize - 1"
proof
  fix q x xs
  assume q: "ring_inv kQueueSize q"
  show "fst (lfq_push kQueueSize q x) \<and> ring_inv kQueueSize (snd (lfq_push kQueueSize q x)) \<and>
      ring_elems kQueueSize (snd (lfq_push kQueueSize q x)) = ring_elems kQueueSize q @ [x]"
    if "length (ring_elems kQueueSize q) < kQueueSize - 1"
    using ring_push_elems [OF q, of x] that by simp
  show "lfq_push kQueueSize q x = (False, q)" if "length (ring_elems kQueueSize q) = kQueueSize - 1"
    using ring_full [OF q] that by (simp add: lfq_push_def Let_def)
  show "fst (lfq_pop kQueueSize q) = Some x \<and> ring_inv kQueueSize (snd (lfq_pop kQueueSize q)) \<and>
      ring_elems kQueueSize (snd (lfq_pop kQueueSize q)) = xs" if "ring_elems kQueueSize q = x # xs"
    using ring_pop_elems [OF q that] .
  show "lfq_pop kQueueSize q = (None, q)" if "ring_elems kQueueSize q = []"
    using that ring_empty [OF q] length_ring_elems [of kQueueSize q] by (simp add: lfq_pop_def Let_def)
  show "length (ring_elems kQueueSize q) \<le> kQueueSize - 1"
    using ring_count_less [OF q] by simp
qed


section \<open>MessageQueue as a map of lists\<close>

definition mq_inv :: "MessageQueue \<Rightarrow> bool" where
  "mq_inv mq \<longleftrightarrow> (\<forall>k q. mq_queues mq k = Some q \<longrightarrow> ring_inv kQueueSize q)"

definition mq_abs :: "MessageQueue \<Rightarrow> bytes \<Rightarrow> bytes list" where
  "mq_abs mq k = (case mq_queues mq k of None \<Rightarrow> [] | Some q \<Rightarrow> map om_bytes (ring_elems kQueueSize q))"

lemma ring_inv_ctor [simp]: "ring_inv kQueueSize (LockFreeQueue_ctor kQueueSize)"
  by (simp add: ring_inv_def LockFreeQueue_ctor_def kQueueSize_def)

lemma ring_elems_ctor [simp]: "ring_elems n (LockFreeQueue_ctor n) = []"
  by (simp add: ring_elems_def ring_count_def LockFreeQueue_ctor_def)

lemma mq_inv_ctor [simp]: "mq_inv MessageQueue_ctor"
  by (simp add: mq_inv_def MessageQueue_ctor_def)

lemma mq_abs_ctor [simp]: "mq_abs MessageQueue_ctor k = []"
  by (simp add: mq_abs_def MessageQueue_ctor_def)

lemma mq_push_queues:
  "mq_queues (mq_push mq k b) = (mq_queues mq)(k \<mapsto> snd (lfq_push kQueueSize
     (case mq_queues mq k of None \<Rightarrow> LockFreeQueue_ctor kQueueSize | Some q \<Rightarrow> q) \<lparr>om_bytes = b\<rparr>))"
  by (auto simp: mq_push_def Let_def split: option.splits)

lemma mq_inv_push: "mq_inv mq \<Longrightarrow> mq_inv (mq_push mq k b)"
  by (auto simp: mq_inv_def mq_push_queues ring.enq_inv split: option.splits)

lemma mq_abs_push:
  assumes "mq_inv mq"
  shows "mq_abs (mq_push mq k b) =
    (mq_abs mq)(k := if length (mq_abs mq k) < kQueueSize - 1 then mq_abs mq k @ [b] else mq_abs mq k)"
proof (cases "mq_queues mq k")
  case None
  have "length (ring_elems kQueueSize (LockFreeQueue_ctor kQueueSize)) < kQueueSize - 1"
    by (simp add: kQueueSize_def)
  from ring.enq_ok [OF ring_inv_ctor this] show ?thesis using None
    by (auto simp: mq_abs_def mq_push_queues kQueueSize_def fun_eq_iff)
next
  case (Some q)
  with assms have "ring_inv kQueueSize q" by (simp add: mq_inv_def)
  from ring.enq_elems [OF this] Some show ?thesis
    by (auto simp: mq_abs_def mq_push_queues fun_eq_iff)
qed

lemma mq_inv_find_pending: "mq_inv mq \<Longrightarrow> mq_inv (snd (mq_find_pending mq k))"
  by (auto simp: mq_inv_def mq_find_pending_def split_def Let_def intro: ring.deq_inv split: option.splits)

lemma mq_find_pending_abs:
  assumes "mq_inv mq"
  shows "map_option om_bytes (fst (mq_find_pending mq k)) = (case mq_abs mq k of [] \<Rightarrow> None | b # _ \<Rightarrow> Some b) \<and>
    mq_abs (snd (mq_find_pending mq k)) = (mq_abs mq)(k := tl (mq_abs mq k))"
proof (cases "mq_queues mq k")
  case None
  then show ?thesis by (simp add: mq_find_pending_def mq_abs_def fun_eq_iff)
next
  case (Some q)
  with assms have "ring_inv kQueueSize q" by (simp add: mq_inv_def)
  from ring.deq_elems [OF this] Some show ?thesis
    by (auto simp: mq_abs_def mq_find_pending_def fun_eq_iff map_tl split: prod.splits list.splits)
qed

text \<open>
  C28: the message queue refines a map from recipients to lists of at most 4095 messages. On a
  well-formed queue \<open>push\<close> appends to the recipient's list and silently drops the message when 4095 are
  waiting; \<open>find_pending\<close> returns and removes the oldest message of the recipient; no other
  recipient's list changes and the queue stays well formed.
\<close>

theorem message_queue_refines:
  assumes "mq_inv mq"
  shows "mq_inv (mq_push mq k b) \<and>
    mq_abs (mq_push mq k b) =
      (mq_abs mq)(k := if length (mq_abs mq k) < 4095 then mq_abs mq k @ [b] else mq_abs mq k) \<and>
    mq_inv (snd (mq_find_pending mq k)) \<and>
    map_option om_bytes (fst (mq_find_pending mq k)) = (case mq_abs mq k of [] \<Rightarrow> None | b # _ \<Rightarrow> Some b) \<and>
    mq_abs (snd (mq_find_pending mq k)) = (mq_abs mq)(k := tl (mq_abs mq k))"
  using mq_inv_push [OF assms] mq_abs_push [OF assms] mq_inv_find_pending [OF assms] mq_find_pending_abs [OF assms]
  by (simp add: kQueueSize_def)

theorem message_queue_refines_witness:
  "mq_abs (mq_push MessageQueue_ctor [7] [1, 2]) = (\<lambda>_. [])([7] := [[1, 2]])"
  using message_queue_refines [OF mq_inv_ctor, of "[7]" "[1, 2]"]
  by (simp add: mq_abs_def [abs_def] MessageQueue_ctor_def)


section \<open>One producer and one consumer\<close>

text \<open>
  The program counters between the atomic accesses of \<open>push\<close> and \<open>pop\<close>. The histories \<open>sp_pushed\<close> and
  \<open>sp_popped\<close> record the items of the pushes and pops that took effect; a push takes effect with its
  store to \<open>tail\<close>, a pop with its store to \<open>head\<close>.
\<close>

datatype producer_pc = PIdle | PTail OutgoingMessage nat | PFree OutgoingMessage nat | PWritten OutgoingMessage nat
datatype consumer_pc = CIdle | CHead nat | CItem nat | CTaken OutgoingMessage nat

record spsc =
  sp_q :: LockFreeQueue
  sp_prod :: producer_pc
  sp_cons :: consumer_pc
  sp_pushed :: "OutgoingMessage list"
  sp_popped :: "OutgoingMessage list"

definition spsc_init :: "nat \<Rightarrow> spsc" where
  "spsc_init n = \<lparr>sp_q = LockFreeQueue_ctor n, sp_prod = PIdle, sp_cons = CIdle, sp_pushed = [], sp_popped = []\<rparr>"

inductive spsc_step :: "nat \<Rightarrow> spsc \<Rightarrow> spsc \<Rightarrow> bool" for n where
  push_load_tail: "sp_prod s = PIdle \<Longrightarrow> spsc_step n s (s\<lparr>sp_prod := PTail x (lfq_tail (sp_q s))\<rparr>)"
| push_full: "sp_prod s = PTail x t \<Longrightarrow> (t + 1) mod n = lfq_head (sp_q s) \<Longrightarrow> spsc_step n s (s\<lparr>sp_prod := PIdle\<rparr>)"
| push_free: "sp_prod s = PTail x t \<Longrightarrow> (t + 1) mod n \<noteq> lfq_head (sp_q s) \<Longrightarrow> spsc_step n s (s\<lparr>sp_prod := PFree x t\<rparr>)"
| push_write: "sp_prod s = PFree x t \<Longrightarrow>
    spsc_step n s (s\<lparr>sp_q := (sp_q s)\<lparr>lfq_buffer := (lfq_buffer (sp_q s))[t := x]\<rparr>, sp_prod := PWritten x t\<rparr>)"
| push_store_tail: "sp_prod s = PWritten x t \<Longrightarrow>
    spsc_step n s (s\<lparr>sp_q := (sp_q s)\<lparr>lfq_tail := (t + 1) mod n\<rparr>, sp_prod := PIdle, sp_pushed := sp_pushed s @ [x]\<rparr>)"
| pop_load_head: "sp_cons s = CIdle \<Longrightarrow> spsc_step n s (s\<lparr>sp_cons := CHead (lfq_head (sp_q s))\<rparr>)"
| pop_none: "sp_cons s = CHead h \<Longrightarrow> h = lfq_tail (sp_q s) \<Longrightarrow> spsc_step n s (s\<lparr>sp_cons := CIdle\<rparr>)"
| pop_some: "sp_cons s = CHead h \<Longrightarrow> h \<noteq> lfq_tail (sp_q s) \<Longrightarrow> spsc_step n s (s\<lparr>sp_cons := CItem h\<rparr>)"
| pop_read: "sp_cons s = CItem h \<Longrightarrow>
    spsc_step n s (s\<lparr>sp_q := (sp_q s)\<lparr>lfq_buffer := (lfq_buffer (sp_q s))[h := default_outgoing]\<rparr>,
                    sp_cons := CTaken (lfq_buffer (sp_q s) ! h) h\<rparr>)"
| pop_store_head: "sp_cons s = CTaken x h \<Longrightarrow>
    spsc_step n s (s\<lparr>sp_q := (sp_q s)\<lparr>lfq_head := (h + 1) mod n\<rparr>, sp_cons := CIdle, sp_popped := sp_popped s @ [x]\<rparr>)"

text \<open>The items in the queue: between reading the head slot and storing \<open>head\<close> the first one is held by the consumer.\<close>

definition spsc_contents :: "nat \<Rightarrow> spsc \<Rightarrow> OutgoingMessage list" where
  "spsc_contents n s = (case sp_cons s of CTaken x h \<Rightarrow> x # tl (ring_elems n (sp_q s)) | _ \<Rightarrow> ring_elems n (sp_q s))"

definition prod_ok :: "nat \<Rightarrow> LockFreeQueue \<Rightarrow> producer_pc \<Rightarrow> bool" where
  "prod_ok n q pc = (case pc of PIdle \<Rightarrow> True | PTail x t \<Rightarrow> t = lfq_tail q
     | PFree x t \<Rightarrow> t = lfq_tail q \<and> (t + 1) mod n \<noteq> lfq_head q
     | PWritten x t \<Rightarrow> t = lfq_tail q \<and> (t + 1) mod n \<noteq> lfq_head q \<and> lfq_buffer q ! t = x)"

definition cons_ok :: "nat \<Rightarrow> LockFreeQueue \<Rightarrow> consumer_pc \<Rightarrow> bool" where
  "cons_ok n q pc = (case pc of CIdle \<Rightarrow> True | CHead h \<Rightarrow> h = lfq_head q
     | CItem h \<Rightarrow> h = lfq_head q \<and> h \<noteq> lfq_tail q | CTaken x h \<Rightarrow> h = lfq_head q \<and> h \<noteq> lfq_tail q)"

definition spsc_inv :: "nat \<Rightarrow> spsc \<Rightarrow> bool" where
  "spsc_inv n s \<longleftrightarrow> ring_inv n (sp_q s) \<and> prod_ok n (sp_q s) (sp_prod s) \<and> cons_ok n (sp_q s) (sp_cons s)
     \<and> sp_pushed s = sp_popped s @ spsc_contents n s"


lemma spsc_inv_init: "0 < n \<Longrightarrow> spsc_inv n (spsc_init n)"
  by (simp add: spsc_inv_def spsc_init_def ring_inv_def prod_ok_def cons_ok_def spsc_contents_def)
    (simp add: LockFreeQueue_ctor_def)

text \<open>The two positions of the ring that may coincide after a step cannot have coincided unless they did before.\<close>

lemma next_slot_inject: "a < n \<Longrightarrow> b < n \<Longrightarrow> (a + 1) mod n = (b + 1) mod n \<Longrightarrow> a = (b :: nat)"
  by (auto simp: mod_Suc split: if_splits)

lemma ring_elems_nonempty: "ring_inv n q \<Longrightarrow> lfq_head q \<noteq> lfq_tail q \<Longrightarrow> ring_elems n q \<noteq> []"
  using ring_elems_advance_head [of n q] by (metis list.distinct(1))

lemma ring_elems_clear_slot:
  assumes "ring_inv n q" "lfq_head q \<noteq> lfq_tail q"
  shows "ring_elems n (q\<lparr>lfq_buffer := (lfq_buffer q)[lfq_head q := x]\<rparr>) = x # tl (ring_elems n q)"
proof -
  let ?q = "q\<lparr>lfq_buffer := (lfq_buffer q)[lfq_head q := x]\<rparr>"
  have "ring_inv n ?q" "lfq_head ?q \<noteq> lfq_tail ?q" using assms by (simp_all add: ring_inv_def)
  from ring_elems_advance_head [OF this] have
    "ring_elems n ?q = x # ring_elems n (?q\<lparr>lfq_head := (lfq_head q + 1) mod n\<rparr>)"
    using assms(1) by (simp add: ring_inv_def)
  also have "ring_elems n (?q\<lparr>lfq_head := (lfq_head q + 1) mod n\<rparr>) = tl (ring_elems n q)"
    using ring_elems_clear_head [OF assms, of x] ring_elems_advance_head [OF assms] by simp
  finally show ?thesis .
qed

lemma spsc_push_step:
  assumes "spsc_inv n s" "sp_prod s = PWritten x t"
  shows "spsc_inv n (s\<lparr>sp_q := (sp_q s)\<lparr>lfq_tail := (t + 1) mod n\<rparr>, sp_prod := PIdle, sp_pushed := sp_pushed s @ [x]\<rparr>)"
proof -
  let ?q = "sp_q s"
  have q: "ring_inv n ?q" and t: "t = lfq_tail ?q" "(t + 1) mod n \<noteq> lfq_head ?q" "lfq_buffer ?q ! t = x"
    and c: "cons_ok n ?q (sp_cons s)" and h: "sp_pushed s = sp_popped s @ spsc_contents n s"
    using assms by (auto simp: spsc_inv_def prod_ok_def)
  have e: "ring_elems n (?q\<lparr>lfq_tail := (t + 1) mod n\<rparr>) = ring_elems n ?q @ [x]"
    using ring_elems_advance_tail [OF q] t by simp
  have "cons_ok n (?q\<lparr>lfq_tail := (t + 1) mod n\<rparr>) (sp_cons s)"
    using c t(2) by (auto simp: cons_ok_def split: consumer_pc.splits)
  moreover have "ring_inv n (?q\<lparr>lfq_tail := (t + 1) mod n\<rparr>)" using q by (auto simp: ring_inv_def)
  moreover have "spsc_contents n s @ [x] = (case sp_cons s of CTaken y h \<Rightarrow> y # tl (ring_elems n ?q @ [x])
      | _ \<Rightarrow> ring_elems n ?q @ [x])"
    using c ring_elems_nonempty [OF q] by (auto simp: spsc_contents_def cons_ok_def split: consumer_pc.splits)
  ultimately show ?thesis
    using h e by (simp add: spsc_inv_def prod_ok_def) (simp add: spsc_contents_def cong: consumer_pc.case_cong)
qed

lemma spsc_pop_step:
  assumes "spsc_inv n s" "sp_cons s = CTaken x h"
  shows "spsc_inv n (s\<lparr>sp_q := (sp_q s)\<lparr>lfq_head := (h + 1) mod n\<rparr>, sp_cons := CIdle, sp_popped := sp_popped s @ [x]\<rparr>)"
proof -
  let ?q = "sp_q s"
  have q: "ring_inv n ?q" and h: "h = lfq_head ?q" "h \<noteq> lfq_tail ?q"
    and p: "prod_ok n ?q (sp_prod s)" and hist: "sp_pushed s = sp_popped s @ x # tl (ring_elems n ?q)"
    using assms by (auto simp: spsc_inv_def cons_ok_def spsc_contents_def)
  have e: "ring_elems n (?q\<lparr>lfq_head := (h + 1) mod n\<rparr>) = tl (ring_elems n ?q)"
    using ring_elems_advance_head [OF q] h by simp
  have ne: "(lfq_tail ?q + 1) mod n \<noteq> (h + 1) mod n"
    using next_slot_inject [of "lfq_tail ?q" n h] q h by (auto simp: ring_inv_def)
  then have "prod_ok n (?q\<lparr>lfq_head := (h + 1) mod n\<rparr>) (sp_prod s)"
    using p by (auto simp: prod_ok_def split: producer_pc.splits)
  moreover have "ring_inv n (?q\<lparr>lfq_head := (h + 1) mod n\<rparr>)" using q by (auto simp: ring_inv_def)
  ultimately show ?thesis
    using hist e by (simp add: spsc_inv_def cons_ok_def spsc_contents_def)
qed

lemma spsc_read_step:
  assumes "spsc_inv n s" "sp_cons s = CItem h"
  shows "spsc_inv n (s\<lparr>sp_q := (sp_q s)\<lparr>lfq_buffer := (lfq_buffer (sp_q s))[h := default_outgoing]\<rparr>,
    sp_cons := CTaken (lfq_buffer (sp_q s) ! h) h\<rparr>)"
proof -
  let ?q = "sp_q s"
  have q: "ring_inv n ?q" and h: "h = lfq_head ?q" "h \<noteq> lfq_tail ?q"
    and p: "prod_ok n ?q (sp_prod s)" and hist: "sp_pushed s = sp_popped s @ ring_elems n ?q"
    using assms by (auto simp: spsc_inv_def cons_ok_def spsc_contents_def)
  have "ring_elems n ?q = lfq_buffer ?q ! h # tl (ring_elems n ?q)"
    using ring_elems_advance_head [OF q] h by simp
  moreover have "ring_elems n (?q\<lparr>lfq_buffer := (lfq_buffer ?q)[h := default_outgoing]\<rparr>) =
      default_outgoing # tl (ring_elems n ?q)"
    using ring_elems_clear_slot [OF q] h by simp
  moreover have "prod_ok n (?q\<lparr>lfq_buffer := (lfq_buffer ?q)[h := default_outgoing]\<rparr>) (sp_prod s)"
    using p h by (auto simp: prod_ok_def split: producer_pc.splits)
  moreover have "ring_inv n (?q\<lparr>lfq_buffer := (lfq_buffer ?q)[h := default_outgoing]\<rparr>)"
    using q by (simp add: ring_inv_def)
  ultimately show ?thesis using hist h by (simp add: spsc_inv_def cons_ok_def spsc_contents_def)
qed

lemma spsc_write_step:
  assumes "spsc_inv n s" "sp_prod s = PFree x t"
  shows "spsc_inv n (s\<lparr>sp_q := (sp_q s)\<lparr>lfq_buffer := (lfq_buffer (sp_q s))[t := x]\<rparr>, sp_prod := PWritten x t\<rparr>)"
proof -
  let ?q = "sp_q s"
  have q: "ring_inv n ?q" and t: "t = lfq_tail ?q" "(t + 1) mod n \<noteq> lfq_head ?q"
    and c: "cons_ok n ?q (sp_cons s)" and hist: "sp_pushed s = sp_popped s @ spsc_contents n s"
    using assms by (auto simp: spsc_inv_def prod_ok_def)
  have "ring_elems n (?q\<lparr>lfq_buffer := (lfq_buffer ?q)[t := x]\<rparr>) = ring_elems n ?q"
    using ring_elems_write_tail [OF q] t by simp
  moreover have "cons_ok n (?q\<lparr>lfq_buffer := (lfq_buffer ?q)[t := x]\<rparr>) (sp_cons s)"
    using c by (auto simp: cons_ok_def split: consumer_pc.splits)
  ultimately show ?thesis
    using hist t q by (simp add: spsc_inv_def prod_ok_def spsc_contents_def ring_inv_def cong: consumer_pc.case_cong)
qed

lemma spsc_step_inv: "spsc_step n s s' \<Longrightarrow> spsc_inv n s \<Longrightarrow> spsc_inv n s'"
proof (induction rule: spsc_step.induct)
  case (push_write s x t)
  then show ?case by (rule spsc_write_step [rotated])
next
  case (push_store_tail s x t)
  then show ?case by (rule spsc_push_step [rotated])
next
  case (pop_read s h)
  then show ?case by (rule spsc_read_step [rotated])
next
  case (pop_store_head s x h)
  then show ?case by (rule spsc_pop_step [rotated])
qed (auto simp: spsc_inv_def prod_ok_def cons_ok_def spsc_contents_def cong: consumer_pc.case_cong producer_pc.case_cong)

lemma spsc_reachable_inv: "(spsc_step n)\<^sup>*\<^sup>* (spsc_init n) s \<Longrightarrow> 0 < n \<Longrightarrow> spsc_inv n s"
  by (induction rule: rtranclp_induct) (auto simp: spsc_inv_init spsc_step_inv)

text \<open>
  C27: the ring is a correct queue for one producer and one consumer running concurrently. In every
  state reachable by interleaving their atomic accesses, on a ring of any size, the items popped so far
  followed by the items in the queue are exactly the items pushed so far, in order; at most \<open>n - 1\<close>
  items are waiting; and whenever the producer is about to write a slot, that slot is not the one the
  consumer is about to read.
\<close>

theorem spsc_linearizable:
  assumes "(spsc_step n)\<^sup>*\<^sup>* (spsc_init n) s" and "0 < n"
  shows "sp_pushed s = sp_popped s @ spsc_contents n s \<and> length (spsc_contents n s) < n \<and>
    (\<forall>x t h. sp_prod s = PFree x t \<and> sp_cons s = CItem h \<longrightarrow> t \<noteq> h)"
proof -
  have i: "spsc_inv n s" by (rule spsc_reachable_inv [OF assms])
  then have "length (spsc_contents n s) = ring_count n (sp_q s)"
    using ring_elems_nonempty [of n "sp_q s"] length_ring_elems [of n "sp_q s"]
    by (cases "ring_elems n (sp_q s)")
      (auto simp: spsc_contents_def spsc_inv_def cons_ok_def simp del: length_ring_elems split: consumer_pc.splits)
  with i show ?thesis
    using ring_count_less [of n "sp_q s"] by (auto simp: spsc_inv_def prod_ok_def cons_ok_def)
qed

lemma spsc_sample_run:
  "(spsc_step 2)\<^sup>*\<^sup>* (spsc_init 2)
     (spsc_init 2\<lparr>sp_prod := PTail \<lparr>om_bytes = [1]\<rparr> 0, sp_cons := CHead 0\<rparr>)"
proof -
  have "spsc_step 2 (spsc_init 2) (spsc_init 2\<lparr>sp_prod := PTail \<lparr>om_bytes = [1]\<rparr> 0\<rparr>)"
    using push_load_tail [of "spsc_init 2" 2 "\<lparr>om_bytes = [1]\<rparr>"]
    by (simp add: spsc_init_def LockFreeQueue_ctor_def)
  moreover have "spsc_step 2 (spsc_init 2\<lparr>sp_prod := PTail \<lparr>om_bytes = [1]\<rparr> 0\<rparr>)
      (spsc_init 2\<lparr>sp_prod := PTail \<lparr>om_bytes = [1]\<rparr> 0, sp_cons := CHead 0\<rparr>)"
    using pop_load_head [of "spsc_init 2\<lparr>sp_prod := PTail \<lparr>om_bytes = [1]\<rparr> 0\<rparr>" 2]
    by (simp add: spsc_init_def LockFreeQueue_ctor_def)
  ultimately show ?thesis by (rule converse_rtranclp_into_rtranclp [OF _ r_into_rtranclp])
qed

theorem spsc_linearizable_witness:
  "length (spsc_contents 2 (spsc_init 2\<lparr>sp_prod := PTail \<lparr>om_bytes = [1]\<rparr> 0, sp_cons := CHead 0\<rparr>)) < 2"
  using spsc_linearizable [OF spsc_sample_run] by simp

end
