(* ===== verification/Crypto.thy ===== *)
theory Crypto
  imports Messenger_Prelude
begin

text \<open>
  End-to-end encryption: the AES-GCM frame of \<open>src/src/infrastructure/crypto/AESGCMEncryption.cpp\<close>,
  the key derivation of \<open>src/include/infrastructure/crypto/KDF.hpp\<close>, the key objects of
  \<open>identity_key.hpp/.cpp\<close> and \<open>EncryptionService\<close> (\<open>src/src/application/encryption_service.cpp\<close>).

  OpenSSL is not part of the repository: its functions are the fields of the record \<open>openssl\<close>, an
  argument of every definition that calls them. What the program relies on is stated by
  \<open>gcm_correct\<close>, \<open>hkdf_ok\<close>, \<open>x25519_agree\<close> and \<open>ed25519_key\<close>, each for the sizes OpenSSL documents. A key object is an OpenSSL handle; the null
  pointer is \<open>None\<close>. Random bytes and freshly generated keys are arguments.
\<close>

section \<open>OpenSSL\<close>

type_synonym pkey = nat

datatype key_kind = X25519 | ED25519

datatype gcm_failure = DecryptInitFailed | DecryptUpdateFailed | SetTagFailed | DecryptFinalFailed

datatype hkdf_failure = HkdfNoContext | HkdfInitFailed | HkdfMdFailed | HkdfKeyFailed | HkdfSaltFailed
  | HkdfInfoFailed | HkdfDeriveFailed

datatype keygen_failure = KeygenNoContext | KeygenInitFailed | KeygenFailed

datatype sign_failure = SignNoContext | SignInitFailed | SignSizeFailed | SignFailed

datatype verify_failure = VerifyNoContext | VerifyInitFailed

text \<open>The EVP functions take their lengths as \<open>int\<close>: a \<open>size_t\<close> argument is narrowed to its low 32 bits, read as a signed number.\<close>

definition c_int :: "nat \<Rightarrow> int" where
  "c_int n = sint (word_of_nat n :: 32 word)"

abbreviation INT_MAX :: nat where
  "INT_MAX \<equiv> 2147483647"

lemma c_int_small [simp]: "n \<le> INT_MAX \<Longrightarrow> c_int n = int n"
  by (simp add: c_int_def sint_uint signed_take_bit_int_eq_self unat_of_nat uint_nat)

lemma c_int_wraps: "c_int 2147483648 = - 2147483648" "c_int 4294967296 = 0"
  by (simp_all add: c_int_def)

text \<open>The tag \<open>None\<close> of \<open>gcm_encrypt\<close> is a failed \<open>EVP_CTRL_GCM_GET_TAG\<close>; the salt and info of \<open>hkdf_sha256\<close>
  are \<open>None\<close> when the call that sets them is skipped. The number after the plaintext and the ciphertext is the length the call is given.\<close>

record openssl =
  gcm_encrypt :: "bytes \<Rightarrow> bytes \<Rightarrow> bytes \<Rightarrow> bytes \<Rightarrow> int \<Rightarrow> bytes \<times> bytes option"
  gcm_decrypt :: "bytes \<Rightarrow> bytes \<Rightarrow> bytes \<Rightarrow> bytes \<Rightarrow> int \<Rightarrow> bytes \<Rightarrow> gcm_failure + bytes"
  hkdf_sha256 :: "bytes \<Rightarrow> bytes option \<Rightarrow> bytes option \<Rightarrow> nat \<Rightarrow> hkdf_failure + bytes"
  new_raw_public_key :: "key_kind \<Rightarrow> bytes \<Rightarrow> pkey option"
  new_raw_private_key :: "key_kind \<Rightarrow> bytes \<Rightarrow> pkey option"
  get_raw_public_key :: "pkey \<Rightarrow> bytes option"
  get_raw_private_key :: "pkey \<Rightarrow> bytes option"
  pkey_derive :: "pkey \<Rightarrow> pkey \<Rightarrow> bytes option"
  digest_sign :: "pkey \<Rightarrow> bytes \<Rightarrow> sign_failure + bytes"
  digest_verify :: "pkey \<Rightarrow> bytes \<Rightarrow> bytes \<Rightarrow> verify_failure + bool"
  strerror_errno :: string


section \<open>AES-GCM frames\<close>

definition aes_encrypt :: "openssl \<Rightarrow> bytes option \<Rightarrow> bytes \<Rightarrow> bytes \<Rightarrow> 64 word \<Rightarrow> bytes cpp" where
  "aes_encrypt ssl rand_iv key plaintext counter =
     (case rand_iv of None \<Rightarrow> Inl (RuntimeError ''Failed to generate IV'')
      | Some iv \<Rightarrow>
         let aad = le64_bytes counter in
         (case gcm_encrypt ssl key iv aad plaintext (c_int (length plaintext)) of
            (ciphertext, None) \<Rightarrow> Inl (RuntimeError ''Failed to get GCM tag'')
          | (ciphertext, Some tag) \<Rightarrow> Inr (iv @ aad @ ciphertext @ tag)))"

definition gcm_error :: "openssl \<Rightarrow> gcm_failure \<Rightarrow> cpp_error" where
  "gcm_error ssl f = RuntimeError (case f of
       DecryptInitFailed \<Rightarrow> ''EVP_DecryptInit_ex failed: '' @ strerror_errno ssl
     | DecryptUpdateFailed \<Rightarrow> ''DecryptUpdate failed''
     | SetTagFailed \<Rightarrow> ''SetTag failed''
     | DecryptFinalFailed \<Rightarrow> ''DecryptFinal failed: authentication failure'')"

definition aes_decrypt :: "openssl \<Rightarrow> bytes \<Rightarrow> bytes \<Rightarrow> 64 word \<Rightarrow> bytes cpp" where
  "aes_decrypt ssl key input counter =
     (if length input < 12 + 8 + 16 then Inl (RuntimeError ''Ciphertext too short'')
      else let iv = slice input 0 12;
               counter_bytes = slice input 12 8;
               ciphertext_len = length input - 12 - 8 - 16;
               ciphertext = slice input 20 ciphertext_len;
               tag = slice input (20 + ciphertext_len) 16
           in if le64_word counter_bytes \<noteq> counter
              then Inl (RuntimeError ''Replay attack detected or counter mismatch'')
              else (case gcm_decrypt ssl key iv counter_bytes ciphertext (c_int ciphertext_len) tag of
                      Inl f \<Rightarrow> Inl (gcm_error ssl f)
                    | Inr plaintext \<Rightarrow> Inr plaintext))"


section \<open>Key derivation\<close>

definition hkdf_error :: "hkdf_failure \<Rightarrow> cpp_error" where
  "hkdf_error f = RuntimeError (case f of
       HkdfNoContext \<Rightarrow> ''Failed to create HKDF context''
     | HkdfInitFailed \<Rightarrow> ''HKDF init failed''
     | HkdfMdFailed \<Rightarrow> ''Failed to set HKDF hash''
     | HkdfKeyFailed \<Rightarrow> ''Failed to set HKDF key''
     | HkdfSaltFailed \<Rightarrow> ''Failed to set HKDF salt''
     | HkdfInfoFailed \<Rightarrow> ''Failed to set HKDF info''
     | HkdfDeriveFailed \<Rightarrow> ''HKDF derivation failed'')"

definition HKDF_derive :: "openssl \<Rightarrow> bytes \<Rightarrow> bytes \<Rightarrow> bytes \<Rightarrow> nat \<Rightarrow> bytes cpp" where
  "HKDF_derive ssl ikm salt info output_len =
     (case hkdf_sha256 ssl ikm (if salt \<noteq> [] then Some salt else None) (if info \<noteq> [] then Some info else None) output_len of
        Inl f \<Rightarrow> Inl (hkdf_error f) | Inr output_key \<Rightarrow> Inr output_key)"

text \<open>\<open>operator<\<close> of \<open>std::vector<uint8_t>\<close>: lexicographic.\<close>

fun bytes_less :: "bytes \<Rightarrow> bytes \<Rightarrow> bool" where
  "bytes_less _ [] = False"
| "bytes_less [] (_ # _) = True"
| "bytes_less (x # xs) (y # ys) = (x < y \<or> (x = y \<and> bytes_less xs ys))"

definition derive_for_messaging :: "openssl \<Rightarrow> bytes \<Rightarrow> bytes \<Rightarrow> bytes \<Rightarrow> string \<Rightarrow> bytes cpp" where
  "derive_for_messaging ssl shared_secret sender_id receiver_id purpose =
     (let salt = (if bytes_less sender_id receiver_id then sender_id @ receiver_id else receiver_id @ sender_id);
          info = to_bytes (''messaging-key-'' @ purpose)
      in HKDF_derive ssl shared_secret salt info 32)"


section \<open>Key objects\<close>

definition identity_generate :: "keygen_failure + pkey \<Rightarrow> pkey cpp" where
  "identity_generate keygen = (case keygen of
       Inr k \<Rightarrow> Inr k
     | Inl KeygenNoContext \<Rightarrow> Inl (RuntimeError ''Failed to create context'')
     | Inl _ \<Rightarrow> Inl (RuntimeError ''Failed to generate Ed25519 key''))"

definition DH_generate :: "keygen_failure + pkey \<Rightarrow> pkey cpp" where
  "DH_generate keygen = (case keygen of
       Inr k \<Rightarrow> Inr k
     | Inl KeygenNoContext \<Rightarrow> Inl (RuntimeError ''Failed to create context'')
     | Inl _ \<Rightarrow> Inl (RuntimeError ''Failed to generate X25519 key''))"

definition identity_sign :: "openssl \<Rightarrow> pkey option \<Rightarrow> bytes \<Rightarrow> bytes cpp" where
  "identity_sign ssl key message = (case key of
       None \<Rightarrow> Inl (RuntimeError ''No private key'')
     | Some k \<Rightarrow> (case digest_sign ssl k message of
           Inr signature \<Rightarrow> Inr signature
         | Inl SignNoContext \<Rightarrow> Inl (RuntimeError ''Failed to create MD Context'')
         | Inl SignInitFailed \<Rightarrow> Inl (RuntimeError ''DigestSignInit failed'')
         | Inl SignSizeFailed \<Rightarrow> Inl (RuntimeError ''DigestSign (size) failed'')
         | Inl SignFailed \<Rightarrow> Inl (RuntimeError ''DigestSign failed'')))"

definition identity_verify :: "openssl \<Rightarrow> pkey option \<Rightarrow> bytes \<Rightarrow> bytes \<Rightarrow> bool cpp" where
  "identity_verify ssl key pubkey signature = (case key of
       None \<Rightarrow> Inl (RuntimeError ''No public key'')
     | Some k \<Rightarrow> (case digest_verify ssl k signature pubkey of
           Inr rc \<Rightarrow> Inr rc
         | Inl VerifyNoContext \<Rightarrow> Inl (RuntimeError ''MD_CTX failed'')
         | Inl VerifyInitFailed \<Rightarrow> Inl (RuntimeError ''VerifyInit failed'')))"

text \<open>A null handle passed to the raw-key accessors is dereferenced by OpenSSL. A failing accessor fails
  on its first call, the one that asks for the size.\<close>

definition identity_public_bytes :: "openssl \<Rightarrow> pkey option \<Rightarrow> bytes cpp" where
  "identity_public_bytes ssl key = (case key of
       None \<Rightarrow> Inl (Undefined ''null key'')
     | Some k \<Rightarrow> (case get_raw_public_key ssl k of
           None \<Rightarrow> Inl (RuntimeError ''Failed to get public key size'') | Some pub \<Rightarrow> Inr pub))"

definition identity_private_bytes :: "openssl \<Rightarrow> pkey option \<Rightarrow> bytes cpp" where
  "identity_private_bytes ssl key = (case key of
       None \<Rightarrow> Inl (Undefined ''null key'')
     | Some k \<Rightarrow> (case get_raw_private_key ssl k of
           None \<Rightarrow> Inl (RuntimeError ''Failed to get private key size'') | Some priv \<Rightarrow> Inr priv))"

definition identity_from_private_bytes :: "openssl \<Rightarrow> bytes \<Rightarrow> pkey cpp" where
  "identity_from_private_bytes ssl data = (case new_raw_private_key ssl ED25519 data of
       None \<Rightarrow> Inl (RuntimeError ''Failed to create key from private bytes'') | Some k \<Rightarrow> Inr k)"

definition identity_from_public_bytes :: "openssl \<Rightarrow> bytes \<Rightarrow> pkey cpp" where
  "identity_from_public_bytes ssl data = (case new_raw_public_key ssl ED25519 data of
       None \<Rightarrow> Inl (RuntimeError ''Failed to create from public bytes'') | Some k \<Rightarrow> Inr k)"

definition DH_from_public_bytes :: "openssl \<Rightarrow> bytes \<Rightarrow> pkey cpp" where
  "DH_from_public_bytes ssl data = (case new_raw_public_key ssl X25519 data of
       None \<Rightarrow> Inl (RuntimeError ''Failed to create IdentityKey from public bytes'') | Some k \<Rightarrow> Inr k)"

definition DH_public_bytes :: "openssl \<Rightarrow> pkey option \<Rightarrow> bytes cpp" where
  "DH_public_bytes ssl key = (case key of
       None \<Rightarrow> Inl (Undefined ''null key'')
     | Some k \<Rightarrow> Inr (case get_raw_public_key ssl k of None \<Rightarrow> [] | Some pub \<Rightarrow> pub))"

definition DH_private_bytes :: "openssl \<Rightarrow> pkey option \<Rightarrow> bytes cpp" where
  "DH_private_bytes ssl key = (case key of
       None \<Rightarrow> Inl (Undefined ''null key'')
     | Some k \<Rightarrow> Inr (case get_raw_private_key ssl k of None \<Rightarrow> [] | Some priv \<Rightarrow> priv))"

text \<open>\<open>EVP_PKEY_CTX_new\<close> of a null key gives no context; every failure returns an empty secret.\<close>

definition compute_shared_secret :: "openssl \<Rightarrow> pkey option \<Rightarrow> pkey \<Rightarrow> bytes" where
  "compute_shared_secret ssl key other_public_key = (case key of
       None \<Rightarrow> []
     | Some k \<Rightarrow> (case pkey_derive ssl k other_public_key of None \<Rightarrow> [] | Some secret \<Rightarrow> secret))"


section \<open>EncryptionService\<close>

record EncryptionService =
  es_DH_key :: "pkey option"
  es_identity_key :: "pkey option"
  es_DH_keys :: "bytes \<Rightarrow> pkey option"
  es_identity_keys :: "bytes \<Rightarrow> pkey option option"

definition EncryptionService_ctor :: EncryptionService where
  "EncryptionService_ctor = \<lparr>es_DH_key = None, es_identity_key = None, es_DH_keys = Map.empty,
     es_identity_keys = Map.empty\<rparr>"

text \<open>The files the program can see, and whether a path can be opened for writing.\<close>

record file_system =
  fs_files :: "string \<Rightarrow> bytes option"
  fs_writable :: "string \<Rightarrow> bool"

definition file_exists :: "file_system \<Rightarrow> string \<Rightarrow> bool" where
  "file_exists fs path = (fs_files fs path \<noteq> None)"

definition load_file :: "file_system \<Rightarrow> string \<Rightarrow> bytes cpp" where
  "load_file fs path = (case fs_files fs path of
       None \<Rightarrow> Inl (RuntimeError ''Failed to open file'') | Some data \<Rightarrow> Inr data)"

definition save_file :: "file_system \<Rightarrow> string \<Rightarrow> bytes \<Rightarrow> file_system cpp" where
  "save_file fs path data =
     (if fs_writable fs path then Inr (fs\<lparr>fs_files := (fs_files fs)(path \<mapsto> data)\<rparr>)
      else Inl (RuntimeError ''Failed to write file''))"

definition set_key :: "openssl \<Rightarrow> keygen_failure + pkey \<Rightarrow> keygen_failure + pkey \<Rightarrow> file_system \<Rightarrow>
    EncryptionService \<Rightarrow> (EncryptionService \<times> file_system) cpp" where
  "set_key ssl dh_keygen id_keygen fs es =
     bindr (DH_generate dh_keygen) (\<lambda>dh.
     let es1 = es\<lparr>es_DH_key := Some dh\<rparr>; path = ''identity.key'' in
     if file_exists fs path then
       bindr (load_file fs path) (\<lambda>data.
       bindr (identity_from_private_bytes ssl data) (\<lambda>k.
       Inr (es1\<lparr>es_identity_key := Some k\<rparr>, fs)))
     else
       bindr (identity_generate id_keygen) (\<lambda>k.
       bindr (identity_private_bytes ssl (Some k)) (\<lambda>priv.
       bindr (save_file fs path priv) (\<lambda>fs'.
       Inr (es1\<lparr>es_identity_key := Some k\<rparr>, fs')))))"

definition sign :: "openssl \<Rightarrow> EncryptionService \<Rightarrow> bytes cpp" where
  "sign ssl es = bindr (DH_public_bytes ssl (es_DH_key es)) (identity_sign ssl (es_identity_key es))"

definition get_DH_bytes :: "openssl \<Rightarrow> EncryptionService \<Rightarrow> bytes cpp" where
  "get_DH_bytes ssl es = DH_public_bytes ssl (es_DH_key es)"

definition get_identity_bytes :: "openssl \<Rightarrow> EncryptionService \<Rightarrow> bytes cpp" where
  "get_identity_bytes ssl es = identity_public_bytes ssl (es_identity_key es)"

definition key_not_found :: "bytes \<Rightarrow> cpp_error" where
  "key_not_found user = RuntimeError (''User public '' @ to_string user @ '' key not found'')"

definition encrypt_for :: "openssl \<Rightarrow> bytes option \<Rightarrow> EncryptionService \<Rightarrow> bytes \<Rightarrow> bytes \<Rightarrow> bytes \<Rightarrow> 64 word \<Rightarrow> bytes cpp" where
  "encrypt_for ssl rand_iv es sender username plaintext counter =
     (case es_DH_keys es username of
        None \<Rightarrow> Inl (key_not_found username)
      | Some pub \<Rightarrow>
         let shared_secret = compute_shared_secret ssl (es_DH_key es) pub in
         bindr (derive_for_messaging ssl shared_secret sender username ''encryption'') (\<lambda>encryption_key.
         aes_encrypt ssl rand_iv encryption_key plaintext counter))"

text \<open>\<open>identity_keys[sender]\<close> inserts an empty key when the sender has none.\<close>

definition decrypt_for :: "openssl \<Rightarrow> EncryptionService \<Rightarrow> bytes \<Rightarrow> bytes \<Rightarrow> bytes \<Rightarrow> bytes \<Rightarrow> 64 word \<Rightarrow>
    bytes cpp \<times> EncryptionService" where
  "decrypt_for ssl es sender username ciphertext signature counter =
     (case es_DH_keys es sender of
        None \<Rightarrow> (Inl (key_not_found sender), es)
      | Some pub \<Rightarrow>
         let identity = (case es_identity_keys es sender of None \<Rightarrow> None | Some k \<Rightarrow> k);
             es' = es\<lparr>es_identity_keys := (es_identity_keys es)(sender \<mapsto> identity)\<rparr>;
             shared_secret = compute_shared_secret ssl (es_DH_key es) pub
         in (bindr (DH_public_bytes ssl (Some pub)) (\<lambda>pub_bytes.
             bindr (identity_verify ssl identity pub_bytes signature) (\<lambda>ok.
             if \<not> ok then Inl (RuntimeError ''MITM detected!'')
             else bindr (derive_for_messaging ssl shared_secret sender username ''encryption'') (\<lambda>decryption_key.
                  aes_decrypt ssl decryption_key ciphertext counter))), es'))"

text \<open>When the identity key is malformed the Diffie-Hellman key has already been stored.\<close>

definition cache_public_key :: "openssl \<Rightarrow> EncryptionService \<Rightarrow> bytes \<Rightarrow> bytes \<Rightarrow> bytes \<Rightarrow> unit cpp \<times> EncryptionService" where
  "cache_public_key ssl es username pubkey identity_key =
     (case DH_from_public_bytes ssl pubkey of
        Inl e \<Rightarrow> (Inl e, es)
      | Inr dh \<Rightarrow>
         let es1 = es\<lparr>es_DH_keys := (es_DH_keys es)(username \<mapsto> dh)\<rparr> in
         (case identity_from_public_bytes ssl identity_key of
            Inl e \<Rightarrow> (Inl e, es1)
          | Inr ik \<Rightarrow> (Inr (), es1\<lparr>es_identity_keys := (es_identity_keys es)(username \<mapsto> Some ik)\<rparr>)))"


lemma is_exception_gcm_error: "is_exception (gcm_error ssl f)"
  by (cases f) (simp_all add: gcm_error_def)

lemma is_exception_hkdf_error: "is_exception (hkdf_error f)"
  by (cases f) (simp_all add: hkdf_error_def)

section \<open>What the program relies on\<close>

text \<open>Authenticated encryption with a 256-bit key, a 12-byte nonce and 8 bytes of associated data, of a plaintext whose length an \<open>int\<close> can
  hold: decryption with the same key, nonce and associated data returns the plaintext; the ciphertext is as long as the plaintext, the tag has
  16 bytes.\<close>

definition gcm_correct :: "openssl \<Rightarrow> bool" where
  "gcm_correct ssl \<longleftrightarrow> (\<forall>key iv aad pt. length key = 32 \<longrightarrow> length iv = 12 \<longrightarrow> length aad = 8 \<longrightarrow> length pt \<le> INT_MAX \<longrightarrow>
     (\<exists>ct tag. gcm_encrypt ssl key iv aad pt (int (length pt)) = (ct, Some tag) \<and> length ct = length pt \<and> length tag = 16 \<and>
       gcm_decrypt ssl key iv aad ct (int (length ct)) tag = Inr pt))"

text \<open>HKDF-SHA256 derives a key of 32 bytes from a secret of 32 bytes, the program's info string and a salt whose length an \<open>int\<close> can hold.\<close>

definition message_info :: bytes where
  "message_info = to_bytes ''messaging-key-encryption''"

definition hkdf_ok :: "openssl \<Rightarrow> bool" where
  "hkdf_ok ssl \<longleftrightarrow> (\<forall>ikm salt. length ikm = 32 \<longrightarrow> (\<forall>s. salt = Some s \<longrightarrow> length s \<le> INT_MAX) \<longrightarrow>
     (\<exists>out. hkdf_sha256 ssl ikm salt (Some message_info) 32 = Inr out \<and> length out = 32))"

text \<open>Two key pairs and the public keys their owners published, imported by the other side, agree on a secret of 32 bytes.\<close>

definition x25519_agree :: "openssl \<Rightarrow> pkey \<Rightarrow> pkey \<Rightarrow> pkey \<Rightarrow> pkey \<Rightarrow> bool" where
  "x25519_agree ssl a a_pub b b_pub \<longleftrightarrow> get_raw_public_key ssl a_pub = get_raw_public_key ssl a \<and>
     get_raw_public_key ssl a \<noteq> None \<and>
     (\<exists>secret. length secret = 32 \<and> pkey_derive ssl a b_pub = Some secret \<and> pkey_derive ssl b a_pub = Some secret)"

text \<open>Whether a service has derived, or can derive, such a secret with a user.\<close>

definition shares_secret :: "openssl \<Rightarrow> EncryptionService \<Rightarrow> bytes \<Rightarrow> bool" where
  "shares_secret ssl es user \<longleftrightarrow> (\<exists>pub. es_DH_keys es user = Some pub \<and> length (compute_shared_secret ssl (es_DH_key es) pub) = 32)"

text \<open>A signature made with the private key is accepted with the imported public key.\<close>

definition ed25519_key :: "openssl \<Rightarrow> pkey \<Rightarrow> pkey \<Rightarrow> bool" where
  "ed25519_key ssl k k_pub \<longleftrightarrow> (\<forall>m. \<exists>sig. digest_sign ssl k m = Inr sig \<and> digest_verify ssl k_pub sig m = Inr True)"


section \<open>Frames\<close>

lemma aes_encrypt_frame:
  assumes "gcm_correct ssl" "length key = 32" "length iv = 12" "length pt \<le> INT_MAX"
  obtains ct tag where "aes_encrypt ssl (Some iv) key pt n = Inr (iv @ le64_bytes n @ ct @ tag)"
    "length ct = length pt" "length tag = 16" "gcm_decrypt ssl key iv (le64_bytes n) ct (int (length ct)) tag = Inr pt"
proof -
  have "length (le64_bytes n) = 8" by simp
  then obtain ct tag where "gcm_encrypt ssl key iv (le64_bytes n) pt (int (length pt)) = (ct, Some tag)" "length ct = length pt"
      "length tag = 16" "gcm_decrypt ssl key iv (le64_bytes n) ct (int (length ct)) tag = Inr pt"
    using assms unfolding gcm_correct_def by blast
  then show ?thesis using that assms(4) by (simp add: aes_encrypt_def)
qed

lemma aes_decrypt_frame:
  assumes "length iv = 12" "length tag = 16"
  shows "aes_decrypt ssl key (iv @ le64_bytes m @ ct @ tag) n =
    (if m \<noteq> n then Inl (RuntimeError ''Replay attack detected or counter mismatch'')
     else (case gcm_decrypt ssl key iv (le64_bytes m) ct (c_int (length ct)) tag of Inl f \<Rightarrow> Inl (gcm_error ssl f) | Inr pt \<Rightarrow> Inr pt))"
proof -
  let ?in = "iv @ le64_bytes m @ ct @ tag"
  have "slice ?in 0 12 = iv" "slice ?in 12 8 = le64_bytes m" "slice ?in 20 (length ct) = ct"
      "slice ?in (20 + length ct) 16 = tag"
    using assms by (simp_all add: slice_def)
  then show ?thesis using assms by (auto simp: aes_decrypt_def le64_roundtrip_exact Let_def)
qed

lemma aes_roundtrip:
  assumes "gcm_correct ssl" "length key = 32" "length iv = 12" "length pt \<le> INT_MAX"
  shows "bindr (aes_encrypt ssl (Some iv) key pt m) (\<lambda>frame. aes_decrypt ssl key frame n) =
    (if m = n then Inr pt else Inl (RuntimeError ''Replay attack detected or counter mismatch''))"
proof -
  obtain ct tag where "aes_encrypt ssl (Some iv) key pt m = Inr (iv @ le64_bytes m @ ct @ tag)" "length ct = length pt"
    "length tag = 16" "gcm_decrypt ssl key iv (le64_bytes m) ct (int (length ct)) tag = Inr pt"
    using aes_encrypt_frame [OF assms] by metis
  with assms(3, 4) show ?thesis by (cases "m = n") (auto simp: aes_decrypt_frame)
qed


section \<open>Both sides derive the same key\<close>

lemma bytes_less_total: "a = b \<or> bytes_less a b \<or> bytes_less b a"
proof (induction a arbitrary: b)
  case Nil
  then show ?case by (cases b) auto
next
  case (Cons x a)
  then show ?case by (cases b) (auto simp: neq_iff)
qed

lemma bytes_less_asym: "bytes_less a b \<Longrightarrow> \<not> bytes_less b a"
  by (induction a b rule: bytes_less.induct) auto

lemma derive_symmetric:
  "derive_for_messaging ssl secret a b purpose = derive_for_messaging ssl secret b a purpose"
  using bytes_less_total [of a b] bytes_less_asym [of a b] bytes_less_asym [of b a]
  by (auto simp: derive_for_messaging_def)

lemma hkdf_okE:
  assumes "hkdf_ok ssl" "length ikm = 32" "\<And>s. salt = Some s \<Longrightarrow> length s \<le> INT_MAX"
  obtains out where "hkdf_sha256 ssl ikm salt (Some message_info) 32 = Inr out" "length out = 32"
  using assms unfolding hkdf_ok_def by blast

lemma derive_length:
  assumes "hkdf_ok ssl" "length secret = 32" "length a + length b \<le> INT_MAX"
  obtains key where "derive_for_messaging ssl secret a b ''encryption'' = Inr key" "length key = 32"
proof -
  let ?salt = "if bytes_less a b then a @ b else b @ a"
  have info: "to_bytes (''messaging-key-'' @ ''encryption'') = message_info" "message_info \<noteq> []"
    by (simp_all add: message_info_def to_bytes_def)
  have "length ?salt = length a + length b" by simp
  then have "length s \<le> INT_MAX" if "(if ?salt \<noteq> [] then Some ?salt else None) = Some s" for s
    using that assms(3) by (metis option.distinct(1) option.inject)
  then obtain out where "hkdf_sha256 ssl secret (if ?salt \<noteq> [] then Some ?salt else None) (Some message_info) 32 = Inr out" "length out = 32"
    by (rule hkdf_okE [OF assms(1, 2)])
  then show ?thesis
    using that [of out] info by (simp only: derive_for_messaging_def HKDF_derive_def Let_def sum.case if_True not_False_eq_True)
qed


section \<open>End-to-end encryption\<close>

text \<open>What it takes for \<open>bob\<close> to read messages of \<open>alice\<close>: each has the other's Diffie-Hellman key, and
  \<open>bob\<close> has the identity key that signed alice's.\<close>

definition knows :: "openssl \<Rightarrow> EncryptionService \<Rightarrow> bytes \<Rightarrow> EncryptionService \<Rightarrow> bytes \<Rightarrow> bool" where
  "knows ssl alice a_name bob b_name \<longleftrightarrow> (\<exists>a a_pub b b_pub i i_pub.
     es_DH_key alice = Some a \<and> es_DH_key bob = Some b \<and> es_identity_key alice = Some i \<and>
     es_DH_keys alice b_name = Some b_pub \<and> es_DH_keys bob a_name = Some a_pub \<and>
     es_identity_keys bob a_name = Some (Some i_pub) \<and>
     x25519_agree ssl a a_pub b b_pub \<and> ed25519_key ssl i i_pub)"

lemma knows_verify:
  assumes "knows ssl alice a_name bob b_name" "sign ssl alice = Inr sig"
  obtains a_pub i_pub pb where "es_DH_keys bob a_name = Some a_pub" "es_identity_keys bob a_name = Some (Some i_pub)"
    "get_raw_public_key ssl a_pub = Some pb" "digest_verify ssl i_pub sig pb = Inr True"
proof -
  from assms(1) obtain a a_pub b b_pub i i_pub where k: "es_DH_key alice = Some a" "es_identity_key alice = Some i"
      "es_DH_keys bob a_name = Some a_pub" "es_identity_keys bob a_name = Some (Some i_pub)"
      "x25519_agree ssl a a_pub b b_pub" "ed25519_key ssl i i_pub"
    unfolding knows_def by blast
  from k(5) obtain pb where pb: "get_raw_public_key ssl a = Some pb" "get_raw_public_key ssl a_pub = Some pb"
    by (auto simp: x25519_agree_def)
  from k(6) obtain sig' where "digest_sign ssl i pb = Inr sig'" "digest_verify ssl i_pub sig' pb = Inr True"
    unfolding ed25519_key_def by blast
  with assms(2) k pb have "digest_verify ssl i_pub sig pb = Inr True"
    by (simp add: sign_def DH_public_bytes_def identity_sign_def)
  with k pb that show ?thesis by blast
qed

lemma knows_shared_secret:
  assumes "knows ssl alice a_name bob b_name"
  obtains a_pub b_pub s where "es_DH_keys alice b_name = Some b_pub" "es_DH_keys bob a_name = Some a_pub"
    "compute_shared_secret ssl (es_DH_key alice) b_pub = s" "compute_shared_secret ssl (es_DH_key bob) a_pub = s" "length s = 32"
  using assms unfolding knows_def x25519_agree_def compute_shared_secret_def by fastforce

lemma knows_shares: "knows ssl alice a_name bob b_name \<Longrightarrow> shares_secret ssl alice b_name"
  by (erule knows_shared_secret) (auto simp: shares_secret_def)

text \<open>Encryption for a known recipient succeeds and adds 36 bytes: nonce, counter and tag.\<close>

lemma encrypt_for_length:
  assumes "gcm_correct ssl" "hkdf_ok ssl" "length iv = 12" "shares_secret ssl es r" "length s + length r \<le> INT_MAX" "length pt \<le> INT_MAX"
  obtains c where "encrypt_for ssl (Some iv) es s r pt n = Inr c" "length c = 36 + length pt"
proof -
  obtain pub where pub: "es_DH_keys es r = Some pub" "length (compute_shared_secret ssl (es_DH_key es) pub) = 32"
    using assms(4) by (auto simp: shares_secret_def)
  obtain key where key: "derive_for_messaging ssl (compute_shared_secret ssl (es_DH_key es) pub) s r ''encryption'' = Inr key"
      "length key = 32" by (rule derive_length [OF assms(2) pub(2) assms(5)])
  obtain ct tag where e: "aes_encrypt ssl (Some iv) key pt n = Inr (iv @ le64_bytes n @ ct @ tag)"
    "length ct = length pt" "length tag = 16"
    using aes_encrypt_frame [OF assms(1) key(2) assms(3, 6)] by metis
  show ?thesis
    by (rule that [of "iv @ le64_bytes n @ ct @ tag"]) (use assms(3) pub key e in \<open>simp_all add: encrypt_for_def\<close>)
qed

lemma end_to_end:
  assumes "gcm_correct ssl" "hkdf_ok ssl" "length iv = 12"
    and k: "knows ssl alice a_name bob b_name" and sig: "sign ssl alice = Inr sig"
    and len: "length a_name + length b_name \<le> INT_MAX" "length pt \<le> INT_MAX"
  obtains c where "encrypt_for ssl (Some iv) alice a_name b_name pt m = Inr c"
    "fst (decrypt_for ssl bob a_name b_name c sig n) =
       (if m = n then Inr pt else Inl (RuntimeError ''Replay attack detected or counter mismatch''))"
proof -
  obtain a_pub b_pub s where s: "es_DH_keys alice b_name = Some b_pub" "es_DH_keys bob a_name = Some a_pub"
    "compute_shared_secret ssl (es_DH_key alice) b_pub = s" "compute_shared_secret ssl (es_DH_key bob) a_pub = s" "length s = 32"
    by (rule knows_shared_secret [OF k])
  obtain a_pub' i_pub pb where v: "es_DH_keys bob a_name = Some a_pub'" "es_identity_keys bob a_name = Some (Some i_pub)"
    "get_raw_public_key ssl a_pub' = Some pb" "digest_verify ssl i_pub sig pb = Inr True"
    by (rule knows_verify [OF k sig])
  obtain key where key: "derive_for_messaging ssl s a_name b_name ''encryption'' = Inr key" "length key = 32"
    by (rule derive_length [OF assms(2) s(5) len(1)])
  obtain ct tag where e: "aes_encrypt ssl (Some iv) key pt m = Inr (iv @ le64_bytes m @ ct @ tag)"
    using aes_encrypt_frame [OF assms(1) key(2) assms(3) len(2)] by metis
  show ?thesis
  proof (rule that)
    show "encrypt_for ssl (Some iv) alice a_name b_name pt m = Inr (iv @ le64_bytes m @ ct @ tag)"
      using s key e by (simp add: encrypt_for_def)
    show "fst (decrypt_for ssl bob a_name b_name (iv @ le64_bytes m @ ct @ tag) sig n) =
       (if m = n then Inr pt else Inl (RuntimeError ''Replay attack detected or counter mismatch''))"
      using s v key e aes_roundtrip [OF assms(1) key(2) assms(3) len(2), of m n]
      by (simp add: decrypt_for_def DH_public_bytes_def identity_verify_def)
  qed
qed

text \<open>A concrete instance of the interface, for evaluating the definitions: keys are numbers, a public key is
  its owner's number plus 100, the shared secret is the sum of the owners' numbers.\<close>

definition sample_ssl :: openssl where
  "sample_ssl = \<lparr>gcm_encrypt = (\<lambda>key iv aad pt inl. (pt, Some (replicate 16 9))),
     gcm_decrypt = (\<lambda>key iv aad ct inl tag. if tag = replicate 16 9 then Inr ct else Inl DecryptFinalFailed),
     hkdf_sha256 = (\<lambda>ikm salt info len. Inr (replicate len (case ikm of b # _ \<Rightarrow> b | [] \<Rightarrow> 0))),
     new_raw_public_key = (\<lambda>kind raw. if length raw = 1 then Some (unat (hd raw) + 100) else None),
     new_raw_private_key = (\<lambda>kind raw. if length raw = 1 then Some (unat (hd raw)) else None),
     get_raw_public_key = (\<lambda>k. Some [word_of_nat (if k < 100 then k else k - 100)]),
     get_raw_private_key = (\<lambda>k. Some [word_of_nat k]),
     pkey_derive = (\<lambda>k p. Some (replicate 32 (word_of_nat (k + p)))),
     digest_sign = (\<lambda>k m. Inr (word_of_nat k # m)),
     digest_verify = (\<lambda>k sig m. Inr (sig = word_of_nat (k - 100) # m)),
     strerror_errno = []\<rparr>"

definition sample_alice :: EncryptionService where
  "sample_alice = \<lparr>es_DH_key = Some 1, es_identity_key = Some 2, es_DH_keys = [[66] \<mapsto> 103],
     es_identity_keys = Map.empty\<rparr>"

definition sample_bob :: EncryptionService where
  "sample_bob = \<lparr>es_DH_key = Some 3, es_identity_key = Some 4, es_DH_keys = [[65] \<mapsto> 101],
     es_identity_keys = [[65] \<mapsto> Some 102]\<rparr>"

lemma sample_ssl_sel:
  "hkdf_sha256 sample_ssl ikm salt info len = Inr (replicate len (case ikm of b # _ \<Rightarrow> b | [] \<Rightarrow> 0))"
  "get_raw_public_key sample_ssl k = Some [word_of_nat (if k < 100 then k else k - 100)]"
  "digest_verify sample_ssl k sig m = Inr (sig = word_of_nat (k - 100) # m)"
  by (simp_all add: sample_ssl_def)

lemma sample_ssl_ok: "gcm_correct sample_ssl" "hkdf_ok sample_ssl"
  by (simp_all add: gcm_correct_def hkdf_ok_def sample_ssl_def)

lemma sample_knows: "knows sample_ssl sample_alice [65] sample_bob [66]"
  by (simp add: knows_def sample_alice_def sample_bob_def x25519_agree_def ed25519_key_def sample_ssl_def)

lemma sample_sign: "sign sample_ssl sample_alice = Inr [2, 1]"
  by (simp add: sign_def DH_public_bytes_def identity_sign_def sample_alice_def sample_ssl_def)

text \<open>
  C6: end-to-end encryption works and rejects replays. If the sender holds the recipient's public key
  and the recipient the sender's public and identity keys, then for every plaintext that fits OpenSSL's lengths (an \<open>int\<close>), every counter and
  12-byte nonce encryption succeeds, and the recipient, given the sender's signature of its key,
  recovers exactly the plaintext when it expects that counter and fails with the replay error when it
  expects any other.
\<close>

theorem encrypt_decrypt_roundtrip:
  assumes "gcm_correct ssl" "hkdf_ok ssl" "length iv = 12"
    and "knows ssl alice a_name bob b_name" "sign ssl alice = Inr sig"
    and "length a_name + length b_name \<le> INT_MAX" "length pt \<le> INT_MAX"
  shows "\<exists>c. encrypt_for ssl (Some iv) alice a_name b_name pt m = Inr c \<and>
    fst (decrypt_for ssl bob a_name b_name c sig m) = Inr pt \<and>
    (\<forall>n. n \<noteq> m \<longrightarrow> fst (decrypt_for ssl bob a_name b_name c sig n) =
      Inl (RuntimeError ''Replay attack detected or counter mismatch''))"
proof -
  obtain c where c: "encrypt_for ssl (Some iv) alice a_name b_name pt m = Inr c"
    "fst (decrypt_for ssl bob a_name b_name c sig m) = Inr pt"
    using end_to_end [OF assms, of m m] by auto
  have "fst (decrypt_for ssl bob a_name b_name c sig n) =
      Inl (RuntimeError ''Replay attack detected or counter mismatch'')" if "n \<noteq> m" for n
    using end_to_end [OF assms, of m n] c(1) that by auto
  with c show ?thesis by blast
qed

theorem encrypt_decrypt_roundtrip_witness:
  "\<exists>c. encrypt_for sample_ssl (Some (replicate 12 0)) sample_alice [65] [66] [7, 8] 5 = Inr c \<and>
    fst (decrypt_for sample_ssl sample_bob [65] [66] c [2, 1] 5) = Inr [7, 8]"
  using encrypt_decrypt_roundtrip [OF sample_ssl_ok _ sample_knows sample_sign, of "replicate 12 0" "[7, 8]" 5]
  by auto

text \<open>
  C8: nothing is decrypted without authentication. Whenever \<open>decrypt_for\<close> returns a plaintext, the
  receiver knew a key and an identity key for the sender, the signature of that key verified under the
  identity key, the input has at least the 36 bytes of nonce, counter and tag, and the counter in the
  frame is the one expected.
\<close>

theorem decrypt_authenticated:
  assumes "fst (decrypt_for ssl es sender username c sig n) = Inr pt"
  shows "\<exists>pub ik. es_DH_keys es sender = Some pub \<and> es_identity_keys es sender = Some (Some ik) \<and>
    digest_verify ssl ik sig (case get_raw_public_key ssl pub of None \<Rightarrow> [] | Some b \<Rightarrow> b) = Inr True \<and>
    36 \<le> length c \<and> le64_word (slice c 12 8) = n"
  using assms
  by (auto simp: decrypt_for_def identity_verify_def DH_public_bytes_def aes_decrypt_def Let_def
      split: option.splits sum.splits if_splits verify_failure.splits)

lemma sample_decrypts: "fst (decrypt_for sample_ssl sample_bob [65] [66]
    (replicate 12 0 @ le64_bytes 5 @ [7, 8] @ replicate 16 9) [2, 1] 5) = Inr [7, 8]"
proof -
  have "aes_decrypt sample_ssl key (replicate 12 0 @ le64_bytes 5 @ [7, 8] @ replicate 16 9) 5 = Inr [7, 8]" for key
    by (subst aes_decrypt_frame) (simp_all add: sample_ssl_def)
  then show ?thesis
    by (simp add: decrypt_for_def sample_bob_def DH_public_bytes_def identity_verify_def derive_for_messaging_def
        HKDF_derive_def sample_ssl_sel)
qed

theorem decrypt_authenticated_witness:
  "le64_word (slice (replicate 12 0 @ le64_bytes 5 @ [7, 8] @ replicate 16 9) 12 8) = 5"
  using decrypt_authenticated [OF sample_decrypts] by blast

text \<open>
  The two ends of a conversation derive the same message key: the derivation does not depend on
  which of the two names is the sender.
\<close>

theorem message_key_symmetric:
  "derive_for_messaging ssl secret sender receiver purpose = derive_for_messaging ssl secret receiver sender purpose"
  by (rule derive_symmetric)

end
