(* ===== verification/Client_App.thy ===== *)
theory Client_App
  imports Commands Message_Queue Crypto
begin

text \<open>
  The client: \<open>ClientContext\<close> (\<open>src/include/application/session/client_context.hpp\<close>), what each command
  does on the client, the command bus, the handlers of incoming messages
  (\<open>src/src/application/dispatching/message_dispatchers/\<close>), the dispatcher and \<open>MessagingClient\<close>.

  The context records in \<open>cc_sent\<close> the calls \<open>client->send_to_server(data)\<close> and in \<open>cc_ui\<close> the calls of the
  user-interface callback, in order; \<open>None\<close> is the null callback, whose call throws
  \<open>std::bad_function_call\<close>. Random numbers come from a sequence, \<open>cc_rng\<close> counts the ones used. Open output
  files are the set \<open>cc_pending_files\<close> of their paths; what is written is appended to the file. Console
  output is left out.
\<close>

section \<open>State\<close>

record client_env =
  ce_now :: "64 word"
  ce_ssl :: openssl
  ce_rand :: "nat \<Rightarrow> bytes option"

record ClientContext =
  cc_ui :: "string list option"
  cc_sent :: "bytes list"
  cc_connected :: bool
  cc_mq :: MessageQueue
  cc_es :: EncryptionService
  cc_fs :: file_system
  cc_pending_files :: "string set"
  cc_pending_messages :: "bytes \<Rightarrow> bytes list option"
  cc_my_username :: bytes
  cc_counter :: "bytes \<Rightarrow> 64 word option"
  cc_rng :: nat

type_synonym 'a client = "('a, ClientContext) action"

text \<open>The constructor's only computation is \<open>encryption_service->set_key()\<close>.\<close>

definition ClientContext_ctor :: "client_env \<Rightarrow> keygen_failure + pkey \<Rightarrow> keygen_failure + pkey \<Rightarrow> file_system \<Rightarrow> ClientContext cpp" where
  "ClientContext_ctor env dh_keygen id_keygen fs =
     bindr (set_key (ce_ssl env) dh_keygen id_keygen fs EncryptionService_ctor) (\<lambda>(es, fs').
     Inr \<lparr>cc_ui = None, cc_sent = [], cc_connected = True, cc_mq = MessageQueue_ctor, cc_es = es, cc_fs = fs',
          cc_pending_files = {}, cc_pending_messages = Map.empty, cc_my_username = [], cc_counter = Map.empty, cc_rng = 0\<rparr>)"

text \<open>
  A call of \<open>IClient::send_to_server\<close>, the interface of the client's transport. The application's model records the calls, which return nothing it could look
  at; what the transport behind the interface makes of them, a missing connection or framer and failed writes included, is in
  \<open>Client_Transport\<close>.
\<close>

definition send_to_server :: "bytes \<Rightarrow> unit client" where
  "send_to_server data = modify (\<lambda>c. c\<lparr>cc_sent := cc_sent c @ [data]\<rparr>)"

definition ui_callback :: "string \<Rightarrow> unit client" where
  "ui_callback str c = (case cc_ui c of
       None \<Rightarrow> (Inl BadFunctionCall, c)
     | Some shown \<Rightarrow> (Inr (), c\<lparr>cc_ui := Some (shown @ [str])\<rparr>))"

definition send_message :: "Message cpp \<Rightarrow> unit client" where
  "send_message m = andThen (lift m) (\<lambda>msg. send_to_server (serialize msg))"

text \<open>\<open>if (messages_counter.find(user) == end()) messages_counter[user] = 0\<close>; then \<open>messages_counter[user]\<close>.\<close>

definition init_counter :: "bytes \<Rightarrow> unit client" where
  "init_counter user = modify (\<lambda>c. if cc_counter c user = None then c\<lparr>cc_counter := (cc_counter c)(user \<mapsto> 0)\<rparr> else c)"

definition counter_of :: "ClientContext \<Rightarrow> bytes \<Rightarrow> 64 word" where
  "counter_of c user = (case cc_counter c user of None \<Rightarrow> 0 | Some n \<Rightarrow> n)"

definition increment_counter :: "bytes \<Rightarrow> unit client" where
  "increment_counter user = modify (\<lambda>c. c\<lparr>cc_counter := (cc_counter c)(user \<mapsto> counter_of c user + 1)\<rparr>)"

definition client_encrypt_for :: "client_env \<Rightarrow> bytes \<Rightarrow> bytes \<Rightarrow> bytes client" where
  "client_encrypt_for env recipient plaintext c =
     (encrypt_for (ce_ssl env) (ce_rand env (cc_rng c)) (cc_es c) (cc_my_username c) recipient plaintext (counter_of c recipient),
      c\<lparr>cc_rng := cc_rng c + 1\<rparr>)"

definition client_decrypt_for :: "client_env \<Rightarrow> bytes \<Rightarrow> bytes \<Rightarrow> bytes \<Rightarrow> bytes \<Rightarrow> 64 word \<Rightarrow> bytes client" where
  "client_decrypt_for env sender recipient ciphertext signature counter c =
     (let (res, es) = decrypt_for (ce_ssl env) (cc_es c) sender recipient ciphertext signature counter in
      (res, c\<lparr>cc_es := es\<rparr>))"

definition client_cache_key :: "client_env \<Rightarrow> bytes \<Rightarrow> bytes \<Rightarrow> bytes \<Rightarrow> unit client" where
  "client_cache_key env username pubkey identity_key c =
     (let (res, es) = cache_public_key (ce_ssl env) (cc_es c) username pubkey identity_key in (res, c\<lparr>cc_es := es\<rparr>))"


section \<open>Commands on the client\<close>

definition login_on_client :: "client_env \<Rightarrow> bytes \<Rightarrow> unit client" where
  "login_on_client env username c =
     andThen (lift (get_DH_bytes (ce_ssl env) (cc_es c))) (\<lambda>dh.
     andThen (lift (get_identity_bytes (ce_ssl env) (cc_es c))) (\<lambda>ik.
     andThen (lift (sign (ce_ssl env) (cc_es c))) (\<lambda>sig.
     andThen (modify (\<lambda>c. c\<lparr>cc_my_username := username\<rparr>)) (\<lambda>_.
     send_message (login_toMessage (ce_now env) username dh ik sig))))) c"

text \<open>The chunk loop of \<open>SendFileCommand\<close>; \<open>data\<close> is what has not been read from the file yet.\<close>

definition kChunk :: nat where
  "kChunk = 16384"

definition send_chunk :: "client_env \<Rightarrow> bytes \<Rightarrow> bytes \<Rightarrow> bytes \<Rightarrow> unit client" where
  "send_chunk env recipient fname_bytes buffer =
     andThen (init_counter recipient) (\<lambda>_.
     andThen (client_encrypt_for env recipient buffer) (\<lambda>cipher_bytes.
     andThen (increment_counter recipient) (\<lambda>_ c.
       andThen (lift (get_DH_bytes (ce_ssl env) (cc_es c))) (\<lambda>dh.
       andThen (lift (get_identity_bytes (ce_ssl env) (cc_es c))) (\<lambda>ik.
       andThen (lift (sign (ce_ssl env) (cc_es c))) (\<lambda>sig.
       send_message (Message_ctor (ce_now env) cipher_bytes
         [recipient, fname_bytes, cc_my_username c, dh, ik, sig] FileChunk)))) c)))"

function send_chunks :: "client_env \<Rightarrow> bytes \<Rightarrow> bytes \<Rightarrow> bytes \<Rightarrow> unit client" where
  "send_chunks env recipient fname_bytes data =
     (if data = [] then ret ()
      else andThen (send_chunk env recipient fname_bytes (take kChunk data)) (\<lambda>_.
           send_chunks env recipient fname_bytes (drop kChunk data)))"
  by pat_completeness auto
termination
  by (relation "measure (\<lambda>(_, _, _, data). length data)") (auto simp: kChunk_def)

declare send_chunks.simps [simp del]

definition send_file :: "client_env \<Rightarrow> string \<Rightarrow> bytes \<Rightarrow> unit client" where
  "send_file env filename recipient c =
     (case fs_files (cc_fs c) filename of
        None \<Rightarrow> (Inr (), c)
      | Some data \<Rightarrow>
         (let fname_bytes = to_bytes filename; file_size = word_of_nat (length data) in
          andThen (lift (get_DH_bytes (ce_ssl env) (cc_es c))) (\<lambda>dh.
          andThen (lift (get_identity_bytes (ce_ssl env) (cc_es c))) (\<lambda>ik.
          andThen (lift (sign (ce_ssl env) (cc_es c))) (\<lambda>sig.
          andThen (send_message (Message_ctor (ce_now env) []
            [recipient, fname_bytes, le64_bytes file_size, dh, ik, sig] FileStart)) (\<lambda>_.
          andThen (send_chunks env recipient fname_bytes data) (\<lambda>_.
          send_message (Message_ctor (ce_now env) [] [recipient, fname_bytes] FileEnd)))))) c))"

definition get_pubkey_on_client :: "client_env \<Rightarrow> bytes \<Rightarrow> unit client" where
  "get_pubkey_on_client env username = send_message (getpub_toMessage (ce_now env) username)"

definition private_message_on_client :: "client_env \<Rightarrow> bytes \<Rightarrow> bytes \<Rightarrow> unit client" where
  "private_message_on_client env recipient payload =
     (if recipient = [] \<or> payload = [] then ret ()
      else andThen (get_pubkey_on_client env recipient) (\<lambda>_.
           modify (\<lambda>c. c\<lparr>cc_mq := mq_push (cc_mq c) recipient payload\<rparr>)))"

definition exit_on_client :: "client_env \<Rightarrow> unit client" where
  "exit_on_client env = andThen (send_message (exit_toMessage (ce_now env)))
     (\<lambda>_. modify (\<lambda>c. c\<lparr>cc_connected := False\<rparr>))"

definition join_on_client :: "client_env \<Rightarrow> bytes \<Rightarrow> unit client" where
  "join_on_client env name = send_message (join_toMessage (ce_now env) name)"

definition room_on_client :: "client_env \<Rightarrow> bytes \<Rightarrow> unit client" where
  "room_on_client env name = send_message (room_toMessage (ce_now env) name)"

definition send_on_client :: "client_env \<Rightarrow> bytes \<Rightarrow> bytes \<Rightarrow> unit client" where
  "send_on_client env name payload =
     send_message (Message_ctor (ce_now env) payload [[byte_of_CommandType SEND], name] Command)"

declare join_on_client_def [simp] room_on_client_def [simp] send_on_client_def [simp]

fun executeOnClient :: "client_env \<Rightarrow> ICommandHandler \<Rightarrow> unit client" where
  "executeOnClient env (LoginCommand u _ _ _) = login_on_client env u"
| "executeOnClient env (JoinCommand n) = join_on_client env n"
| "executeOnClient env (MakeRoomCommand n) = room_on_client env n"
| "executeOnClient env (SendGroupMessageCommand n p) = send_on_client env n p"
| "executeOnClient env (PrivateMessageCommand r p) = private_message_on_client env r p"
| "executeOnClient env (GetPubkeyCommand u) = get_pubkey_on_client env u"
| "executeOnClient env (SendFileCommand f r) = send_file env f r"
| "executeOnClient env (ConnectCommand _ _ _ _ _ _) = ret ()"
| "executeOnClient env (DisconnectCommand _) = ret ()"
| "executeOnClient env ExitCommand = exit_on_client env"
| "executeOnClient env HelpCommand = ret ()"

text \<open>The object after the call: \<open>PrivateMessageCommand\<close> clears its fields when it got to the end,
  \<open>LoginCommand\<close> has stored the keys it read before anything failed.\<close>

definition after_client :: "client_env \<Rightarrow> ClientContext \<Rightarrow> unit cpp \<Rightarrow> ICommandHandler \<Rightarrow> ICommandHandler" where
  "after_client env c res cmd = (case cmd of
       PrivateMessageCommand r p \<Rightarrow> if r \<noteq> [] \<and> p \<noteq> [] \<and> res = Inr () then PrivateMessageCommand [] [] else cmd
     | LoginCommand u d i s \<Rightarrow>
         (case get_DH_bytes (ce_ssl env) (cc_es c) of Inl _ \<Rightarrow> cmd
          | Inr d' \<Rightarrow> (case get_identity_bytes (ce_ssl env) (cc_es c) of Inl _ \<Rightarrow> LoginCommand u d' i s
             | Inr i' \<Rightarrow> (case sign (ce_ssl env) (cc_es c) of Inl _ \<Rightarrow> LoginCommand u d' i' s
                | Inr s' \<Rightarrow> LoginCommand u d' i' s')))
     | _ \<Rightarrow> cmd)"

definition client_bus_dispatch :: "client_env \<Rightarrow> Message \<Rightarrow> (unit, CommandRegistry \<times> ClientContext) action" where
  "client_bus_dispatch env msg = (\<lambda>(registry, ctx).
     (let name = pc_name (make_struct_from_command msg) in
      case find_command registry name of
        None \<Rightarrow> (Inr (), (registry, ctx))
      | Some handler \<Rightarrow>
         (case fromMessage handler msg of
            (Inl e, handler') \<Rightarrow> (Inl e, (registry(name \<mapsto> handler'), ctx))
          | (Inr _, handler') \<Rightarrow>
             let (res, ctx') = executeOnClient env handler' ctx in
             (res, (registry(name \<mapsto> after_client env ctx res handler'), ctx')))))"

definition client_registry :: CommandRegistry where
  "client_registry = register_all
     [''exit'', ''login'', ''room'', ''send'', ''join'', ''getpub'', ''pmess'', ''help'', ''sendfile'']"

section \<open>Incoming messages\<close>

text \<open>The prefix of a private message in the user interface, in UTF-8.\<close>

definition private_prefix :: string where
  "private_prefix = to_string [0x5B, 0xD0, 0x9B, 0xD0, 0xB8, 0xD1, 0x87, 0xD0, 0xBD, 0xD0, 0xBE, 0xD0, 0xB5, 0x20,
     0xD0, 0xBE, 0xD1, 0x82, 0x20]"

definition process_encrypted_message :: "client_env \<Rightarrow> bytes \<Rightarrow> bytes \<Rightarrow> bytes \<Rightarrow> bytes \<Rightarrow> bytes \<Rightarrow> bytes \<Rightarrow> unit client" where
  "process_encrypted_message env sender recipient pubkey_bytes payload identity_key signature =
     try_catch
       (andThen (client_cache_key env sender pubkey_bytes identity_key) (\<lambda>_.
        andThen (init_counter sender) (\<lambda>_ c.
          andThen (client_decrypt_for env sender recipient payload signature (counter_of c sender)) (\<lambda>plaintext.
          andThen (increment_counter sender) (\<lambda>_.
          ui_callback (private_prefix @ to_string sender @ '']: '' @ to_string plaintext))) c)))
       (ret ())"

definition handle_cipher :: "client_env \<Rightarrow> Message \<Rightarrow> unit client" where
  "handle_cipher env msg = process_encrypted_message env (get_meta msg 1) (get_meta msg 0) (get_meta msg 2)
     (get_payload msg) (get_meta msg 3) (get_meta msg 4)"

definition handle_text :: "Message \<Rightarrow> unit client" where
  "handle_text msg = ui_callback (to_string (get_payload msg))"

text \<open>
  The loop that sends what was queued for the user whose key arrived. It takes one message off the queue per
  round; \<open>fuel\<close> bounds the rounds, and running out of it is not a value the source can return.
\<close>

definition send_queued :: "client_env \<Rightarrow> bytes \<Rightarrow> bytes \<Rightarrow> unit client" where
  "send_queued env username plaintext =
     andThen (init_counter username) (\<lambda>_.
     andThen (client_encrypt_for env username plaintext) (\<lambda>ciphertext.
     andThen (\<lambda>c. send_message (Message_ctor (ce_now env) ciphertext [username, cc_my_username c] CipherMessage) c) (\<lambda>_.
     increment_counter username)))"

fun send_pending :: "client_env \<Rightarrow> nat \<Rightarrow> bytes \<Rightarrow> unit client" where
  "send_pending env 0 username = lift (Inl (Undefined ''out of fuel''))"
| "send_pending env (Suc fuel) username =
     (\<lambda>c. let (pending, mq) = mq_find_pending (cc_mq c) username; c1 = c\<lparr>cc_mq := mq\<rparr> in
        (case pending of
           None \<Rightarrow> (Inr (), c1)
         | Some msg_to_send \<Rightarrow>
             andThen (send_queued env username (om_bytes msg_to_send)) (\<lambda>_. send_pending env fuel username) c1))"

text \<open>Messages that arrived before the key: decrypted, shown on the console only.\<close>

fun decrypt_pending :: "client_env \<Rightarrow> bytes \<Rightarrow> bytes list \<Rightarrow> unit client" where
  "decrypt_pending env username [] = ret ()"
| "decrypt_pending env username (ct # cts) =
     (\<lambda>c. andThen (lift (sign (ce_ssl env) (cc_es c))) (\<lambda>sig.
          andThen (lift (case cc_counter c username of None \<Rightarrow> Inl (Undefined ''dereference of end()'') | Some n \<Rightarrow> Inr n)) (\<lambda>n.
          andThen (client_decrypt_for env (cc_my_username c) (cc_my_username c) ct sig n) (\<lambda>_.
          decrypt_pending env username cts))) c)"

definition handle_get_pubkey_response :: "client_env \<Rightarrow> Message \<Rightarrow> unit client" where
  "handle_get_pubkey_response env msg =
     (let username = get_meta msg 1 in
      andThen (client_cache_key env username (get_payload msg) (get_meta msg 2)) (\<lambda>_.
      andThen (send_pending env kQueueSize username) (\<lambda>_ c.
      let received = (case cc_pending_messages c username of None \<Rightarrow> [] | Some ms \<Rightarrow> ms) in
      decrypt_pending env username received (c\<lparr>cc_pending_messages := (cc_pending_messages c)(username := None)\<rparr>))))"

definition handle_response :: "client_env \<Rightarrow> Message \<Rightarrow> unit client" where
  "handle_response env msg =
     (if get_meta msg 0 = [] then ret ()
      else if CommandType_of_byte (hd (get_meta msg 0)) = GET_PUBKEY then handle_get_pubkey_response env msg
      else ret ())"

text \<open>\<open>from_bytes\<close> reads eight bytes whatever the length of the vector.\<close>

definition from_bytes :: "bytes \<Rightarrow> (64 word) cpp" where
  "from_bytes v = (if length v < 8 then Inl (Undefined ''vector index out of range'') else Inr (le64_word v))"

definition file_key :: "Message \<Rightarrow> string" where
  "file_key msg = to_string (get_meta msg 0) @ '' '' @ to_string (get_meta msg 1)"

definition handle_file_start :: "Message \<Rightarrow> unit client" where
  "handle_file_start msg =
     andThen (lift (from_bytes (get_meta msg 2))) (\<lambda>_ c.
     if fs_writable (cc_fs c) (file_key msg)
     then (Inr (), c\<lparr>cc_fs := (cc_fs c)\<lparr>fs_files := (fs_files (cc_fs c))(file_key msg \<mapsto> [])\<rparr>,
                    cc_pending_files := insert (file_key msg) (cc_pending_files c)\<rparr>)
     else (Inr (), c))"

definition append_file :: "string \<Rightarrow> bytes \<Rightarrow> unit client" where
  "append_file path data = modify (\<lambda>c. c\<lparr>cc_fs := (cc_fs c)\<lparr>fs_files :=
     (fs_files (cc_fs c))(path \<mapsto> (case fs_files (cc_fs c) path of None \<Rightarrow> [] | Some old \<Rightarrow> old) @ data)\<rparr>\<rparr>)"

text \<open>The counter is the one of \<open>get_meta(0)\<close>, the recipient, and is not incremented.\<close>

definition handle_file_chunk :: "client_env \<Rightarrow> Message \<Rightarrow> unit client" where
  "handle_file_chunk env msg c =
     (if file_key msg \<notin> cc_pending_files c then (Inr (), c)
      else andThen (init_counter (get_meta msg 0)) (\<lambda>_.
           andThen (client_cache_key env (get_meta msg 2) (get_meta msg 3) (get_meta msg 4)) (\<lambda>_ c1.
           andThen (client_decrypt_for env (get_meta msg 2) (get_meta msg 0) (get_payload msg) (get_meta msg 5)
                     (counter_of c1 (get_meta msg 0)))
             (append_file (file_key msg)) c1)) c)"

definition handle_file_end :: "Message \<Rightarrow> unit client" where
  "handle_file_end msg = modify (\<lambda>c. c\<lparr>cc_pending_files := cc_pending_files c - {file_key msg}\<rparr>)"


section \<open>Dispatcher and MessagingClient\<close>

datatype IClientMessageHandler =
    ClientTextHandler
  | ClientCommandHandler (client_commands: CommandRegistry)
  | ResponseMessageHandler
  | CipherMessageHandler
  | ClientFileStartHandler
  | ClientFileChunkHandler
  | ClientFileEndHandler

fun handleOutgoing :: "client_env \<Rightarrow> Message \<Rightarrow> IClientMessageHandler \<times> ClientContext \<Rightarrow>
    unit cpp \<times> IClientMessageHandler \<times> ClientContext" where
  "handleOutgoing env msg (ClientTextHandler, c) = (let (r, c') = handle_text msg c in (r, ClientTextHandler, c'))"
| "handleOutgoing env msg (ClientCommandHandler reg, c) =
     (let (r, reg', c') = client_bus_dispatch env msg (reg, c) in (r, ClientCommandHandler reg', c'))"
| "handleOutgoing env msg (ResponseMessageHandler, c) = (let (r, c') = handle_response env msg c in (r, ResponseMessageHandler, c'))"
| "handleOutgoing env msg (CipherMessageHandler, c) = (let (r, c') = handle_cipher env msg c in (r, CipherMessageHandler, c'))"
| "handleOutgoing env msg (ClientFileStartHandler, c) = (let (r, c') = handle_file_start msg c in (r, ClientFileStartHandler, c'))"
| "handleOutgoing env msg (ClientFileChunkHandler, c) = (let (r, c') = handle_file_chunk env msg c in (r, ClientFileChunkHandler, c'))"
| "handleOutgoing env msg (ClientFileEndHandler, c) = (let (r, c') = handle_file_end msg c in (r, ClientFileEndHandler, c'))"

text \<open>The interface's other entry point, which the dispatcher never calls: it ignores commands.\<close>

fun handleIncoming :: "client_env \<Rightarrow> Message \<Rightarrow> IClientMessageHandler \<times> ClientContext \<Rightarrow>
    unit cpp \<times> IClientMessageHandler \<times> ClientContext" where
  "handleIncoming env msg (ClientCommandHandler reg, c) = (Inr (), ClientCommandHandler reg, c)"
| "handleIncoming env msg (h, c) = handleOutgoing env msg (h, c)"

record MessagingClient =
  mc_handlers :: "MessageType \<Rightarrow> IClientMessageHandler option"
  mc_context :: ClientContext

definition client_registerHandler :: "MessagingClient \<Rightarrow> MessageType \<Rightarrow> IClientMessageHandler \<Rightarrow> MessagingClient" where
  "client_registerHandler mc t h = mc\<lparr>mc_handlers := (mc_handlers mc)(t \<mapsto> h)\<rparr>"

definition client_HasHandlerFor :: "MessagingClient \<Rightarrow> MessageType \<Rightarrow> bool" where
  "client_HasHandlerFor mc t = (mc_handlers mc t \<noteq> None)"

definition client_clear :: "MessagingClient \<Rightarrow> MessagingClient" where
  "client_clear mc = mc\<lparr>mc_handlers := Map.empty\<rparr>"

definition client_handle_with :: "client_env \<Rightarrow> IClientMessageHandler \<Rightarrow> Message \<Rightarrow> (bool, MessagingClient) action" where
  "client_handle_with env h msg mc =
     (let (res, h', c') = handleOutgoing env msg (h, mc_context mc) in
      (bindr res (\<lambda>_. Inr True), mc\<lparr>mc_handlers := (mc_handlers mc)(get_type msg \<mapsto> h'), mc_context := c'\<rparr>))"

definition client_dispatch :: "client_env \<Rightarrow> Message \<Rightarrow> (bool, MessagingClient) action" where
  "client_dispatch env msg mc =
     (case mc_handlers mc (get_type msg) of
        None \<Rightarrow> (Inr False, mc)
      | Some h \<Rightarrow> try_catch (client_handle_with env h msg) (ret False) mc)"

definition client_dispatchFromRawBytes :: "client_env \<Rightarrow> bytes \<Rightarrow> (bool, MessagingClient) action" where
  "client_dispatchFromRawBytes env raw =
     try_catch (andThen (lift (deserialize raw)) (client_dispatch env)) (ret False)"

definition MessagingClient_ctor :: "ClientContext \<Rightarrow> MessagingClient" where
  "MessagingClient_ctor ctx =
     foldl (\<lambda>mc (t, h). client_registerHandler mc t h) \<lparr>mc_handlers = Map.empty, mc_context = ctx\<rparr>
       [(Text, ClientTextHandler), (Command, ClientCommandHandler client_registry), (Response, ResponseMessageHandler),
        (CipherMessage, CipherMessageHandler), (FileStart, ClientFileStartHandler), (FileChunk, ClientFileChunkHandler),
        (FileEnd, ClientFileEndHandler)]"

definition client_on_tcp_data_received :: "client_env \<Rightarrow> bytes \<Rightarrow> (unit, MessagingClient) action" where
  "client_on_tcp_data_received env raw =
     andThen (lift (deserialize raw)) (\<lambda>msg. andThen (client_dispatch env msg) (\<lambda>_. ret ()))"

definition get_data :: "client_env \<Rightarrow> string \<Rightarrow> (unit, MessagingClient) action" where
  "get_data env line =
     andThen (lift (parse (ce_now env) line)) (\<lambda>msg. andThen (client_dispatch env msg) (\<lambda>_. ret ()))"

definition client_stop :: "MessagingClient \<Rightarrow> MessagingClient" where
  "client_stop mc = mc\<lparr>mc_context := (mc_context mc)\<lparr>cc_connected := False\<rparr>\<rparr>"

end
