(* ===== verification/Client_Properties.thy ===== *)
theory Client_Properties
  imports Client_App
begin

text \<open>
  Properties of the client: what happens to queued private messages when the recipient's key arrives, what an
  incoming private message shows, what the dispatcher does with messages from the server, and how files are
  sent and received.
\<close>

section \<open>Sending\<close>

lemma send_to_server_eval [action_simps]: "send_to_server d c = (Inr (), c\<lparr>cc_sent := cc_sent c @ [d]\<rparr>)"
  by (simp add: send_to_server_def modify_def)

lemma send_message_fits:
  "fits ms p \<Longrightarrow> send_message (Message_ctor now p ms t) c = (Inr (), c\<lparr>cc_sent := cc_sent c @ [serialize (built 0 p ms t)]\<rparr>)"
  using serialize_built_now [of now p ms t] by (simp add: send_message_def action_simps)

lemma send_message_built: "send_message (Inr (built now p ms t)) c = (Inr (), c\<lparr>cc_sent := cc_sent c @ [serialize (built 0 p ms t)]\<rparr>)"
  using serialize_built_now [of now p ms t] by (simp add: send_message_def action_simps)

lemma counter_simps [simp]:
  "counter_of (c\<lparr>cc_sent := x\<rparr>) u = counter_of c u" "counter_of (c\<lparr>cc_mq := q\<rparr>) u = counter_of c u"
  "counter_of (c\<lparr>cc_es := e\<rparr>) u = counter_of c u" "counter_of (c\<lparr>cc_rng := k\<rparr>) u = counter_of c u"
  by (simp_all add: counter_of_def)

lemma counter_of_update [simp]: "counter_of (c\<lparr>cc_counter := (cc_counter c)(u \<mapsto> n)\<rparr>) v = (if v = u then n else counter_of c v)"
  by (simp add: counter_of_def)

lemma init_counter_counter [simp]:
  "counter_of (snd (init_counter u c)) v = counter_of c v" "fst (init_counter u c) = Inr ()"
  by (simp_all add: init_counter_def modify_def counter_of_def)

text \<open>The environment a sender needs: a working OpenSSL and random numbers.\<close>

definition crypto_ok :: "client_env \<Rightarrow> bool" where
  "crypto_ok env \<longleftrightarrow> gcm_correct (ce_ssl env) \<and> hkdf_ok (ce_ssl env) \<and> (\<forall>k. \<exists>iv. ce_rand env k = Some iv \<and> length iv = 12)"

text \<open>The ciphertexts of a list of plaintexts, with consecutive counters and consecutive random numbers.\<close>

fun ciphertexts :: "client_env \<Rightarrow> EncryptionService \<Rightarrow> bytes \<Rightarrow> bytes \<Rightarrow> 64 word \<Rightarrow> nat \<Rightarrow> bytes list \<Rightarrow> bytes list" where
  "ciphertexts env es my user n k [] = []"
| "ciphertexts env es my user n k (p # ps) =
     projr (encrypt_for (ce_ssl env) (ce_rand env k) es my user p n) # ciphertexts env es my user (n + 1) (k + 1) ps"

definition private_frame :: "bytes \<Rightarrow> bytes \<Rightarrow> bytes \<Rightarrow> bytes" where
  "private_frame my user ct = serialize (built 0 ct [user, my] CipherMessage)"

lemma encrypt_for_known:
  assumes "crypto_ok env" "shares_secret (ce_ssl env) es user" "length my + length user \<le> INT_MAX" "length p \<le> INT_MAX"
  shows "\<exists>ct. encrypt_for (ce_ssl env) (ce_rand env k) es my user p n = Inr ct \<and> length ct = 36 + length p"
proof -
  obtain iv where "ce_rand env k = Some iv" "length iv = 12" using assms(1) by (auto simp: crypto_ok_def)
  then show ?thesis using encrypt_for_length [of "ce_ssl env" iv es user my p n] assms by (auto simp: crypto_ok_def)
qed

definition small_names :: "bytes \<Rightarrow> bytes \<Rightarrow> bool" where
  "small_names a b \<longleftrightarrow> length a < 65536 \<and> length b < 65536"

lemma small_names_salt: "small_names a b \<Longrightarrow> length b + length a \<le> INT_MAX"
  by (simp add: small_names_def)

lemma fits_cipher: "small_names a b \<Longrightarrow> length p \<le> INT_MAX \<Longrightarrow> length ct = 36 + length p \<Longrightarrow> fits [a, b] ct"
  by (simp add: fits_def small_names_def)

lemma send_queued_eval:
  assumes "crypto_ok env" "shares_secret (ce_ssl env) (cc_es c) user" "small_names user (cc_my_username c)" "length p \<le> INT_MAX"
  shows "send_queued env user p c = (Inr (), c\<lparr>cc_sent := cc_sent c @
      [private_frame (cc_my_username c) user (projr (encrypt_for (ce_ssl env) (ce_rand env (cc_rng c)) (cc_es c) (cc_my_username c) user p (counter_of c user)))],
      cc_counter := (cc_counter c)(user \<mapsto> counter_of c user + 1), cc_rng := cc_rng c + 1\<rparr>)"
proof -
  obtain ct where ct: "encrypt_for (ce_ssl env) (ce_rand env (cc_rng c)) (cc_es c) (cc_my_username c) user p (counter_of c user) = Inr ct"
      "length ct = 36 + length p" using encrypt_for_known [OF assms(1, 2) small_names_salt [OF assms(3)] assms(4)] by blast
  define c1 where "c1 = snd (init_counter user c)"
  have c1: "init_counter user c = (Inr (), c1)" "counter_of c1 user = counter_of c user" "cc_es c1 = cc_es c"
      "cc_my_username c1 = cc_my_username c" "cc_rng c1 = cc_rng c"
      "c1\<lparr>cc_rng := r, cc_sent := x, cc_counter := (cc_counter c1)(user \<mapsto> n)\<rparr> =
       c\<lparr>cc_rng := r, cc_sent := x, cc_counter := (cc_counter c)(user \<mapsto> n)\<rparr>" "cc_sent c1 = cc_sent c" for r x n
    by (auto simp: c1_def init_counter_def modify_def counter_of_def)
  have "send_message (Message_ctor (ce_now env) ct [user, cc_my_username c] CipherMessage) (c1\<lparr>cc_rng := cc_rng c + 1\<rparr>) =
      (Inr (), c1\<lparr>cc_rng := cc_rng c + 1, cc_sent := cc_sent c @ [private_frame (cc_my_username c) user ct]\<rparr>)"
    using send_message_fits [OF fits_cipher [OF assms(3, 4) ct(2)]] c1(7) by (simp add: private_frame_def)
  then show ?thesis
    using ct(1) c1 by (simp add: send_queued_def andThen_def client_encrypt_for_def increment_counter_def modify_def)
qed

lemma mq_abs_length:
  assumes "mq_inv mq"
  shows "length (mq_abs mq user) < kQueueSize"
proof (cases "mq_queues mq user")
  case None
  then show ?thesis by (simp add: mq_abs_def kQueueSize_def)
next
  case (Some q)
  then show ?thesis using assms ring_count_less [of kQueueSize q] by (simp add: mq_abs_def mq_inv_def)
qed

lemma find_pending_Nil:
  assumes "mq_inv mq" "mq_abs mq user = []"
  obtains mq' where "mq_find_pending mq user = (None, mq')" "mq_inv mq'" "mq_abs mq' = mq_abs mq"
proof -
  obtain r mq' where r: "mq_find_pending mq user = (r, mq')" by (cases "mq_find_pending mq user")
  have "r = None" "mq_abs mq' = (mq_abs mq)(user := [])"
    using mq_find_pending_abs [OF assms(1), of user] assms(2) r by auto
  moreover have "mq_inv mq'" using mq_inv_find_pending [OF assms(1), of user] r by simp
  ultimately show ?thesis using that r assms(2) by (simp add: fun_upd_idem)
qed

lemma find_pending_Cons:
  assumes "mq_inv mq" "mq_abs mq user = p # ps"
  obtains mq' where "mq_find_pending mq user = (Some \<lparr>om_bytes = p\<rparr>, mq')" "mq_inv mq'" "mq_abs mq' = (mq_abs mq)(user := ps)"
proof -
  obtain r mq' where r: "mq_find_pending mq user = (r, mq')" by (cases "mq_find_pending mq user")
  have "map_option om_bytes r = Some p" "mq_abs mq' = (mq_abs mq)(user := ps)"
    using mq_find_pending_abs [OF assms(1), of user] assms(2) r by auto
  moreover have "mq_inv mq'" using mq_inv_find_pending [OF assms(1), of user] r by simp
  ultimately show ?thesis using that r by (auto simp: OutgoingMessage.equality)
qed

text \<open>One round per queued message, in the order they were queued; enough fuel is one more than the queue holds.\<close>

lemma send_pending_flush:
  assumes "crypto_ok env" "mq_inv (cc_mq c)" "mq_abs (cc_mq c) user = ps" "length ps < fuel"
    and "shares_secret (ce_ssl env) (cc_es c) user" "small_names user (cc_my_username c)" "list_all (\<lambda>p. length p \<le> INT_MAX) ps"
  shows "\<exists>mq'. mq_inv mq' \<and> mq_abs mq' = (mq_abs (cc_mq c))(user := []) \<and>
    send_pending env fuel user c = (Inr (), c\<lparr>cc_mq := mq',
      cc_sent := cc_sent c @ map (private_frame (cc_my_username c) user)
        (ciphertexts env (cc_es c) (cc_my_username c) user (counter_of c user) (cc_rng c) ps),
      cc_counter := (if ps = [] then cc_counter c else (cc_counter c)(user \<mapsto> counter_of c user + word_of_nat (length ps))),
      cc_rng := cc_rng c + length ps\<rparr>)"
  using assms
proof (induction ps arbitrary: c fuel)
  case Nil
  then obtain f where f: "fuel = Suc f" by (cases fuel) auto
  obtain mq' where "mq_find_pending (cc_mq c) user = (None, mq')" "mq_inv mq'" "mq_abs mq' = mq_abs (cc_mq c)"
    using find_pending_Nil [OF Nil.prems(2, 3)] by metis
  with f Nil.prems(3) show ?case by (intro exI [of _ mq']) (simp add: fun_upd_idem)
next
  case (Cons p ps)
  then obtain f where f: "fuel = Suc f" by (cases fuel) auto
  obtain mq' where mq': "mq_find_pending (cc_mq c) user = (Some \<lparr>om_bytes = p\<rparr>, mq')" "mq_inv mq'"
      "mq_abs mq' = (mq_abs (cc_mq c))(user := ps)"
    using find_pending_Cons [OF Cons.prems(2, 3)] by metis
  let ?c1 = "c\<lparr>cc_mq := mq'\<rparr>"
  define c2 where "c2 = snd (send_queued env user p ?c1)"
  have c2: "send_queued env user p ?c1 = (Inr (), c2)" "cc_mq c2 = mq'" "cc_es c2 = cc_es c" "cc_my_username c2 = cc_my_username c"
      "counter_of c2 user = counter_of c user + 1" "cc_rng c2 = cc_rng c + 1" "cc_counter c2 = (cc_counter c)(user \<mapsto> counter_of c user + 1)"
      "cc_sent c2 = cc_sent c @ [private_frame (cc_my_username c) user (projr (encrypt_for (ce_ssl env) (ce_rand env (cc_rng c)) (cc_es c) (cc_my_username c) user p (counter_of c user)))]"
      "c2\<lparr>cc_mq := q, cc_sent := x, cc_counter := y, cc_rng := z\<rparr> = c\<lparr>cc_mq := q, cc_sent := x, cc_counter := y, cc_rng := z\<rparr>" for q x y z
    using send_queued_eval [of env ?c1 user p] Cons.prems unfolding c2_def by (simp_all add: counter_of_def)
  have "\<exists>mq''. mq_inv mq'' \<and> mq_abs mq'' = (mq_abs (cc_mq c2))(user := []) \<and>
    send_pending env f user c2 = (Inr (), c2\<lparr>cc_mq := mq'',
      cc_sent := cc_sent c2 @ map (private_frame (cc_my_username c2) user)
        (ciphertexts env (cc_es c2) (cc_my_username c2) user (counter_of c2 user) (cc_rng c2) ps),
      cc_counter := (if ps = [] then cc_counter c2 else (cc_counter c2)(user \<mapsto> counter_of c2 user + word_of_nat (length ps))),
      cc_rng := cc_rng c2 + length ps\<rparr>)"
    by (rule Cons.IH) (use Cons.prems mq'(2, 3) c2(2-6) f in auto)
  then obtain mq'' where "mq_inv mq''" "mq_abs mq'' = (mq_abs mq')(user := [])"
    "send_pending env f user c2 = (Inr (), c2\<lparr>cc_mq := mq'',
      cc_sent := cc_sent c2 @ map (private_frame (cc_my_username c) user)
        (ciphertexts env (cc_es c) (cc_my_username c) user (counter_of c user + 1) (cc_rng c + 1) ps),
      cc_counter := (if ps = [] then cc_counter c2 else (cc_counter c2)(user \<mapsto> counter_of c user + 1 + word_of_nat (length ps))),
      cc_rng := cc_rng c + 1 + length ps\<rparr>)"
    unfolding c2(2-6) by blast
  moreover have "(if ps = [] then cc_counter c2 else (cc_counter c2)(user \<mapsto> counter_of c user + 1 + word_of_nat (length ps))) =
      (cc_counter c)(user \<mapsto> counter_of c user + word_of_nat (length (p # ps)))"
    by (simp add: c2(7) add.assoc)
  ultimately show ?case
    using mq' f c2(1, 8, 9) by (intro exI [of _ mq'']) (simp add: andThen_def, simp add: fun_upd_def)
qed

text \<open>The encryption service after the keys that came with a message have been cached.\<close>

definition with_keys :: "EncryptionService \<Rightarrow> bytes \<Rightarrow> pkey \<Rightarrow> pkey \<Rightarrow> EncryptionService" where
  "with_keys es u dk k = es\<lparr>es_DH_keys := (es_DH_keys es)(u \<mapsto> dk), es_identity_keys := (es_identity_keys es)(u \<mapsto> Some k)\<rparr>"

lemma pubkey_response_eval:
  assumes "crypto_ok env" "mq_inv (cc_mq c)" "small_names user (cc_my_username c)"
    and "list_all (\<lambda>p. length p \<le> INT_MAX) (mq_abs (cc_mq c) user)"
    and "new_raw_public_key (ce_ssl env) X25519 dh = Some dk" "new_raw_public_key (ce_ssl env) ED25519 ik = Some k"
    and "cc_pending_messages c user = None" "length (compute_shared_secret (ce_ssl env) (es_DH_key (cc_es c)) dk) = 32"
  shows "\<exists>c'. handle_response env (built 0 dh [[byte_of_CommandType GET_PUBKEY], user, ik, sig] Response) c = (Inr (), c') \<and>
    cc_sent c' = cc_sent c @ map (private_frame (cc_my_username c) user)
      (ciphertexts env (cc_es c') (cc_my_username c) user (counter_of c user) (cc_rng c) (mq_abs (cc_mq c) user)) \<and>
    counter_of c' user = counter_of c user + word_of_nat (length (mq_abs (cc_mq c) user)) \<and>
    mq_abs (cc_mq c') = (mq_abs (cc_mq c))(user := []) \<and> mq_inv (cc_mq c') \<and>
    cc_es c' = with_keys (cc_es c) user dk k"
proof -
  let ?es = "(cc_es c)\<lparr>es_DH_keys := (es_DH_keys (cc_es c))(user \<mapsto> dk), es_identity_keys := (es_identity_keys (cc_es c))(user \<mapsto> Some k)\<rparr>"
  let ?c1 = "c\<lparr>cc_es := ?es\<rparr>"
  have cache: "client_cache_key env user dh ik c = (Inr (), ?c1)"
    using assms(5, 6) by (simp add: client_cache_key_def cache_public_key_def DH_from_public_bytes_def identity_from_public_bytes_def)
  have "length (mq_abs (cc_mq ?c1) user) < kQueueSize" using mq_abs_length [OF assms(2)] by simp
  moreover have "shares_secret (ce_ssl env) (cc_es ?c1) user" using assms(8) by (simp add: shares_secret_def)
  ultimately have "\<exists>mq'. mq_inv mq' \<and> mq_abs mq' = (mq_abs (cc_mq ?c1))(user := []) \<and>
    send_pending env kQueueSize user ?c1 = (Inr (), ?c1\<lparr>cc_mq := mq',
      cc_sent := cc_sent ?c1 @ map (private_frame (cc_my_username ?c1) user)
        (ciphertexts env (cc_es ?c1) (cc_my_username ?c1) user (counter_of ?c1 user) (cc_rng ?c1) (mq_abs (cc_mq ?c1) user)),
      cc_counter := (if mq_abs (cc_mq ?c1) user = [] then cc_counter ?c1 else (cc_counter ?c1)(user \<mapsto> counter_of ?c1 user + word_of_nat (length (mq_abs (cc_mq ?c1) user)))),
      cc_rng := cc_rng ?c1 + length (mq_abs (cc_mq ?c1) user)\<rparr>)"
    by (intro send_pending_flush [OF assms(1) _ refl]) (use assms in simp_all)
  then
  obtain mq' where mq': "mq_inv mq'" "mq_abs mq' = (mq_abs (cc_mq c))(user := [])"
    "send_pending env kQueueSize user ?c1 = (Inr (), ?c1\<lparr>cc_mq := mq',
      cc_sent := cc_sent c @ map (private_frame (cc_my_username c) user)
        (ciphertexts env ?es (cc_my_username c) user (counter_of c user) (cc_rng c) (mq_abs (cc_mq c) user)),
      cc_counter := (if mq_abs (cc_mq c) user = [] then cc_counter c else (cc_counter c)(user \<mapsto> counter_of c user + word_of_nat (length (mq_abs (cc_mq c) user)))),
      cc_rng := cc_rng c + length (mq_abs (cc_mq c) user)\<rparr>)"
    by auto
  have g: "handle_response env (built 0 dh [[byte_of_CommandType GET_PUBKEY], user, ik, sig] Response) =
      handle_get_pubkey_response env (built 0 dh [[byte_of_CommandType GET_PUBKEY], user, ik, sig] Response)"
    by (simp add: handle_response_def CommandType_of_byte_def)
  show ?thesis
    unfolding g using cache mq' assms(7)
    by (simp add: handle_get_pubkey_response_def andThen_def ret_def Let_def) (auto simp: counter_of_def with_keys_def)
qed

text \<open>
  C33: queued private messages are sent when the key arrives. When the server answers a key request with
  keys of the recipient that OpenSSL imports and can derive a secret with, every message queued for that recipient (each short enough for
  OpenSSL's \<open>int\<close> lengths) is encrypted and handed to the transport, in the order it was queued,
  under consecutive counters starting at the recipient's counter; the queue of that recipient is empty
  afterwards, the other queues are as before, and the counter has advanced by the number of messages.
\<close>

theorem pubkey_response_flushes:
  assumes "crypto_ok env" "mq_inv (cc_mq c)" "small_names user (cc_my_username c)"
    and "list_all (\<lambda>p. length p \<le> INT_MAX) (mq_abs (cc_mq c) user)"
    and "new_raw_public_key (ce_ssl env) X25519 dh = Some dk" "new_raw_public_key (ce_ssl env) ED25519 ik = Some k"
    and "cc_pending_messages c user = None" "length (compute_shared_secret (ce_ssl env) (es_DH_key (cc_es c)) dk) = 32"
  shows "\<exists>c'. handle_response env (built 0 dh [[byte_of_CommandType GET_PUBKEY], user, ik, sig] Response) c = (Inr (), c') \<and>
    cc_sent c' = cc_sent c @ map (private_frame (cc_my_username c) user)
      (ciphertexts env (cc_es c') (cc_my_username c) user (counter_of c user) (cc_rng c) (mq_abs (cc_mq c) user)) \<and>
    counter_of c' user = counter_of c user + word_of_nat (length (mq_abs (cc_mq c) user)) \<and>
    mq_abs (cc_mq c') = (mq_abs (cc_mq c))(user := []) \<and> mq_inv (cc_mq c') \<and>
    es_DH_keys (cc_es c') = (es_DH_keys (cc_es c))(user \<mapsto> dk)"
  using pubkey_response_eval [OF assms, of sig] by (auto simp: with_keys_def)

definition sample_cenv :: client_env where
  "sample_cenv = \<lparr>ce_now = 0, ce_ssl = sample_ssl, ce_rand = (\<lambda>_. Some (replicate 12 0))\<rparr>"

definition sample_client :: ClientContext where
  "sample_client = \<lparr>cc_ui = Some [], cc_sent = [], cc_connected = True, cc_mq = mq_push MessageQueue_ctor [66] [7, 8],
     cc_es = sample_alice, cc_fs = \<lparr>fs_files = Map.empty, fs_writable = (\<lambda>_. True)\<rparr>, cc_pending_files = {},
     cc_pending_messages = Map.empty, cc_my_username = [65], cc_counter = Map.empty, cc_rng = 0\<rparr>"

lemma sample_crypto_ok: "crypto_ok sample_cenv"
  by (simp add: crypto_ok_def sample_cenv_def sample_ssl_ok)

lemma sample_client_queue: "mq_inv (cc_mq sample_client)" "mq_abs (cc_mq sample_client) [66] = [[7, 8]]"
  using mq_inv_push [OF mq_inv_ctor, of "[66]" "[7, 8]"] mq_abs_push [OF mq_inv_ctor, of "[66]" "[7, 8]"]
  by (simp_all add: sample_client_def kQueueSize_def)

lemma sample_client_sel [simp]:
  "cc_my_username sample_client = [65]" "counter_of sample_client u = 0" "cc_rng sample_client = 0" "cc_sent sample_client = []"
  "cc_pending_messages sample_client = Map.empty" "cc_es sample_client = sample_alice" "cc_ui sample_client = Some []"
  "ce_ssl sample_cenv = sample_ssl" "ce_rand sample_cenv k = Some (replicate 12 0)"
  "new_raw_public_key sample_ssl t [n] = Some (unat n + 100)"
  by (simp_all add: sample_client_def counter_of_def sample_cenv_def sample_ssl_def)

lemma sample_secret_length [simp]: "length (compute_shared_secret sample_ssl (Some k) pub) = 32"
    "length (compute_shared_secret sample_ssl (es_DH_key sample_alice) pub) = 32"
  by (simp_all add: compute_shared_secret_def sample_ssl_def sample_alice_def)

theorem pubkey_response_flushes_witness:
  "\<exists>c' ct. handle_response sample_cenv (built 0 [3] [[byte_of_CommandType GET_PUBKEY], [66], [4], [9]] Response) sample_client = (Inr (), c') \<and>
    cc_sent c' = [private_frame [65] [66] ct] \<and> counter_of c' [66] = 1 \<and> mq_abs (cc_mq c') [66] = []"
  using pubkey_response_flushes [OF sample_crypto_ok sample_client_queue(1), of "[66]" "[3]" 103 "[4]" 104 "[9]"]
  by (auto simp: sample_client_queue(2) small_names_def sample_secret_length)


section \<open>Receiving private messages\<close>


lemma with_keys_idem [simp]: "with_keys (with_keys es u dk k) u dk k = with_keys es u dk k"
  by (simp add: with_keys_def)

lemma client_cache_key_eval:
  "new_raw_public_key (ce_ssl env) X25519 dh = Some dk \<Longrightarrow> new_raw_public_key (ce_ssl env) ED25519 ik = Some k \<Longrightarrow>
   client_cache_key env u dh ik c = (Inr (), c\<lparr>cc_es := with_keys (cc_es c) u dk k\<rparr>)"
  by (simp add: client_cache_key_def cache_public_key_def DH_from_public_bytes_def identity_from_public_bytes_def with_keys_def)

lemma decrypt_for_with_keys: "snd (decrypt_for ssl (with_keys es u dk k) u r ct sig n) = with_keys es u dk k"
  by (simp add: decrypt_for_def with_keys_def Let_def)

lemma process_message_eval:
  assumes "new_raw_public_key (ce_ssl env) X25519 dh = Some dk" "new_raw_public_key (ce_ssl env) ED25519 ik = Some k" "cc_ui c = Some shown"
  shows "process_encrypted_message env sender r dh ct ik sig c =
    (case fst (decrypt_for (ce_ssl env) (with_keys (cc_es c) sender dk k) sender r ct sig (counter_of c sender)) of
       Inr pt \<Rightarrow> (Inr (), c\<lparr>cc_es := with_keys (cc_es c) sender dk k, cc_counter := (cc_counter c)(sender \<mapsto> counter_of c sender + 1),
                        cc_ui := Some (shown @ [private_prefix @ to_string sender @ '']: '' @ to_string pt])\<rparr>)
     | Inl e \<Rightarrow> (if is_exception e then Inr () else Inl e,
                  c\<lparr>cc_es := with_keys (cc_es c) sender dk k, cc_counter := (cc_counter c)(sender \<mapsto> counter_of c sender)\<rparr>))"
proof -
  let ?es = "with_keys (cc_es c) sender dk k"
  let ?c1 = "c\<lparr>cc_es := ?es, cc_counter := (cc_counter c)(sender \<mapsto> counter_of c sender)\<rparr>"
  have i: "init_counter sender (c\<lparr>cc_es := ?es\<rparr>) = (Inr (), ?c1)"
    by (auto simp: init_counter_def modify_def counter_of_def fun_upd_idem split: option.splits)
  obtain r' where r': "decrypt_for (ce_ssl env) ?es sender r ct sig (counter_of c sender) = (r', ?es)"
    using decrypt_for_with_keys [of "ce_ssl env" "cc_es c" sender dk k r ct sig "counter_of c sender"] by (metis surjective_pairing)
  have d: "client_decrypt_for env sender r ct sig (counter_of ?c1 sender) ?c1 = (r', ?c1)"
    using r' by (simp add: client_decrypt_for_def counter_of_def)
  show ?thesis
    unfolding process_encrypted_message_def try_catch_def
    using client_cache_key_eval [OF assms(1, 2), of sender c] i d r' assms(3)
    by (cases r') (simp_all add: andThen_def ret_def increment_counter_def modify_def ui_callback_def counter_of_def)
qed

text \<open>
  An incoming private message. When the keys it carries can be read and decryption under the sender's
  current counter succeeds, the text is shown once, under the sender's name, and the counter advances by one;
  when decryption fails nothing is shown and the counter keeps its value. Either way the keys that came with the
  message replace the ones stored for that sender.
\<close>

theorem cipher_message_outcome:
  assumes "new_raw_public_key (ce_ssl env) X25519 dh = Some dk" "new_raw_public_key (ce_ssl env) ED25519 ik = Some k" "cc_ui c = Some shown"
  shows "let out = handle_cipher env (built 0 ct [r, sender, dh, ik, sig] CipherMessage) c;
             res = fst (decrypt_for (ce_ssl env) (with_keys (cc_es c) sender dk k) sender r ct sig (counter_of c sender)) in
    cc_es (snd out) = with_keys (cc_es c) sender dk k \<and>
    counter_of (snd out) sender = (case res of Inr _ \<Rightarrow> counter_of c sender + 1 | Inl _ \<Rightarrow> counter_of c sender) \<and>
    cc_ui (snd out) = Some (case res of Inr pt \<Rightarrow> shown @ [private_prefix @ to_string sender @ '']: '' @ to_string pt] | Inl _ \<Rightarrow> shown)"
  using process_message_eval [OF assms, of sender r ct sig] assms(3)
  by (auto simp: handle_cipher_def Let_def counter_of_def split: sum.splits)

definition sample_frame :: bytes where
  "sample_frame = replicate 12 0 @ le64_bytes 0 @ [104, 105] @ replicate 16 9"

lemma sample_alice_reads:
  "fst (decrypt_for sample_ssl (with_keys sample_alice [67] 103 104) [67] [65] sample_frame [4, 3] 0) = Inr [104, 105]"
proof -
  have "aes_decrypt sample_ssl key sample_frame 0 = Inr [104, 105]" for key
    unfolding sample_frame_def by (subst aes_decrypt_frame) (simp_all add: sample_ssl_def)
  then show ?thesis
    by (simp add: decrypt_for_def with_keys_def sample_alice_def DH_public_bytes_def identity_verify_def derive_for_messaging_def
        HKDF_derive_def sample_ssl_sel)
qed

theorem cipher_message_outcome_witness:
  "cc_ui (snd (handle_cipher sample_cenv (built 0 sample_frame [[65], [67], [3], [4], [4, 3]] CipherMessage) sample_client)) =
    Some [private_prefix @ to_string [67] @ '']: '' @ to_string [104, 105]]"
  using cipher_message_outcome [of sample_cenv "[3]" 103 "[4]" 104 sample_client "[]" sample_frame "[65]" "[67]" "[4, 3]"] sample_alice_reads
  by (simp add: Let_def)

section \<open>One counter for both directions\<close>

text \<open>
  C34: messages that cross are lost. The client keeps one counter per partner for sending and receiving. A
  message (of at most \<open>INT_MAX\<close> bytes, as the one sent in between) the partner encrypted under the counter both sides share is shown if it arrives before anything is
  sent to that partner, and is rejected, silently, if one message has been sent to the partner in the meantime.
\<close>

theorem crossing_message_lost:
  assumes "crypto_ok env" "shares_secret (ce_ssl env) (cc_es c) b" "small_names b (cc_my_username c)" "length p \<le> INT_MAX"
    and "new_raw_public_key (ce_ssl env) X25519 dh = Some dk" "new_raw_public_key (ce_ssl env) ED25519 ik = Some k" "cc_ui c = Some shown"
    and "knows (ce_ssl env) partner b (with_keys (cc_es c) b dk k) (cc_my_username c)" "sign (ce_ssl env) partner = Inr sig" "length iv = 12"
    and "encrypt_for (ce_ssl env) (Some iv) partner b (cc_my_username c) q (counter_of c b) = Inr ct" "length q \<le> INT_MAX"
  shows "cc_ui (snd (handle_cipher env (built 0 ct [cc_my_username c, b, dh, ik, sig] CipherMessage) c)) = Some (shown @ [private_prefix @ to_string b @ '']: '' @ to_string q]) \<and>
    fst (send_queued env b p c) = Inr () \<and>
    cc_ui (snd (handle_cipher env (built 0 ct [cc_my_username c, b, dh, ik, sig] CipherMessage) (snd (send_queued env b p c)))) = Some shown"
proof -
  let ?msg = "built 0 ct [cc_my_username c, b, dh, ik, sig] CipherMessage"
  let ?c1 = "snd (send_queued env b p c)"
  have g: "gcm_correct (ce_ssl env)" "hkdf_ok (ce_ssl env)" using assms(1) by (auto simp: crypto_ok_def)
  have dec: "fst (decrypt_for (ce_ssl env) (with_keys (cc_es c) b dk k) b (cc_my_username c) ct sig n) =
      (if counter_of c b = n then Inr q else Inl (RuntimeError ''Replay attack detected or counter mismatch''))" for n
    by (rule end_to_end [OF g assms(10, 8, 9) _ assms(12), of "counter_of c b" n]) (use assms(3, 11) in \<open>simp_all add: small_names_def\<close>)
  have s: "fst (send_queued env b p c) = Inr ()" "cc_es ?c1 = cc_es c" "cc_ui ?c1 = Some shown" "counter_of ?c1 b = counter_of c b + 1"
      "cc_my_username ?c1 = cc_my_username c"
    using send_queued_eval [OF assms(1-4)] assms(7) by (simp_all add: counter_of_def)
  have "cc_ui (snd (handle_cipher env ?msg c)) = Some (shown @ [private_prefix @ to_string b @ '']: '' @ to_string q])"
    using process_message_eval [OF assms(5-7), of b "cc_my_username c" ct sig] dec [of "counter_of c b"]
    by (simp add: handle_cipher_def)
  moreover have "cc_ui (snd (handle_cipher env ?msg ?c1)) = Some shown"
    using process_message_eval [OF assms(5, 6) s(3), of b "cc_my_username c" ct sig] dec [of "counter_of c b + 1"] s
    by (simp add: handle_cipher_def)
  ultimately show ?thesis using s by simp
qed

definition sample_partner :: EncryptionService where
  "sample_partner = \<lparr>es_DH_key = Some 3, es_identity_key = Some 4, es_DH_keys = [[65] \<mapsto> 101], es_identity_keys = Map.empty\<rparr>"

lemma sample_partner_knows: "knows sample_ssl sample_partner [66] (with_keys sample_alice [66] 103 104) [65]"
  by (simp add: knows_def sample_alice_def sample_partner_def with_keys_def x25519_agree_def ed25519_key_def sample_ssl_def)

lemma sample_partner_sign: "sign sample_ssl sample_partner = Inr [4, 3]"
  by (simp add: sign_def DH_public_bytes_def identity_sign_def sample_partner_def sample_ssl_def)

lemma sample_partner_encrypts: "encrypt_for sample_ssl (Some (replicate 12 0)) sample_partner [66] [65] [104, 105] 0 = Inr sample_frame"
  by (simp add: encrypt_for_def sample_partner_def sample_frame_def derive_for_messaging_def HKDF_derive_def aes_encrypt_def sample_ssl_def)

theorem crossing_message_lost_witness:
  "cc_ui (snd (handle_cipher sample_cenv (built 0 sample_frame [[65], [66], [3], [4], [4, 3]] CipherMessage)
    (snd (send_queued sample_cenv [66] [7] sample_client)))) = Some []"
  using crossing_message_lost [OF sample_crypto_ok, of sample_client "[66]" "[7]" "[3]" 103 "[4]" 104 "[]" sample_partner "[4, 3]"
      "replicate 12 0" "[104, 105]" sample_frame] sample_partner_knows sample_partner_sign sample_partner_encrypts
  by (simp add: small_names_def sample_alice_def shares_secret_def)


section \<open>The dispatcher\<close>

definition client_handlers_of :: "CommandRegistry \<Rightarrow> MessageType \<Rightarrow> IClientMessageHandler option" where
  "client_handlers_of reg = [Text \<mapsto> ClientTextHandler, Command \<mapsto> ClientCommandHandler reg, Response \<mapsto> ResponseMessageHandler,
     CipherMessage \<mapsto> CipherMessageHandler, FileStart \<mapsto> ClientFileStartHandler, FileChunk \<mapsto> ClientFileChunkHandler,
     FileEnd \<mapsto> ClientFileEndHandler]"

definition mc_inv :: "MessagingClient \<Rightarrow> bool" where
  "mc_inv mc \<longleftrightarrow> (\<exists>reg. mc_handlers mc = client_handlers_of reg \<and> registry_like client_registry reg)"

lemma client_registry_lookup:
  "client_registry n = (if n \<in> set [''exit'', ''login'', ''room'', ''send'', ''join'', ''getpub'', ''pmess'', ''help'', ''sendfile'']
     then create n else None)"
  unfolding client_registry_def by (rule register_all_lookup) (simp add: create_def)

lemma client_registry_no_connect: "client_registry n = Some c \<Longrightarrow> \<not> is_ConnectCommand c \<and> blank c = c"
  by (auto simp: client_registry_lookup create_def split: if_splits)

lemma mc_inv_ctor: "mc_inv (MessagingClient_ctor ctx)"
proof -
  have "registry_like client_registry client_registry"
    by (rule registry_like_refl) (use client_registry_no_connect in blast)
  moreover have "mc_handlers (MessagingClient_ctor ctx) = client_handlers_of client_registry"
    by (rule ext) (simp add: MessagingClient_ctor_def client_registerHandler_def client_handlers_of_def)
  ultimately show ?thesis by (auto simp: mc_inv_def)
qed

lemma blank_after_client [simp]: "blank (after_client env c r cmd) = blank cmd"
  by (cases cmd) (auto simp: after_client_def split: sum.splits)

text \<open>What the client does with a message, wherever it comes from.\<close>

definition client_serve :: "client_env \<Rightarrow> Message \<Rightarrow> unit client" where
  "client_serve env msg c =
     (if get_type msg = Text then handle_text msg c
      else if get_type msg = Command then
        (case client_registry (pc_name (make_struct_from_command msg)) of
           None \<Rightarrow> (Inr (), c) | Some cmd \<Rightarrow> executeOnClient env (snd (fromMessage cmd msg)) c)
      else if get_type msg = Response then handle_response env msg c
      else if get_type msg = CipherMessage then handle_cipher env msg c
      else if get_type msg = FileStart then handle_file_start msg c
      else if get_type msg = FileChunk then handle_file_chunk env msg c
      else if get_type msg = FileEnd then handle_file_end msg c
      else (Inr (), c))"

lemma client_bus_serve:
  assumes "registry_like client_registry reg" "get_type msg = Command"
  obtains reg' where "client_bus_dispatch env msg (reg, c) = (fst (client_serve env msg c), (reg', snd (client_serve env msg c)))"
    "registry_like client_registry reg'"
proof (cases "find_command reg (pc_name (make_struct_from_command msg))")
  case None
  then have "client_registry (pc_name (make_struct_from_command msg)) = None" using registry_like_None [OF assms(1)] by simp
  with None that [of reg] assms show ?thesis by (simp add: client_bus_dispatch_def client_serve_def)
next
  case (Some cmd)
  let ?n = "pc_name (make_struct_from_command msg)"
  obtain d where d: "client_registry ?n = Some d" "fromMessage cmd msg = fromMessage d msg"
    using registry_like_fromMessage [OF assms(1) Some] client_registry_no_connect by metis
  then have ok: "fst (fromMessage cmd msg) = Inr ()"
    using client_registry_no_connect [OF d(1)] by (cases d) auto
  let ?c' = "after_client env c (fst (executeOnClient env (snd (fromMessage cmd msg)) c)) (snd (fromMessage cmd msg))"
  have "registry_like client_registry (reg(?n \<mapsto> ?c'))" by (rule registry_like_update [OF assms(1) Some]) simp
  moreover have "client_bus_dispatch env msg (reg, c) =
      (fst (client_serve env msg c), (reg(?n \<mapsto> ?c'), snd (client_serve env msg c)))"
    using Some d ok assms(2) by (cases "fromMessage d msg") (simp add: client_bus_dispatch_def client_serve_def Let_def split_def)
  ultimately show ?thesis using that by blast
qed

lemma handleOutgoing_serve:
  assumes "registry_like client_registry reg" "client_handlers_of reg (get_type msg) = Some h"
  obtains h' reg' where "handleOutgoing env msg (h, c) = (fst (client_serve env msg c), h', snd (client_serve env msg c))"
    "(client_handlers_of reg)(get_type msg \<mapsto> h') = client_handlers_of reg'" "registry_like client_registry reg'"
proof (cases "get_type msg = Command")
  case True
  with assms(2) have h: "h = ClientCommandHandler reg" by (simp add: client_handlers_of_def)
  obtain reg' where r: "client_bus_dispatch env msg (reg, c) = (fst (client_serve env msg c), (reg', snd (client_serve env msg c)))"
    "registry_like client_registry reg'" by (rule client_bus_serve [OF assms(1) True])
  show ?thesis
    by (rule that [of "ClientCommandHandler reg'" reg']) (use r True h in \<open>auto simp: client_handlers_of_def\<close>)
next
  case False
  then have "handleOutgoing env msg (h, c) = (fst (client_serve env msg c), h, snd (client_serve env msg c))"
    using assms(2) by (auto simp: client_handlers_of_def client_serve_def split: if_splits prod.splits)
  moreover have "(client_handlers_of reg)(get_type msg \<mapsto> h) = client_handlers_of reg"
    using assms(2) by (rule fun_upd_idem)
  ultimately show ?thesis using that assms(1) by blast
qed

text \<open>Exceptions of a handler end in the dispatcher; undefined behaviour does not.\<close>

lemma client_dispatch_serve:
  assumes "mc_inv mc"
  obtains r mc' where "client_dispatch env msg mc = (r, mc')" "mc_inv mc'" "mc_context mc' = snd (client_serve env msg (mc_context mc))"
    "\<And>e. r = Inl e \<longleftrightarrow> fst (client_serve env msg (mc_context mc)) = Inl e \<and> \<not> is_exception e"
proof -
  obtain reg where reg: "mc_handlers mc = client_handlers_of reg" "registry_like client_registry reg"
    using assms by (auto simp: mc_inv_def)
  show ?thesis
  proof (cases "client_handlers_of reg (get_type msg)")
    case None
    then have "client_serve env msg (mc_context mc) = (Inr (), mc_context mc)"
      by (auto simp: client_handlers_of_def client_serve_def split: if_splits)
    with None reg assms that [of "Inr False" mc] show ?thesis by (simp add: client_dispatch_def)
  next
    case (Some h)
    let ?c = "mc_context mc"
    obtain h' reg' where h: "handleOutgoing env msg (h, ?c) = (fst (client_serve env msg ?c), h', snd (client_serve env msg ?c))"
        "(client_handlers_of reg)(get_type msg \<mapsto> h') = client_handlers_of reg'" "registry_like client_registry reg'"
      by (rule handleOutgoing_serve [OF reg(2) Some])
    let ?mc = "mc\<lparr>mc_handlers := (mc_handlers mc)(get_type msg \<mapsto> h'), mc_context := snd (client_serve env msg ?c)\<rparr>"
    let ?r = "case fst (client_serve env msg ?c) of Inl e \<Rightarrow> if is_exception e then Inr False else Inl e | Inr _ \<Rightarrow> Inr True"
    have "mc_inv ?mc" using reg h by (auto simp: mc_inv_def)
    moreover have "client_dispatch env msg mc = (?r, ?mc)"
      using Some reg h
      by (cases "fst (client_serve env msg ?c)") (auto simp: client_dispatch_def try_catch_def client_handle_with_def ret_def)
    ultimately show ?thesis by (intro that [of ?r ?mc]) (auto split: sum.splits if_splits)
  qed
qed

lemma client_receives:
  assumes "mc_inv mc" "deserialize raw = Inr msg"
  obtains r mc' where "client_on_tcp_data_received env raw mc = (r, mc')" "mc_inv mc'" "mc_context mc' = snd (client_serve env msg (mc_context mc))"
    "\<And>e. r = Inl e \<longleftrightarrow> fst (client_serve env msg (mc_context mc)) = Inl e \<and> \<not> is_exception e"
proof -
  obtain r mc' where d: "client_dispatch env msg mc = (r, mc')" "mc_inv mc'" "mc_context mc' = snd (client_serve env msg (mc_context mc))"
    "\<And>e. r = Inl e \<longleftrightarrow> fst (client_serve env msg (mc_context mc)) = Inl e \<and> \<not> is_exception e"
    by (rule client_dispatch_serve [OF assms(1), of env msg]) blast
  show ?thesis
  proof (rule that [of "bindr r (\<lambda>_. Inr ())" mc'])
    show "client_on_tcp_data_received env raw mc = (bindr r (\<lambda>_. Inr ()), mc')"
      using d(1) assms(2) by (cases r) (simp_all add: client_on_tcp_data_received_def action_simps andThen_def)
    show "bindr r (\<lambda>_. Inr ()) = Inl e \<longleftrightarrow> fst (client_serve env msg (mc_context mc)) = Inl e \<and> \<not> is_exception e" for e
      using d(4) [of e] by (cases r) auto
  qed (use d in simp_all)
qed

lemma fromMessage_cong:
  "msg_metadata m = msg_metadata m' \<Longrightarrow> msg_payload m = msg_payload m' \<Longrightarrow> fromMessage cmd m = fromMessage cmd m'"
proof -
  assume "msg_metadata m = msg_metadata m'" "msg_payload m = msg_payload m'"
  then have "get_meta m i = get_meta m' i" "get_payload m = get_payload m'" for i by (simp_all add: get_meta_def get_payload_def)
  then show ?thesis by (cases cmd) (simp_all add: connect_fromMessage_def Let_def split: sum.split)
qed

text \<open>The dispatcher looks only at the type, the metadata and the payload of a message.\<close>

lemma client_dispatch_cong:
  assumes "get_type m = get_type m'" "msg_metadata m = msg_metadata m'" "msg_payload m = msg_payload m'"
  shows "client_dispatch env m = client_dispatch env m'"
proof -
  have meta: "get_meta m = get_meta m'" "get_payload m = get_payload m'" "meta_count m = meta_count m'"
    using assms(2, 3) by (simp_all add: fun_eq_iff get_meta_def get_payload_def meta_count_def)
  have name: "make_struct_from_command m = make_struct_from_command m'"
    by (simp add: make_struct_from_command_def meta Let_def)
  have "client_bus_dispatch env m = client_bus_dispatch env m'"
    by (simp add: fun_eq_iff client_bus_dispatch_def name fromMessage_cong [OF assms(2, 3)] Let_def split: option.split)
  moreover have "file_key m = file_key m'" by (simp add: file_key_def meta)
  ultimately have "handleOutgoing env m (h, c) = handleOutgoing env m' (h, c)" for h c
    by (cases h) (simp_all add: meta handle_text_def handle_response_def handle_get_pubkey_response_def handle_cipher_def handle_file_start_def
        handle_file_chunk_def handle_file_end_def cong: if_cong)
  then show ?thesis
    by (simp add: fun_eq_iff client_dispatch_def client_handle_with_def assms(1) try_catch_def split: option.split)
qed

text \<open>
  C35: the client runs commands it receives. Incoming frames go through the same dispatcher as typed lines: whatever command line the user could type whose message the compact format can carry, if the
  server sends the frame of that command instead, the client does exactly what it does on the typed line, with the same result and the same
  state afterwards, files it reads and sends and messages it queues included.
\<close>

theorem received_command_runs:
  assumes "line \<noteq> []" "hd line = CHR ''/''" "parse (ce_now env) line = Inr msg" "fits (msg_metadata msg) (msg_payload msg)"
  shows "client_on_tcp_data_received env (serialize msg) mc = get_data env line mc"
proof -
  have "make_command_from_struct (ce_now env) (parse_line line) = Inr msg" using assms(1-3) by (simp add: parse_def)
  note made = made_command [OF this]
  let ?ms = "[command_type_byte (pc_name (parse_line line))] # pc_args (parse_line line)" and ?p = "last_arg (pc_args (parse_line line))"
  have f: "fits ?ms ?p" using assms(4) made by simp
  then have msg: "msg = built (ce_now env) ?p ?ms Command"
    using make_command_built [OF f, of "ce_now env"] \<open>make_command_from_struct (ce_now env) (parse_line line) = Inr msg\<close> by simp
  then have "deserialize (serialize msg) = Inr (built 0 ?p ?ms Command)"
    using deserialize_built_exact [OF f, of Command "ce_now env"] by simp
  moreover have "client_dispatch env (built 0 ?p ?ms Command) = client_dispatch env msg"
    unfolding msg by (rule client_dispatch_cong) (simp_all add: built_def get_type_def)
  ultimately show ?thesis using assms(3) by (simp add: client_on_tcp_data_received_def get_data_def action_simps)
qed

lemma received_send_file:
  assumes "mc_inv mc" "fits [[byte_of_CommandType SEND_FILE], recipient, to_bytes filename] p"
  shows "mc_context (snd (client_on_tcp_data_received env
      (serialize (built 0 p [[byte_of_CommandType SEND_FILE], recipient, to_bytes filename] Command)) mc)) =
    snd (send_file env filename recipient (mc_context mc))"
proof -
  let ?msg = "built 0 p [[byte_of_CommandType SEND_FILE], recipient, to_bytes filename] Command"
  have d: "deserialize (serialize ?msg) = Inr ?msg" by (rule deserialize_built_exact [OF assms(2)]) simp
  have n: "pc_name (make_struct_from_command ?msg) = ''sendfile''"
    by (simp add: make_struct_from_command_def CommandType_of_byte_def command_names_map_def)
  have "client_serve env ?msg (mc_context mc) = send_file env filename recipient (mc_context mc)"
    using n by (simp add: client_serve_def client_registry_lookup create_def)
  then show ?thesis by (rule_tac client_receives [OF assms(1) d, of env]) simp
qed

definition sample_secret :: ClientContext where
  "sample_secret = sample_client\<lparr>cc_fs := \<lparr>fs_files = [''key'' \<mapsto> []], fs_writable = (\<lambda>_. True)\<rparr>\<rparr>"

theorem received_command_runs_witness:
  "length (cc_sent (mc_context (snd (client_on_tcp_data_received sample_cenv
      (serialize (built 0 (to_bytes ''key'') [[byte_of_CommandType SEND_FILE], [66], to_bytes ''key''] Command)) (MessagingClient_ctor sample_secret))))) = 2 \<and>
   length (cc_sent (mc_context (snd (get_data sample_cenv ''/sendfile B key'' (MessagingClient_ctor sample_secret))))) = 2"
proof -
  let ?ms = "[[byte_of_CommandType SEND_FILE], [66], to_bytes ''key'']" and ?mc = "MessagingClient_ctor sample_secret"
  have b: "to_bytes ''B'' = [66]" by (simp add: to_bytes_def byte_of_char_def)
  have f: "fits ?ms (to_bytes ''key'')" by (simp add: fits_def)
  have l: "parse_line ''/sendfile B key'' = \<lparr>pc_name = ''sendfile'', pc_args = [[66], to_bytes ''key'']\<rparr>"
    using parse_line_catalogue [of "''sendfile''" 2 False "[''B'', ''key'']"] b by (simp add: command_arity_def plain_def)
  then have p: "parse (ce_now sample_cenv) ''/sendfile B key'' = Inr (built 0 (to_bytes ''key'') ?ms Command)"
    using make_command_built [of "parse_line ''/sendfile B key''" "ce_now sample_cenv"] f
    by (simp add: parse_def command_type_byte_def command_types_map_def last_arg_def sample_cenv_def)
  have c: "mc_context ?mc = sample_secret" by (simp add: MessagingClient_ctor_def client_registerHandler_def)
  have s: "cc_es sample_secret = sample_alice" "cc_sent sample_secret = []" "fs_files (cc_fs sample_secret) ''key'' = Some []"
    by (simp_all add: sample_secret_def)
  have "fits [[66], to_bytes ''key'', le64_bytes 0, [1], [2], [2, 1]] []" "fits [[66], to_bytes ''key''] []"
    by (simp_all add: fits_def)
  moreover have "get_DH_bytes sample_ssl sample_alice = Inr [1]" "get_identity_bytes sample_ssl sample_alice = Inr [2]"
    by (simp_all add: get_DH_bytes_def get_identity_bytes_def DH_public_bytes_def identity_public_bytes_def sample_alice_def sample_ssl_sel)
  ultimately have "length (cc_sent (snd (send_file sample_cenv ''key'' [66] sample_secret))) = 2"
    using s sample_sign
    by (simp add: send_file_def send_chunks.simps action_simps andThen_def send_message_fits send_message_built ret_def lift_def Let_def)
  moreover have "client_on_tcp_data_received sample_cenv (serialize (built 0 (to_bytes ''key'') ?ms Command)) ?mc = get_data sample_cenv ''/sendfile B key'' ?mc"
    by (rule received_command_runs [OF _ _ p]) (use f in \<open>simp_all add: built_def\<close>)
  ultimately show ?thesis using received_send_file [OF mc_inv_ctor f, of sample_cenv sample_secret] c by simp
qed

text \<open>
  A malformed file announcement is undefined behaviour. The size field of a file-start message is read as
  eight bytes without a check: a frame whose third metadata entry is shorter, which anyone can have relayed, makes
  the client read past the end of the vector, and no exception handler stops it.
\<close>

theorem file_start_short_size:
  assumes "mc_inv mc" "fits [r, f, sz] p" "length sz < 8"
  shows "\<exists>what. fst (client_on_tcp_data_received env (serialize (built 0 p [r, f, sz] FileStart)) mc) = Inl (Undefined what)"
proof -
  have d: "deserialize (serialize (built 0 p [r, f, sz] FileStart)) = Inr (built 0 p [r, f, sz] FileStart)"
    by (rule deserialize_built_exact [OF assms(2)]) simp
  have "fst (client_serve env (built 0 p [r, f, sz] FileStart) (mc_context mc)) = Inl (Undefined ''vector index out of range'')"
    using assms(3) by (simp add: client_serve_def handle_file_start_def from_bytes_def action_simps)
  moreover obtain res mc' where "client_on_tcp_data_received env (serialize (built 0 p [r, f, sz] FileStart)) mc = (res, mc')"
      "mc_inv mc'" "mc_context mc' = snd (client_serve env (built 0 p [r, f, sz] FileStart) (mc_context mc))"
      "\<And>e. res = Inl e \<longleftrightarrow> fst (client_serve env (built 0 p [r, f, sz] FileStart) (mc_context mc)) = Inl e \<and> \<not> is_exception e"
    by (rule client_receives [OF assms(1) d, of env]) blast
  ultimately show ?thesis by simp
qed

theorem file_start_short_size_witness:
  "\<exists>what. fst (client_on_tcp_data_received sample_cenv (serialize (built 0 [] [[65], [102], []] FileStart))
    (MessagingClient_ctor sample_client)) = Inl (Undefined what)"
  by (rule file_start_short_size [OF mc_inv_ctor]) (simp_all add: fits_def)


section \<open>Files\<close>

function file_chunks :: "bytes \<Rightarrow> bytes list" where
  "file_chunks data = (if data = [] then [] else take kChunk data # file_chunks (drop kChunk data))"
  by pat_completeness auto
termination
  by (relation "measure length") (auto simp: kChunk_def)

declare file_chunks.simps [simp del]

lemma concat_file_chunks: "concat (file_chunks data) = data"
  by (induction data rule: file_chunks.induct) (simp add: file_chunks.simps)

lemma file_chunks_small: "p \<in> set (file_chunks data) \<Longrightarrow> p \<noteq> [] \<and> length p \<le> kChunk"
proof (induction data rule: file_chunks.induct)
  case (1 data)
  then show ?case by (cases "data = []") (auto simp: file_chunks.simps [of data] file_chunks.simps [of "[]"] kChunk_def)
qed

text \<open>The frame of one encrypted chunk.\<close>

definition chunk_frame :: "bytes \<Rightarrow> bytes \<Rightarrow> bytes \<Rightarrow> bytes \<Rightarrow> bytes \<Rightarrow> bytes \<Rightarrow> bytes \<Rightarrow> bytes" where
  "chunk_frame r f my dh ik sig ct = serialize (built 0 ct [r, f, my, dh, ik, sig] FileChunk)"

definition small_metas :: "bytes list \<Rightarrow> bool" where
  "small_metas ms \<longleftrightarrow> length ms < 128 \<and> list_all (\<lambda>m. length m < 65536) ms"

lemma sum_list_bound: "list_all (\<lambda>m. length m < 65536) ms \<Longrightarrow> (\<Sum>m\<leftarrow>ms. 2 + length m) \<le> length ms * 65537"
  by (induction ms) auto

lemma small_metas_fits:
  assumes "small_metas ms" "length p \<le> 4000000000"
  shows "fits ms p"
proof -
  have "(\<Sum>m\<leftarrow>ms. 2 + length m) \<le> length ms * 65537" using assms(1) sum_list_bound by (auto simp: small_metas_def)
  also have "\<dots> \<le> 127 * 65537" using assms(1) by (intro mult_le_mono1) (simp add: small_metas_def)
  finally show ?thesis using assms by (simp add: fits_def small_metas_def list_all_iff)
qed

text \<open>What a client needs to send files: its own keys can be read.\<close>

definition own_keys :: "client_env \<Rightarrow> ClientContext \<Rightarrow> bytes \<Rightarrow> bytes \<Rightarrow> bytes \<Rightarrow> bool" where
  "own_keys env c dh ik sig \<longleftrightarrow> get_DH_bytes (ce_ssl env) (cc_es c) = Inr dh \<and> get_identity_bytes (ce_ssl env) (cc_es c) = Inr ik \<and>
     sign (ce_ssl env) (cc_es c) = Inr sig"

lemma send_chunk_eval:
  assumes "crypto_ok env" "shares_secret (ce_ssl env) (cc_es c) r" "own_keys env c dh ik sig"
    and "small_metas [r, f, cc_my_username c, dh, ik, sig]" "length p \<le> kChunk"
  shows "send_chunk env r f p c = (Inr (), c\<lparr>cc_sent := cc_sent c @
      [chunk_frame r f (cc_my_username c) dh ik sig
        (projr (encrypt_for (ce_ssl env) (ce_rand env (cc_rng c)) (cc_es c) (cc_my_username c) r p (counter_of c r)))],
      cc_counter := (cc_counter c)(r \<mapsto> counter_of c r + 1), cc_rng := cc_rng c + 1\<rparr>)"
proof -
  obtain ct where ct: "encrypt_for (ce_ssl env) (ce_rand env (cc_rng c)) (cc_es c) (cc_my_username c) r p (counter_of c r) = Inr ct"
      "length ct = 36 + length p"
    using encrypt_for_known [OF assms(1, 2), of "cc_my_username c" p] assms(4, 5) by (auto simp: small_metas_def kChunk_def)
  define c1 where "c1 = snd (init_counter r c)"
  have c1: "init_counter r c = (Inr (), c1)" "counter_of c1 r = counter_of c r" "cc_es c1 = cc_es c"
      "cc_my_username c1 = cc_my_username c" "cc_rng c1 = cc_rng c"
      "c1\<lparr>cc_rng := k, cc_counter := (cc_counter c1)(r \<mapsto> n), cc_sent := x\<rparr> =
       c\<lparr>cc_rng := k, cc_counter := (cc_counter c)(r \<mapsto> n), cc_sent := x\<rparr>" "cc_sent c1 = cc_sent c" for k x n
    by (auto simp: c1_def init_counter_def modify_def counter_of_def)
  have fit: "fits [r, f, cc_my_username c, dh, ik, sig] ct"
    by (rule small_metas_fits [OF assms(4)]) (use ct(2) assms(5) in \<open>simp add: kChunk_def\<close>)
  show ?thesis
    using ct(1) c1 assms(3) send_message_fits [OF fit]
    by (simp add: send_chunk_def andThen_def client_encrypt_for_def increment_counter_def modify_def own_keys_def lift_def chunk_frame_def)
qed

lemma send_chunks_eval:
  assumes "crypto_ok env" "shares_secret (ce_ssl env) (cc_es c) r" "own_keys env c dh ik sig"
    and "small_metas [r, f, cc_my_username c, dh, ik, sig]"
  shows "send_chunks env r f data c = (Inr (), c\<lparr>cc_sent := cc_sent c @
      map (chunk_frame r f (cc_my_username c) dh ik sig)
        (ciphertexts env (cc_es c) (cc_my_username c) r (counter_of c r) (cc_rng c) (file_chunks data)),
      cc_counter := (if data = [] then cc_counter c else (cc_counter c)(r \<mapsto> counter_of c r + word_of_nat (length (file_chunks data)))),
      cc_rng := cc_rng c + length (file_chunks data)\<rparr>)"
  using assms
proof (induction data arbitrary: c rule: file_chunks.induct)
  case (1 data)
  show ?case
  proof (cases "data = []")
    case True
    then show ?thesis by (simp add: send_chunks.simps file_chunks.simps action_simps)
  next
    case False
    define c1 where "c1 = snd (send_chunk env r f (take kChunk data) c)"
    have e: "send_chunk env r f (take kChunk data) c = (Inr (), c1)" and c1: "cc_es c1 = cc_es c" "cc_my_username c1 = cc_my_username c"
        "counter_of c1 r = counter_of c r + 1" "cc_rng c1 = cc_rng c + 1" "cc_counter c1 = (cc_counter c)(r \<mapsto> counter_of c r + 1)"
        "cc_sent c1 = cc_sent c @ [chunk_frame r f (cc_my_username c) dh ik sig
          (projr (encrypt_for (ce_ssl env) (ce_rand env (cc_rng c)) (cc_es c) (cc_my_username c) r (take kChunk data) (counter_of c r)))]"
        "c1\<lparr>cc_sent := x, cc_counter := y, cc_rng := z\<rparr> = c\<lparr>cc_sent := x, cc_counter := y, cc_rng := z\<rparr>" for x y z
      using send_chunk_eval [OF "1.prems", of "take kChunk data"] unfolding c1_def by (simp_all add: counter_of_def)
    have "own_keys env c1 dh ik sig" using "1.prems"(3) c1(1) by (simp add: own_keys_def)
    then have ih: "send_chunks env r f (drop kChunk data) c1 = (Inr (), c1\<lparr>cc_sent := cc_sent c1 @
      map (chunk_frame r f (cc_my_username c) dh ik sig)
        (ciphertexts env (cc_es c) (cc_my_username c) r (counter_of c r + 1) (cc_rng c + 1) (file_chunks (drop kChunk data))),
      cc_counter := (if drop kChunk data = [] then cc_counter c1
        else (cc_counter c1)(r \<mapsto> counter_of c r + 1 + word_of_nat (length (file_chunks (drop kChunk data))))),
      cc_rng := cc_rng c + 1 + length (file_chunks (drop kChunk data))\<rparr>)"
      using "1.IH" [OF False, of c1] "1.prems" c1(1-4) by simp
    have ctr: "(if drop kChunk data = [] then cc_counter c1
        else (cc_counter c1)(r \<mapsto> counter_of c r + 1 + word_of_nat (length (file_chunks (drop kChunk data))))) =
      (cc_counter c)(r \<mapsto> counter_of c r + word_of_nat (length (file_chunks data)))"
      using False by (simp add: c1(5) file_chunks.simps [of data] file_chunks.simps [of "[]"] add.assoc)
    have "send_chunks env r f data c = send_chunks env r f (drop kChunk data) c1"
      using False e by (simp add: send_chunks.simps [of env r f data] andThen_def)
    also have "\<dots> = (Inr (), c\<lparr>cc_sent := cc_sent c1 @
      map (chunk_frame r f (cc_my_username c) dh ik sig)
        (ciphertexts env (cc_es c) (cc_my_username c) r (counter_of c r + 1) (cc_rng c + 1) (file_chunks (drop kChunk data))),
      cc_counter := (cc_counter c)(r \<mapsto> counter_of c r + word_of_nat (length (file_chunks data))),
      cc_rng := cc_rng c + 1 + length (file_chunks (drop kChunk data))\<rparr>)"
      unfolding ih ctr c1(7) ..
    finally show ?thesis using False by (simp add: c1(6) file_chunks.simps [of data], simp add: fun_upd_def)
  qed
qed

lemma send_file_eval:
  assumes "crypto_ok env" "shares_secret (ce_ssl env) (cc_es c) r" "own_keys env c dh ik sig" "fs_files (cc_fs c) name = Some data"
    and "small_metas [r, to_bytes name, cc_my_username c, dh, ik, sig]"
  obtains c' where "send_file env name r c = (Inr (), c')"
    "cc_sent c' = cc_sent c @ [serialize (built 0 [] [r, to_bytes name, le64_bytes (word_of_nat (length data)), dh, ik, sig] FileStart)] @
      map (chunk_frame r (to_bytes name) (cc_my_username c) dh ik sig)
        (ciphertexts env (cc_es c) (cc_my_username c) r (counter_of c r) (cc_rng c) (file_chunks data)) @
      [serialize (built 0 [] [r, to_bytes name] FileEnd)]"
    "counter_of c' r = counter_of c r + word_of_nat (length (file_chunks data))"
proof -
  let ?start = "serialize (built 0 [] [r, to_bytes name, le64_bytes (word_of_nat (length data)), dh, ik, sig] FileStart)"
  define c1 where "c1 = c\<lparr>cc_sent := cc_sent c @ [?start]\<rparr>"
  have f: "fits [r, to_bytes name, le64_bytes (word_of_nat (length data)), dh, ik, sig] []" "fits [r, to_bytes name] []"
    by (rule small_metas_fits, use assms(5) in \<open>simp_all add: small_metas_def\<close>)+
  have c1: "crypto_ok env" "shares_secret (ce_ssl env) (cc_es c1) r" "own_keys env c1 dh ik sig"
      "small_metas [r, to_bytes name, cc_my_username c1, dh, ik, sig]" using assms by (simp_all add: c1_def own_keys_def)
  have "send_file env name r c = andThen (send_chunks env r (to_bytes name) data)
      (\<lambda>_. send_message (Message_ctor (ce_now env) [] [r, to_bytes name] FileEnd)) c1"
    using assms(3, 4) send_message_fits [OF f(1)]
    by (simp add: send_file_def own_keys_def action_simps andThen_def Let_def c1_def)
  also have "\<dots> = send_message (Message_ctor (ce_now env) [] [r, to_bytes name] FileEnd)
      (snd (send_chunks env r (to_bytes name) data c1))"
    using send_chunks_eval [OF c1, of data] by (simp add: andThen_def)
  also note send_message_fits [OF f(2)]
  finally show ?thesis
    by (rule that) (simp_all add: send_chunks_eval [OF c1, of data], simp_all add: c1_def counter_of_def file_chunks.simps [of "[]"])
qed

text \<open>
  Sending a file. A client that knows the recipient's key and can read its own keys sends a file-start
  message with the size of the file, then the file cut into pieces of 16 KB, each encrypted under the next counter and
  sent in order, then a file-end message; the pieces put together are the file, and the recipient's counter has
  advanced by their number.
\<close>

theorem send_file_frames:
  assumes "crypto_ok env" "shares_secret (ce_ssl env) (cc_es c) r" "own_keys env c dh ik sig" "fs_files (cc_fs c) name = Some data"
    and "small_metas [r, to_bytes name, cc_my_username c, dh, ik, sig]"
  shows "\<exists>c' pieces. send_file env name r c = (Inr (), c') \<and> concat pieces = data \<and>
    list_all (\<lambda>p. p \<noteq> [] \<and> length p \<le> 16384) pieces \<and>
    cc_sent c' = cc_sent c @ [serialize (built 0 [] [r, to_bytes name, le64_bytes (word_of_nat (length data)), dh, ik, sig] FileStart)] @
      map (chunk_frame r (to_bytes name) (cc_my_username c) dh ik sig)
        (ciphertexts env (cc_es c) (cc_my_username c) r (counter_of c r) (cc_rng c) pieces) @
      [serialize (built 0 [] [r, to_bytes name] FileEnd)] \<and>
    counter_of c' r = counter_of c r + word_of_nat (length pieces)"
proof -
  have small: "list_all (\<lambda>p. p \<noteq> [] \<and> length p \<le> 16384) (file_chunks data)"
    using file_chunks_small [of _ data] by (auto simp: list_all_iff kChunk_def)
  show ?thesis by (rule send_file_eval [OF assms]) (use small concat_file_chunks [of data] in blast)
qed

definition sample_sender :: ClientContext where
  "sample_sender = sample_client\<lparr>cc_fs := \<lparr>fs_files = [''key'' \<mapsto> [5, 6]], fs_writable = (\<lambda>_. True)\<rparr>\<rparr>"

theorem send_file_frames_witness:
  "\<exists>c'. send_file sample_cenv ''key'' [66] sample_sender = (Inr (), c') \<and> length (cc_sent c') \<ge> 2"
proof -
  have k: "shares_secret (ce_ssl sample_cenv) (cc_es sample_sender) [66]" "fs_files (cc_fs sample_sender) ''key'' = Some [5, 6]"
    by (simp_all add: sample_sender_def sample_alice_def shares_secret_def)
  have o: "own_keys sample_cenv sample_sender [1] [2] [2, 1]"
    using sample_sign by (simp add: own_keys_def sample_sender_def get_DH_bytes_def get_identity_bytes_def DH_public_bytes_def
      identity_public_bytes_def sample_alice_def sample_ssl_sel)
  have "small_metas [[66], to_bytes ''key'', cc_my_username sample_sender, [1], [2], [2, 1]]"
    by (simp add: small_metas_def sample_sender_def)
  from send_file_frames [OF sample_crypto_ok k(1) o k(2) this] show ?thesis by fastforce
qed

text \<open>One chunk at the receiver.\<close>

definition file_content :: "ClientContext \<Rightarrow> string \<Rightarrow> bytes" where
  "file_content c path = (case fs_files (cc_fs c) path of None \<Rightarrow> [] | Some d \<Rightarrow> d)"

lemma handle_file_chunk_eval:
  assumes "gcm_correct (ce_ssl env)" "hkdf_ok (ce_ssl env)" "length iv = 12"
    and "new_raw_public_key (ce_ssl env) X25519 dh = Some dk" "new_raw_public_key (ce_ssl env) ED25519 ik = Some k"
    and "knows (ce_ssl env) sender s (with_keys (cc_es c) s dk k) r" "sign (ce_ssl env) sender = Inr sig"
    and "encrypt_for (ce_ssl env) (Some iv) sender s r p m = Inr ct" "length s + length r \<le> INT_MAX" "length p \<le> INT_MAX"
    and "to_string r @ '' '' @ to_string f \<in> cc_pending_files c"
  shows "let path = to_string r @ '' '' @ to_string f; c1 = c\<lparr>cc_es := with_keys (cc_es c) s dk k, cc_counter := (cc_counter c)(r \<mapsto> counter_of c r)\<rparr> in
    handle_file_chunk env (built 0 ct [r, f, s, dh, ik, sig] FileChunk) c =
      (if counter_of c r = m then append_file path p c1
       else (Inl (RuntimeError ''Replay attack detected or counter mismatch''), c1))"
proof -
  let ?es = "with_keys (cc_es c) s dk k"
  let ?c0 = "c\<lparr>cc_counter := (cc_counter c)(r \<mapsto> counter_of c r)\<rparr>"
  let ?c1 = "c\<lparr>cc_es := ?es, cc_counter := (cc_counter c)(r \<mapsto> counter_of c r)\<rparr>"
  have i: "init_counter r c = (Inr (), ?c0)"
    by (auto simp: init_counter_def modify_def counter_of_def fun_upd_idem split: option.splits)
  have dec: "fst (decrypt_for (ce_ssl env) ?es s r ct sig n) =
      (if m = n then Inr p else Inl (RuntimeError ''Replay attack detected or counter mismatch''))" for n
    by (rule end_to_end [OF assms(1-3, 6, 7, 9, 10), of m n]) (use assms(8) in simp)
  have "decrypt_for (ce_ssl env) ?es s r ct sig (counter_of c r) =
      (if m = counter_of c r then Inr p else Inl (RuntimeError ''Replay attack detected or counter mismatch''), ?es)"
    by (rule prod_eqI) (use dec [of "counter_of c r"] in \<open>simp_all add: decrypt_for_with_keys\<close>)
  then have d: "client_decrypt_for env s r ct sig (counter_of c r) ?c1 =
      (if m = counter_of c r then Inr p else Inl (RuntimeError ''Replay attack detected or counter mismatch''), ?c1)"
    by (simp add: client_decrypt_for_def)
  define c1 where "c1 = ?c1"
  have k: "client_cache_key env s dh ik ?c0 = (Inr (), c1)"
    using client_cache_key_eval [OF assms(4, 5), of s ?c0] by (simp add: c1_def)
  have n: "counter_of c1 r = counter_of c r" by (simp add: c1_def counter_of_def)
  have "handle_file_chunk env (built 0 ct [r, f, s, dh, ik, sig] FileChunk) c =
      (if counter_of c r = m then append_file (to_string r @ '' '' @ to_string f) p c1
       else (Inl (RuntimeError ''Replay attack detected or counter mismatch''), c1))"
    using i d [folded c1_def] k n assms(11) by (simp add: handle_file_chunk_def file_key_def andThen_def)
  then show ?thesis by (simp add: Let_def c1_def)
qed

text \<open>
  Only the first piece of a received file is written. The receiver decrypts every piece under its counter of
  the recipient, its own name, and never advances it: the first piece, encrypted under that counter, is appended to the
  file, and the second, which the sender encrypted under the next counter, is rejected as a replay and leaves the file
  as it was.
\<close>

theorem second_chunk_rejected:
  assumes "gcm_correct (ce_ssl env)" "hkdf_ok (ce_ssl env)" "length iv = 12" "length iv' = 12"
    and "new_raw_public_key (ce_ssl env) X25519 dh = Some dk" "new_raw_public_key (ce_ssl env) ED25519 ik = Some k"
    and "knows (ce_ssl env) sender s (with_keys (cc_es c) s dk k) r" "sign (ce_ssl env) sender = Inr sig"
    and "encrypt_for (ce_ssl env) (Some iv) sender s r p (counter_of c r) = Inr ct"
    and "encrypt_for (ce_ssl env) (Some iv') sender s r p' (counter_of c r + 1) = Inr ct'"
    and "length s + length r \<le> INT_MAX" "length p \<le> INT_MAX" "length p' \<le> INT_MAX"
    and "to_string r @ '' '' @ to_string f \<in> cc_pending_files c"
  shows "let path = to_string r @ '' '' @ to_string f;
      (res1, c1) = handle_file_chunk env (built 0 ct [r, f, s, dh, ik, sig] FileChunk) c;
      (res2, c2) = handle_file_chunk env (built 0 ct' [r, f, s, dh, ik, sig] FileChunk) c1 in
    res1 = Inr () \<and> file_content c1 path = file_content c path @ p \<and>
    res2 = Inl (RuntimeError ''Replay attack detected or counter mismatch'') \<and> file_content c2 path = file_content c path @ p"
proof -
  let ?path = "to_string r @ '' '' @ to_string f"
  define c1 where "c1 = snd (append_file ?path p (c\<lparr>cc_es := with_keys (cc_es c) s dk k, cc_counter := (cc_counter c)(r \<mapsto> counter_of c r)\<rparr>))"
  have 1: "handle_file_chunk env (built 0 ct [r, f, s, dh, ik, sig] FileChunk) c = (Inr (), c1)"
    using handle_file_chunk_eval [OF assms(1-3, 5-9, 11, 12, 14)] by (simp add: Let_def c1_def append_file_def modify_def)
  have c1: "counter_of c1 r = counter_of c r" "with_keys (cc_es c1) s dk k = with_keys (cc_es c) s dk k" "?path \<in> cc_pending_files c1"
      "file_content c1 ?path = file_content c ?path @ p"
    using assms(14) by (simp_all add: c1_def append_file_def modify_def counter_of_def file_content_def)
  have k1: "knows (ce_ssl env) sender s (with_keys (cc_es c1) s dk k) r" using assms(7) c1(2) by simp
  have "counter_of c r \<noteq> counter_of c r + 1" by simp
  then have 2: "handle_file_chunk env (built 0 ct' [r, f, s, dh, ik, sig] FileChunk) c1 =
      (Inl (RuntimeError ''Replay attack detected or counter mismatch''),
       c1\<lparr>cc_es := with_keys (cc_es c1) s dk k, cc_counter := (cc_counter c1)(r \<mapsto> counter_of c1 r)\<rparr>)"
    using handle_file_chunk_eval [OF assms(1, 2, 4-6) k1 assms(8, 10, 11, 13) c1(3)] c1(1) by (simp add: Let_def)
  show ?thesis using c1(4) by (simp add: 1 2 Let_def file_content_def)
qed

definition sample_open :: ClientContext where
  "sample_open = sample_client\<lparr>cc_pending_files := {to_string [65] @ '' '' @ to_string [102]}\<rparr>"

lemma sample_partner_encrypts': "encrypt_for sample_ssl (Some (replicate 12 0)) sample_partner [66] [65] [104, 105] n =
    Inr (replicate 12 0 @ le64_bytes n @ [104, 105] @ replicate 16 9)"
  by (simp add: encrypt_for_def sample_partner_def derive_for_messaging_def HKDF_derive_def aes_encrypt_def sample_ssl_def)

theorem second_chunk_rejected_witness:
  "let (res1, c1) = handle_file_chunk sample_cenv (built 0 sample_frame [[65], [102], [66], [3], [4], [4, 3]] FileChunk) sample_open;
       (res2, c2) = handle_file_chunk sample_cenv
         (built 0 (replicate 12 0 @ le64_bytes 1 @ [104, 105] @ replicate 16 9) [[65], [102], [66], [3], [4], [4, 3]] FileChunk) c1 in
    file_content c2 (to_string [65] @ '' '' @ to_string [102]) = [104, 105]"
proof -
  have k: "knows (ce_ssl sample_cenv) sample_partner [66] (with_keys (cc_es sample_open) [66] 103 104) [65]"
      "sign (ce_ssl sample_cenv) sample_partner = Inr [4, 3]"
    using sample_partner_knows sample_partner_sign by (simp_all add: sample_open_def)
  have o: "to_string [65] @ '' '' @ to_string [102] \<in> cc_pending_files sample_open" "counter_of sample_open [65] = 0"
      "file_content sample_open (to_string [65] @ '' '' @ to_string [102]) = []"
    by (simp_all add: sample_open_def sample_client_def counter_of_def file_content_def)
  show ?thesis
    using second_chunk_rejected [OF _ _ _ _ _ _ k, of "replicate 12 0" "replicate 12 0" "[3]" "[4]" "[104, 105]" sample_frame
        "[104, 105]" "replicate 12 0 @ le64_bytes 1 @ [104, 105] @ replicate 16 9" "[102]"] o sample_ssl_ok
      sample_partner_encrypts sample_partner_encrypts' [of 1]
    by (simp add: Let_def split_def)
qed

end
