(* ===== verification/Client_System.thy ===== *)
theory Client_System
  imports Client_Transport Client_Properties
begin

text \<open>
  The client as a whole: \<open>MessagingClient\<close> as the application of \<open>Client\<close>. The application's model records the calls
  \<open>send_to_server\<close> and \<open>disconnect\<close> made while a message is handled; here they are carried out on the transport, in order. The results of
  the writes are an argument.
\<close>

definition client_clear_sent :: "MessagingClient \<Rightarrow> MessagingClient" where
  "client_clear_sent mc = mc\<lparr>mc_context := (mc_context mc)\<lparr>cc_sent := []\<rparr>\<rparr>"

fun client_send_all :: "(nat \<Rightarrow> io) \<Rightarrow> nat \<Rightarrow> bytes list \<Rightarrow> (unit, 'a Client) action" where
  "client_send_all writes k [] = ret ()"
| "client_send_all writes k (d # ds) = andThen (client_send_to_server (writes k) d) (\<lambda>_. client_send_all writes (Suc k) ds)"

definition chat_client_callback :: "client_env \<Rightarrow> (nat \<Rightarrow> io) \<Rightarrow> bytes \<Rightarrow> (unit, MessagingClient Client) action" where
  "chat_client_callback env writes raw c =
     (let (r, mc) = client_on_tcp_data_received env raw (client_clear_sent (cl_app c));
          (r1, c1) = client_send_all writes 0 (cc_sent (mc_context mc)) (c\<lparr>cl_app := mc\<rparr>);
          c2 = (if cc_connected (mc_context mc) then c1 else client_disconnect c1) in
      (bindr r1 (\<lambda>_. r), c2))"

lemma send_all_buffer: "cl_recv_buffer (snd (client_send_all writes k ds c)) = cl_recv_buffer c"
proof (induction writes k ds arbitrary: c rule: client_send_all.induct)
  case (2 writes k d ds)
  obtain r c1 where s: "client_send_to_server (writes k) d c = (r, c1)" by force
  then have "cl_recv_buffer c1 = cl_recv_buffer c" by (auto simp: client_send_to_server_def Let_def split: option.splits prod.splits if_splits)
  then show ?case using 2 s by (cases r) (simp_all add: andThen_def)
qed (simp_all add: ret_def)

lemma send_all_framer: "cl_framer (snd (client_send_all writes k ds c)) = cl_framer c"
proof (induction writes k ds arbitrary: c rule: client_send_all.induct)
  case (2 writes k d ds)
  obtain r c1 where s: "client_send_to_server (writes k) d c = (r, c1)" by force
  then have "cl_framer c1 = cl_framer c" by (auto simp: client_send_to_server_def Let_def split: option.splits prod.splits if_splits)
  then show ?case using 2 s by (cases r) (simp_all add: andThen_def)
qed (simp_all add: ret_def)

lemma disconnect_buffer [simp]: "cl_recv_buffer (client_disconnect c) = cl_recv_buffer c" "cl_framer (client_disconnect c) = cl_framer c"
  by (simp_all add: client_disconnect_def Let_def)

lemma callback_buffer: "cl_recv_buffer (snd (chat_client_callback env writes raw c)) = cl_recv_buffer c"
proof -
  obtain r mc where r: "client_on_tcp_data_received env raw (client_clear_sent (cl_app c)) = (r, mc)" by force
  obtain r1 c1 where s: "client_send_all writes 0 (cc_sent (mc_context mc)) (c\<lparr>cl_app := mc\<rparr>) = (r1, c1)" by force
  then have "cl_recv_buffer c1 = cl_recv_buffer c"
    using send_all_buffer [of writes 0 "cc_sent (mc_context mc)" "c\<lparr>cl_app := mc\<rparr>"] by simp
  with r s show ?thesis by (simp add: chat_client_callback_def Let_def)
qed

lemma callback_framer: "cl_framer (snd (chat_client_callback env writes raw c)) = cl_framer c"
proof -
  obtain r mc where r: "client_on_tcp_data_received env raw (client_clear_sent (cl_app c)) = (r, mc)" by force
  obtain r1 c1 where s: "client_send_all writes 0 (cc_sent (mc_context mc)) (c\<lparr>cl_app := mc\<rparr>) = (r1, c1)" by force
  then have "cl_framer c1 = cl_framer c"
    using send_all_framer [of writes 0 "cc_sent (mc_context mc)" "c\<lparr>cl_app := mc\<rparr>"] by simp
  with r s show ?thesis by (simp add: chat_client_callback_def Let_def)
qed

interpretation chat_client: client_application "chat_client_callback env writes"
  by unfold_locales (metis callback_buffer snd_conv, metis callback_framer snd_conv)

section \<open>What a client receives\<close>

text \<open>
  With a framer, a client would get the messages of a frame, in order, and lose a frame that is cut. If a frame the server flushed
  arrives within one event, in whatever reads, the callback runs for each message in it in the order they were queued. If only a
  proper part of it has arrived when the reads run dry and the rest comes with the next event without
  being a complete frame itself, both events succeed and no message is handled, then or later: the bytes are not kept, where the
  server would have kept them.
\<close>

lemma client_frame_delivery:
  assumes "cl_framer c" "cl_transport c = Some t" "is_stream t" "cl_recv_buffer c = []" "\<forall>d\<in>set ds. length d < 4294967296"
    and "length (concat (map frame ds)) < 4294967296" "io_reads i = map (Recv a) pieces" "concat pieces = frame (concat (map frame ds))"
    and "frame (concat (map frame ds)) = x @ y" "y \<noteq> []" "extract_complete_message y = None"
    and "io_reads i1 = [Recv a x, RecvAgain]" "io_reads i2 = [Recv a y, RecvAgain]"
  shows "on_server_message (chat_client_callback env writes) i c = client_deliver (chat_client_callback env writes) ds
      (c\<lparr>cl_transport := Some (with_accumulation t []), cl_recv_buffer := concat (map frame ds)\<rparr>) \<and>
    (\<exists>c1 c2. on_server_message (chat_client_callback env writes) i1 c = (Inr (), c1) \<and>
      on_server_message (chat_client_callback env writes) i2 c1 = (Inr (), c2) \<and> cl_recv_buffer c2 = [] \<and> cl_app c2 = cl_app c \<and> cl_wire c2 = cl_wire c)"
proof
  show "on_server_message (chat_client_callback env writes) i c = client_deliver (chat_client_callback env writes) ds
      (c\<lparr>cl_transport := Some (with_accumulation t []), cl_recv_buffer := concat (map frame ds)\<rparr>)"
    by (rule chat_client.message_frame [OF assms(1-8)])
  have partial: "on_server_message cb j c' = (Inr (), c'\<lparr>cl_transport := Some (with_accumulation t' z)\<rparr>)"
    if "cl_transport c' = Some t'" "is_stream t'" "extract_complete_message z = None" "io_reads j = [Recv a z, RecvAgain]" for cb j c' t' z
  proof -
    obtain nb where "receive_result WOULDBLOCK z 0 = Inr \<lparr>rr_status = WOULDBLOCK, rr_data = nb, rr_error_code = 0\<rparr>"
      by (rule receive_result_eq)
    then show ?thesis using that by (simp add: on_server_message_def stream_receive)
  qed
  define c1 where "c1 = c\<lparr>cl_transport := Some (with_accumulation t x)\<rparr>"
  have "on_server_message (chat_client_callback env writes) i1 c = (Inr (), c1)"
    unfolding c1_def by (rule partial [OF assms(2, 3) frame_prefix_incomplete [OF assms(6, 9, 10)] assms(12)])
  moreover have "on_server_message (chat_client_callback env writes) i2 c1 = (Inr (), c1\<lparr>cl_transport := Some (with_accumulation (with_accumulation t x) y)\<rparr>)"
    by (rule partial [OF _ _ assms(11, 13)]) (use assms(3) in \<open>simp_all add: c1_def\<close>)
  ultimately show "\<exists>c1 c2. on_server_message (chat_client_callback env writes) i1 c = (Inr (), c1) \<and>
      on_server_message (chat_client_callback env writes) i2 c1 = (Inr (), c2) \<and> cl_recv_buffer c2 = [] \<and> cl_app c2 = cl_app c \<and> cl_wire c2 = cl_wire c"
    using assms(4) by (auto simp: c1_def)
qed

end
