(* ===== verification/Peer_Node.thy ===== *)
theory Peer_Node
  imports Event_Loop Raw_Socket
begin

text \<open>
  The transport of a peer: \<open>PeerNode\<close> (\<open>src/src/transport/peer.cpp\<close>, \<open>src/include/transport/peer.hpp\<close>),
  \<open>PeerTCPAcceptor\<close> (\<open>acceptor.cpp\<close>), \<open>PeerAcceptHandler\<close> and \<open>PeerEventHandler\<close> (\<open>handling.cpp\<close>).

  The application is the field \<open>pn_app\<close>, and its callback an action on the whole node, because it calls the node's
  functions back. \<open>pn_peers\<close> is the set of descriptors in \<open>PeerEventHandler::peers_\<close>, whose weak pointers point to the
  sessions of the registry. \<open>on_peer_connected\<close> only prints; \<open>on_peer_disconnected\<close> is never set by the
  program. The order in which \<open>stop\<close> visits an unordered map is a parameter. Console output is left out.
\<close>

section \<open>State\<close>

record 'a PeerNode =
  pn_by_fd :: "int \<Rightarrow> PeerSession option"
  pn_by_ip :: "string \<Rightarrow> int option"
  pn_event_loop :: EventLoop
  pn_listening :: ISocket
  pn_peers :: "int set"
  pn_running :: bool
  pn_wire :: "(int \<times> bytes) list"
  pn_app :: 'a

definition pn_put_loop :: "EventLoop \<Rightarrow> 'a PeerNode \<Rightarrow> 'a PeerNode" where
  "pn_put_loop el n = n\<lparr>pn_event_loop := el\<rparr>"

definition PeerNode_ctor :: "ISocket \<Rightarrow> EventLoop \<Rightarrow> 'a \<Rightarrow> 'a PeerNode" where
  "PeerNode_ctor sock el app = \<lparr>pn_by_fd = Map.empty, pn_by_ip = Map.empty, pn_event_loop = el, pn_listening = sock,
     pn_peers = {}, pn_running = False, pn_wire = [], pn_app = app\<rparr>"

text \<open>\<open>EPOLLIN | EPOLLERR | EPOLLHUP | EPOLLRDHUP\<close>.\<close>

definition peer_events :: "32 word" where
  "peer_events = EPOLLIN OR EPOLLERR OR EPOLLHUP OR EPOLLRDHUP"


section \<open>PeerNode\<close>

definition start_listening :: "sock_io \<Rightarrow> 16 word \<Rightarrow> (unit, 'a PeerNode) action" where
  "start_listening i port n =
     (let (r, sock) = setup_server i ''0.0.0.0'' port (pn_listening n); n1 = n\<lparr>pn_listening := sock\<rparr> in
      case r of
        Inl e \<Rightarrow> (Inl e, n1)
      | Inr _ \<Rightarrow>
         (if is_fd sock \<noteq> - 1 then
            (Inr (), n1\<lparr>pn_running := True, pn_event_loop := add_fd (is_fd sock) PeerAcceptHandler peer_events (pn_event_loop n1)\<rparr>)
          else (Inl (RuntimeError ''Failed to create listening socket''), n1)))"

definition add_peer :: "PeerSession \<Rightarrow> 'a PeerNode \<Rightarrow> 'a PeerNode" where
  "add_peer session n = n\<lparr>pn_peers := insert (ps_fd session) (pn_peers n)\<rparr>"

definition remove_peer :: "int \<Rightarrow> 'a PeerNode \<Rightarrow> 'a PeerNode" where
  "remove_peer fd n = n\<lparr>pn_peers := pn_peers n - {fd}\<rparr>"

definition register_peer_connection :: "PeerSession \<Rightarrow> 'a PeerNode \<Rightarrow> int \<times> 'a PeerNode" where
  "register_peer_connection session n =
     (let fd = ps_fd session in
      if pn_by_fd n fd \<noteq> None then (1, n)
      else let n1 = add_peer session n in
        (0, n1\<lparr>pn_event_loop := add_fd fd PeerEventHandler peer_events (pn_event_loop n1),
               pn_by_ip := (pn_by_ip n1)(ps_ip session \<mapsto> fd), pn_by_fd := (pn_by_fd n1)(fd \<mapsto> session)\<rparr>))"

definition connect_to_peer :: "sock_io \<Rightarrow> string \<Rightarrow> 16 word \<Rightarrow> 'a PeerNode \<Rightarrow> int \<times> 'a PeerNode" where
  "connect_to_peer i peer_ip port n =
     (let (r, sock) = setup_connection i peer_ip port (ISocket_ctor (is_type (pn_listening n)) 0) in
      if r < 0 then (0, n)
      else let fd = is_fd sock; (_, n1) = register_peer_connection (PeerSession_ctor fd peer_ip (create_tcp fd)) n in (fd, n1))"

definition send_to_peer :: "int \<Rightarrow> bytes \<Rightarrow> 'a PeerNode \<Rightarrow> 'a PeerNode" where
  "send_to_peer fd data n = (case pn_by_fd n fd of
       None \<Rightarrow> n
     | Some s \<Rightarrow> n\<lparr>pn_by_fd := (pn_by_fd n)(fd \<mapsto> session_send_to_buffer data s),
                   pn_event_loop := enable_write fd (pn_event_loop n)\<rparr>)"

text \<open>The loop of \<open>broadcast\<close> treats every session by itself, so the order of the map does not matter.\<close>

definition broadcast :: "bytes \<Rightarrow> 'a PeerNode \<Rightarrow> 'a PeerNode" where
  "broadcast data n = n\<lparr>pn_by_fd := (\<lambda>fd. map_option (session_send_to_buffer data) (pn_by_fd n fd)),
     pn_event_loop := (pn_event_loop n)\<lparr>el_interest := (\<lambda>fd. if pn_by_fd n fd = None then el_interest (pn_event_loop n) fd
        else el_interest (enable_write fd (pn_event_loop n)) fd)\<rparr>\<rparr>"

text \<open>\<open>node.registry_.by_fd[fd]->ip\<close>: for a descriptor that is not there the map gives a null pointer.\<close>

definition disconnect_from_peer :: "int \<Rightarrow> (int, 'a PeerNode) action" where
  "disconnect_from_peer fd n = (case pn_by_fd n fd of
       None \<Rightarrow> (Inl (Undefined ''null session''), n)
     | Some session \<Rightarrow>
        (let peer_ip = ps_ip session in
         if pn_by_ip n peer_ip = None then (Inr 1, n)
         else let n1 = remove_peer fd (n\<lparr>pn_event_loop := remove_fd fd (pn_event_loop n)\<rparr>) in
           (Inr 0, n1\<lparr>pn_by_fd := (pn_by_fd n1)(fd := None), pn_by_ip := (pn_by_ip n1)(peer_ip := None)\<rparr>)))"

fun disconnect_all :: "int list \<Rightarrow> (unit, 'a PeerNode) action" where
  "disconnect_all [] = ret ()"
| "disconnect_all (fd # fds) = andThen (disconnect_from_peer fd) (\<lambda>_. disconnect_all fds)"

definition peer_stop :: "(int set \<Rightarrow> int list) \<Rightarrow> (unit, 'a PeerNode) action" where
  "peer_stop iter n =
     (if \<not> pn_running n then (Inr (), n)
      else andThen (disconnect_all (iter (dom (pn_by_fd n)))) (\<lambda>_.
           modify (\<lambda>n. n\<lparr>pn_running := False, pn_event_loop := el_stop (pn_event_loop n), pn_peers := {}\<rparr>)) n)"

definition on_peer_writable :: "io \<Rightarrow> int \<Rightarrow> (unit, 'a PeerNode) action" where
  "on_peer_writable i fd n = (case pn_by_fd n fd of
       None \<Rightarrow> (Inl (Undefined ''null session''), n)
     | Some s \<Rightarrow>
        (let (r, wire, s') = session_flush i s;
             n1 = n\<lparr>pn_by_fd := (pn_by_fd n)(fd \<mapsto> s'), pn_wire := pn_wire n @ [(fd, wire)]\<rparr> in
         case r of
           Inl e \<Rightarrow> (Inl e, n1)
         | Inr flushed \<Rightarrow> (Inr (), if flushed then n1\<lparr>pn_event_loop := disable_write fd (pn_event_loop n1)\<rparr> else n1)))"


section \<open>Handlers\<close>

text \<open>
  The loop over the complete messages of a session. One round takes one message off the buffer; \<open>fuel\<close> bounds the
  rounds, and the length of the buffer is enough for a callback that does not put anything into it
  (\<open>peer_loop_enough\<close>). Running out of fuel is not a value the source can return.
\<close>

fun peer_loop :: "(int \<Rightarrow> bytes \<Rightarrow> (unit, 'a PeerNode) action) \<Rightarrow> nat \<Rightarrow> int \<Rightarrow> (unit, 'a PeerNode) action" where
  "peer_loop cb fuel fd n = (case pn_by_fd n fd of
       None \<Rightarrow> (Inl (Undefined ''expired session''), n)
     | Some s \<Rightarrow>
        (if \<not> session_has_complete_message s then (Inr (), n)
         else case fuel of
           0 \<Rightarrow> (Inl (Undefined ''out of fuel''), n)
         | Suc fuel' \<Rightarrow>
            (case session_extract_message s of
               (Inl e, _) \<Rightarrow> (Inl e, n)
             | (Inr msg, s') \<Rightarrow>
                 andThen (cb fd msg) (\<lambda>_. peer_loop cb fuel' fd) (n\<lparr>pn_by_fd := (pn_by_fd n)(fd \<mapsto> s')\<rparr>))))"

declare peer_loop.simps [simp del]

text \<open>
  The readable branch; \<open>True\<close> when the function goes on to the writable branch. When receiving fails,
  \<open>remove_peer\<close> erases the entry \<open>it\<close> points to and the next line uses \<open>it\<close> again.
\<close>

definition peer_readable :: "(int \<Rightarrow> bytes \<Rightarrow> (unit, 'a PeerNode) action) \<Rightarrow> io \<Rightarrow> int \<Rightarrow> (bool, 'a PeerNode) action" where
  "peer_readable cb i fd n =
     (if fd \<notin> pn_peers n then (Inr False, n)
      else case pn_by_fd n fd of
        None \<Rightarrow> (Inl BadFunctionCall, remove_peer fd n)
      | Some s \<Rightarrow>
         (let (r, s1) = session_try_receive i s; n1 = n\<lparr>pn_by_fd := (pn_by_fd n)(fd \<mapsto> s1)\<rparr> in
          case r of
            Inl e \<Rightarrow> (Inl e, n1)
          | Inr True \<Rightarrow> andThen (peer_loop cb (length (ps_in s1)) fd) (\<lambda>_. ret True) n1
          | Inr False \<Rightarrow> (Inl (Undefined ''iterator used after erase''), remove_peer fd n1)))"

definition peer_handle_event :: "(int \<Rightarrow> bytes \<Rightarrow> (unit, 'a PeerNode) action) \<Rightarrow> io \<Rightarrow> int \<Rightarrow> 32 word \<Rightarrow> (unit, 'a PeerNode) action" where
  "peer_handle_event cb i fd event_mask n =
     (if has_flag event_mask (EPOLLERR OR EPOLLHUP OR EPOLLRDHUP)
      then andThen (disconnect_from_peer fd) (\<lambda>_. ret ()) (remove_peer fd n)
      else andThen (if has_flag event_mask EPOLLIN then peer_readable cb i fd else ret True) (\<lambda>go_on.
        if go_on \<and> has_flag event_mask EPOLLOUT then on_peer_writable i fd else ret ()) n)"

text \<open>\<open>PeerTCPAcceptor::accept\<close>: the descriptor and the address of the other side come from the kernel.\<close>

record peer_io =
  pi_accept :: int
  pi_accept_ip :: string
  pi_io :: io

definition peer_tcp_accept :: "peer_io \<Rightarrow> PeerSession option" where
  "peer_tcp_accept orc =
     (if pi_accept orc = - 1 then None
      else Some (PeerSession_ctor (pi_accept orc) (pi_accept_ip orc) (create_tcp (pi_accept orc))))"

text \<open>\<open>PeerUDPAcceptor::accept\<close> has no return statement.\<close>

definition peer_udp_accept :: "PeerSession option cpp" where
  "peer_udp_accept = Inl (Undefined ''end of a function without a return value'')"

definition peer_accept_handle_event :: "peer_io \<Rightarrow> int \<Rightarrow> 32 word \<Rightarrow> (unit, 'a PeerNode) action" where
  "peer_accept_handle_event orc fd event_mask n =
     (if has_flag event_mask EPOLLIN then
        (case peer_tcp_accept orc of None \<Rightarrow> (Inr (), n) | Some s \<Rightarrow> (Inr (), snd (register_peer_connection s n)))
      else (Inr (), n))"

fun peer_handle :: "(int \<Rightarrow> bytes \<Rightarrow> (unit, 'a PeerNode) action) \<Rightarrow> IEventHandler \<Rightarrow> peer_io \<Rightarrow> int \<Rightarrow> 32 word \<Rightarrow> (unit, 'a PeerNode) action" where
  "peer_handle cb PeerAcceptHandler orc fd event_mask = peer_accept_handle_event orc fd event_mask"
| "peer_handle cb PeerEventHandler orc fd event_mask = peer_handle_event cb (pi_io orc) fd event_mask"
| "peer_handle cb _ orc fd event_mask = ret ()"

definition peer_round :: "(int \<Rightarrow> bytes \<Rightarrow> (unit, 'a PeerNode) action) \<Rightarrow> peer_io epoll_result \<Rightarrow> (unit, 'a PeerNode) action" where
  "peer_round cb = run_once pn_event_loop pn_put_loop (peer_handle cb)"

fun peer_run_event_loop :: "(int \<Rightarrow> bytes \<Rightarrow> (unit, 'a PeerNode) action) \<Rightarrow> peer_io epoll_result list \<Rightarrow> (unit, 'a PeerNode) action" where
  "peer_run_event_loop cb [] = ret ()"
| "peer_run_event_loop cb (ep # eps) =
     (\<lambda>n. if \<not> pn_running n then (Inr (), n) else andThen (peer_round cb ep) (\<lambda>_. peer_run_event_loop cb eps) n)"

section \<open>What an application must respect\<close>

text \<open>
  Two states of a node with the same links: the same sessions with the same input and the same handlers. Queueing output
  and changing the application's own state keep the links.
\<close>

definition link_of :: "PeerSession \<Rightarrow> int \<times> string \<times> bytes \<times> ITransport" where
  "link_of s = (ps_fd s, ps_ip s, ps_in s, ps_transport s)"

definition same_links :: "'a PeerNode \<Rightarrow> 'a PeerNode \<Rightarrow> bool" where
  "same_links n n' \<longleftrightarrow> (\<forall>fd. map_option link_of (pn_by_fd n' fd) = map_option link_of (pn_by_fd n fd)) \<and>
     pn_by_ip n' = pn_by_ip n \<and> pn_peers n' = pn_peers n \<and> el_handlers (pn_event_loop n') = el_handlers (pn_event_loop n)"

lemma same_links_refl [simp]: "same_links n n"
  by (simp add: same_links_def)

lemma same_links_trans: "same_links n n' \<Longrightarrow> same_links n' n'' \<Longrightarrow> same_links n n''"
  by (simp add: same_links_def)

lemma same_links_app [simp]: "same_links n (n'\<lparr>pn_app := a\<rparr>) \<longleftrightarrow> same_links n n'"
  by (simp add: same_links_def)

lemma link_of_send [simp]: "link_of (session_send_to_buffer data s) = link_of s"
  by (simp add: link_of_def session_send_to_buffer_def)

lemma same_links_send_to_peer: "same_links n (send_to_peer fd data n)"
  by (simp add: same_links_def send_to_peer_def split: option.splits)

lemma same_links_broadcast: "same_links n (broadcast data n)"
  by (simp add: same_links_def broadcast_def option.map_comp comp_def)

lemma same_links_None: "same_links n n' \<Longrightarrow> pn_by_fd n' fd = None \<longleftrightarrow> pn_by_fd n fd = None"
  unfolding same_links_def by (metis map_option_is_None)

lemma same_links_Some:
  assumes "same_links n n'" "pn_by_fd n fd = Some s"
  obtains s' where "pn_by_fd n' fd = Some s'" "link_of s' = link_of s"
  using assms unfolding same_links_def by (metis (no_types, lifting) map_option_eq_Some)

lemma link_of_eq: "link_of s' = link_of s \<longleftrightarrow> ps_fd s' = ps_fd s \<and> ps_ip s' = ps_ip s \<and> ps_in s' = ps_in s \<and> ps_transport s' = ps_transport s"
  by (auto simp: link_of_def)

text \<open>The tables of a node, seen from one descriptor and from one address.\<close>

definition peer_fd_ok :: "'a PeerNode \<Rightarrow> int \<Rightarrow> bool" where
  "peer_fd_ok n fd \<longleftrightarrow> (fd \<in> pn_peers n \<longrightarrow> pn_by_fd n fd \<noteq> None) \<and>
     (el_handlers (pn_event_loop n) fd = Some PeerEventHandler \<longleftrightarrow> pn_by_fd n fd \<noteq> None) \<and>
     (\<forall>s. pn_by_fd n fd = Some s \<longrightarrow> ps_fd s = fd)"

definition peer_ip_ok :: "'a PeerNode \<Rightarrow> string \<Rightarrow> bool" where
  "peer_ip_ok n ip = (case pn_by_ip n ip of None \<Rightarrow> True
     | Some fd \<Rightarrow> (case pn_by_fd n fd of None \<Rightarrow> False | Some s \<Rightarrow> ps_ip s = ip))"

definition peer_inv :: "'a PeerNode \<Rightarrow> bool" where
  "peer_inv n \<longleftrightarrow> (\<forall>fd. peer_fd_ok n fd) \<and> (\<forall>ip. peer_ip_ok n ip)"

lemma peer_inv_links: "peer_inv n \<Longrightarrow> same_links n n' \<Longrightarrow> peer_inv n'"
proof -
  assume inv: "peer_inv n" and links: "same_links n n'"
  have "peer_fd_ok n' fd" for fd
  proof (cases "pn_by_fd n fd")
    case None
    have "peer_fd_ok n fd" using inv by (simp add: peer_inv_def)
    with None links show ?thesis using same_links_None [OF links, of fd] by (simp add: peer_fd_ok_def same_links_def)
  next
    case (Some s)
    obtain s' where s': "pn_by_fd n' fd = Some s'" "link_of s' = link_of s" by (rule same_links_Some [OF links Some])
    have "peer_fd_ok n fd" using inv by (simp add: peer_inv_def)
    with Some s' links show ?thesis by (simp add: peer_fd_ok_def same_links_def link_of_eq)
  qed
  moreover have "peer_ip_ok n' ip" for ip
  proof (cases "pn_by_ip n ip")
    case (Some fd)
    then obtain s where s: "pn_by_fd n fd = Some s" "ps_ip s = ip" using inv by (auto simp: peer_inv_def peer_ip_ok_def split: option.splits)
    obtain s' where "pn_by_fd n' fd = Some s'" "link_of s' = link_of s" by (rule same_links_Some [OF links s(1)])
    with s Some links show ?thesis by (simp add: peer_ip_ok_def same_links_def link_of_eq)
  qed (use links in \<open>simp add: peer_ip_ok_def same_links_def\<close>)
  ultimately show ?thesis by (simp add: peer_inv_def)
qed

lemma peer_inv_ctor: "el_handlers el = Map.empty \<Longrightarrow> peer_inv (PeerNode_ctor sock el app)"
  by (simp add: peer_inv_def peer_fd_ok_def peer_ip_ok_def PeerNode_ctor_def)

lemma peer_inv_session:
  assumes "peer_inv n" "pn_by_fd n fd = Some s" "ps_fd s' = ps_fd s" "ps_ip s' = ps_ip s"
  shows "peer_inv (n\<lparr>pn_by_fd := (pn_by_fd n)(fd \<mapsto> s')\<rparr>)"
proof -
  have "peer_fd_ok (n\<lparr>pn_by_fd := (pn_by_fd n)(fd \<mapsto> s')\<rparr>) x" for x
    using assms by (simp add: peer_inv_def peer_fd_ok_def)
  moreover have "peer_ip_ok (n\<lparr>pn_by_fd := (pn_by_fd n)(fd \<mapsto> s')\<rparr>) ip" for ip
  proof -
    have "peer_ip_ok n ip" using assms(1) by (simp add: peer_inv_def)
    then show ?thesis using assms(2, 4) by (auto simp: peer_ip_ok_def split: option.splits if_splits)
  qed
  ultimately show ?thesis by (simp add: peer_inv_def)
qed

lemma peer_inv_register:
  assumes "peer_inv n"
  shows "peer_inv (snd (register_peer_connection s n))"
proof (cases "pn_by_fd n (ps_fd s)")
  case None
  let ?n = "snd (register_peer_connection s n)"
  have n: "pn_by_fd ?n = (pn_by_fd n)(ps_fd s \<mapsto> s)" "pn_by_ip ?n = (pn_by_ip n)(ps_ip s \<mapsto> ps_fd s)"
      "pn_peers ?n = insert (ps_fd s) (pn_peers n)" "el_handlers (pn_event_loop ?n) = (el_handlers (pn_event_loop n))(ps_fd s \<mapsto> PeerEventHandler)"
    using None by (simp_all add: register_peer_connection_def add_peer_def Let_def)
  have "peer_fd_ok ?n fd" for fd using assms by (simp add: peer_inv_def peer_fd_ok_def n)
  moreover have "peer_ip_ok ?n ip" for ip
  proof -
    have "peer_ip_ok n ip" using assms by (simp add: peer_inv_def)
    then show ?thesis using None by (auto simp: peer_ip_ok_def n split: option.splits)
  qed
  ultimately show ?thesis by (simp add: peer_inv_def)
qed (use assms in \<open>simp add: register_peer_connection_def\<close>)

lemma remove_peer_simps [simp]:
  "pn_by_fd (remove_peer fd n) = pn_by_fd n" "pn_by_ip (remove_peer fd n) = pn_by_ip n"
  "pn_peers (remove_peer fd n) = pn_peers n - {fd}" "pn_event_loop (remove_peer fd n) = pn_event_loop n"
  by (simp_all add: remove_peer_def)

lemma peer_inv_remove_peer: "peer_inv n \<Longrightarrow> peer_inv (remove_peer fd n)"
  by (simp add: peer_inv_def peer_fd_ok_def peer_ip_ok_def cong: option.case_cong)

lemma peer_inv_disconnect:
  assumes "peer_inv n" "disconnect_from_peer fd n = (Inr r, n')"
  shows "peer_inv n'"
proof -
  obtain s where s: "pn_by_fd n fd = Some s" using assms(2) by (auto simp: disconnect_from_peer_def split: option.splits)
  show ?thesis
  proof (cases "pn_by_ip n (ps_ip s)")
    case None
    then show ?thesis using assms s by (simp add: disconnect_from_peer_def Let_def)
  next
    case (Some x)
    then have n': "n' = snd (disconnect_from_peer fd n)" using assms(2) by simp
    have f: "pn_by_fd n' = (pn_by_fd n)(fd := None)" "pn_by_ip n' = (pn_by_ip n)(ps_ip s := None)"
        "pn_peers n' = pn_peers n - {fd}" "el_handlers (pn_event_loop n') = (el_handlers (pn_event_loop n))(fd := None)"
      using s Some by (simp_all add: n' disconnect_from_peer_def remove_peer_def Let_def)
    have "peer_fd_ok n' x" for x using assms(1) by (simp add: peer_inv_def peer_fd_ok_def f)
    moreover have "peer_ip_ok n' ip" for ip
    proof -
      have "peer_ip_ok n ip" using assms(1) by (simp add: peer_inv_def)
      then show ?thesis using s by (auto simp: peer_ip_ok_def f split: option.splits)
    qed
    ultimately show ?thesis by (simp add: peer_inv_def)
  qed
qed

lemma disconnect_defined: "pn_by_fd n fd \<noteq> None \<Longrightarrow> \<exists>r n'. disconnect_from_peer fd n = (Inr r, n')"
  by (auto simp: disconnect_from_peer_def Let_def)

lemma el_handlers_enable_disable [simp]: "el_handlers (pn_event_loop (n\<lparr>pn_event_loop := disable_write fd el\<rparr>)) = el_handlers el"
  by simp

lemma peer_inv_writable:
  assumes "peer_inv n" "pn_by_fd n fd \<noteq> None"
  shows "\<exists>n'. on_peer_writable i fd n = (Inr (), n') \<and> peer_inv n'"
proof -
  obtain s where s: "pn_by_fd n fd = Some s" using assms(2) by blast
  obtain b where b: "fst (flush_buffer i (ps_transport s) (ps_out s)) = Inr b" using flush_buffer_defined by blast
  obtain w buf where wb: "flush_buffer i (ps_transport s) (ps_out s) = (Inr b, w, buf)" using b by (metis prod.collapse)
  define s' where "s' = s\<lparr>ps_out := buf\<rparr>"
  have f: "session_flush i s = (Inr b, w, s')" "ps_fd s' = ps_fd s" "ps_ip s' = ps_ip s"
    using wb by (simp_all add: session_flush_def s'_def)
  define n1 where "n1 = n\<lparr>pn_by_fd := (pn_by_fd n)(fd \<mapsto> s')\<rparr>"
  have "peer_inv n1" unfolding n1_def by (rule peer_inv_session [OF assms(1) s f(2, 3)])
  then have "peer_inv (snd (on_peer_writable i fd n))"
    using s f(1) by (elim peer_inv_links) (simp add: same_links_def on_peer_writable_def n1_def Let_def)
  moreover have "fst (on_peer_writable i fd n) = Inr ()" using s f(1) by (simp add: on_peer_writable_def Let_def)
  ultimately show ?thesis by (metis prod.collapse)
qed

section \<open>The contract of the application\<close>

text \<open>
  The undefined behaviour that a round of the node is not shown to avoid: the iterator that is used after its element was erased when a receive
  fails (\<open>handling.cpp:147\<close>), the framer reading past its buffer after its guard has wrapped, and the uses of an \<open>expected\<close> result that
  holds an error and of a key that is not there in the application's handlers. Every other \<open>Undefined\<close>, such as a session
  that is not there any more, and the bound of \<open>peer_loop\<close>, which the source does not have, is an error of the links.
\<close>

definition known_undefined :: "string set" where
  "known_undefined = {''iterator used after erase'', ''memcpy past the end of the buffer'', ''range past the end of the buffer'',
     ''dereference of an unexpected result'', ''null key''}"

lemma known_undefined_mem [simp]:
  "''iterator used after erase'' \<in> known_undefined" "''memcpy past the end of the buffer'' \<in> known_undefined"
  "''range past the end of the buffer'' \<in> known_undefined" "''dereference of an unexpected result'' \<in> known_undefined"
  "''null key'' \<in> known_undefined"
  by (simp_all add: known_undefined_def)

definition link_error :: "cpp_error \<Rightarrow> bool" where
  "link_error e \<longleftrightarrow> (\<exists>w. e = Undefined w \<and> w \<notin> known_undefined)"

lemma session_extract_cases:
  obtains (bad) e where "session_extract_message s = (Inl e, s)" "\<not> link_error e"
  | (good) m left where "session_extract_message s = (Inr m, s\<lparr>ps_in := left\<rparr>)" "length left < length (ps_in s)"
  by (cases "extract_message (ps_in s)")
    (auto simp: session_extract_message_def extract_message_def link_error_def Let_def split: if_splits)

text \<open>
  The sequence of callbacks for the messages \<open>ms\<close>: before each the message and its header have been taken off the
  input of the session.
\<close>

fun peer_deliver :: "(int \<Rightarrow> bytes \<Rightarrow> (unit, 'a PeerNode) action) \<Rightarrow> int \<Rightarrow> bytes list \<Rightarrow> (unit, 'a PeerNode) action" where
  "peer_deliver cb fd [] = ret ()"
| "peer_deliver cb fd (m # ms) =
     andThen (modify (\<lambda>n. n\<lparr>pn_by_fd := (pn_by_fd n)(fd := map_option (\<lambda>s. s\<lparr>ps_in := drop (4 + length m) (ps_in s)\<rparr>) (pn_by_fd n fd))\<rparr>)) (\<lambda>_.
     andThen (cb fd m) (\<lambda>_. peer_deliver cb fd ms))"

lemma try_receive_defined: "\<exists>b s'. session_try_receive i s = (Inr b, s') \<and> ps_fd s' = ps_fd s \<and> ps_ip s' = ps_ip s"
  using transport_receive_defined [of i "ps_transport s"] by (auto simp: session_try_receive_def split: prod.splits)

locale peer_application =
  fixes cb :: "int \<Rightarrow> bytes \<Rightarrow> (unit, 'a PeerNode) action"
  assumes cb_links: "cb fd m n = (r, n') \<Longrightarrow> same_links n n'"
    and cb_error: "cb fd m n = (Inl e, n') \<Longrightarrow> \<not> link_error e"
begin

lemma loop_enough:
  "pn_by_fd n fd = Some s \<Longrightarrow> length (ps_in s) \<le> fuel \<Longrightarrow> peer_loop cb fuel fd n = (r, n') \<Longrightarrow>
   (\<forall>e. r = Inl e \<longrightarrow> \<not> link_error e) \<and> peer_loop cb (fuel + k) fd n = (r, n') \<and> pn_by_fd n' fd \<noteq> None \<and> (peer_inv n \<longrightarrow> peer_inv n')"
proof (induction fuel arbitrary: n s)
  case 0
  then have "\<not> session_has_complete_message s" by (simp add: session_has_complete_message_def has_message_in_buffer_def)
  with 0 show ?case by (auto simp: peer_loop.simps)
next
  case (Suc fuel)
  show ?case
  proof (cases "session_has_complete_message s")
    case False
    with Suc.prems show ?thesis by (auto simp: peer_loop.simps)
  next
    case True
    show ?thesis
    proof (cases rule: session_extract_cases [of s])
      case (bad e)
      then have "peer_loop cb (Suc f) fd n = (Inl e, n)" for f using True Suc.prems(1) by (subst peer_loop.simps) simp
      then have "r = Inl e" "n' = n" "peer_loop cb (Suc fuel + k) fd n = (Inl e, n)" using Suc.prems(3) by simp_all
      then show ?thesis using bad(2) Suc.prems(1) by simp
    next
      case (good m left)
      define n1 where "n1 = n\<lparr>pn_by_fd := (pn_by_fd n)(fd \<mapsto> s\<lparr>ps_in := left\<rparr>)\<rparr>"
      have step: "peer_loop cb (Suc f) fd n = andThen (cb fd m) (\<lambda>_. peer_loop cb f fd) n1" for f
        unfolding n1_def using True good(1) Suc.prems(1) by (subst peer_loop.simps) simp
      have inv1: "peer_inv n \<longrightarrow> peer_inv n1" unfolding n1_def using peer_inv_session [OF _ Suc.prems(1)] by simp
      obtain r2 n2 where c: "cb fd m n1 = (r2, n2)" by force
      have links: "same_links n1 n2" by (rule cb_links [OF c])
      have "pn_by_fd n1 fd = Some (s\<lparr>ps_in := left\<rparr>)" by (simp add: n1_def)
      then obtain s2 where s2': "pn_by_fd n2 fd = Some s2" "link_of s2 = link_of (s\<lparr>ps_in := left\<rparr>)"
        by (rule same_links_Some [OF links])
      then have s2: "pn_by_fd n2 fd = Some s2" "ps_in s2 = left" by (simp_all add: link_of_eq)
      have inv2: "peer_inv n \<longrightarrow> peer_inv n2" using inv1 peer_inv_links [OF _ links] by blast
      show ?thesis
      proof (cases r2)
        case (Inl e)
        then have "peer_loop cb (Suc f) fd n = (Inl e, n2)" for f using step c by (simp add: andThen_def)
        with Suc.prems(3) cb_error [of fd m n1 e n2] c Inl s2 inv2 show ?thesis by auto
      next
        case (Inr u)
        then have rec: "peer_loop cb (Suc f) fd n = peer_loop cb f fd n2" for f using step c by (simp add: andThen_def)
        then show ?thesis using Suc.IH [OF s2(1)] s2(2) good(2) Suc.prems(2, 3) inv2 by auto
      qed
    qed
  qed
qed

lemma loop_delivers:
  "pn_by_fd n fd = Some s \<Longrightarrow> ps_in s = concat (map frame ds) @ left \<Longrightarrow> \<forall>d\<in>set ds. length d < 4294967296 \<Longrightarrow>
   \<not> has_message_in_buffer left \<Longrightarrow> length ds \<le> fuel \<Longrightarrow> peer_loop cb fuel fd n = peer_deliver cb fd ds n"
proof (induction ds arbitrary: n s fuel)
  case Nil
  then show ?case by (simp add: peer_loop.simps session_has_complete_message_def ret_def)
next
  case (Cons d ds)
  let ?left = "concat (map frame ds) @ left"
  define n1 where "n1 = n\<lparr>pn_by_fd := (pn_by_fd n)(fd \<mapsto> s\<lparr>ps_in := ?left\<rparr>)\<rparr>"
  obtain f where f: "fuel = Suc f" "length ds \<le> f" using Cons.prems(5) by (cases fuel) auto
  have len: "length d < 4294967296" using Cons.prems(3) by simp
  have buf: "ps_in s = frame d @ ?left" using Cons.prems(2) by simp
  have has: "session_has_complete_message s"
    unfolding session_has_complete_message_def buf using frame_length_frame [OF len] by (intro has_message_complete) simp
  have ext: "session_extract_message s = (Inr d, s\<lparr>ps_in := ?left\<rparr>)"
    using form_message_extract [OF len, of ?left] buf by (simp add: session_extract_message_def frame_def)
  have step: "peer_loop cb fuel fd n = andThen (cb fd d) (\<lambda>_. peer_loop cb f fd) n1"
    unfolding n1_def f(1) using has ext Cons.prems(1) by (subst peer_loop.simps) simp
  have del: "peer_deliver cb fd (d # ds) n = andThen (cb fd d) (\<lambda>_. peer_deliver cb fd ds) n1"
    using Cons.prems(1) buf by (simp add: andThen_eval n1_def)
  obtain r2 n2 where c: "cb fd d n1 = (r2, n2)" by force
  have "pn_by_fd n1 fd = Some (s\<lparr>ps_in := ?left\<rparr>)" by (simp add: n1_def)
  then obtain s2 where s2: "pn_by_fd n2 fd = Some s2" "link_of s2 = link_of (s\<lparr>ps_in := ?left\<rparr>)"
    by (rule same_links_Some [OF cb_links [OF c]])
  then have "ps_in s2 = ?left" by (simp add: link_of_eq)
  then have "peer_loop cb f fd n2 = peer_deliver cb fd ds n2" using Cons.IH [OF s2(1)] Cons.prems(3, 4) f(2) by simp
  then show ?case unfolding step del using c by (simp add: andThen_def split: sum.split)
qed

lemma readable:
  assumes "peer_inv n" "pn_by_fd n fd \<noteq> None" "peer_readable cb i fd n = (r, n')"
  shows "(\<forall>e. r = Inl e \<longrightarrow> \<not> link_error e) \<and> (\<forall>b. r = Inr b \<longrightarrow> peer_inv n' \<and> pn_by_fd n' fd \<noteq> None)"
proof (cases "fd \<in> pn_peers n")
  case False
  with assms show ?thesis by (auto simp: peer_readable_def)
next
  case True
  obtain s where s: "pn_by_fd n fd = Some s" using assms(2) by blast
  obtain b s1 where t: "session_try_receive i s = (Inr b, s1)" "ps_fd s1 = ps_fd s" "ps_ip s1 = ps_ip s"
    using try_receive_defined [of i s] by blast
  define n1 where "n1 = n\<lparr>pn_by_fd := (pn_by_fd n)(fd \<mapsto> s1)\<rparr>"
  have inv1: "peer_inv n1" unfolding n1_def
    using peer_inv_session [OF assms(1) s t(2, 3)] by simp
  have eq: "peer_readable cb i fd n = (if b then andThen (peer_loop cb (length (ps_in s1)) fd) (\<lambda>_. ret True) n1
      else (Inl (Undefined ''iterator used after erase''), remove_peer fd n1))"
    unfolding n1_def using True s t(1) by (simp add: peer_readable_def Let_def split: bool.split)
  have b1: "pn_by_fd n1 fd = Some s1" by (simp add: n1_def)
  obtain rl n2 where l: "peer_loop cb (length (ps_in s1)) fd n1 = (rl, n2)" by force
  note loop = loop_enough [OF b1 order_refl l, of 0]
  show ?thesis
  proof (cases b)
    case True
    then have "peer_readable cb i fd n = (case rl of Inl e \<Rightarrow> (Inl e, n2) | Inr _ \<Rightarrow> (Inr True, n2))"
      using eq l by (simp add: andThen_def ret_def split: sum.split)
    with assms(3) loop inv1 show ?thesis by (auto split: sum.splits)
  qed (use eq assms(3) in \<open>auto simp: link_error_def\<close>)
qed

lemma handle_one:
  assumes "peer_inv n" "el_handlers (pn_event_loop n) fd = Some h" "peer_handle cb h orc fd evm n = (r, n')"
  shows "(r = Inr () \<longrightarrow> peer_inv n') \<and> (\<forall>e. r = Inl e \<longrightarrow> \<not> link_error e)"
proof (cases "h = PeerEventHandler")
  case False
  with assms show ?thesis
    by (cases h) (auto simp: peer_accept_handle_event_def peer_inv_register ret_def split: if_splits option.splits)
next
  case True
  have b: "pn_by_fd n fd \<noteq> None" using assms(1, 2) True unfolding peer_inv_def peer_fd_ok_def by blast
  have ev: "peer_handle_event cb (pi_io orc) fd evm n = (r, n')" using assms(3) True by simp
  show ?thesis
  proof (cases "has_flag evm (EPOLLERR OR EPOLLHUP OR EPOLLRDHUP)")
    case True
    have "pn_by_fd (remove_peer fd n) fd \<noteq> None" using b by simp
    then obtain x n1 where d: "disconnect_from_peer fd (remove_peer fd n) = (Inr x, n1)" using disconnect_defined by blast
    with ev True have "r = Inr ()" "n' = n1" by (simp_all add: peer_handle_event_def andThen_def ret_def)
    then show ?thesis using peer_inv_disconnect [OF peer_inv_remove_peer [OF assms(1)] d] by simp
  next
    case False
    define m where "m = (if has_flag evm EPOLLIN then peer_readable cb (pi_io orc) fd else ret True)"
    obtain r1 n1 where m1: "m n = (r1, n1)" by force
    have 1: "(\<forall>e. r1 = Inl e \<longrightarrow> \<not> link_error e) \<and> (\<forall>b. r1 = Inr b \<longrightarrow> peer_inv n1 \<and> pn_by_fd n1 fd \<noteq> None)"
    proof (cases "has_flag evm EPOLLIN")
      case True
      then show ?thesis using readable [OF assms(1) b, of "pi_io orc" r1 n1] m1 by (simp add: m_def)
    qed (use m1 b assms(1) in \<open>auto simp: m_def ret_def\<close>)
    have "peer_handle_event cb (pi_io orc) fd evm n =
        (case r1 of Inl e \<Rightarrow> (Inl e, n1) | Inr go \<Rightarrow> (if go \<and> has_flag evm EPOLLOUT then on_peer_writable (pi_io orc) fd n1 else (Inr (), n1)))"
      using False m1 unfolding m_def by (simp add: peer_handle_event_def andThen_def ret_def split: sum.split)
    then show ?thesis using ev 1 peer_inv_writable [of n1 fd "pi_io orc"] by (cases r1) (auto split: if_splits)
  qed
qed

end

lemma valid_events_True: "valid_events get put handle (\<lambda>_ _. True) evs s"
  by (induction evs arbitrary: s) (auto split: prod.split sum.split)

sublocale peer_application \<subseteq> loop_client: event_loop_client pn_event_loop pn_put_loop "peer_handle cb" peer_inv "\<lambda>_ _. True" link_error
proof unfold_locales
  fix n :: "'a PeerNode" and b
  assume "peer_inv n"
  then show "peer_inv (pn_put_loop ((pn_event_loop n)\<lparr>el_wakeup := b\<rparr>) n)"
    by (elim peer_inv_links) (simp add: same_links_def pn_put_loop_def)
next
  fix n n' :: "'a PeerNode" and fd h orc evm
  assume "peer_inv n" "el_handlers (pn_event_loop n) fd = Some h" "peer_handle cb h orc fd evm n = (Inr (), n')"
  then show "peer_inv n'" using handle_one by blast
next
  fix n n' :: "'a PeerNode" and fd h orc evm e
  assume "peer_inv n" "el_handlers (pn_event_loop n) fd = Some h" "peer_handle cb h orc fd evm n = (Inl e, n')"
  then show "\<not> link_error e" using handle_one by blast
qed

context peer_application
begin

lemma round:
  assumes "peer_inv n" "peer_round cb ep n = (r, n')"
  shows "(r = Inr () \<longrightarrow> peer_inv n') \<and> (\<forall>e. r = Inl e \<longrightarrow> \<not> link_error e)"
proof (cases ep)
  case (Events evs)
  then show ?thesis using loop_client.dispatch_all [OF assms(1) valid_events_True] assms(2) by (simp add: peer_round_def)
qed (use assms in \<open>auto simp: peer_round_def ret_def lift_def link_error_def\<close>)

lemma rounds:
  "peer_inv n \<Longrightarrow> peer_run_event_loop cb eps n = (r, n') \<Longrightarrow> (r = Inr () \<longrightarrow> peer_inv n') \<and> (\<forall>e. r = Inl e \<longrightarrow> \<not> link_error e)"
proof (induction eps arbitrary: n)
  case (Cons ep eps)
  obtain r1 n1 where 1: "peer_round cb ep n = (r1, n1)" by force
  note round [OF Cons.prems(1) 1]
  then show ?case using Cons 1 by (cases r1) (auto simp: andThen_def split: if_splits)
qed (auto simp: ret_def)

end


section \<open>Peers at one address\<close>

text \<open>
  Of two peers that connect from one address, the second to be disconnected stays. The registry maps an address
  to one descriptor, so taking the first peer down removes the entry of both; disconnecting the other then returns 1
  and changes nothing: the session, its descriptor and its handler stay.
\<close>

theorem same_address_peer_stays:
  assumes "ps_ip s = ps_ip t" "ps_fd s \<noteq> ps_fd t" "pn_by_fd n (ps_fd s) = None" "pn_by_fd n (ps_fd t) = None"
    and "n2 = snd (register_peer_connection t (snd (register_peer_connection s n)))"
  shows "\<exists>n3. disconnect_from_peer (ps_fd s) n2 = (Inr 0, n3) \<and> disconnect_from_peer (ps_fd t) n3 = (Inr 1, n3) \<and>
    pn_by_fd n3 (ps_fd t) = Some t \<and> el_handlers (pn_event_loop n3) (ps_fd t) = Some PeerEventHandler \<and> ps_fd t \<in> pn_peers n3"
proof -
  have n2: "pn_by_fd n2 = (pn_by_fd n)(ps_fd s \<mapsto> s, ps_fd t \<mapsto> t)" "pn_by_ip n2 = (pn_by_ip n)(ps_ip t \<mapsto> ps_fd t)"
      "pn_peers n2 = insert (ps_fd t) (insert (ps_fd s) (pn_peers n))"
      "el_handlers (pn_event_loop n2) = (el_handlers (pn_event_loop n))(ps_fd s \<mapsto> PeerEventHandler, ps_fd t \<mapsto> PeerEventHandler)"
    using assms by (simp_all add: register_peer_connection_def add_peer_def Let_def)
  define n3 where "n3 = snd (disconnect_from_peer (ps_fd s) n2)"
  have 3: "disconnect_from_peer (ps_fd s) n2 = (Inr 0, n3)"
    using assms(1, 2) by (simp add: n3_def disconnect_from_peer_def n2 Let_def)
  have f: "pn_by_fd n3 = (pn_by_fd n2)(ps_fd s := None)" "pn_by_ip n3 = (pn_by_ip n2)(ps_ip s := None)"
      "pn_peers n3 = pn_peers n2 - {ps_fd s}" "el_handlers (pn_event_loop n3) = (el_handlers (pn_event_loop n2))(ps_fd s := None)"
    using assms(1, 2) by (simp_all add: n3_def disconnect_from_peer_def n2 Let_def)
  have "disconnect_from_peer (ps_fd t) n3 = (Inr 1, n3)"
    using assms(1, 2) by (simp add: disconnect_from_peer_def f n2 Let_def)
  with 3 show ?thesis using assms(1, 2) by (auto simp: f n2)
qed

definition sample_loop :: EventLoop where
  "sample_loop = \<lparr>el_epollfd = 3, el_wakeup_fd = 4, el_wakeup = False, el_handlers = Map.empty, el_interest = [4 \<mapsto> EPOLLIN]\<rparr>"

definition sample_peer :: "string \<Rightarrow> int \<Rightarrow> PeerSession" where
  "sample_peer ip fd = PeerSession_ctor fd ip (create_tcp fd)"

theorem same_address_peer_stays_witness:
  "\<exists>n3. disconnect_from_peer 6 (snd (register_peer_connection (sample_peer ''10.0.0.1'' 7)
      (snd (register_peer_connection (sample_peer ''10.0.0.1'' 6) (PeerNode_ctor (ISocket_ctor TCP 0) sample_loop ()))))) = (Inr 0, n3) \<and>
    disconnect_from_peer 7 n3 = (Inr 1, n3) \<and> pn_by_fd n3 7 = Some (sample_peer ''10.0.0.1'' 7)"
  using same_address_peer_stays [of "sample_peer ''10.0.0.1'' 6" "sample_peer ''10.0.0.1'' 7" "PeerNode_ctor (ISocket_ctor TCP 0) sample_loop ()"]
  by (simp add: sample_peer_def PeerSession_ctor_def PeerNode_ctor_def) blast

end
