(* ===== verification/Peer_App.thy ===== *)
theory Peer_App
  imports Peer_Node Commands Crypto
begin

text \<open>
  The application of a peer: \<open>PeerContext\<close> (\<open>src/include/application/session/client_context.hpp\<close>), what each command
  does when a peer sends or receives it (\<open>src/src/application/commands/impl/\<close>), \<open>PeerApplicationService\<close>, the
  command bus, the message handlers \<open>peer_*_handler.cpp\<close>, the dispatcher and \<open>MessagingPeer\<close>
  (\<open>src/src/application/messaging/messaging_peer.cpp\<close>).

  The context lies in the node it refers to: the application is the field \<open>pn_app\<close> of \<open>PeerNode\<close>. The results of
  the system calls made when a command connects, the clock, OpenSSL and the order in which an unordered map is visited are the
  environment. The fields of the context the peer never touches (the queue, the pending messages and files) and console
  output are left out.
\<close>

section \<open>State\<close>

record peer_env =
  pe_now :: "64 word"
  pe_ssl :: openssl
  pe_sock :: sock_io
  pe_iter :: "int set \<Rightarrow> int list"

record PeerContext =
  px_users :: UserService
  px_sessions :: SessionManager
  px_es :: EncryptionService
  px_my_username :: bytes
  px_counter :: "bytes \<Rightarrow> 64 word option"
  px_fd :: int

datatype IPeerMessageHandler =
    PeerTextHandler
  | PeerCommandHandler (peer_commands: CommandRegistry)
  | PeerCipherHandler
  | PeerResponseHandler
  | PeerFileStartHandler
  | PeerFileChunkHandler
  | PeerFileEndHandler

record MessagingPeer =
  mp_handlers :: "MessageType \<Rightarrow> IPeerMessageHandler option"
  mp_context :: PeerContext

type_synonym peer_node = "MessagingPeer PeerNode"
type_synonym 'a peer = "('a, peer_node) action"

abbreviation px :: "peer_node \<Rightarrow> PeerContext" where
  "px n \<equiv> mp_context (pn_app n)"

definition px_modify :: "(PeerContext \<Rightarrow> PeerContext) \<Rightarrow> peer_node \<Rightarrow> peer_node" where
  "px_modify f n = n\<lparr>pn_app := (pn_app n)\<lparr>mp_context := f (px n)\<rparr>\<rparr>"

text \<open>The descriptor is set before it is read for the first time; the constructor leaves it unset.\<close>

definition PeerContext_ctor :: "openssl \<Rightarrow> keygen_failure + pkey \<Rightarrow> keygen_failure + pkey \<Rightarrow> file_system \<Rightarrow> (PeerContext \<times> file_system) cpp" where
  "PeerContext_ctor ssl dh_keygen id_keygen fs =
     bindr (set_key ssl dh_keygen id_keygen fs EncryptionService_ctor) (\<lambda>(es, fs').
     Inr (\<lparr>px_users = Map.empty, px_sessions = SessionManager_ctor, px_es = es, px_my_username = [],
           px_counter = Map.empty, px_fd = 0\<rparr>, fs'))"

definition peer_cache_key :: "peer_env \<Rightarrow> bytes \<Rightarrow> bytes \<Rightarrow> bytes \<Rightarrow> unit peer" where
  "peer_cache_key env username pubkey identity_key n =
     (let (res, es) = cache_public_key (pe_ssl env) (px_es (px n)) username pubkey identity_key in
      (res, px_modify (\<lambda>c. c\<lparr>px_es := es\<rparr>) n))"

definition peer_send_message :: "int \<Rightarrow> Message cpp \<Rightarrow> unit peer" where
  "peer_send_message fd m = andThen (lift m) (\<lambda>msg. modify (send_to_peer fd (serialize msg)))"

text \<open>The three values every answer carries, read in this order.\<close>

definition own_keys :: "peer_env \<Rightarrow> peer_node \<Rightarrow> (bytes \<times> bytes \<times> bytes) cpp" where
  "own_keys env n =
     bindr (get_DH_bytes (pe_ssl env) (px_es (px n))) (\<lambda>dh.
     bindr (get_identity_bytes (pe_ssl env) (px_es (px n))) (\<lambda>ik.
     bindr (sign (pe_ssl env) (px_es (px n))) (\<lambda>sig. Inr (dh, ik, sig))))"


section \<open>Commands a peer receives\<close>

definition pubkey_answer :: "peer_env \<Rightarrow> bytes \<Rightarrow> int \<Rightarrow> unit peer" where
  "pubkey_answer env username fd n =
     andThen (lift (own_keys env n)) (\<lambda>(dh, ik, sig).
       peer_send_message fd (Message_ctor (pe_now env) dh [[byte_of_CommandType GET_PUBKEY], username, ik, sig] Response)) n"

definition login_recv_on_peer :: "peer_env \<Rightarrow> bytes \<Rightarrow> int \<Rightarrow> unit peer" where
  "login_recv_on_peer env username fd = pubkey_answer env username fd"

definition getpub_recv_on_peer :: "peer_env \<Rightarrow> bytes \<Rightarrow> int \<Rightarrow> unit peer" where
  "getpub_recv_on_peer env username fd = pubkey_answer env username fd"

definition connect_recv_on_peer :: "peer_env \<Rightarrow> bytes \<Rightarrow> bytes \<Rightarrow> bytes \<Rightarrow> bytes \<Rightarrow> int \<Rightarrow> unit peer" where
  "connect_recv_on_peer env DH identity signature username fd n =
     (let (res, users) = register_user (px_users (px n)) (to_string username) DH identity signature;
          n1 = px_modify (\<lambda>c. c\<lparr>px_users := users\<rparr>) n in
      if res = Inl AlreadyExists then (Inr (), n1)
      else andThen (modify (px_modify (\<lambda>c. c\<lparr>px_sessions := bind (px_sessions c) fd (to_string username)\<rparr>))) (\<lambda>_.
           andThen (peer_cache_key env username DH identity) (\<lambda>_ n2.
           andThen (lift (own_keys env n2)) (\<lambda>(dh, ik, sig).
             peer_send_message fd (Message_ctor (pe_now env) (px_my_username (px n2)) [[byte_of_CommandType CONNECT], dh, ik, sig] Response)) n2)) n1)"

text \<open>\<open>*get_username(fd)\<close> on a connection that is not bound has no defined outcome.\<close>

definition disconnect_recv_on_peer :: "int \<Rightarrow> unit peer" where
  "disconnect_recv_on_peer fd n = (case get_username (px_sessions (px n)) fd of
       Inl _ \<Rightarrow> (Inl (Undefined ''dereference of an unexpected result''), n)
     | Inr username \<Rightarrow> (Inr (), px_modify (\<lambda>c. c\<lparr>px_users := remove_user (px_users c) username, px_sessions := unbind (px_sessions c) fd\<rparr>) n))"

fun recv_on_peer :: "peer_env \<Rightarrow> ICommandHandler \<Rightarrow> int \<Rightarrow> unit peer" where
  "recv_on_peer env (LoginCommand u _ _ _) fd = login_recv_on_peer env u fd"
| "recv_on_peer env (ConnectCommand _ _ d i s u) fd = connect_recv_on_peer env d i s u fd"
| "recv_on_peer env (DisconnectCommand _) fd = disconnect_recv_on_peer fd"
| "recv_on_peer env (GetPubkeyCommand u) fd = getpub_recv_on_peer env u fd"
| "recv_on_peer env _ fd = ret ()"


section \<open>Commands a peer sends\<close>

text \<open>
  The values are the result, the command object after the call, and the node. \<open>LoginCommand\<close> and \<open>ConnectCommand\<close> store the
  keys in their fields one by one, so a call that fails leaves the ones it has read.
\<close>

type_synonym sending = "peer_node \<Rightarrow> unit cpp \<times> ICommandHandler \<times> peer_node"

definition login_send_from_peer :: "peer_env \<Rightarrow> bytes \<Rightarrow> bytes \<Rightarrow> bytes \<Rightarrow> bytes \<Rightarrow> sending" where
  "login_send_from_peer env username DH identity signature n =
     (case get_DH_bytes (pe_ssl env) (px_es (px n)) of
        Inl e \<Rightarrow> (Inl e, LoginCommand username DH identity signature, n)
      | Inr dh \<Rightarrow>
     (case get_identity_bytes (pe_ssl env) (px_es (px n)) of
        Inl e \<Rightarrow> (Inl e, LoginCommand username dh identity signature, n)
      | Inr ik \<Rightarrow>
     (case sign (pe_ssl env) (px_es (px n)) of
        Inl e \<Rightarrow> (Inl e, LoginCommand username dh ik signature, n)
      | Inr sig \<Rightarrow> (Inr (), LoginCommand username dh ik sig, px_modify (\<lambda>c. c\<lparr>px_my_username := username\<rparr>) n))))"

definition connect_send_from_peer :: "peer_env \<Rightarrow> string \<Rightarrow> int \<Rightarrow> bytes \<Rightarrow> bytes \<Rightarrow> bytes \<Rightarrow> bytes \<Rightarrow> sending" where
  "connect_send_from_peer env ip port DH identity signature username n =
     (if px_my_username (px n) = [] then (Inr (), ConnectCommand ip port DH identity signature username, n)
      else let me = px_my_username (px n); (fd, n1) = connect_to_peer (pe_sock env) ip (word_of_int port) n in
        if fd = 0 then (Inr (), ConnectCommand ip port DH identity signature me, n1)
        else (case get_DH_bytes (pe_ssl env) (px_es (px n1)) of
                Inl e \<Rightarrow> (Inl e, ConnectCommand ip port DH identity signature me, n1)
              | Inr dh \<Rightarrow>
             (case get_identity_bytes (pe_ssl env) (px_es (px n1)) of
                Inl e \<Rightarrow> (Inl e, ConnectCommand ip port dh identity signature me, n1)
              | Inr ik \<Rightarrow>
             (case sign (pe_ssl env) (px_es (px n1)) of
                Inl e \<Rightarrow> (Inl e, ConnectCommand ip port dh ik signature me, n1)
              | Inr sig \<Rightarrow>
                 (let (r, n2) = peer_send_message fd (connect_toMessage (pe_now env) ip port dh ik sig me) n1 in
                  (r, ConnectCommand ip port dh ik sig me, n2))))))"

text \<open>\<open>PeerApplicationService\<close>: the bodies of both functions are commented out.\<close>

definition disconnect_peer :: "string \<Rightarrow> unit peer" where
  "disconnect_peer username = ret ()"

definition send_private_message :: "bytes \<Rightarrow> bytes \<Rightarrow> unit peer" where
  "send_private_message recipient payload = ret ()"

definition disconnect_send_from_peer :: "string \<Rightarrow> unit peer" where
  "disconnect_send_from_peer username = (if username = [] then ret () else disconnect_peer username)"

definition pmess_send_from_peer :: "bytes \<Rightarrow> bytes \<Rightarrow> unit peer" where
  "pmess_send_from_peer recipient payload =
     (if recipient = [] \<or> payload = [] then ret () else send_private_message recipient payload)"

definition exit_send_from_peer :: "peer_env \<Rightarrow> unit peer" where
  "exit_send_from_peer env = peer_stop (pe_iter env)"

text \<open>\<open>res_fd.error()\<close> on a result that holds a descriptor has no defined outcome, \<open>*res_fd\<close> on one that holds another
  error neither.\<close>

definition getpub_send_from_peer :: "bytes \<Rightarrow> unit peer" where
  "getpub_send_from_peer username n = (case get_fd (px_sessions (px n)) (to_string username) of
       Inl UserNotFound \<Rightarrow> (Inr (), n)
     | Inl _ \<Rightarrow> (Inl (Undefined ''dereference of an unexpected result''), n)
     | Inr _ \<Rightarrow> (Inl (Undefined ''error() of an expected result''), n))"

definition keeping :: "ICommandHandler \<Rightarrow> unit peer \<Rightarrow> sending" where
  "keeping cmd m n = (let (r, n') = m n in (r, cmd, n'))"

fun send_from_peer :: "peer_env \<Rightarrow> ICommandHandler \<Rightarrow> sending" where
  "send_from_peer env (LoginCommand u d i s) = login_send_from_peer env u d i s"
| "send_from_peer env (ConnectCommand ip port d i s u) = connect_send_from_peer env ip port d i s u"
| "send_from_peer env (DisconnectCommand u) = keeping (DisconnectCommand u) (disconnect_send_from_peer u)"
| "send_from_peer env (PrivateMessageCommand r p) = keeping (PrivateMessageCommand r p) (pmess_send_from_peer r p)"
| "send_from_peer env (GetPubkeyCommand u) = keeping (GetPubkeyCommand u) (getpub_send_from_peer u)"
| "send_from_peer env ExitCommand = keeping ExitCommand (exit_send_from_peer env)"
| "send_from_peer env cmd = keeping cmd (ret ())"


section \<open>Command bus\<close>

definition peer_bus_dispatchSending :: "peer_env \<Rightarrow> Message \<Rightarrow> CommandRegistry \<Rightarrow> peer_node \<Rightarrow> unit cpp \<times> CommandRegistry \<times> peer_node" where
  "peer_bus_dispatchSending env msg registry n =
     (let name = pc_name (make_struct_from_command msg) in
      case find_command registry name of
        None \<Rightarrow> (Inr (), registry, n)
      | Some handler \<Rightarrow>
         (case fromMessage handler msg of
            (Inl e, handler') \<Rightarrow> (Inl e, registry(name \<mapsto> handler'), n)
          | (Inr _, handler') \<Rightarrow>
             let (res, handler'', n') = send_from_peer env handler' n in (res, registry(name \<mapsto> handler''), n')))"

definition peer_bus_dispatchReceiving :: "peer_env \<Rightarrow> Message \<Rightarrow> CommandRegistry \<Rightarrow> peer_node \<Rightarrow> unit cpp \<times> CommandRegistry \<times> peer_node" where
  "peer_bus_dispatchReceiving env msg registry n =
     (let name = pc_name (make_struct_from_command msg) in
      case find_command registry name of
        None \<Rightarrow> (Inr (), registry, n)
      | Some handler \<Rightarrow>
         (case fromMessage handler msg of
            (Inl e, handler') \<Rightarrow> (Inl e, registry(name \<mapsto> handler'), n)
          | (Inr _, handler') \<Rightarrow>
             let (res, n') = recv_on_peer env handler' (px_fd (px n)) n in (res, registry(name \<mapsto> handler'), n')))"

definition peer_registry :: CommandRegistry where
  "peer_registry = register_all [''exit'', ''connect'', ''disconnect'', ''pmess'', ''login'']"


section \<open>Message handlers\<close>

definition handle_connect_response :: "peer_env \<Rightarrow> Message \<Rightarrow> unit peer" where
  "handle_connect_response env msg n =
     (let username = to_string (get_payload msg);
          (res, users) = register_user (px_users (px n)) username (get_meta msg 1) (get_meta msg 2) (get_meta msg 3);
          n1 = px_modify (\<lambda>c. c\<lparr>px_users := users\<rparr>) n in
      case res of
        Inl _ \<Rightarrow> (Inr (), n1)
      | Inr _ \<Rightarrow>
         andThen (modify (px_modify (\<lambda>c. c\<lparr>px_sessions := bind (px_sessions c) (px_fd c) username\<rparr>)))
           (\<lambda>_. peer_cache_key env (get_payload msg) (get_meta msg 1) (get_meta msg 2)) n1)"

definition peer_response_handleReceiving :: "peer_env \<Rightarrow> Message \<Rightarrow> unit peer" where
  "peer_response_handleReceiving env msg =
     (if get_meta msg 0 = [] then ret ()
      else if CommandType_of_byte (hd (get_meta msg 0)) = CONNECT then handle_connect_response env msg
      else ret ())"

text \<open>\<open>messages_counter[sender]\<close> makes an entry; the plaintext is only printed.\<close>

definition peer_cipher_handleReceiving :: "peer_env \<Rightarrow> Message \<Rightarrow> unit peer" where
  "peer_cipher_handleReceiving env msg n =
     (let sender = get_meta msg 0;
          counter = (case px_counter (px n) sender of None \<Rightarrow> 0 | Some k \<Rightarrow> k);
          (res, es) = decrypt_for (pe_ssl env) (px_es (px n)) sender (px_my_username (px n)) (get_payload msg) (get_meta msg 1) counter in
      (bindr res (\<lambda>_. Inr ()), px_modify (\<lambda>c. c\<lparr>px_counter := (px_counter c)(sender \<mapsto> counter), px_es := es\<rparr>) n))"

definition peer_text_handleSending :: "Message \<Rightarrow> unit peer" where
  "peer_text_handleSending msg = modify (broadcast (serialize msg))"

fun handleSending :: "peer_env \<Rightarrow> Message \<Rightarrow> IPeerMessageHandler \<Rightarrow> peer_node \<Rightarrow> unit cpp \<times> IPeerMessageHandler \<times> peer_node" where
  "handleSending env msg PeerTextHandler n = (let (r, n') = peer_text_handleSending msg n in (r, PeerTextHandler, n'))"
| "handleSending env msg (PeerCommandHandler reg) n =
     (let (r, reg', n') = peer_bus_dispatchSending env msg reg n in (r, PeerCommandHandler reg', n'))"
| "handleSending env msg h n = (Inr (), h, n)"

fun handleReceiving :: "peer_env \<Rightarrow> Message \<Rightarrow> IPeerMessageHandler \<Rightarrow> peer_node \<Rightarrow> unit cpp \<times> IPeerMessageHandler \<times> peer_node" where
  "handleReceiving env msg (PeerCommandHandler reg) n =
     (let (r, reg', n') = peer_bus_dispatchReceiving env msg reg n in (r, PeerCommandHandler reg', n'))"
| "handleReceiving env msg PeerCipherHandler n = (let (r, n') = peer_cipher_handleReceiving env msg n in (r, PeerCipherHandler, n'))"
| "handleReceiving env msg PeerResponseHandler n = (let (r, n') = peer_response_handleReceiving env msg n in (r, PeerResponseHandler, n'))"
| "handleReceiving env msg h n = (Inr (), h, n)"


section \<open>Dispatcher and MessagingPeer\<close>

definition peer_registerHandler :: "MessageType \<Rightarrow> IPeerMessageHandler \<Rightarrow> MessagingPeer \<Rightarrow> MessagingPeer" where
  "peer_registerHandler t h mp = mp\<lparr>mp_handlers := (mp_handlers mp)(t \<mapsto> h)\<rparr>"

definition peer_hasHandleFor :: "MessagingPeer \<Rightarrow> MessageType \<Rightarrow> bool" where
  "peer_hasHandleFor mp t = (mp_handlers mp t \<noteq> None)"

definition peer_clear :: "MessagingPeer \<Rightarrow> MessagingPeer" where
  "peer_clear mp = mp\<lparr>mp_handlers := Map.empty\<rparr>"

text \<open>One call of a handler; the object it leaves is the one in the table.\<close>

definition run_handler :: "(Message \<Rightarrow> IPeerMessageHandler \<Rightarrow> peer_node \<Rightarrow> unit cpp \<times> IPeerMessageHandler \<times> peer_node) \<Rightarrow>
    IPeerMessageHandler \<Rightarrow> Message \<Rightarrow> bool peer" where
  "run_handler f h msg n =
     (let (res, h', n') = f msg h n in
      (bindr res (\<lambda>_. Inr True), n'\<lparr>pn_app := (pn_app n')\<lparr>mp_handlers := (mp_handlers (pn_app n'))(get_type msg \<mapsto> h')\<rparr>\<rparr>))"

definition dispatchSending :: "peer_env \<Rightarrow> Message \<Rightarrow> bool peer" where
  "dispatchSending env msg n = (case mp_handlers (pn_app n) (get_type msg) of
       None \<Rightarrow> (Inr False, n)
     | Some h \<Rightarrow> try_catch (run_handler (handleSending env) h msg) (ret False) n)"

definition dispatchReceiving :: "peer_env \<Rightarrow> Message \<Rightarrow> bool peer" where
  "dispatchReceiving env msg n = (case mp_handlers (pn_app n) (get_type msg) of
       None \<Rightarrow> (Inr False, n)
     | Some h \<Rightarrow> try_catch (run_handler (handleReceiving env) h msg) (ret False) n)"

text \<open>The callback of the node; the deserializer is not inside a \<open>try\<close>.\<close>

definition peer_on_data :: "peer_env \<Rightarrow> int \<Rightarrow> bytes \<Rightarrow> unit peer" where
  "peer_on_data env fd raw_data =
     andThen (lift (deserialize raw_data)) (\<lambda>msg.
     andThen (modify (px_modify (\<lambda>c. c\<lparr>px_fd := fd\<rparr>))) (\<lambda>_.
     andThen (dispatchReceiving env msg) (\<lambda>_. ret ())))"

definition MessagingPeer_handlers :: "PeerContext \<Rightarrow> MessagingPeer" where
  "MessagingPeer_handlers ctx =
     fold (\<lambda>(t, h). peer_registerHandler t h)
       [(Text, PeerTextHandler), (Command, PeerCommandHandler peer_registry), (CipherMessage, PeerCipherHandler),
        (Response, PeerResponseHandler), (FileStart, PeerFileStartHandler), (FileChunk, PeerFileChunkHandler),
        (FileEnd, PeerFileEndHandler)]
       \<lparr>mp_handlers = Map.empty, mp_context = ctx\<rparr>"

definition create_tcp_peer :: "EventLoop \<Rightarrow> 'a \<Rightarrow> 'a PeerNode" where
  "create_tcp_peer el app = PeerNode_ctor (ISocket_ctor TCP 0) el app"

definition create_udp_peer :: "EventLoop \<Rightarrow> 'a \<Rightarrow> 'a PeerNode" where
  "create_udp_peer el app = PeerNode_ctor (ISocket_ctor UDP 0) el app"

definition MessagingPeer_ctor :: "EventLoop \<Rightarrow> sock_io \<Rightarrow> PeerContext \<Rightarrow> int \<Rightarrow> unit cpp \<times> peer_node" where
  "MessagingPeer_ctor el i ctx port =
     start_listening i (word_of_int port) (create_tcp_peer el (MessagingPeer_handlers ctx))"

definition peer_run :: "peer_env \<Rightarrow> peer_io epoll_result list \<Rightarrow> unit peer" where
  "peer_run env = peer_run_event_loop (peer_on_data env)"

definition stop_peer :: "peer_env \<Rightarrow> unit peer" where
  "stop_peer env = peer_stop (pe_iter env)"

definition send_msg :: "peer_env \<Rightarrow> string \<Rightarrow> unit peer" where
  "send_msg env msg_to_send =
     andThen (lift (parse (pe_now env) msg_to_send)) (\<lambda>msg. andThen (dispatchSending env msg) (\<lambda>_. ret ()))"

section \<open>The callback keeps the links of the node\<close>

lemma px_modify_simps [simp]:
  "px (px_modify f n) = f (px n)" "pn_by_fd (px_modify f n) = pn_by_fd n" "pn_event_loop (px_modify f n) = pn_event_loop n"
  "mp_handlers (pn_app (px_modify f n)) = mp_handlers (pn_app n)" "same_links n0 (px_modify f n) = same_links n0 n"
  by (simp_all add: px_modify_def)

lemma keeps_peer_send_message: "keeps (same_links n0) (peer_send_message fd m)"
  unfolding peer_send_message_def
  by (intro keeps_andThen keeps_lift keeps_modify) (erule same_links_trans, rule same_links_send_to_peer)

lemma keeps_pubkey_answer: "keeps (same_links n0) (pubkey_answer env u fd)"
  unfolding keeps_def pubkey_answer_def andThen_eval
  using keeps_peer_send_message unfolding keeps_def by (auto split: sum.split)

lemma keeps_peer_cache_key: "keeps (same_links n0) (peer_cache_key env u k i)"
  by (simp add: keeps_def peer_cache_key_def split: prod.split)

lemma keeps_then_state: "keeps P m \<Longrightarrow> (\<And>x s. P s \<Longrightarrow> P (snd (f x s))) \<Longrightarrow> P s \<Longrightarrow> P (snd (andThen m f s))"
  using keeps_andThen [of P m f] unfolding keeps_def by blast

lemma keeps_connect_recv: "keeps (same_links n0) (connect_recv_on_peer env d i s u fd)"
proof -
  have answer: "same_links n0 (snd (case own_keys env n2 of Inl e \<Rightarrow> (Inl e, n2)
      | Inr y \<Rightarrow> (case y of (dh, ik, sig) \<Rightarrow> peer_send_message fd (g dh ik sig)) n2))"
    if "same_links n0 n2" for n2 g
    using that keeps_peer_send_message [of n0 fd] unfolding keeps_def by (auto split: sum.split)
  have "same_links n0 (snd (connect_recv_on_peer env d i s u fd n))" if "same_links n0 n" for n
    using that unfolding connect_recv_on_peer_def Let_def
    by (auto simp: andThen_eval split: prod.split intro!: keeps_then_state [OF keeps_peer_cache_key] answer)
  then show ?thesis by (simp add: keeps_def)
qed

lemma keeps_recv_on_peer: "keeps (same_links n0) (recv_on_peer env cmd fd)"
  by (cases cmd) (auto simp: login_recv_on_peer_def getpub_recv_on_peer_def keeps_pubkey_answer keeps_connect_recv
      keeps_def [of _ "disconnect_recv_on_peer fd"] disconnect_recv_on_peer_def split: sum.split)

lemma links_bus_receiving: "same_links n0 n \<Longrightarrow> same_links n0 (snd (snd (peer_bus_dispatchReceiving env msg reg n)))"
  using keepsD [OF keeps_recv_on_peer, of n0 n]
  by (auto simp: peer_bus_dispatchReceiving_def Let_def split: option.split prod.splits sum.split) (metis snd_conv)

lemma links_response: "keeps (same_links n0) (peer_response_handleReceiving env msg)"
  using keeps_peer_cache_key [of n0 env]
  by (auto simp: keeps_def peer_response_handleReceiving_def handle_connect_response_def ret_def andThen_eval Let_def split: prod.split sum.split)

lemma links_handleReceiving: "same_links n0 n \<Longrightarrow> same_links n0 (snd (snd (handleReceiving env msg h n)))"
  using links_bus_receiving [of n0 n env msg] keepsD [OF links_response, of n0 n env msg]
  by (cases h) (auto simp: peer_cipher_handleReceiving_def Let_def split: prod.splits, (metis snd_conv)+)

lemma links_peer_on_data: "keeps (same_links n0) (peer_on_data env fd raw)"
proof -
  have "keeps (same_links n0) (dispatchReceiving env msg)" for msg
  proof -
    have "keeps (same_links n0) (run_handler (handleReceiving env) h msg)" for h
      using links_handleReceiving [of n0 _ env msg h] by (auto simp: keeps_def run_handler_def split: prod.split) (metis snd_conv)
    then have "keeps (same_links n0) (try_catch (run_handler (handleReceiving env) h msg) (ret False))" for h
      by (intro keeps_try_catch) simp_all
    then show ?thesis by (simp add: keeps_def dispatchReceiving_def split: option.split)
  qed
  then show ?thesis unfolding peer_on_data_def by (intro keeps_andThen keeps_modify) simp_all
qed

text \<open>Nothing the application computes ends with an error of the node.\<close>

definition calm :: "'a cpp \<Rightarrow> bool" where
  "calm r \<longleftrightarrow> (\<forall>e. r = Inl e \<longrightarrow> \<not> link_error e)"

lemma calm_Inr [simp]: "calm (Inr x)"
  by (simp add: calm_def)

lemma calm_Undefined [simp]:
  "calm (Inl (Undefined w)) \<longleftrightarrow> w \<in> known_undefined"
  by (simp add: calm_def link_error_def)

lemma calm_exception: "is_exception e \<Longrightarrow> calm (Inl e)"
  by (cases e) (simp_all add: calm_def link_error_def)

lemma calm_bindr [intro]: "calm r \<Longrightarrow> (\<And>x. calm (f x)) \<Longrightarrow> calm (bindr r f)"
  by (cases r) (simp_all add: calm_def)

lemma calm_no_undefined: "no_undefined r \<Longrightarrow> calm r"
  by (cases r) (simp_all add: no_undefined_def calm_exception)

lemma calm_keys: "calm (DH_public_bytes ssl k)" "calm (identity_public_bytes ssl k)" "calm (identity_sign ssl k m)" "calm (identity_verify ssl k m sig)"
  by (simp_all add: DH_public_bytes_def identity_public_bytes_def identity_sign_def identity_verify_def calm_exception
      split: option.split sum.split sign_failure.split verify_failure.split)

lemma calm_own_keys: "calm (own_keys env n)"
  unfolding own_keys_def get_DH_bytes_def get_identity_bytes_def sign_def by (intro calm_bindr calm_keys calm_Inr)

lemma calm_cache: "calm (fst (cache_public_key ssl es u k i))"
  by (simp add: cache_public_key_def DH_from_public_bytes_def identity_from_public_bytes_def calm_exception Let_def split: option.split)

lemma calm_aes_decrypt: "calm (aes_decrypt ssl key input counter)"
  using is_exception_gcm_error by (simp add: aes_decrypt_def calm_exception Let_def split: sum.split)

lemma calm_derive: "calm (derive_for_messaging ssl sec a b purpose)"
  using is_exception_hkdf_error by (simp add: derive_for_messaging_def HKDF_derive_def calm_exception Let_def split: sum.split)

lemma calm_decrypt_for: "calm (fst (decrypt_for ssl es u v c sig n))"
  by (auto simp: decrypt_for_def key_not_found_def calm_exception Let_def split: option.split
      intro!: calm_bindr calm_keys calm_derive calm_aes_decrypt)

lemma calm_Message_ctor: "calm (Message_ctor now p ms t)"
  unfolding Message_ctor_def Let_def by (intro calm_bindr calm_Inr calm_no_undefined no_undefined_reads)

lemma calm_andThen: "calm (fst (m s)) \<Longrightarrow> (\<And>x s'. calm (fst (f x s'))) \<Longrightarrow> calm (fst (andThen m f s))"
  by (simp add: andThen_def calm_def split: prod.split sum.split)

lemma calm_send: "calm (fst (peer_send_message fd (Message_ctor now p ms t) n))"
  unfolding peer_send_message_def
  by (intro calm_andThen) (simp_all add: calm_Message_ctor modify_def lift_def)

lemma calm_pubkey_answer: "calm (fst (pubkey_answer env u fd n))"
  unfolding pubkey_answer_def by (intro calm_andThen) (simp_all add: calm_own_keys calm_send lift_def split: prod.split)

lemma calm_peer_cache_key: "calm (fst (peer_cache_key env u k i n))"
  using calm_cache by (simp add: peer_cache_key_def split: prod.split) (metis fst_conv)

lemma calm_connect_recv: "calm (fst (connect_recv_on_peer env d i s u fd n))"
  unfolding connect_recv_on_peer_def Let_def
  by (auto split: prod.split intro!: calm_andThen simp: calm_peer_cache_key calm_own_keys calm_send lift_def modify_def)

lemma calm_recv_on_peer: "calm (fst (recv_on_peer env cmd fd n))"
  by (cases cmd) (auto simp: login_recv_on_peer_def getpub_recv_on_peer_def calm_pubkey_answer calm_connect_recv
      disconnect_recv_on_peer_def ret_def split: sum.split)

lemma calm_fromMessage: "calm (fst (fromMessage cmd msg))"
  by (cases cmd) (simp_all add: stoi_def calm_exception Let_def split: sum.split if_split)

lemma calm_bus_receiving: "calm (fst (peer_bus_dispatchReceiving env msg reg n))"
  using calm_fromMessage [of _ msg] calm_recv_on_peer [of env]
  by (auto simp: peer_bus_dispatchReceiving_def Let_def split: option.split prod.splits sum.splits) (metis fst_conv)+

lemma calm_response: "calm (fst (peer_response_handleReceiving env msg n))"
  by (auto simp: peer_response_handleReceiving_def handle_connect_response_def ret_def Let_def modify_def calm_peer_cache_key
      split: prod.split sum.split intro!: calm_andThen)

lemma calm_handleReceiving: "calm (fst (handleReceiving env msg h n))"
proof (cases h)
  case (PeerCommandHandler reg)
  then show ?thesis using calm_bus_receiving [of env msg reg n] by (simp split: prod.split) (metis fst_conv)
next
  case PeerCipherHandler
  then show ?thesis
    by (auto simp: peer_cipher_handleReceiving_def Let_def split: prod.splits intro!: calm_bindr) (metis calm_decrypt_for fst_conv)
next
  case PeerResponseHandler
  then show ?thesis using calm_response [of env msg n] by (simp split: prod.split) (metis fst_conv)
qed simp_all

lemma calm_peer_on_data: "calm (fst (peer_on_data env fd raw n))"
proof -
  have "calm (fst (run_handler (handleReceiving env) h msg n))" for h msg n
    using calm_handleReceiving [of env msg h n] by (auto simp: run_handler_def split: prod.splits intro!: calm_bindr)
  then have "calm (fst (dispatchReceiving env msg n))" for msg n
    by (simp add: dispatchReceiving_def try_catch_def ret_def calm_def split: option.split prod.split sum.split) (metis fst_conv)
  then show ?thesis unfolding peer_on_data_def
    by (intro calm_andThen) (simp_all add: calm_no_undefined no_undefined_deserialize lift_def modify_def ret_def)
qed

interpretation chat_peer: peer_application "peer_on_data env"
proof
  show "same_links n n'" if "peer_on_data env fd m n = (r, n')" for fd m n r n'
    using keepsD [OF links_peer_on_data, of n n env fd m] that by simp
  show "\<not> link_error e" if "peer_on_data env fd m n = (Inl e, n')" for fd m n e n'
    using calm_peer_on_data [of env fd m n] that by (simp add: calm_def)
qed

end
