(* ===== verification/Peer_Properties.thy ===== *)
theory Peer_Properties
  imports Peer_App
begin

text \<open>
  What holds of a peer: the tables of its node agree in every reachable state, its loop over received messages ends,
  the handshake of two peers gives each the keys of the other, and what a peer that has not shaken hands can do.
\<close>

section \<open>Reachable nodes\<close>

text \<open>
  A peer runs rounds of its event loop and lines typed by its user, in any order; each step with results of the system calls
  of its own.
\<close>

inductive peer_reaches :: "peer_node \<Rightarrow> peer_node \<Rightarrow> bool" for n0 where
  start: "peer_reaches n0 n0"
| round: "peer_reaches n0 n \<Longrightarrow> peer_round (peer_on_data env) ep n = (Inr (), n') \<Longrightarrow> peer_reaches n0 n'"
| line: "peer_reaches n0 n \<Longrightarrow> send_msg env l n = (r, n') \<Longrightarrow> peer_reaches n0 n'"

lemma keeps_disconnect: "keeps (peer_inv :: 'a PeerNode \<Rightarrow> bool) (disconnect_from_peer fd)"
proof -
  have "peer_inv (snd (disconnect_from_peer fd n))" if inv: "peer_inv n" for n :: "'a PeerNode"
  proof (cases "fst (disconnect_from_peer fd n)")
    case (Inl e)
    then show ?thesis using inv by (auto simp: disconnect_from_peer_def Let_def split: option.splits if_splits)
  next
    case (Inr r)
    then show ?thesis using peer_inv_disconnect [OF inv] by (metis prod.collapse)
  qed
  then show ?thesis by (simp add: keeps_def)
qed

lemma keeps_disconnect_all: "keeps peer_inv (disconnect_all fds)"
  by (induction fds) (simp_all add: keeps_andThen keeps_disconnect)

lemma keeps_stop: "keeps (peer_inv :: 'a PeerNode \<Rightarrow> bool) (peer_stop iter)"
proof -
  have clear: "peer_inv (n\<lparr>pn_running := False, pn_event_loop := el_stop (pn_event_loop n), pn_peers := {}\<rparr>)" if "peer_inv n" for n :: "'a PeerNode"
    using that by (simp add: peer_inv_def peer_fd_ok_def peer_ip_ok_def cong: option.case_cong)
  have "keeps (peer_inv :: 'a PeerNode \<Rightarrow> bool) (andThen (disconnect_all fds) (\<lambda>_. modify (\<lambda>n. n\<lparr>pn_running := False, pn_event_loop := el_stop (pn_event_loop n), pn_peers := {}\<rparr>)))"
    for fds by (intro keeps_andThen keeps_disconnect_all keeps_modify clear)
  then show ?thesis by (simp add: keeps_def peer_stop_def)
qed

lemma peer_inv_app [simp]: "peer_inv (n\<lparr>pn_app := a\<rparr>) = peer_inv n"
  using peer_inv_links [of n "n\<lparr>pn_app := a\<rparr>"] peer_inv_links [of "n\<lparr>pn_app := a\<rparr>" n]
  by (auto simp: same_links_def)

lemma inv_connect_to_peer: "peer_inv n \<Longrightarrow> peer_inv (snd (connect_to_peer i ip port n))"
  using peer_inv_register [of n] by (simp add: connect_to_peer_def Let_def split_beta)

lemma inv_links_of: "peer_inv n \<Longrightarrow> keeps (same_links n) m \<Longrightarrow> peer_inv (snd (m n))"
  using peer_inv_links keepsD [of "same_links n" m n] by auto

lemma inv_connect_send: "peer_inv n \<Longrightarrow> peer_inv (snd (snd (connect_send_from_peer env ip port d i s u n)))"
  using inv_connect_to_peer [of n "pe_sock env" ip "word_of_int port"]
  by (auto simp: connect_send_from_peer_def Let_def split: prod.splits sum.splits)
    (metis inv_links_of keeps_peer_send_message snd_conv)

lemma inv_send_from_peer: "peer_inv n \<Longrightarrow> peer_inv (snd (snd (send_from_peer env cmd n)))"
proof (cases cmd)
  case ExitCommand
  assume "peer_inv n"
  then show ?thesis using ExitCommand keepsD [OF keeps_stop, of n "pe_iter env"] by (simp add: keeping_def exit_send_from_peer_def split: prod.split) (metis snd_conv)
qed (auto simp: keeping_def inv_connect_send login_send_from_peer_def disconnect_send_from_peer_def disconnect_peer_def px_modify_def
    pmess_send_from_peer_def send_private_message_def getpub_send_from_peer_def ret_def split: sum.split ServiceError.split)

lemma inv_handleSending: "peer_inv n \<Longrightarrow> peer_inv (snd (snd (handleSending env msg h n)))"
proof (cases h)
  case (PeerCommandHandler reg)
  assume "peer_inv n"
  then have "peer_inv (snd (snd (peer_bus_dispatchSending env msg reg n)))"
    using inv_send_from_peer [of n env] by (auto simp: peer_bus_dispatchSending_def Let_def split: option.split prod.splits sum.split) (metis snd_conv)
  then show ?thesis using PeerCommandHandler by (simp split: prod.split) (metis snd_conv)
qed (auto simp: peer_text_handleSending_def modify_def intro: peer_inv_links same_links_broadcast)

lemma keeps_send_msg: "keeps peer_inv (send_msg env l)"
proof -
  have "keeps peer_inv (dispatchSending env msg)" for msg
  proof -
    have "keeps peer_inv (run_handler (handleSending env) h msg)" for h
      using inv_handleSending [of _ env msg h] by (auto simp: keeps_def run_handler_def split: prod.split) (metis snd_conv)
    then have "keeps peer_inv (try_catch (run_handler (handleSending env) h msg) (ret False))" for h
      by (intro keeps_try_catch) simp_all
    then show ?thesis by (simp add: keeps_def dispatchSending_def split: option.split)
  qed
  then show ?thesis unfolding send_msg_def by (intro keeps_andThen) simp_all
qed

lemma reaches_inv: "peer_reaches n0 n \<Longrightarrow> peer_inv n0 \<Longrightarrow> peer_inv n"
proof (induction rule: peer_reaches.induct)
  case (round n env ep n')
  then show ?case using chat_peer.round by blast
next
  case (line n env l r n')
  then show ?case using keepsD [OF keeps_send_msg, of n env l] by simp
qed

lemma peer_inv_start:
  assumes "EventLoop_ctor e w = Inr el" "MessagingPeer_ctor el i ctx port = (Inr (), n)"
  shows "peer_inv n"
proof -
  have h: "el_handlers el = Map.empty" using assms(1) by (auto simp: EventLoop_ctor_def split: if_splits)
  show ?thesis
    using assms(2) h
    by (auto simp: MessagingPeer_ctor_def create_tcp_peer_def start_listening_def PeerNode_ctor_def peer_inv_def peer_fd_ok_def peer_ip_ok_def Let_def
        split: prod.splits sum.splits if_splits)
qed

text \<open>A readable event whose receive fails.\<close>

lemma peer_round_failed_receive:
  assumes "fd \<in> pn_peers n" "pn_by_fd n fd = Some s" "fd \<noteq> el_wakeup_fd (pn_event_loop n)" "session_try_receive (pi_io orc) s = (Inr False, s')"
    and "el_handlers (pn_event_loop n) fd = Some PeerEventHandler"
  shows "fst (peer_round cb (Events [(fd, EPOLLIN, orc)]) n) = Inl (Undefined ''iterator used after erase'')"
proof -
  have "\<not> has_flag EPOLLIN (EPOLLERR OR EPOLLHUP OR EPOLLRDHUP)" "has_flag EPOLLIN EPOLLIN"
    by (simp_all add: has_flag_def EPOLLIN_def EPOLLERR_def EPOLLHUP_def EPOLLRDHUP_def)
  then show ?thesis
    using assms by (simp add: peer_round_def MAX_EVENTS_def andThen_def peer_handle_event_def peer_readable_def Let_def)
qed

text \<open>
  C14: the tables of a peer agree. From the start of a peer, after any rounds of its event loop and any lines its user types,
  every descriptor the handler watches has a session, exactly the descriptors with a session are handled by the peer's
  event handler, a session is stored under its own descriptor, and an address is mapped to a session with that
  address. The next round never uses a session that is not there: if it runs into undefined behaviour, it is the iterator
  used after its element was erased, the framer reading past its buffer, or a handler using the value of a result that is an error or a key that is
  not there. The first of these is reached: a readable event whose receive fails, as when the other side has closed the connection,
  erases the map entry and then goes through the iterator to it (\<open>handling.cpp:147\<close>).
\<close>

theorem peer_tables_agree:
  assumes "EventLoop_ctor e w = Inr el" "MessagingPeer_ctor el i ctx port = (Inr (), n0)" "peer_reaches n0 n"
  shows "pn_peers n \<subseteq> dom (pn_by_fd n) \<and>
    {fd. el_handlers (pn_event_loop n) fd = Some PeerEventHandler} = dom (pn_by_fd n) \<and>
    (\<forall>fd s. pn_by_fd n fd = Some s \<longrightarrow> ps_fd s = fd) \<and>
    (\<forall>ip fd. pn_by_ip n ip = Some fd \<longrightarrow> (\<exists>s. pn_by_fd n fd = Some s \<and> ps_ip s = ip)) \<and>
    (\<forall>w. fst (peer_round (peer_on_data env) ep n) = Inl (Undefined w) \<longrightarrow> w \<in> known_undefined) \<and>
    (\<forall>fd s s' orc. fd \<in> pn_peers n \<and> pn_by_fd n fd = Some s \<and> fd \<noteq> el_wakeup_fd (pn_event_loop n) \<and>
      session_try_receive (pi_io orc) s = (Inr False, s') \<longrightarrow>
      fst (peer_round (peer_on_data env) (Events [(fd, EPOLLIN, orc)]) n) = Inl (Undefined ''iterator used after erase''))"
proof -
  have inv: "peer_inv n" by (rule reaches_inv [OF assms(3) peer_inv_start [OF assms(1, 2)]])
  obtain r n' where r: "peer_round (peer_on_data env) ep n = (r, n')" by force
  have "w \<in> known_undefined" if "r = Inl (Undefined w)" for w
    using chat_peer.round [OF inv r] that by (simp add: link_error_def)
  moreover have fds: "peer_fd_ok n fd" and ips: "peer_ip_ok n ip" for fd ip using inv by (simp_all add: peer_inv_def)
  have "pn_peers n \<subseteq> dom (pn_by_fd n)" "{fd. el_handlers (pn_event_loop n) fd = Some PeerEventHandler} = dom (pn_by_fd n)"
      "\<forall>fd s. pn_by_fd n fd = Some s \<longrightarrow> ps_fd s = fd"
    using fds unfolding peer_fd_ok_def by blast+
  moreover have "\<exists>s. pn_by_fd n fd = Some s \<and> ps_ip s = ip" if "pn_by_ip n ip = Some fd" for ip fd
    using ips [of ip] that by (simp add: peer_ip_ok_def split: option.splits)
  moreover have "fst (peer_round (peer_on_data env) (Events [(fd, EPOLLIN, orc)]) n) = Inl (Undefined ''iterator used after erase'')"
    if "fd \<in> pn_peers n" "pn_by_fd n fd = Some s" "fd \<noteq> el_wakeup_fd (pn_event_loop n)" "session_try_receive (pi_io orc) s = (Inr False, s')"
    for fd s s' orc
  proof -
    have "el_handlers (pn_event_loop n) fd = Some PeerEventHandler" using fds [of fd] that(2) by (simp add: peer_fd_ok_def)
    then show ?thesis using that by (simp add: peer_round_failed_receive)
  qed
  ultimately show ?thesis using r by simp
qed

definition sample_sock :: sock_io where
  "sample_sock = \<lparr>sk_socket = 8, sk_inet_pton = 1, sk_bind = 0, sk_listen = 0, sk_setsockopt = 0, sk_connect = 0, sk_errno = 0, sk_strerror = []\<rparr>"

definition sample_px :: "EncryptionService \<Rightarrow> bytes \<Rightarrow> PeerContext" where
  "sample_px es name = \<lparr>px_users = Map.empty, px_sessions = SessionManager_ctor, px_es = es, px_my_username = name, px_counter = Map.empty, px_fd = 0\<rparr>"

definition sample_penv :: peer_env where
  "sample_penv = \<lparr>pe_now = 0, pe_ssl = sample_ssl, pe_sock = sample_sock\<lparr>sk_socket := 9\<rparr>, pe_iter = (\<lambda>_. [])\<rparr>"

definition sample_node :: "EncryptionService \<Rightarrow> bytes \<Rightarrow> peer_node" where
  "sample_node es name = snd (MessagingPeer_ctor sample_loop sample_sock (sample_px es name) 5000)"

definition sample_accept :: "peer_io epoll_result" where
  "sample_accept = Events [(8, EPOLLIN, \<lparr>pi_accept = 9, pi_accept_ip = ''10.0.0.2'', pi_io = sample_io\<rparr>)]"

definition sample_linked :: "EncryptionService \<Rightarrow> bytes \<Rightarrow> peer_node" where
  "sample_linked es name = snd (peer_round (peer_on_data sample_penv) sample_accept (sample_node es name))"

lemma sample_start: "EventLoop_ctor 3 4 = Inr sample_loop" "MessagingPeer_ctor sample_loop sample_sock ctx 5000 = (Inr (), snd (MessagingPeer_ctor sample_loop sample_sock ctx 5000))"
  by (simp_all add: EventLoop_ctor_def sample_loop_def MessagingPeer_ctor_def create_tcp_peer_def start_listening_def PeerNode_ctor_def setup_server_def
      tcp_server_def ISocket_ctor_def RawSocket_ctor_def create_socket_def sample_sock_def Let_def)

lemma sample_node_eq:
  "el_handlers (pn_event_loop (sample_node es name)) = [8 \<mapsto> PeerAcceptHandler]" "el_wakeup_fd (pn_event_loop (sample_node es name)) = 4"
  "pn_by_fd (sample_node es name) = Map.empty" "pn_app (sample_node es name) = MessagingPeer_handlers (sample_px es name)"
  "is_type (pn_listening (sample_node es name)) = TCP"
  by (simp_all add: sample_node_def MessagingPeer_ctor_def create_tcp_peer_def start_listening_def PeerNode_ctor_def setup_server_def
      tcp_server_def ISocket_ctor_def RawSocket_ctor_def create_socket_def sample_sock_def sample_loop_def Let_def)

lemma sample_linked_eq:
  "peer_round (peer_on_data sample_penv) sample_accept (sample_node es name) = (Inr (), sample_linked es name)"
  "pn_by_fd (sample_linked es name) = [9 \<mapsto> sample_peer ''10.0.0.2'' 9]" "pn_app (sample_linked es name) = MessagingPeer_handlers (sample_px es name)"
  by (simp_all add: sample_linked_def sample_accept_def peer_round_def MAX_EVENTS_def sample_node_eq andThen_def ret_def peer_accept_handle_event_def
      has_flag_def EPOLLIN_def peer_tcp_accept_def sample_peer_def register_peer_connection_def add_peer_def PeerSession_ctor_def Let_def)

theorem peer_tables_agree_witness:
  "{fd. el_handlers (pn_event_loop (sample_linked sample_alice [65])) fd = Some PeerEventHandler} = {9}"
  using peer_tables_agree [OF sample_start(1) sample_start(2) [of "sample_px sample_alice [65]"],
      folded sample_node_def, OF peer_reaches.round [OF peer_reaches.start sample_linked_eq(1)]]
  by (simp add: sample_linked_eq(2))

section \<open>The loop over received messages\<close>

text \<open>
  C25: the loop over the complete messages of a peer ends. Whatever is in the receive buffer, a bound of its length
  on the number of rounds is never reached and a larger bound changes nothing; and when the buffer is a sequence of
  frames and a rest without a complete one, the callback gets exactly the messages of the frames, in order, each
  taken off the buffer before its callback.
\<close>

theorem peer_loop_ends:
  assumes "pn_by_fd n fd = Some s"
  shows "fst (peer_loop (peer_on_data env) (length (ps_in s)) fd n) \<noteq> Inl (Undefined ''out of fuel'') \<and>
    (\<forall>k. peer_loop (peer_on_data env) (length (ps_in s) + k) fd n = peer_loop (peer_on_data env) (length (ps_in s)) fd n) \<and>
    (\<forall>ds left. ps_in s = concat (map frame ds) @ left \<and> (\<forall>d\<in>set ds. length d < 4294967296) \<and> \<not> has_message_in_buffer left \<longrightarrow>
      peer_loop (peer_on_data env) (length (ps_in s)) fd n = peer_deliver (peer_on_data env) fd ds n)"
proof -
  obtain r n' where r: "peer_loop (peer_on_data env) (length (ps_in s)) fd n = (r, n')" by force
  have "length ds \<le> length (concat (map frame ds))" for ds by (induction ds) simp_all
  then have "length ds \<le> length (concat (map frame ds) @ left)" for ds left by (metis le_add1 length_append order_trans)
  then have "peer_loop (peer_on_data env) (length (ps_in s)) fd n = peer_deliver (peer_on_data env) fd ds n"
    if "ps_in s = concat (map frame ds) @ left" "\<forall>d\<in>set ds. length d < 4294967296" "\<not> has_message_in_buffer left" for ds left
    using chat_peer.loop_delivers [OF assms that] that(1) by metis
  then show ?thesis using chat_peer.loop_enough [OF assms order_refl r] r by (auto simp: link_error_def known_undefined_def)
qed

definition sample_receiving :: peer_node where
  "sample_receiving = (sample_linked sample_alice [65])\<lparr>pn_by_fd := [9 \<mapsto> (sample_peer ''10.0.0.2'' 9)\<lparr>ps_in := frame [0, 0, 0, 0, 0, 0] @ [7]\<rparr>]\<rparr>"

theorem peer_loop_ends_witness:
  "peer_loop (peer_on_data sample_penv) 11 9 sample_receiving = peer_deliver (peer_on_data sample_penv) 9 [[0, 0, 0, 0, 0, 0]] sample_receiving"
proof -
  let ?s = "(sample_peer ''10.0.0.2'' 9)\<lparr>ps_in := frame [0, 0, 0, 0, 0, 0] @ [7]\<rparr>"
  have s: "pn_by_fd sample_receiving 9 = Some ?s" by (simp add: sample_receiving_def)
  have b: "ps_in ?s = concat (map frame [[0, 0, 0, 0, 0, 0]]) @ [7] \<and> (\<forall>d\<in>set [[0, 0, 0, 0, 0, 0] :: bytes]. length d < 4294967296) \<and> \<not> has_message_in_buffer [7]"
    by (simp add: has_message_in_buffer_def)
  have l: "length (ps_in ?s) = 11" by simp
  show ?thesis using peer_loop_ends [OF s, of sample_penv] b unfolding l by blast
qed

section \<open>The handshake\<close>

text \<open>A pair of key pairs and what the other side makes of their public halves.\<close>

definition published :: "openssl \<Rightarrow> EncryptionService \<Rightarrow> pkey \<Rightarrow> pkey \<Rightarrow> bytes \<Rightarrow> pkey \<Rightarrow> bytes \<Rightarrow> bool" where
  "published ssl es k k_pub pk i_pub ik \<longleftrightarrow> (\<exists>i. es_DH_key es = Some k \<and> es_identity_key es = Some i \<and>
     get_raw_public_key ssl k = Some pk \<and> get_raw_public_key ssl i = Some ik \<and> new_raw_public_key ssl X25519 pk = Some k_pub \<and>
     new_raw_public_key ssl ED25519 ik = Some i_pub \<and> ed25519_key ssl i i_pub)"

definition keys_added :: "EncryptionService \<Rightarrow> bytes \<Rightarrow> pkey \<Rightarrow> pkey \<Rightarrow> EncryptionService" where
  "keys_added es u k i = es\<lparr>es_DH_keys := (es_DH_keys es)(u \<mapsto> k), es_identity_keys := (es_identity_keys es)(u \<mapsto> Some i)\<rparr>"

lemma keys_added_sel [simp]:
  "es_DH_key (keys_added es u k i) = es_DH_key es" "es_identity_key (keys_added es u k i) = es_identity_key es"
  "es_DH_keys (keys_added es u k i) = (es_DH_keys es)(u \<mapsto> k)" "es_identity_keys (keys_added es u k i) = (es_identity_keys es)(u \<mapsto> Some i)"
  by (simp_all add: keys_added_def)

lemma published_cache:
  "new_raw_public_key ssl X25519 pk = Some k \<Longrightarrow> new_raw_public_key ssl ED25519 ik = Some i \<Longrightarrow>
   cache_public_key ssl es u pk ik = (Inr (), keys_added es u k i)"
  by (simp add: cache_public_key_def DH_from_public_bytes_def identity_from_public_bytes_def keys_added_def)

lemma published_own:
  assumes "published ssl es k k_pub pk i_pub ik" "sign ssl es = Inr sig"
  shows "get_DH_bytes ssl es = Inr pk" "get_identity_bytes ssl es = Inr ik"
  using assms by (auto simp: published_def get_DH_bytes_def get_identity_bytes_def DH_public_bytes_def identity_public_bytes_def)

lemma sign_keys_added [simp]: "sign ssl (keys_added es u k i) = sign ssl es" "get_DH_bytes ssl (keys_added es u k i) = get_DH_bytes ssl es"
  "get_identity_bytes ssl (keys_added es u k i) = get_identity_bytes ssl es"
  by (simp_all add: sign_def get_DH_bytes_def get_identity_bytes_def)

lemma knows_published:
  assumes "published ssl a ka ka_pub pa ia_pub qa" "published ssl b kb kb_pub pb ib_pub qb" "x25519_agree ssl ka ka_pub kb kb_pub"
  shows "knows ssl (keys_added a b_name kb_pub ib_pub) a_name (keys_added b a_name ka_pub ia_pub) b_name"
  using assms unfolding knows_def published_def by auto

text \<open>What is queued for a peer.\<close>

definition peer_out :: "peer_node \<Rightarrow> int \<Rightarrow> bytes" where
  "peer_out n fd = (case pn_by_fd n fd of None \<Rightarrow> [] | Some s \<Rightarrow> ps_out s)"

lemma send_to_peer_out: "pn_by_fd n fd \<noteq> None \<Longrightarrow> peer_out (send_to_peer fd data n) fd = peer_out n fd @ frame data"
  by (auto simp: peer_out_def send_to_peer_def session_send_to_buffer_def form_message_eq)

lemma send_to_peer_sel [simp]: "pn_app (send_to_peer fd data n) = pn_app n" "pn_by_fd (send_to_peer fd data n) x = None \<longleftrightarrow> pn_by_fd n x = None"
  by (simp_all add: send_to_peer_def split: option.split)

definition connect_request :: "bytes \<Rightarrow> string \<Rightarrow> int \<Rightarrow> bytes \<Rightarrow> bytes \<Rightarrow> bytes \<Rightarrow> bytes list" where
  "connect_request name ip port pk ik sig = [[byte_of_CommandType CONNECT], to_bytes ip, to_bytes (int_to_string port), pk, ik, sig]"

text \<open>The side that connects queues its keys on the new session.\<close>

lemma connect_send_step:
  assumes "connect_to_peer (pe_sock env) ip (word_of_int port) n = (fd, n1)" "fd \<noteq> 0" "pn_by_fd n fd = None"
    and "published (pe_ssl env) (px_es (px n)) k k_pub pk i_pub ik" "sign (pe_ssl env) (px_es (px n)) = Inr sig"
    and "me = px_my_username (px n)" "me \<noteq> []" "fits (connect_request me ip port pk ik sig) me"
  shows "\<exists>cmd n2. send_from_peer env (ConnectCommand ip port d i s u) n = (Inr (), cmd, n2) \<and> pn_app n2 = pn_app n \<and> pn_by_fd n2 fd \<noteq> None \<and>
    peer_out n2 fd = frame (serialize (built (pe_now env) me (connect_request me ip port pk ik sig) Command))"
proof -
  have n1: "pn_app n1 = pn_app n" "pn_by_fd n1 fd \<noteq> None" "peer_out n1 fd = []"
    using assms(1-3) by (auto simp: connect_to_peer_def register_peer_connection_def add_peer_def PeerSession_ctor_def peer_out_def Let_def
        split: prod.splits if_splits)
  let ?m = "serialize (built (pe_now env) me (connect_request me ip port pk ik sig) Command)"
  have "connect_toMessage (pe_now env) ip port pk ik sig me = Inr (built (pe_now env) me (connect_request me ip port pk ik sig) Command)"
    using assms(8) by (simp add: connect_request_def)
  then have "send_from_peer env (ConnectCommand ip port d i s u) n = (Inr (), ConnectCommand ip port pk ik sig me, send_to_peer fd ?m n1)"
    using assms published_own [OF assms(4, 5)] n1(1)
    by (simp add: connect_send_from_peer_def peer_send_message_def andThen_eval modify_def Let_def del: connect_toMessage_def)
  moreover have "pn_by_fd (send_to_peer fd ?m n1) fd \<noteq> None" using n1(2) by simp
  ultimately show ?thesis using send_to_peer_out [OF n1(2), of ?m] n1(1, 3) send_to_peer_sel(1) [of fd ?m n1]
    by (metis append_Nil)
qed

text \<open>The other side registers the name, caches the keys and queues its own; nothing else of it changes.\<close>

lemma connect_recv_step:
  assumes "px_users (px n) (to_string u) = None" "new_raw_public_key (pe_ssl env) X25519 pu = Some ku_pub" "new_raw_public_key (pe_ssl env) ED25519 qu = Some iu_pub"
    and "published (pe_ssl env) (px_es (px n)) k k_pub pk i_pub ik" "sign (pe_ssl env) (px_es (px n)) = Inr sig"
    and "fits [[byte_of_CommandType CONNECT], pk, ik, sig] (px_my_username (px n))" "pn_by_fd n fd \<noteq> None"
  shows "\<exists>n'. connect_recv_on_peer env pu qu su u fd n = (Inr (), n') \<and> px_es (px n') = keys_added (px_es (px n)) u ku_pub iu_pub \<and>
    get_fd (px_sessions (px n')) (to_string u) = Inr fd \<and>
    peer_out n' fd = peer_out n fd @ frame (serialize (built (pe_now env) (px_my_username (px n)) [[byte_of_CommandType CONNECT], pk, ik, sig] Response))"
proof -
  let ?m = "serialize (built (pe_now env) (px_my_username (px n)) [[byte_of_CommandType CONNECT], pk, ik, sig] Response)"
  obtain users where users: "register_user (px_users (px n)) (to_string u) pu qu su = (Inr (to_string u), users)"
    using assms(1) by (simp add: register_user_def)
  define n1 where "n1 = px_modify (\<lambda>c. c\<lparr>px_users := users, px_sessions := bind (px_sessions c) fd (to_string u),
      px_es := keys_added (px_es c) u ku_pub iu_pub\<rparr>) n"
  have "own_keys env n1 = Inr (pk, ik, sig)"
    using published_own [OF assms(4, 5)] assms(5) by (simp add: own_keys_def n1_def)
  moreover have "peer_cache_key env u pu qu (px_modify (\<lambda>c. c\<lparr>px_sessions := bind (px_sessions c) fd (to_string u)\<rparr>) (px_modify (\<lambda>c. c\<lparr>px_users := users\<rparr>) n)) = (Inr (), n1)"
    using published_cache [OF assms(2, 3)] by (simp add: peer_cache_key_def n1_def px_modify_def)
  moreover have "px_my_username (px n1) = px_my_username (px n)" by (simp add: n1_def)
  ultimately have "connect_recv_on_peer env pu qu su u fd n = (Inr (), send_to_peer fd ?m n1)"
    using users assms(6) by (simp add: connect_recv_on_peer_def andThen_eval andThen_Inr peer_send_message_def modify_def Let_def)
  moreover have "pn_by_fd n1 fd \<noteq> None" "peer_out n1 fd = peer_out n fd" using assms(7) by (simp_all add: n1_def peer_out_def)
  moreover have "px_es (px n1) = keys_added (px_es (px n)) u ku_pub iu_pub" "get_fd (px_sessions (px n1)) (to_string u) = Inr fd"
    by (simp_all add: n1_def get_fd_def bind_def)
  ultimately show ?thesis using send_to_peer_out [of n1 fd ?m] by auto
qed

text \<open>A message that is handled without an error reaches its handler through the callback.\<close>

lemma on_data_handled:
  assumes "deserialize raw = Inr msg" "mp_handlers (pn_app n) (get_type msg) = Some h"
    and "handleReceiving env msg h (px_modify (\<lambda>c. c\<lparr>px_fd := fd\<rparr>) n) = (Inr (), h', n')"
  shows "peer_on_data env fd raw n = (Inr (), n'\<lparr>pn_app := (pn_app n')\<lparr>mp_handlers := (mp_handlers (pn_app n'))(get_type msg \<mapsto> h')\<rparr>\<rparr>)"
proof -
  have "dispatchReceiving env msg (px_modify (\<lambda>c. c\<lparr>px_fd := fd\<rparr>) n) =
      (Inr True, n'\<lparr>pn_app := (pn_app n')\<lparr>mp_handlers := (mp_handlers (pn_app n'))(get_type msg \<mapsto> h')\<rparr>\<rparr>)"
    using assms(2, 3) by (simp add: dispatchReceiving_def run_handler_def try_catch_def)
  then show ?thesis using assms(1) by (simp add: peer_on_data_def andThen_eval andThen_Inr ret_def)
qed

lemma peer_out_app [simp]: "peer_out (n\<lparr>pn_app := a\<rparr>) fd = peer_out n fd" "peer_out (px_modify f n) fd = peer_out n fd"
  by (simp_all add: peer_out_def px_modify_def)

lemma connect_on_data:
  assumes "fits (connect_request u ip port pu qu su) u" "- 2147483648 \<le> port" "port \<le> 2147483647"
    and "mp_handlers (pn_app n) Command = Some (PeerCommandHandler reg)" "reg ''connect'' = Some (ConnectCommand c1 c2 c3 c4 c5 c6)"
    and "px_users (px n) (to_string u) = None" "new_raw_public_key (pe_ssl env) X25519 pu = Some ku_pub" "new_raw_public_key (pe_ssl env) ED25519 qu = Some iu_pub"
    and "published (pe_ssl env) (px_es (px n)) k k_pub pk i_pub ik" "sign (pe_ssl env) (px_es (px n)) = Inr sig"
    and "fits [[byte_of_CommandType CONNECT], pk, ik, sig] (px_my_username (px n))" "pn_by_fd n fd \<noteq> None"
  shows "\<exists>n'. peer_on_data env fd (serialize (built now u (connect_request u ip port pu qu su) Command)) n = (Inr (), n') \<and>
    px_es (px n') = keys_added (px_es (px n)) u ku_pub iu_pub \<and> get_fd (px_sessions (px n')) (to_string u) = Inr fd \<and>
    peer_out n' fd = peer_out n fd @ frame (serialize (built (pe_now env) (px_my_username (px n)) [[byte_of_CommandType CONNECT], pk, ik, sig] Response))"
proof -
  let ?msg = "built 0 u (connect_request u ip port pu qu su) Command" and ?n = "px_modify (\<lambda>c. c\<lparr>px_fd := fd\<rparr>) n"
  have d: "deserialize (serialize (built now u (connect_request u ip port pu qu su) Command)) = Inr ?msg"
    by (rule deserialize_built_exact [OF assms(1)]) simp
  have name: "pc_name (make_struct_from_command ?msg) = ''connect''"
    using make_struct_built [of 0 u "''connect''" "tl (connect_request u ip port pu qu su)" Command]
    by (simp add: connect_request_def command_type_byte_def command_types_map_def)
  obtain n' where n': "connect_recv_on_peer env pu qu su u fd ?n = (Inr (), n')" "px_es (px n') = keys_added (px_es (px n)) u ku_pub iu_pub"
      "get_fd (px_sessions (px n')) (to_string u) = Inr fd"
      "peer_out n' fd = peer_out n fd @ frame (serialize (built (pe_now env) (px_my_username (px n)) [[byte_of_CommandType CONNECT], pk, ik, sig] Response))"
    using connect_recv_step [of ?n u env pu ku_pub qu iu_pub k k_pub pk i_pub ik sig fd su] assms(6-12) by auto
  have f: "fromMessage (ConnectCommand c1 c2 c3 c4 c5 c6) ?msg = (Inr (), ConnectCommand ip port pu qu su u)"
    using stoi_int_to_string [OF assms(2, 3)] by (simp add: connect_request_def numeral_nat Let_def)
  define reg' where "reg' = reg(''connect'' \<mapsto> ConnectCommand ip port pu qu su u)"
  have "handleReceiving env ?msg (PeerCommandHandler reg) ?n = (Inr (), PeerCommandHandler reg', n')"
    using f n'(1) name assms(5) by (simp add: peer_bus_dispatchReceiving_def find_command_def reg'_def del: fromMessage.simps)
  from on_data_handled [OF d _ this] assms(4) show ?thesis using n' by simp
qed

lemma response_on_data:
  assumes "fits [[byte_of_CommandType CONNECT], pu, qu, su] u" "mp_handlers (pn_app n) Response = Some PeerResponseHandler"
    and "px_users (px n) (to_string u) = None" "new_raw_public_key (pe_ssl env) X25519 pu = Some ku_pub" "new_raw_public_key (pe_ssl env) ED25519 qu = Some iu_pub"
  shows "\<exists>n'. peer_on_data env fd (serialize (built now u [[byte_of_CommandType CONNECT], pu, qu, su] Response)) n = (Inr (), n') \<and>
    px_es (px n') = keys_added (px_es (px n)) u ku_pub iu_pub \<and> get_fd (px_sessions (px n')) (to_string u) = Inr fd"
proof -
  let ?msg = "built 0 u [[byte_of_CommandType CONNECT], pu, qu, su] Response" and ?n = "px_modify (\<lambda>c. c\<lparr>px_fd := fd\<rparr>) n"
  have d: "deserialize (serialize (built now u [[byte_of_CommandType CONNECT], pu, qu, su] Response)) = Inr ?msg"
    by (rule deserialize_built_exact [OF assms(1)]) simp
  obtain users where users: "register_user (px_users (px n)) (to_string u) pu qu su = (Inr (to_string u), users)"
    using assms(3) by (simp add: register_user_def)
  define n' where "n' = px_modify (\<lambda>c. c\<lparr>px_fd := fd, px_users := users, px_sessions := bind (px_sessions c) fd (to_string u),
      px_es := keys_added (px_es c) u ku_pub iu_pub\<rparr>) n"
  have "handle_connect_response env ?msg ?n = (Inr (), n')"
    using users published_cache [OF assms(4, 5)]
    by (simp add: handle_connect_response_def andThen_eval peer_cache_key_def Let_def numeral_nat) (simp add: n'_def px_modify_def)
  then have "handleReceiving env ?msg PeerResponseHandler ?n = (Inr (), PeerResponseHandler, n')"
    by (simp add: peer_response_handleReceiving_def CommandType_of_byte_def)
  from on_data_handled [OF d _ this] assms(2) show ?thesis by (simp add: n'_def get_fd_def bind_def)
qed

text \<open>
  C15: the handshake works. When a logged-in peer connects to another and neither has a user under the name of the other,
  the request it queues on the new session, handled by the other peer, makes that one queue its answer, and the answer,
  handled by the first, completes the exchange: each side has bound the connection to the other's name, and each can
  encrypt for the other and verify and decrypt what the other encrypts.
\<close>

theorem peer_handshake:
  assumes "connect_to_peer (pe_sock envA) ip (word_of_int port) A = (fd, A0)" "fd \<noteq> 0" "pn_by_fd A fd = None" "pn_by_fd B fdB \<noteq> None" "peer_out B fdB = []"
    and "a = px_my_username (px A)" "a \<noteq> []" "b = px_my_username (px B)" "- 2147483648 \<le> port" "port \<le> 2147483647"
    and "pe_ssl envA = ssl" "pe_ssl envB = ssl" "sign ssl (px_es (px A)) = Inr sa" "sign ssl (px_es (px B)) = Inr sb"
    and "published ssl (px_es (px A)) ka ka_pub pa ia_pub qa" "published ssl (px_es (px B)) kb kb_pub pb ib_pub qb"
    and "x25519_agree ssl ka ka_pub kb kb_pub" "x25519_agree ssl kb kb_pub ka ka_pub"
    and "fits (connect_request a ip port pa qa sa) a" "fits [[byte_of_CommandType CONNECT], pb, qb, sb] b"
    and "px_users (px A) (to_string b) = None" "px_users (px B) (to_string a) = None"
    and "mp_handlers (pn_app B) Command = Some (PeerCommandHandler reg)" "reg ''connect'' = Some (ConnectCommand c1 c2 c3 c4 c5 c6)"
    and "mp_handlers (pn_app A) Response = Some PeerResponseHandler"
  shows "\<exists>cmd A1 request B1 answer A2.
    send_from_peer envA (ConnectCommand ip port d1 d2 d3 d4) A = (Inr (), cmd, A1) \<and> peer_out A1 fd = frame request \<and>
    peer_on_data envB fdB request B = (Inr (), B1) \<and> peer_out B1 fdB = frame answer \<and>
    peer_on_data envA fd answer A1 = (Inr (), A2) \<and>
    get_fd (px_sessions (px B1)) (to_string a) = Inr fdB \<and> get_fd (px_sessions (px A2)) (to_string b) = Inr fd \<and>
    knows ssl (px_es (px A2)) a (px_es (px B1)) b \<and> knows ssl (px_es (px B1)) b (px_es (px A2)) a"
proof -
  obtain cmd A1 where A1: "send_from_peer envA (ConnectCommand ip port d1 d2 d3 d4) A = (Inr (), cmd, A1)" "pn_app A1 = pn_app A"
      "peer_out A1 fd = frame (serialize (built (pe_now envA) a (connect_request a ip port pa qa sa) Command))"
    using connect_send_step [OF assms(1-3), of ka ka_pub pa ia_pub qa sa a d1 d2 d3 d4] assms(6, 7, 11, 13, 15, 19) by auto
  have keys: "new_raw_public_key ssl X25519 pa = Some ka_pub" "new_raw_public_key ssl ED25519 qa = Some ia_pub"
      "new_raw_public_key ssl X25519 pb = Some kb_pub" "new_raw_public_key ssl ED25519 qb = Some ib_pub"
    using assms(15, 16) by (auto simp: published_def)
  obtain B1 where B1: "peer_on_data envB fdB (serialize (built (pe_now envA) a (connect_request a ip port pa qa sa) Command)) B = (Inr (), B1)"
      "px_es (px B1) = keys_added (px_es (px B)) a ka_pub ia_pub" "get_fd (px_sessions (px B1)) (to_string a) = Inr fdB"
      "peer_out B1 fdB = frame (serialize (built (pe_now envB) b [[byte_of_CommandType CONNECT], pb, qb, sb] Response))"
    using connect_on_data [OF assms(19, 9, 10, 23, 24, 22), of envB ka_pub ia_pub kb kb_pub pb ib_pub qb sb fdB] keys assms(4, 5, 8, 12, 14, 16, 20) by auto
  obtain A2 where A2: "peer_on_data envA fd (serialize (built (pe_now envB) b [[byte_of_CommandType CONNECT], pb, qb, sb] Response)) A1 = (Inr (), A2)"
      "px_es (px A2) = keys_added (px_es (px A)) b kb_pub ib_pub" "get_fd (px_sessions (px A2)) (to_string b) = Inr fd"
    using response_on_data [OF assms(20), of A1 envA kb_pub ib_pub fd "pe_now envB"] keys A1(2) assms(11, 21, 25) by auto
  have "knows ssl (px_es (px A2)) a (px_es (px B1)) b" "knows ssl (px_es (px B1)) b (px_es (px A2)) a"
    unfolding A2(2) B1(2) by (rule knows_published [OF assms(15, 16, 17)], rule knows_published [OF assms(16, 15, 18)])
  with A1 B1 A2 show ?thesis by blast
qed

lemma sample_published:
  "published sample_ssl sample_alice 1 101 [1] 102 [2]" "published sample_ssl sample_bob 3 103 [3] 104 [4]"
  "x25519_agree sample_ssl 1 101 3 103" "x25519_agree sample_ssl 3 103 1 101" "sign sample_ssl sample_bob = Inr [4, 3]"
  by (simp_all add: published_def sample_alice_def sample_bob_def sample_ssl_def ed25519_key_def x25519_agree_def sign_def DH_public_bytes_def identity_sign_def)

lemma sample_handlers:
  "mp_handlers (MessagingPeer_handlers ctx) Command = Some (PeerCommandHandler peer_registry)" "mp_handlers (MessagingPeer_handlers ctx) Response = Some PeerResponseHandler"
  "mp_context (MessagingPeer_handlers ctx) = ctx" "peer_registry ''connect'' = Some (ConnectCommand [] 0 [] [] [] [])"
  by (simp_all add: MessagingPeer_handlers_def peer_registerHandler_def peer_registry_def register_all_def registerCommand_def create_def)

theorem peer_handshake_witness:
  "\<exists>cmd A1 request B1 answer A2.
    send_from_peer sample_penv (ConnectCommand ''10.0.0.2'' 5000 [] [] [] []) (sample_node sample_alice [65]) = (Inr (), cmd, A1) \<and>
    peer_out A1 9 = frame request \<and> peer_on_data sample_penv 9 request (sample_linked sample_bob [66]) = (Inr (), B1) \<and>
    peer_out B1 9 = frame answer \<and> peer_on_data sample_penv 9 answer A1 = (Inr (), A2) \<and>
    get_fd (px_sessions (px B1)) (to_string [65]) = Inr 9 \<and> get_fd (px_sessions (px A2)) (to_string [66]) = Inr 9 \<and>
    knows sample_ssl (px_es (px A2)) [65] (px_es (px B1)) [66] \<and> knows sample_ssl (px_es (px B1)) [66] (px_es (px A2)) [65]"
proof -
  let ?A = "sample_node sample_alice [65]" and ?B = "sample_linked sample_bob [66]"
  obtain A0 where c: "connect_to_peer (pe_sock sample_penv) ''10.0.0.2'' (word_of_int 5000) ?A = (9, A0)"
    by (simp add: connect_to_peer_def setup_connection_def tcp_client_def create_socket_def ISocket_ctor_def sample_penv_def sample_sock_def
        sample_node_eq split_beta Let_def)
  have px: "px ?A = sample_px sample_alice [65]" "px ?B = sample_px sample_bob [66]" "pe_ssl sample_penv = sample_ssl"
    by (simp_all add: sample_node_eq sample_linked_eq sample_handlers sample_penv_def)
  have "length (int_to_string 5000) = 4" by (simp add: int_to_string_def nat_to_string.simps)
  then have f: "fits (connect_request [65] ''10.0.0.2'' 5000 [1] [2] [2, 1]) [65]" "fits [[byte_of_CommandType CONNECT], [3], [4], [4, 3]] [66]"
    by (simp_all add: fits_def connect_request_def)
  show ?thesis
    by (rule peer_handshake [OF c, where sa = "[2, 1]" and sb = "[4, 3]" and ka = 1 and ka_pub = 101 and pa = "[1]" and ia_pub = 102 and qa = "[2]"
        and kb = 3 and kb_pub = 103 and pb = "[3]" and ib_pub = 104 and qb = "[4]" and reg = peer_registry])
      (use sample_published sample_sign f in \<open>simp_all add: px sample_px_def sample_node_eq sample_linked_eq sample_handlers peer_out_def sample_peer_def PeerSession_ctor_def\<close>)
qed


section \<open>Before the handshake\<close>

text \<open>
  A peer that has not shaken hands can take the other down. The request to disconnect, sent over a connection that no
  name is bound to, makes the receiver read the value of a result that has none; that is not an exception, so the
  dispatcher does not stop it.
\<close>

theorem unbound_disconnect_undefined:
  assumes "fits [[byte_of_CommandType DISCONNECT]] p" "mp_handlers (pn_app n) Command = Some (PeerCommandHandler reg)"
    and "reg ''disconnect'' = Some (DisconnectCommand u)" "fd_to_name (px_sessions (px n)) fd = None"
  shows "\<exists>what. fst (peer_on_data env fd (serialize (built now p [[byte_of_CommandType DISCONNECT]] Command)) n) = Inl (Undefined what)"
proof -
  let ?msg = "built 0 p [[byte_of_CommandType DISCONNECT]] Command"
  have d: "deserialize (serialize (built now p [[byte_of_CommandType DISCONNECT]] Command)) = Inr ?msg"
    by (rule deserialize_built_exact [OF assms(1)]) simp
  have name: "pc_name (make_struct_from_command ?msg) = ''disconnect''"
    using make_struct_built [of 0 p "''disconnect''" "[]" Command] by (simp add: command_type_byte_def command_types_map_def)
  have "fst (dispatchReceiving env ?msg (px_modify (\<lambda>c. c\<lparr>px_fd := fd\<rparr>) n)) = Inl (Undefined ''dereference of an unexpected result'')"
    using name assms(2-4)
    by (simp add: dispatchReceiving_def run_handler_def try_catch_def peer_bus_dispatchReceiving_def
        find_command_def disconnect_recv_on_peer_def get_username_def Let_def)
  then show ?thesis using d by (simp add: peer_on_data_def andThen_eval) (simp add: andThen_eq)
qed

theorem unbound_disconnect_undefined_witness:
  "\<exists>what. fst (peer_on_data sample_penv 9 (serialize (built 0 [] [[byte_of_CommandType DISCONNECT]] Command)) (sample_linked sample_bob [66])) = Inl (Undefined what)"
  by (rule unbound_disconnect_undefined [of _ _ peer_registry "[]"])
    (simp_all add: fits_def sample_linked_eq sample_handlers sample_px_def SessionManager_ctor_def peer_registry_def register_all_def registerCommand_def create_def)

text \<open>The line \<open>/pmess\<close> of a peer sends nothing, whatever it reports.\<close>

lemma pmess_sends_nothing: "send_from_peer env (PrivateMessageCommand r p) n = (Inr (), PrivateMessageCommand r p, n)"
  by (simp add: keeping_def pmess_send_from_peer_def send_private_message_def ret_def)

end
