(* ===== verification/User_Interface.thy ===== *)
theory User_Interface
  imports Messenger_Prelude
begin

text \<open>
  The windows of the client: \<open>ChatWindow\<close>, \<open>LoginWindow\<close> and \<open>MessengerUI\<close> (\<open>src/src/ui/\<close>) and the bridge between them and the client
  (\<open>src/include/application/messaging/message_bridge.hpp\<close>).

  A window is the record of what its widgets show and hold; sizes, margins, style sheets and the fade-in animation are left
  out. A slot returns the window after it with the signals it emits. A \<open>QString\<close> is its sequence of 16-bit units, so that \<open>isEmpty\<close>, \<open>left\<close> and \<open>+\<close> are
  those of lists; the operations that depend on Qt's tables are the record \<open>qt\<close>. The current time, formatted, is an argument.
\<close>

section \<open>Qt\<close>

type_synonym qstring = "16 word list"

record qt =
  trimmed :: "qstring \<Rightarrow> qstring"
  toStdString :: "qstring \<Rightarrow> string"
  fromStdString :: "string \<Rightarrow> qstring"
  toHtmlEscaped :: "qstring \<Rightarrow> qstring"
  toUpper :: "qstring \<Rightarrow> qstring"

text \<open>A literal in ASCII.\<close>

definition qlit :: "string \<Rightarrow> qstring" where
  "qlit s = map (\<lambda>c. word_of_nat (of_char c)) s"

datatype alignment = AlignLeft | AlignRight

text \<open>What a box layout holds, and \<open>insertWidget\<close>: a negative index appends.\<close>

datatype 'w layout_item = Stretch | Widget 'w

definition insertWidget :: "int \<Rightarrow> 'w \<Rightarrow> 'w layout_item list \<Rightarrow> 'w layout_item list" where
  "insertWidget index w items =
     (if index < 0 then items @ [Widget w] else take (nat index) items @ [Widget w] @ drop (nat index) items)"

section \<open>ChatWindow\<close>

text \<open>A row of the history: the bubble, the label under it and where they stand in the row.\<close>

record bubble =
  bb_text :: qstring
  bb_name :: qstring
  bb_meta :: qstring
  bb_meta_alignment :: alignment
  bb_row :: "alignment layout_item list"
  bb_row_name :: qstring

record ChatWindow =
  cw_userNickname :: qstring
  cw_windowTitle :: qstring
  cw_avatar :: qstring
  cw_titleLabel :: qstring
  cw_statusLabel :: qstring
  cw_historyLayout :: "bubble layout_item list"
  cw_inputField :: qstring

definition makeBubble :: "qt \<Rightarrow> qstring \<Rightarrow> qstring \<Rightarrow> bool \<Rightarrow> bubble" where
  "makeBubble qt str timestamp outgoing =
     \<lparr>bb_text = toHtmlEscaped qt str,
      bb_name = qlit (if outgoing then ''outBubble'' else ''inBubble''),
      bb_meta = timestamp,
      bb_meta_alignment = (if outgoing then AlignRight else AlignLeft),
      bb_row = (if outgoing then [Stretch, Widget AlignRight] else [Widget AlignLeft, Stretch]),
      bb_row_name = qlit ''messageRow''\<rparr>"

definition appendBubble :: "qt \<Rightarrow> qstring \<Rightarrow> qstring \<Rightarrow> bool \<Rightarrow> ChatWindow \<Rightarrow> ChatWindow" where
  "appendBubble qt str timestamp outgoing w =
     (let row = makeBubble qt str timestamp outgoing in
      w\<lparr>cw_historyLayout := insertWidget (int (length (cw_historyLayout w)) - 1) row (cw_historyLayout w)\<rparr>)"

text \<open>The constructor: the widgets, and then a first bubble.\<close>

definition chat_widgets :: "qt \<Rightarrow> qstring \<Rightarrow> ChatWindow" where
  "chat_widgets qt nickname =
     \<lparr>cw_userNickname = nickname,
      cw_windowTitle = qlit ''LibreMessage '' @ [0x2022] @ qlit '' '' @ nickname,
      cw_avatar = toUpper qt (take 1 nickname),
      cw_titleLabel = qlit ''Connected as '' @ nickname,
      cw_statusLabel = qlit ''Online'',
      cw_historyLayout = [Stretch],
      cw_inputField = []\<rparr>"

definition ChatWindow_ctor :: "qt \<Rightarrow> qstring \<Rightarrow> qstring \<Rightarrow> ChatWindow" where
  "ChatWindow_ctor qt timestampNow nickname =
     appendBubble qt (qlit ''Welcome, '' @ nickname @ qlit ''!'') timestampNow False (chat_widgets qt nickname)"

definition chat_updateResponse :: "qt \<Rightarrow> qstring \<Rightarrow> qstring \<Rightarrow> ChatWindow \<Rightarrow> ChatWindow" where
  "chat_updateResponse qt timestampNow str w = appendBubble qt str timestampNow False w"

text \<open>The slot; the second component is what \<open>emit sendMessage\<close> carried.\<close>

definition chat_handleSend :: "qt \<Rightarrow> qstring \<Rightarrow> ChatWindow \<Rightarrow> ChatWindow \<times> string option" where
  "chat_handleSend qt timestampNow w =
     (let str = trimmed qt (cw_inputField w) in
      if str = [] then (w, None)
      else ((appendBubble qt str timestampNow True w)\<lparr>cw_inputField := []\<rparr>, Some (toStdString qt str)))"

section \<open>LoginWindow\<close>

record LoginWindow =
  lw_nicknameInput :: qstring
  lw_statusLabel :: qstring
  lw_open :: bool

definition LoginWindow_ctor :: LoginWindow where
  "LoginWindow_ctor = \<lparr>lw_nicknameInput = [], lw_statusLabel = qlit ''Ready'', lw_open = True\<rparr>"

text \<open>What the field holds after an edit: \<open>setMaxLength(20)\<close> cuts it.\<close>

definition nickname_edit :: "qstring \<Rightarrow> LoginWindow \<Rightarrow> LoginWindow" where
  "nickname_edit str w = w\<lparr>lw_nicknameInput := take 20 str\<rparr>"

definition login_handleLogin :: "qt \<Rightarrow> LoginWindow \<Rightarrow> LoginWindow \<times> qstring option" where
  "login_handleLogin qt w =
     (let nickname = trimmed qt (lw_nicknameInput w) in
      if nickname = [] then (w\<lparr>lw_statusLabel := qlit ''Nickname cannot be empty''\<rparr>, None)
      else (w\<lparr>lw_open := False\<rparr>, Some nickname))"

section \<open>MessengerUI\<close>

text \<open>The window used before: one field whose \<open>returnPressed\<close> is connected to one of two slots.\<close>

datatype return_slot = HandleLogin | HandleSend

record MessengerUI =
  mu_titleLabel :: qstring
  mu_historyArea :: "qstring list"
  mu_history_shown :: bool
  mu_inputField :: qstring
  mu_placeholder :: qstring
  mu_statusLabel :: qstring
  mu_returnPressed :: return_slot

definition MessengerUI_ctor :: MessengerUI where
  "MessengerUI_ctor =
     \<lparr>mu_titleLabel = qlit ''<b>'' @ [0x410, 0x432, 0x442, 0x43e, 0x440, 0x438, 0x437, 0x430, 0x446, 0x438, 0x44f] @ qlit ''</b>'',
      mu_historyArea = [], mu_history_shown = False, mu_inputField = [],
      mu_placeholder = [0x412, 0x432, 0x435, 0x434, 0x438, 0x442, 0x435, 0x20, 0x43d, 0x438, 0x43a, 0x43d, 0x435, 0x439, 0x43c, 0x20, 0x438, 0x20,
        0x43d, 0x430, 0x436, 0x43c, 0x438, 0x442, 0x435] @ qlit '' Enter...'',
      mu_statusLabel = [0x41e, 0x436, 0x438, 0x434, 0x430, 0x43d, 0x438, 0x435, 0x20, 0x43f, 0x43e, 0x434, 0x43a, 0x43b, 0x44e, 0x447, 0x435, 0x43d,
        0x438, 0x44f] @ qlit ''...'',
      mu_returnPressed = HandleLogin\<rparr>"

definition ui_updateResponse :: "qstring \<Rightarrow> qstring \<Rightarrow> MessengerUI \<Rightarrow> MessengerUI" where
  "ui_updateResponse timestamp str w = w\<lparr>mu_historyArea := mu_historyArea w @ [timestamp @ str]\<rparr>"

definition ui_handleLogin :: "qt \<Rightarrow> MessengerUI \<Rightarrow> MessengerUI \<times> string option" where
  "ui_handleLogin qt w =
     (let nickname = trimmed qt (mu_inputField w) in
      if nickname = [] then (w, None)
      else (w\<lparr>mu_titleLabel := qlit ''<b>'' @ [0x427, 0x430, 0x442] @ qlit '': '' @ nickname @ qlit ''</b>'',
              mu_statusLabel := [0x421, 0x442, 0x430, 0x442, 0x443, 0x441, 0x3a, 0x20, 0x412, 0x20, 0x441, 0x435, 0x442, 0x438],
              mu_inputField := [],
              mu_placeholder := [0x41d, 0x430, 0x43f, 0x438, 0x448, 0x438, 0x442, 0x435, 0x20, 0x441, 0x43e, 0x43e, 0x431, 0x449, 0x435, 0x43d,
                0x438, 0x435] @ qlit ''...'',
              mu_history_shown := True,
              mu_returnPressed := HandleSend\<rparr>,
            Some (''/login '' @ toStdString qt nickname)))"

definition ui_handleSend :: "qt \<Rightarrow> MessengerUI \<Rightarrow> MessengerUI \<times> string option" where
  "ui_handleSend qt w =
     (let str = trimmed qt (mu_inputField w) in
      if str = [] then (w, None) else (w\<lparr>mu_inputField := []\<rparr>, Some (toStdString qt str)))"

definition ui_returnPressed :: "qt \<Rightarrow> MessengerUI \<Rightarrow> MessengerUI \<times> string option" where
  "ui_returnPressed qt w = (case mu_returnPressed w of HandleLogin \<Rightarrow> ui_handleLogin qt w | HandleSend \<Rightarrow> ui_handleSend qt w)"

section \<open>MessageBridge\<close>

datatype bridge_signal = ResponseReceived qstring | SendToClient qstring

definition postResponse :: "qt \<Rightarrow> string \<Rightarrow> bridge_signal" where
  "postResponse qt data = ResponseReceived (fromStdString qt data)"

definition postSend :: "qstring \<Rightarrow> bridge_signal" where
  "postSend str = SendToClient str"

definition sendToServer :: "(string \<Rightarrow> (unit, 's) action) option \<Rightarrow> string \<Rightarrow> (unit, 's) action" where
  "sendToServer onOutboundMessage data = (case onOutboundMessage of None \<Rightarrow> ret () | Some f \<Rightarrow> f data)"

section \<open>The history of a chat window\<close>

text \<open>The rows stand in the order they were appended, with the stretch below them.\<close>

definition history_rows :: "ChatWindow \<Rightarrow> bubble list" where
  "history_rows w = concat (map (\<lambda>i. case i of Stretch \<Rightarrow> [] | Widget b \<Rightarrow> [b]) (cw_historyLayout w))"

definition history_inv :: "ChatWindow \<Rightarrow> bool" where
  "history_inv w \<longleftrightarrow> (\<exists>rows. cw_historyLayout w = map Widget rows @ [Stretch])"

definition outgoing_row :: "bubble \<Rightarrow> bool" where
  "outgoing_row b \<longleftrightarrow> bb_name b = qlit ''outBubble''"

definition incoming_texts :: "ChatWindow \<Rightarrow> qstring list" where
  "incoming_texts w = map bb_text (filter (\<lambda>b. \<not> outgoing_row b) (history_rows w))"

definition outgoing_texts :: "ChatWindow \<Rightarrow> qstring list" where
  "outgoing_texts w = map bb_text (filter outgoing_row (history_rows w))"

lemma insert_before_stretch: "insertWidget (int (length (map Widget rows @ [Stretch])) - 1) b (map Widget rows @ [Stretch]) = map Widget (rows @ [b]) @ [Stretch]"
  by (simp add: insertWidget_def)

lemma history_append:
  assumes "history_inv w"
  shows "history_inv (appendBubble qt str t out w)" "history_rows (appendBubble qt str t out w) = history_rows w @ [makeBubble qt str t out]"
proof -
  obtain rows where rows: "cw_historyLayout w = map Widget rows @ [Stretch]" using assms by (auto simp: history_inv_def)
  then have after: "cw_historyLayout (appendBubble qt str t out w) = map Widget (rows @ [makeBubble qt str t out]) @ [Stretch]"
    using insert_before_stretch [of rows] by (simp add: appendBubble_def Let_def)
  then show "history_inv (appendBubble qt str t out w)" unfolding history_inv_def by blast
  have flat: "concat (map (case_layout_item [] (\<lambda>b. [b])) (map Widget xs @ [Stretch])) = xs" for xs :: "bubble list" by (induction xs) simp_all
  show "history_rows (appendBubble qt str t out w) = history_rows w @ [makeBubble qt str t out]"
    unfolding history_rows_def after rows flat ..
qed

lemma outgoing_makeBubble [simp]: "outgoing_row (makeBubble qt str t out) = out" "bb_text (makeBubble qt str t out) = toHtmlEscaped qt str"
  by (simp_all add: outgoing_row_def makeBubble_def qlit_def)

lemma texts_append:
  assumes "history_inv w"
  shows "incoming_texts (appendBubble qt str t out w) = incoming_texts w @ (if out then [] else [toHtmlEscaped qt str])"
    "outgoing_texts (appendBubble qt str t out w) = outgoing_texts w @ (if out then [toHtmlEscaped qt str] else [])"
  using history_append [OF assms, of qt str t out] by (simp_all add: incoming_texts_def outgoing_texts_def)

lemma history_ctor:
  "history_inv (ChatWindow_ctor qt t nickname)"
  "incoming_texts (ChatWindow_ctor qt t nickname) = [toHtmlEscaped qt (qlit ''Welcome, '' @ nickname @ qlit ''!'')]"
  "outgoing_texts (ChatWindow_ctor qt t nickname) = []"
proof -
  have "history_inv (chat_widgets qt nickname)" "incoming_texts (chat_widgets qt nickname) = []" "outgoing_texts (chat_widgets qt nickname) = []"
    by (simp_all add: chat_widgets_def history_inv_def incoming_texts_def outgoing_texts_def history_rows_def)
  with texts_append history_append(1) show "history_inv (ChatWindow_ctor qt t nickname)"
    "incoming_texts (ChatWindow_ctor qt t nickname) = [toHtmlEscaped qt (qlit ''Welcome, '' @ nickname @ qlit ''!'')]"
    "outgoing_texts (ChatWindow_ctor qt t nickname) = []"
    unfolding ChatWindow_ctor_def by simp_all
qed

lemma history_input [simp]:
  "history_inv (w\<lparr>cw_inputField := x\<rparr>) = history_inv w" "incoming_texts (w\<lparr>cw_inputField := x\<rparr>) = incoming_texts w"
  "outgoing_texts (w\<lparr>cw_inputField := x\<rparr>) = outgoing_texts w"
  by (simp_all add: history_inv_def incoming_texts_def outgoing_texts_def history_rows_def)

text \<open>The earlier window logs in once: the first non-empty line becomes the login command, every later one is sent as it is.\<close>

lemma messenger_ui_slots:
  "mu_returnPressed w = HandleLogin \<Longrightarrow> trimmed qt (mu_inputField w) = n \<Longrightarrow> n \<noteq> [] \<Longrightarrow>
     snd (ui_returnPressed qt w) = Some (''/login '' @ toStdString qt n) \<and> mu_returnPressed (fst (ui_returnPressed qt w)) = HandleSend"
  "mu_returnPressed w = HandleSend \<Longrightarrow>
     mu_returnPressed (fst (ui_returnPressed qt w)) = HandleSend \<and>
     snd (ui_returnPressed qt w) = (if trimmed qt (mu_inputField w) = [] then None else Some (toStdString qt (trimmed qt (mu_inputField w))))"
  by (auto simp: ui_returnPressed_def ui_handleLogin_def ui_handleSend_def Let_def)

end
