(* ===== verification/Logger.thy ===== *)
theory Logger
  imports Messenger_Prelude
begin

text \<open>
  The logging facade (\<open>src/src/infrastructure/logging/logger.cpp\<close>) in both builds: with log4cplus the functions write to the
  appenders of one logger, without it they do nothing. The rendering of a line by the layout is a parameter; \<open>lg_output\<close> records what each
  appender wrote.
\<close>

datatype log_level = DEBUG | INFO | WARN | ERROR_LEVEL

record logger =
  lg_initialized :: bool
  lg_appenders :: "string list"
  lg_level :: "log_level option"
  lg_output :: "(string \<times> string) list"

definition logger_start :: logger where
  "logger_start = \<lparr>lg_initialized = False, lg_appenders = [], lg_level = None, lg_output = []\<rparr>"

definition log_init :: "bool \<Rightarrow> logger \<Rightarrow> logger" where
  "log_init with_log4cplus s =
     (if \<not> with_log4cplus then s
      else if lg_initialized s then s
      else s\<lparr>lg_appenders := lg_appenders s @ [''console''], lg_level := Some DEBUG, lg_initialized := True\<rparr>)"

definition log_write :: "bool \<Rightarrow> (log_level \<Rightarrow> string \<Rightarrow> string) \<Rightarrow> log_level \<Rightarrow> string \<Rightarrow> logger \<Rightarrow> logger" where
  "log_write with_log4cplus layout level msg s =
     (if \<not> with_log4cplus then s
      else s\<lparr>lg_output := lg_output s @ map (\<lambda>a. (a, layout level msg)) (lg_appenders s)\<rparr>)"

definition log_info :: "bool \<Rightarrow> (log_level \<Rightarrow> string \<Rightarrow> string) \<Rightarrow> string \<Rightarrow> logger \<Rightarrow> logger" where
  "log_info with_log4cplus layout msg = log_write with_log4cplus layout INFO msg"

definition log_warn :: "bool \<Rightarrow> (log_level \<Rightarrow> string \<Rightarrow> string) \<Rightarrow> string \<Rightarrow> logger \<Rightarrow> logger" where
  "log_warn with_log4cplus layout msg = log_write with_log4cplus layout WARN msg"

definition log_error :: "bool \<Rightarrow> (log_level \<Rightarrow> string \<Rightarrow> string) \<Rightarrow> string \<Rightarrow> logger \<Rightarrow> logger" where
  "log_error with_log4cplus layout msg = log_write with_log4cplus layout ERROR_LEVEL msg"

definition log_debug :: "bool \<Rightarrow> (log_level \<Rightarrow> string \<Rightarrow> string) \<Rightarrow> string \<Rightarrow> logger \<Rightarrow> logger" where
  "log_debug with_log4cplus layout msg = log_write with_log4cplus layout DEBUG msg"

datatype log_event = InitCall | LogCall log_level string

fun log_call :: "bool \<Rightarrow> (log_level \<Rightarrow> string \<Rightarrow> string) \<Rightarrow> log_event \<Rightarrow> logger \<Rightarrow> logger" where
  "log_call b layout InitCall = log_init b"
| "log_call b layout (LogCall INFO msg) = log_info b layout msg"
| "log_call b layout (LogCall WARN msg) = log_warn b layout msg"
| "log_call b layout (LogCall ERROR_LEVEL msg) = log_error b layout msg"
| "log_call b layout (LogCall DEBUG msg) = log_debug b layout msg"

fun logged :: "log_event list \<Rightarrow> (log_level \<times> string) list" where
  "logged [] = []"
| "logged (InitCall # cs) = logged cs"
| "logged (LogCall l msg # cs) = (l, msg) # logged cs"

text \<open>However often \<open>init\<close> is called, there is one appender, and every line logged after the first call is written once, in order.\<close>

lemma log_call_eval: "log_call b layout (LogCall l msg) = log_write b layout l msg"
  by (cases l) (simp_all add: log_info_def log_warn_def log_error_def log_debug_def)

lemma lines_written_once:
  assumes "lg_initialized s" "lg_appenders s = [a]"
  shows "lg_output (fold (log_call True layout) cs s) = lg_output s @ map (\<lambda>(l, msg). (a, layout l msg)) (logged cs)"
  using assms
proof (induction cs arbitrary: s rule: logged.induct)
  case (3 l msg cs)
  then show ?case using "3.IH" [of "log_write True layout l msg s"] by (simp add: log_call_eval) (simp add: log_write_def)
qed (simp_all add: log_init_def)

lemma init_then_once:
  "lg_output (fold (log_call True layout) (InitCall # cs) logger_start) = map (\<lambda>(l, msg). (''console'', layout l msg)) (logged cs)"
  using lines_written_once [of "log_init True logger_start" "''console''" layout cs] by (simp add: log_init_def logger_start_def)

end
