(* ===== verification/Runtime.thy ===== *)
theory Runtime
  imports Server_System Client_Properties User_Interface Logger
begin

text \<open>
  The processes (\<open>src/src/application/runtime/runtime.cpp\<close>, \<open>src/include/app/config.hpp\<close>, \<open>src/main.cpp\<close>, \<open>src/client.cpp\<close>): the server with its
  signal handler and its network thread, and the graphical client, whose windows and network thread meet in the queue of the GUI
  thread.

  A process is a record; what can happen next is a datatype of events, and a schedule is a list of them: the interleavings of the threads
  are the schedules. An event that is not enabled leaves the state as it is. An exception that leaves a thread or an event handler ends the process: it is
  kept in an \<open>error\<close> field, and nothing happens after it. Code of one thread between two events runs without interruption; the client's code
  takes no lock, so this is an assumption about the schedules and not a guarantee of the program.
\<close>

section \<open>Configuration\<close>

record AppConfig =
  server_host :: string
  server_port :: "16 word"

definition AppConfig_default :: AppConfig where
  "AppConfig_default = \<lparr>server_host = ''127.0.0.1'', server_port = 8080\<rparr>"

section \<open>The server process\<close>

datatype thread_state = ThreadRunning | ThreadFinished

record server_process =
  sp_server :: "MessagingServer Server"
  sp_thread :: thread_state
  sp_shutdown_requested :: bool
  sp_stopped :: bool
  sp_exited :: bool
  sp_error :: "cpp_error option"

text \<open>\<open>SIGINT\<close>, an iteration of the waiting loop of the main thread, an iteration of \<open>run_event_loop\<close> in the other thread, and the join.\<close>

datatype server_event = Sigint | MainPoll | NetRound "server_io epoll_result" | MainJoin

definition handle_sigint :: "server_process \<Rightarrow> server_process" where
  "handle_sigint p = p\<lparr>sp_shutdown_requested := True\<rparr>"

definition main_poll :: "server_process \<Rightarrow> server_process" where
  "main_poll p = (if sp_shutdown_requested p \<and> \<not> sp_stopped p
     then p\<lparr>sp_server := Server_stop (sp_server p), sp_stopped := True\<rparr> else p)"

definition net_round :: "server_env \<Rightarrow> server_io epoll_result \<Rightarrow> server_process \<Rightarrow> server_process" where
  "net_round env ep p =
     (if sp_thread p = ThreadFinished then p
      else if \<not> sv_running (sp_server p) then p\<lparr>sp_thread := ThreadFinished\<rparr>
      else case server_round (messaging_callbacks env) ep (sp_server p) of
        (Inl e, s) \<Rightarrow> p\<lparr>sp_server := s, sp_error := Some e\<rparr>
      | (Inr _, s) \<Rightarrow> p\<lparr>sp_server := s\<rparr>)"

text \<open>When the thread has ended, \<open>start_server\<close> returns and the server is destroyed.\<close>

definition main_join :: "server_process \<Rightarrow> server_process" where
  "main_join p = (if sp_stopped p \<and> sp_thread p = ThreadFinished then p\<lparr>sp_server := Server_dtor (sp_server p), sp_exited := True\<rparr> else p)"

fun server_on_event :: "server_env \<Rightarrow> server_event \<Rightarrow> server_process \<Rightarrow> server_process" where
  "server_on_event env Sigint p = handle_sigint p"
| "server_on_event env MainPoll p = main_poll p"
| "server_on_event env (NetRound ep) p = net_round env ep p"
| "server_on_event env MainJoin p = main_join p"

definition server_process_step :: "server_env \<Rightarrow> server_event \<Rightarrow> server_process \<Rightarrow> server_process" where
  "server_process_step env ev p = (if sp_error p \<noteq> None \<or> sp_exited p then p else server_on_event env ev p)"

text \<open>An exception of the constructors ends the process, as nothing catches it.\<close>

definition start_server :: "tls_setup \<Rightarrow> int \<Rightarrow> EventLoop \<Rightarrow> server_process cpp" where
  "start_server ssl socket_fd el = bindr (Server_ctor ssl el MessagingServer_ctor) (\<lambda>s.
     Inr \<lparr>sp_server = Server_start socket_fd s, sp_thread = ThreadRunning, sp_shutdown_requested = False, sp_stopped = False, sp_exited = False,
        sp_error = None\<rparr>)"

abbreviation server_process_run :: "server_env \<Rightarrow> server_event list \<Rightarrow> server_process \<Rightarrow> server_process" where
  "server_process_run env evs p \<equiv> fold (server_process_step env) evs p"

lemma stopped_not_running [simp]: "\<not> sv_running (Server_dtor s)" "\<not> sv_running (Server_stop s)"
  by (simp_all add: Server_dtor_def Server_stop_def)

text \<open>The conditions of a process that is on its way out; every event keeps them.\<close>

definition stopping :: "nat \<Rightarrow> server_process \<Rightarrow> bool" where
  "stopping k p \<longleftrightarrow> sp_error p \<noteq> None \<or> (sp_exited p \<and> \<not> sv_running (sp_server p)) \<or> (\<not> sp_exited p \<and>
     (1 \<le> k \<longrightarrow> sp_shutdown_requested p) \<and> (2 \<le> k \<longrightarrow> sp_stopped p \<and> \<not> sv_running (sp_server p)) \<and> (3 \<le> k \<longrightarrow> sp_thread p = ThreadFinished) \<and>
      (sp_stopped p \<longrightarrow> \<not> sv_running (sp_server p)))"

lemma stopping_keeps: "stopping k p \<Longrightarrow> stopping k (server_process_step env ev p)"
proof (cases "sp_error p \<noteq> None \<or> sp_exited p")
  case False
  assume "stopping k p"
  with False show ?thesis
    by (cases ev) (auto simp: stopping_def server_process_step_def handle_sigint_def main_poll_def net_round_def main_join_def
        split: prod.splits sum.splits)
qed (simp add: stopping_def server_process_step_def)

lemma stopping_runs: "stopping k p \<Longrightarrow> stopping k (server_process_run env evs p)"
  by (induction evs arbitrary: p) (simp_all add: stopping_keeps)

lemma stopping_events:
  "stopping 0 p \<Longrightarrow> stopping 1 (server_process_step env Sigint p)"
  "stopping 1 p \<Longrightarrow> stopping 2 (server_process_step env MainPoll p)"
  "stopping 2 p \<Longrightarrow> stopping 3 (server_process_step env (NetRound ep) p)"
  by (auto simp: stopping_def server_process_step_def handle_sigint_def main_poll_def net_round_def)

lemma stopping_join: "stopping 3 p \<Longrightarrow> (sp_exited (server_process_step env MainJoin p) \<and> \<not> sv_running (sp_server (server_process_step env MainJoin p))) \<or>
    sp_error (server_process_step env MainJoin p) \<noteq> None"
  by (auto simp: stopping_def server_process_step_def main_join_def)

lemma ended_stays: "sp_exited p \<or> sp_error p \<noteq> None \<Longrightarrow> server_process_run env evs p = p"
  by (induction evs) (auto simp: server_process_step_def)

text \<open>
  C24: the server shuts down. If it starts, then whatever happens before, between and after, a schedule in which the interrupt signal arrives, then the
  main thread looks at the flag, then the network thread begins another iteration, and then the main thread joins, ends with the
  process having exited and its loop stopped, unless an exception has ended it.
\<close>

theorem server_shuts_down:
  assumes "start_server ssl fd el = Inr p0"
  shows "let p = server_process_run env (evs1 @ Sigint # evs2 @ MainPoll # evs3 @ NetRound ep # evs4 @ MainJoin # evs5) p0 in
    (sp_exited p \<and> \<not> sv_running (sp_server p)) \<or> sp_error p \<noteq> None"
proof -
  have "stopping 0 p0" using assms by (cases "Server_ctor ssl el MessagingServer_ctor") (auto simp: stopping_def start_server_def)
  from stopping_join [OF stopping_runs [OF stopping_events(3) [OF stopping_runs [OF stopping_events(2) [OF stopping_runs [OF
      stopping_events(1) [OF stopping_runs [OF this]]]]]]]]
  show ?thesis unfolding Let_def fold_append fold_Cons comp_apply by (metis ended_stays)
qed

definition sample_loop :: EventLoop where
  "sample_loop = \<lparr>el_epollfd = 1, el_wakeup_fd = 2, el_wakeup = False, el_handlers = Map.empty, el_interest = [2 \<mapsto> EPOLLIN]\<rparr>"

theorem server_shuts_down_witness:
  "\<exists>p0. start_server \<lparr>ts_context = True, ts_certificate = True, ts_private_key = True\<rparr> 3 sample_loop = Inr p0 \<and>
    (let p = server_process_run sample_env ([] @ Sigint # [] @ MainPoll # [] @ NetRound (Events []) # [] @ MainJoin # []) p0 in
      (sp_exited p \<and> \<not> sv_running (sp_server p)) \<or> sp_error p \<noteq> None)"
proof -
  obtain p0 where "start_server \<lparr>ts_context = True, ts_certificate = True, ts_private_key = True\<rparr> 3 sample_loop = Inr p0"
    by (simp add: start_server_def Server_ctor_def)
  with server_shuts_down [OF this, of sample_env "[]" "[]" "[]" "Events []" "[]" "[]"] show ?thesis by blast
qed

section \<open>The graphical client\<close>

text \<open>
  The network thread starts, has told the user that it is connected, runs the event loop with the callback set, and ends. The signals of the
  bridge are connected with \<open>Qt::QueuedConnection\<close>: emitting one appends it to the queue of the GUI thread, which delivers them in order.
  \<open>gu_handled\<close> and \<open>gu_mark\<close> are for the statements only: the signals delivered so far, and how many had been delivered when the chat window was made.
\<close>

datatype net_phase = NetStart | NetConnected | NetRunning | NetEnded

record gui =
  gu_login :: LoginWindow
  gu_chat :: "ChatWindow option"
  gu_queue :: "bridge_signal list"
  gu_client :: MessagingClient
  gu_data_callback :: bool
  gu_net :: net_phase
  gu_error :: "cpp_error option"
  gu_handled :: "bridge_signal list"
  gu_mark :: nat

datatype gui_event =
    EditNickname qstring
  | PressLogin qstring
  | EditMessage qstring
  | PressSend qstring
  | Deliver qstring
  | NetInit
  | NetSetCallback
  | NetData bytes
  | NetStop
  | AboutToQuit

text \<open>\<open>MessagingClient::init_client\<close> sets the data callback of the client's transport and returns 1.\<close>

definition init_client :: "gui \<Rightarrow> int \<times> gui" where
  "init_client g = (1, g\<lparr>gu_data_callback := True\<rparr>)"

definition str_unavailable :: string where
  "str_unavailable = to_string [0xd0, 0x9e, 0xd1, 0x88, 0xd0, 0xb8, 0xd0, 0xb1, 0xd0, 0xba, 0xd0, 0xb0, 0x3a, 0x20, 0xd0, 0xa1, 0xd0, 0xb5, 0xd1, 0x80,
     0xd0, 0xb2, 0xd0, 0xb5, 0xd1, 0x80, 0x20, 0xd0, 0xbd, 0xd0, 0xb5, 0xd0, 0xb4, 0xd0, 0xbe, 0xd1, 0x81, 0xd1, 0x82, 0xd1, 0x83, 0xd0, 0xbf, 0xd0, 0xb5,
     0xd0, 0xbd, 0x21]"

definition str_connected :: string where
  "str_connected = to_string [0xd0, 0x9f, 0xd0, 0xbe, 0xd0, 0xb4, 0xd0, 0xba, 0xd0, 0xbb, 0xd1, 0x8e, 0xd1, 0x87, 0xd0, 0xb5, 0xd0, 0xbd, 0xd0, 0xbe, 0x20,
     0xd0, 0xba, 0x20, 0xd1, 0x81, 0xd0, 0xb5, 0xd1, 0x80, 0xd0, 0xb2, 0xd0, 0xb5, 0xd1, 0x80, 0xd1, 0x83, 0x21, 0x20, 0xf0, 0x9f, 0x90, 0xa7]"

text \<open>
  The calls of \<open>ui_callback\<close> the client recorded become signals; the record is emptied. The callback is a lambda that holds a reference to the
  \<open>bridge\<close> captured by the closure of the network thread (\<open>runtime.cpp:99\<close>); that closure is destroyed when the thread has ended, so calling it
  after that is undefined behaviour, and the process is not followed further.
\<close>

definition shown :: "MessagingClient \<Rightarrow> string list" where
  "shown mc = (case cc_ui (mc_context mc) of None \<Rightarrow> [] | Some xs \<Rightarrow> xs)"

definition clear_ui :: "MessagingClient \<Rightarrow> MessagingClient" where
  "clear_ui mc = mc\<lparr>mc_context := (mc_context mc)\<lparr>cc_ui := map_option (\<lambda>_. []) (cc_ui (mc_context mc))\<rparr>\<rparr>"

definition emit_signal :: "bridge_signal \<Rightarrow> gui \<Rightarrow> gui" where
  "emit_signal sig g = g\<lparr>gu_queue := gu_queue g @ [sig]\<rparr>"

definition run_client :: "qt \<Rightarrow> (unit, MessagingClient) action \<Rightarrow> gui \<Rightarrow> gui" where
  "run_client qt f g =
     (let (r, mc) = f (gu_client g) in
      if gu_net g = NetEnded \<and> shown mc \<noteq> shown (gu_client g)
      then g\<lparr>gu_client := clear_ui mc, gu_error := Some (Undefined ''callback of an ended thread'')\<rparr>
      else let g1 = fold (\<lambda>str. emit_signal (postResponse qt str)) (shown mc) (g\<lparr>gu_client := clear_ui mc\<rparr>) in
        case r of Inl e \<Rightarrow> g1\<lparr>gu_error := Some e\<rparr> | Inr _ \<Rightarrow> g1)"

text \<open>The slot connected to \<open>loginSuccess\<close>; it runs before the login window closes.\<close>

definition on_login_success :: "qt \<Rightarrow> qstring \<Rightarrow> qstring \<Rightarrow> gui \<Rightarrow> gui" where
  "on_login_success qt timestampNow nickname g =
     emit_signal (postSend (qlit ''/login '' @ nickname))
       (g\<lparr>gu_chat := Some (ChatWindow_ctor qt timestampNow nickname), gu_mark := length (gu_handled g)\<rparr>)"

definition press_login :: "qt \<Rightarrow> qstring \<Rightarrow> gui \<Rightarrow> gui" where
  "press_login qt timestampNow g =
     (if \<not> lw_open (gu_login g) then g
      else let (lw, success) = login_handleLogin qt (gu_login g) in
        (case success of None \<Rightarrow> g | Some nickname \<Rightarrow> on_login_success qt timestampNow nickname g)\<lparr>gu_login := lw\<rparr>)"

definition press_send :: "qt \<Rightarrow> qstring \<Rightarrow> gui \<Rightarrow> gui" where
  "press_send qt timestampNow g = (case gu_chat g of
       None \<Rightarrow> g
     | Some w \<Rightarrow> (let (w', sent) = chat_handleSend qt timestampNow w; g1 = g\<lparr>gu_chat := Some w'\<rparr> in
         case sent of None \<Rightarrow> g1 | Some msg \<Rightarrow> emit_signal (SendToClient (fromStdString qt msg)) g1))"

definition deliver_signal :: "qt \<Rightarrow> client_env \<Rightarrow> qstring \<Rightarrow> gui \<Rightarrow> gui" where
  "deliver_signal qt env timestampNow g = (case gu_queue g of
       [] \<Rightarrow> g
     | sig # rest \<Rightarrow>
        (let g1 = g\<lparr>gu_queue := rest, gu_handled := gu_handled g @ [sig]\<rparr> in
         case sig of
           ResponseReceived str \<Rightarrow> g1\<lparr>gu_chat := map_option (chat_updateResponse qt timestampNow str) (gu_chat g1)\<rparr>
         | SendToClient str \<Rightarrow> run_client qt (get_data env (toStdString qt str)) g1))"

definition net_init :: "qt \<Rightarrow> gui \<Rightarrow> gui" where
  "net_init qt g =
     (if gu_net g \<noteq> NetStart then g
      else let (ok, g1) = init_client g in
        if ok = 0 then (emit_signal (postResponse qt str_unavailable) g1)\<lparr>gu_net := NetEnded\<rparr>
        else (emit_signal (postResponse qt str_connected) g1)\<lparr>gu_net := NetConnected\<rparr>)"

definition set_ui_callback :: "MessagingClient \<Rightarrow> MessagingClient" where
  "set_ui_callback mc = mc\<lparr>mc_context := (mc_context mc)\<lparr>cc_ui := Some []\<rparr>\<rparr>"

definition net_set_callback :: "gui \<Rightarrow> gui" where
  "net_set_callback g =
     (if gu_net g = NetConnected then g\<lparr>gu_client := set_ui_callback (gu_client g), gu_net := NetRunning\<rparr> else g)"

text \<open>A message for the client: the transport calls its data callback, which throws if it was never set.\<close>

definition net_data :: "qt \<Rightarrow> client_env \<Rightarrow> bytes \<Rightarrow> gui \<Rightarrow> gui" where
  "net_data qt env raw g =
     (if gu_net g \<noteq> NetRunning then g
      else if \<not> gu_data_callback g then g\<lparr>gu_error := Some BadFunctionCall\<rparr>
      else run_client qt (client_on_tcp_data_received env raw) g)"

definition net_stop :: "gui \<Rightarrow> gui" where
  "net_stop g = (if gu_net g = NetRunning then g\<lparr>gu_net := NetEnded\<rparr> else g)"

definition about_to_quit :: "gui \<Rightarrow> gui" where
  "about_to_quit g = g\<lparr>gu_client := client_stop (gu_client g)\<rparr>"

fun gui_on_event :: "qt \<Rightarrow> client_env \<Rightarrow> gui_event \<Rightarrow> gui \<Rightarrow> gui" where
  "gui_on_event qt env (EditNickname str) g = g\<lparr>gu_login := nickname_edit str (gu_login g)\<rparr>"
| "gui_on_event qt env (PressLogin t) g = press_login qt t g"
| "gui_on_event qt env (EditMessage str) g = g\<lparr>gu_chat := map_option (\<lambda>w. w\<lparr>cw_inputField := str\<rparr>) (gu_chat g)\<rparr>"
| "gui_on_event qt env (PressSend t) g = press_send qt t g"
| "gui_on_event qt env (Deliver t) g = deliver_signal qt env t g"
| "gui_on_event qt env NetInit g = net_init qt g"
| "gui_on_event qt env NetSetCallback g = net_set_callback g"
| "gui_on_event qt env (NetData raw) g = net_data qt env raw g"
| "gui_on_event qt env NetStop g = net_stop g"
| "gui_on_event qt env AboutToQuit g = about_to_quit g"

definition gui_step :: "qt \<Rightarrow> client_env \<Rightarrow> gui_event \<Rightarrow> gui \<Rightarrow> gui" where
  "gui_step qt env ev g = (if gu_error g \<noteq> None then g else gui_on_event qt env ev g)"

definition start_gui_client :: "ClientContext \<Rightarrow> gui" where
  "start_gui_client ctx = \<lparr>gu_login = LoginWindow_ctor, gu_chat = None, gu_queue = [], gu_client = MessagingClient_ctor ctx, gu_data_callback = False, gu_net = NetStart,
     gu_error = None, gu_handled = [], gu_mark = 0\<rparr>"

abbreviation gui_run :: "qt \<Rightarrow> client_env \<Rightarrow> gui_event list \<Rightarrow> gui \<Rightarrow> gui" where
  "gui_run qt env evs g \<equiv> fold (gui_step qt env) evs g"

section \<open>What the windows show and what the client is given\<close>

fun responses :: "bridge_signal list \<Rightarrow> qstring list" where
  "responses [] = []"
| "responses (ResponseReceived str # sigs) = str # responses sigs"
| "responses (SendToClient str # sigs) = responses sigs"

fun typed_lines :: "bridge_signal list \<Rightarrow> qstring list" where
  "typed_lines [] = []"
| "typed_lines (ResponseReceived str # sigs) = typed_lines sigs"
| "typed_lines (SendToClient str # sigs) = str # typed_lines sigs"

lemma signals_append [simp]: "responses (xs @ ys) = responses xs @ responses ys" "typed_lines (xs @ ys) = typed_lines xs @ typed_lines ys"
  by (induction xs rule: responses.induct) simp_all

lemma signals_posted [simp]: "typed_lines (map (postResponse qt) strs) = []" "responses (map (postResponse qt) strs) = map (fromStdString qt) strs"
  by (induction strs) (simp_all add: postResponse_def)

definition chat_inv :: "qt \<Rightarrow> gui \<Rightarrow> ChatWindow \<Rightarrow> bool" where
  "chat_inv qt g w \<longleftrightarrow> history_inv w \<and> (\<exists>nickname typed.
     incoming_texts w = map (toHtmlEscaped qt) ((qlit ''Welcome, '' @ nickname @ qlit ''!'') # responses (drop (gu_mark g) (gu_handled g))) \<and>
     outgoing_texts w = map (toHtmlEscaped qt) typed \<and> nickname \<noteq> [] \<and> [] \<notin> set typed \<and>
     typed_lines (gu_handled g @ gu_queue g) = (qlit ''/login '' @ nickname) # map (\<lambda>str. fromStdString qt (toStdString qt str)) typed)"

definition gui_inv :: "qt \<Rightarrow> gui \<Rightarrow> bool" where
  "gui_inv qt g \<longleftrightarrow> gu_mark g \<le> length (gu_handled g) \<and> (case gu_chat g of
       None \<Rightarrow> lw_open (gu_login g) \<and> typed_lines (gu_handled g @ gu_queue g) = []
     | Some w \<Rightarrow> \<not> lw_open (gu_login g) \<and> chat_inv qt g w)"

text \<open>Posting responses changes neither.\<close>

lemma fold_emit: "fold (\<lambda>str. emit_signal (postResponse qt str)) strs g = g\<lparr>gu_queue := gu_queue g @ map (postResponse qt) strs\<rparr>"
  by (induction strs arbitrary: g) (simp_all add: emit_signal_def)

lemma run_client_sel [simp]:
  "gu_login (run_client qt f g) = gu_login g" "gu_chat (run_client qt f g) = gu_chat g" "gu_handled (run_client qt f g) = gu_handled g"
  "gu_mark (run_client qt f g) = gu_mark g" "gu_net (run_client qt f g) = gu_net g" "gu_data_callback (run_client qt f g) = gu_data_callback g"
  "gu_queue (run_client qt f g) = gu_queue g @ (if gu_net g = NetEnded \<and> shown (snd (f (gu_client g))) \<noteq> shown (gu_client g) then []
     else map (postResponse qt) (shown (snd (f (gu_client g)))))"
  by (auto simp: run_client_def fold_emit Let_def split: prod.splits sum.splits)

text \<open>The invariant looks only at these parts of the state.\<close>

lemma gui_inv_cong:
  assumes "gui_inv qt g" "gu_login g' = gu_login g" "gu_chat g' = gu_chat g" "gu_handled g' = gu_handled g" "gu_mark g' = gu_mark g"
    and "typed_lines (gu_queue g') = typed_lines (gu_queue g)"
  shows "gui_inv qt g'"
  using assms by (auto simp: gui_inv_def chat_inv_def split: option.splits)

lemma press_login_inv:
  assumes "gui_inv qt g"
  shows "gui_inv qt (press_login qt t g)"
proof (cases "lw_open (gu_login g) \<and> trimmed qt (lw_nicknameInput (gu_login g)) \<noteq> []")
  case True
  then have "typed_lines (gu_handled g @ gu_queue g) = []" using assms by (auto simp: gui_inv_def split: option.splits)
  with True show ?thesis
    by (auto simp: press_login_def login_handleLogin_def on_login_success_def emit_signal_def postSend_def gui_inv_def chat_inv_def history_ctor)
next
  case False
  then show ?thesis using assms by (auto simp: press_login_def login_handleLogin_def Let_def gui_inv_def chat_inv_def split: option.splits)
qed

lemma press_send_inv:
  assumes "gui_inv qt g"
  shows "gui_inv qt (press_send qt t g)"
proof (cases "gu_chat g")
  case (Some w)
  let ?str = "trimmed qt (cw_inputField w)"
  have inv: "chat_inv qt g w" "\<not> lw_open (gu_login g)" "gu_mark g \<le> length (gu_handled g)" using assms Some by (auto simp: gui_inv_def)
  show ?thesis
  proof (cases "?str = []")
    case False
    let ?w = "(appendBubble qt ?str t True w)\<lparr>cw_inputField := []\<rparr>"
    let ?g = "emit_signal (SendToClient (fromStdString qt (toStdString qt ?str))) (g\<lparr>gu_chat := Some ?w\<rparr>)"
    obtain nickname typed where nt: "history_inv w" "nickname \<noteq> []" "[] \<notin> set typed"
        "incoming_texts w = map (toHtmlEscaped qt) ((qlit ''Welcome, '' @ nickname @ qlit ''!'') # responses (drop (gu_mark g) (gu_handled g)))"
        "outgoing_texts w = map (toHtmlEscaped qt) typed"
        "typed_lines (gu_handled g @ gu_queue g) = (qlit ''/login '' @ nickname) # map (\<lambda>str. fromStdString qt (toStdString qt str)) typed"
      using inv(1) by (auto simp: chat_inv_def)
    then have "chat_inv qt ?g ?w"
      unfolding chat_inv_def using False
      by (intro conjI exI [of _ nickname] exI [of _ "typed @ [?str]"]) (auto simp: history_append texts_append emit_signal_def)
    then have "gui_inv qt ?g" using inv by (simp add: gui_inv_def emit_signal_def)
    moreover have "press_send qt t g = ?g" using Some False by (simp add: press_send_def chat_handleSend_def Let_def)
    ultimately show ?thesis by simp
  qed (use assms Some in \<open>simp add: press_send_def chat_handleSend_def gui_inv_def chat_inv_def\<close>)
qed (use assms in \<open>simp add: press_send_def\<close>)

lemma deliver_signal_inv:
  assumes "gui_inv qt g"
  shows "gui_inv qt (deliver_signal qt env t g)"
proof (cases "gu_queue g")
  case (Cons sig rest)
  let ?g = "g\<lparr>gu_queue := rest, gu_handled := gu_handled g @ [sig]\<rparr>"
  show ?thesis
  proof (cases sig)
    case (SendToClient str)
    have "gui_inv qt ?g" using assms Cons SendToClient by (auto simp: gui_inv_def chat_inv_def split: option.splits)
    then have "gui_inv qt (run_client qt (get_data env (toStdString qt str)) ?g)" by (rule gui_inv_cong) simp_all
    with Cons SendToClient show ?thesis by (simp add: deliver_signal_def Let_def)
  next
    case (ResponseReceived str)
    with assms Cons show ?thesis
      by (auto simp: deliver_signal_def Let_def gui_inv_def chat_inv_def chat_updateResponse_def history_append texts_append split: option.splits)
  qed
qed (use assms in \<open>simp add: deliver_signal_def\<close>)

lemma gui_step_inv:
  assumes "gui_inv qt g"
  shows "gui_inv qt (gui_step qt env ev g)"
proof -
  have "gui_inv qt (gui_on_event qt env ev g)"
  proof (cases ev)
    case (EditNickname str)
    then show ?thesis using assms by (auto simp: gui_inv_def chat_inv_def nickname_edit_def split: option.splits)
  next
    case (EditMessage str)
    then show ?thesis using assms by (auto simp: gui_inv_def chat_inv_def split: option.splits)
  next
    case (NetData raw)
    then show ?thesis using gui_inv_cong [OF assms] by (simp add: net_data_def assms)
  qed (use assms in \<open>auto simp: press_login_inv press_send_inv deliver_signal_inv net_init_def init_client_def net_set_callback_def net_stop_def about_to_quit_def
      emit_signal_def postResponse_def intro: gui_inv_cong\<close>)
  then show ?thesis using assms by (simp add: gui_step_def)
qed

lemma gui_run_inv: "gui_inv qt g \<Longrightarrow> gui_inv qt (gui_run qt env evs g)"
  by (induction evs arbitrary: g) (simp_all add: gui_step_inv)

lemma gui_start_inv: "gui_inv qt (start_gui_client ctx)"
  by (simp add: gui_inv_def start_gui_client_def LoginWindow_ctor_def)

text \<open>The event loop runs only with the data callback set.\<close>

lemma callback_set:
  assumes "gu_net g \<in> {NetConnected, NetRunning} \<longrightarrow> gu_data_callback g"
  shows "let g' = gui_run qt env evs g in gu_net g' \<in> {NetConnected, NetRunning} \<longrightarrow> gu_data_callback g'"
  using assms
proof (induction evs arbitrary: g)
  case (Cons ev evs)
  have "gu_net (gui_step qt env ev g) \<in> {NetConnected, NetRunning} \<longrightarrow> gu_data_callback (gui_step qt env ev g)"
    using Cons.prems
    by (cases ev) (auto simp: gui_step_def press_login_def on_login_success_def press_send_def deliver_signal_def net_init_def init_client_def net_set_callback_def
        net_data_def net_stop_def about_to_quit_def emit_signal_def Let_def split: option.splits prod.splits list.splits bridge_signal.splits if_splits)
  with Cons.IH show ?case by simp
qed simp

text \<open>
  C19: the chat window shows every response once, in order, from the moment the user has logged in, and every line typed
  reaches the client once, in order, after the login command. In every state the process can reach with a chat window, under every interleaving of the
  user, the queue and the network thread: the incoming bubbles are the greeting and the responses the queue delivered since the window was made; the
  outgoing bubbles are the non-empty lines typed; and the lines handed to the client or still queued for it are the login command with the nickname
  and then exactly those lines. What was delivered before, the notice that the connection is up included, is shown nowhere. The states include those
  in which the process has ended with an exception or with undefined behaviour, where the history is that of the run up to that point; once the network
  thread has ended, the first line whose handler calls the window's callback ends the run in this way.
\<close>

theorem gui_history:
  assumes "gui_run qt env evs (start_gui_client ctx) = g" "gu_chat g = Some w"
  shows "\<exists>nickname typed. nickname \<noteq> [] \<and> [] \<notin> set typed \<and>
    incoming_texts w = map (toHtmlEscaped qt) ((qlit ''Welcome, '' @ nickname @ qlit ''!'') # responses (drop (gu_mark g) (gu_handled g))) \<and>
    outgoing_texts w = map (toHtmlEscaped qt) typed \<and>
    typed_lines (gu_handled g @ gu_queue g) = (qlit ''/login '' @ nickname) # map (\<lambda>str. fromStdString qt (toStdString qt str)) typed"
proof -
  have "gui_inv qt g" using gui_run_inv [OF gui_start_inv] assms(1) by blast
  then have "chat_inv qt g w" using assms(2) by (simp add: gui_inv_def)
  then show ?thesis unfolding chat_inv_def by blast
qed

text \<open>A model of the string functions on the characters of Latin-1.\<close>

definition sample_qt :: qt where
  "sample_qt = \<lparr>trimmed = (\<lambda>s. rev (dropWhile (\<lambda>c. c = 32) (rev (dropWhile (\<lambda>c. c = 32) s)))),
     toStdString = map (\<lambda>c. char_of (unat c)), fromStdString = qlit,
     toHtmlEscaped = (\<lambda>s. concat (map (\<lambda>c. if c = 0x3c then qlit ''&lt;'' else if c = 0x3e then qlit ''&gt;'' else if c = 0x26 then qlit ''&amp;''
        else if c = 0x22 then qlit ''&quot;'' else [c]) s)),
     toUpper = map (\<lambda>c. if 97 \<le> c \<and> c \<le> 122 then c - 32 else c)\<rparr>"

theorem gui_history_witness:
  "\<exists>w. gu_chat (gui_run sample_qt sample_cenv [NetInit, EditNickname (qlit ''bob ''), PressLogin [], Deliver [], EditMessage (qlit ''hi''), PressSend []]
      (start_gui_client sample_client)) = Some w \<and>
    incoming_texts w = map (toHtmlEscaped sample_qt) [qlit ''Welcome, '' @ qlit ''bob'' @ qlit ''!'', qlit str_connected]"
proof -
  let ?g = "gui_run sample_qt sample_cenv [NetInit, EditNickname (qlit ''bob ''), PressLogin [], Deliver [], EditMessage (qlit ''hi''), PressSend []]
      (start_gui_client sample_client)"
  have step: "gu_chat ?g \<noteq> None \<and> gu_handled ?g = [ResponseReceived (qlit str_connected)] \<and> gu_mark ?g = 0 \<and>
      hd (typed_lines (gu_queue ?g)) = qlit ''/login '' @ qlit ''bob''"
    by (simp add: gui_step_def start_gui_client_def net_init_def init_client_def emit_signal_def postResponse_def nickname_edit_def press_login_def
        login_handleLogin_def LoginWindow_ctor_def on_login_success_def postSend_def deliver_signal_def press_send_def chat_handleSend_def sample_qt_def
        Let_def qlit_def chat_updateResponse_def)
  then obtain w where w: "gu_chat ?g = Some w" by blast
  obtain nickname typed where nt: "incoming_texts w = map (toHtmlEscaped sample_qt) ((qlit ''Welcome, '' @ nickname @ qlit ''!'') #
        responses (drop (gu_mark ?g) (gu_handled ?g)))"
      "typed_lines (gu_handled ?g @ gu_queue ?g) = (qlit ''/login '' @ nickname) # map (\<lambda>str. fromStdString sample_qt (toStdString sample_qt str)) typed"
    using gui_history [OF refl w] by blast
  have "nickname = qlit ''bob''" using step nt(2) by simp
  with nt(1) step w show ?thesis by simp
qed

end
