(* ===== verification/Private_Message.thy ===== *)
theory Private_Message
  imports Server_Properties Client_Properties Message_Queue Crypto Runtime
begin

text \<open>
  A private message on its way: typed in a window, asked for by the client, answered and relayed by the server, read by the other client. The
  lemmas are the steps; the property over all of them is in \<open>Spec2Isabelle\<close>.
\<close>

section \<open>A private message from one client to another\<close>

text \<open>The client's part: the command asks for the recipient's key and queues the text.\<close>

lemma private_message_asks:
  assumes "r \<noteq> []" "p \<noteq> []" "length r < 65536" "mq_inv (cc_mq c)" "mq_abs (cc_mq c) r = []"
  shows "\<exists>c'. private_message_on_client env r p c = (Inr (), c') \<and> cc_sent c' = cc_sent c @ [request GET_PUBKEY [r] []] \<and>
    mq_inv (cc_mq c') \<and> mq_abs (cc_mq c') r = [p] \<and> cc_es c' = cc_es c \<and> cc_my_username c' = cc_my_username c \<and>
    cc_pending_messages c' = cc_pending_messages c \<and> counter_of c' r = counter_of c r"
proof -
  have "fits [[byte_of_CommandType GET_PUBKEY], r] []" using assms(3) by (simp add: fits_def)
  from send_message_fits [OF this, of "ce_now env" Command]
  have "get_pubkey_on_client env r c = (Inr (), c\<lparr>cc_sent := cc_sent c @ [request GET_PUBKEY [r] []]\<rparr>)"
    by (simp add: get_pubkey_on_client_def request_def)
  moreover have "mq_abs (mq_push (cc_mq c) r p) r = [p]" using mq_abs_push [OF assms(4), of r p] assms(5) by (simp add: kQueueSize_def)
  ultimately show ?thesis
    using assms(1, 2) mq_inv_push [OF assms(4), of r p] by (simp add: private_message_on_client_def andThen_def modify_def counter_of_def)
qed

text \<open>The client's part when the key arrives.\<close>

lemma pubkey_arrives:
  assumes "crypto_ok env" "mc_inv mc" "mq_inv (cc_mq (mc_context mc))" "mq_abs (cc_mq (mc_context mc)) r = [p]" "length p \<le> INT_MAX"
    and "small_names r (cc_my_username (mc_context mc))" "cc_pending_messages (mc_context mc) r = None"
    and "new_raw_public_key (ce_ssl env) X25519 dh = Some dk" "new_raw_public_key (ce_ssl env) ED25519 ik = Some k"
    and "fits [[byte_of_CommandType GET_PUBKEY], r, ik, sig] dh" "length (compute_shared_secret (ce_ssl env) (es_DH_key (cc_es (mc_context mc))) dk) = 32"
  shows "\<exists>mc' n. client_on_tcp_data_received env (serialize (built 0 dh [[byte_of_CommandType GET_PUBKEY], r, ik, sig] Response)) mc = (Inr (), mc') \<and>
    cc_sent (mc_context mc') = cc_sent (mc_context mc) @ [private_frame (cc_my_username (mc_context mc)) r
      (projr (encrypt_for (ce_ssl env) (ce_rand env n) (with_keys (cc_es (mc_context mc)) r dk k) (cc_my_username (mc_context mc)) r p (counter_of (mc_context mc) r)))]"
proof -
  let ?msg = "built 0 dh [[byte_of_CommandType GET_PUBKEY], r, ik, sig] Response"
  have d: "deserialize (serialize ?msg) = Inr ?msg" by (rule deserialize_built_exact [OF assms(10)]) simp
  obtain c' where c': "handle_response env ?msg (mc_context mc) = (Inr (), c')"
      "cc_sent c' = cc_sent (mc_context mc) @ map (private_frame (cc_my_username (mc_context mc)) r)
        (ciphertexts env (cc_es c') (cc_my_username (mc_context mc)) r (counter_of (mc_context mc) r) (cc_rng (mc_context mc)) [p])"
      "cc_es c' = with_keys (cc_es (mc_context mc)) r dk k"
    using pubkey_response_eval [OF assms(1, 3, 6) _ assms(8, 9, 7, 11), of sig] assms(4, 5) by auto
  have serve: "client_serve env ?msg (mc_context mc) = (Inr (), c')" using c'(1) by (simp add: client_serve_def)
  obtain res mc' where m: "client_on_tcp_data_received env (serialize ?msg) mc = (res, mc')" "mc_context mc' = c'"
      "\<And>e. res = Inl e \<longleftrightarrow> False"
    by (rule client_receives [OF assms(2) d, of env]) (use serve in auto)
  then have "res = Inr ()" by (cases res) auto
  with m c'(2, 3) show ?thesis by auto
qed

lemma sign_with_keys [simp]: "sign ssl (with_keys es u dk k) = sign ssl es"
  by (simp add: sign_def with_keys_def)

text \<open>Whatever random number is drawn, what is encrypted for a recipient who knows the sender can be read by it.\<close>

lemma ciphertext_for:
  assumes "crypto_ok env" "knows (ce_ssl env) alice a bob b" "sign (ce_ssl env) alice = Inr sig"
    and "length a + length b \<le> INT_MAX" "length p \<le> INT_MAX"
  obtains ct where "encrypt_for (ce_ssl env) (ce_rand env n) alice a b p m = Inr ct"
    "fst (decrypt_for (ce_ssl env) bob a b ct sig m) = Inr p" "length ct = 36 + length p"
proof -
  obtain iv where iv: "ce_rand env n = Some iv" "length iv = 12" using assms(1) by (auto simp: crypto_ok_def)
  have ssl: "gcm_correct (ce_ssl env)" "hkdf_ok (ce_ssl env)" using assms(1) by (simp_all add: crypto_ok_def)
  obtain ct where ct: "encrypt_for (ce_ssl env) (Some iv) alice a b p m = Inr ct" "fst (decrypt_for (ce_ssl env) bob a b ct sig m) = Inr p"
    using end_to_end [OF ssl iv(2) assms(2-5), of m m] by auto
  have "length ct = 36 + length p" using encrypt_for_known [OF assms(1) knows_shares [OF assms(2)] assms(4, 5), of n m] ct(1) iv(1) by auto
  with ct iv(1) that show ?thesis by simp
qed

text \<open>The other client's part.\<close>

lemma private_message_shown:
  assumes "mc_inv mc" "cc_ui (mc_context mc) = Some texts" "fits [r, sender, dh, ik, sig] ct"
    and "new_raw_public_key (ce_ssl env) X25519 dh = Some dk" "new_raw_public_key (ce_ssl env) ED25519 ik = Some k"
    and "fst (decrypt_for (ce_ssl env) (with_keys (cc_es (mc_context mc)) sender dk k) sender r ct sig (counter_of (mc_context mc) sender)) = Inr p"
  shows "\<exists>mc'. client_on_tcp_data_received env (serialize (built 0 ct [r, sender, dh, ik, sig] CipherMessage)) mc = (Inr (), mc') \<and>
    cc_ui (mc_context mc') = Some (texts @ [private_prefix @ to_string sender @ '']: '' @ to_string p]) \<and>
    counter_of (mc_context mc') sender = counter_of (mc_context mc) sender + 1"
proof -
  let ?msg = "built 0 ct [r, sender, dh, ik, sig] CipherMessage" and ?c = "mc_context mc"
  have d: "deserialize (serialize ?msg) = Inr ?msg" by (rule deserialize_built_exact [OF assms(3)]) simp
  have serve: "client_serve env ?msg ?c = (Inr (), ?c\<lparr>cc_es := with_keys (cc_es ?c) sender dk k, cc_counter := (cc_counter ?c)(sender \<mapsto> counter_of ?c sender + 1),
      cc_ui := Some (texts @ [private_prefix @ to_string sender @ '']: '' @ to_string p])\<rparr>)"
    using process_message_eval [OF assms(4, 5, 2), of sender r ct sig] assms(6) by (simp add: client_serve_def handle_cipher_def)
  obtain res mc' where m: "client_on_tcp_data_received env (serialize ?msg) mc = (res, mc')" "mc_context mc' = snd (client_serve env ?msg ?c)"
      "\<And>e. res = Inl e \<longleftrightarrow> False"
    by (rule client_receives [OF assms(1) d, of env]) (use serve in auto)
  then have "res = Inr ()" by (cases res) auto
  with m serve show ?thesis by (auto simp: counter_of_def)
qed


section \<open>From the answer on\<close>

text \<open>The client has asked for the key and queued the text.\<close>

lemma private_message_relayed:
  assumes "crypto_ok env" "mc_inv alice" "mc_inv bob" "ms_inv ms"
    and "cc_my_username (mc_context alice) = to_bytes ua" "ub \<noteq> []" "length p \<le> INT_MAX"
    and "mq_inv (cc_mq (mc_context alice))" "mq_abs (cc_mq (mc_context alice)) (to_bytes ub) = [p]"
    and "cc_pending_messages (mc_context alice) (to_bytes ub) = None" "cc_ui (mc_context bob) = Some texts"
    and "fd_to_name (sc_sessions (ms_context ms)) fda = Some ua" "name_to_fd (sc_sessions (ms_context ms)) ub = Some fdb"
    and "sc_users (ms_context ms) ua = Some xa" "sc_users (ms_context ms) ub = Some xb"
    and "small_metas [to_bytes ua, to_bytes ub, user_publicDHKey xa, user_publicIdentityKey xa, user_signature xa,
      user_publicDHKey xb, user_publicIdentityKey xb, user_signature xb]"
    and "new_raw_public_key (ce_ssl env) X25519 (user_publicDHKey xa) = Some ka" "new_raw_public_key (ce_ssl env) ED25519 (user_publicIdentityKey xa) = Some ia"
    and "new_raw_public_key (ce_ssl env) X25519 (user_publicDHKey xb) = Some kb" "new_raw_public_key (ce_ssl env) ED25519 (user_publicIdentityKey xb) = Some ib"
    and "knows (ce_ssl env) (with_keys (cc_es (mc_context alice)) (to_bytes ub) kb ib) (to_bytes ua)
      (with_keys (cc_es (mc_context bob)) (to_bytes ua) ka ia) (to_bytes ub)"
    and "sign (ce_ssl env) (cc_es (mc_context alice)) = Inr (user_signature xa)"
    and "counter_of (mc_context alice) (to_bytes ub) = counter_of (mc_context bob) (to_bytes ua)" "ce_ssl envb = ce_ssl env"
  obtains ms1 answer alice2 sent ms2 relayed bob2 where
    "on_tcp_data_received senv fda (request GET_PUBKEY [to_bytes ub] []) ms = (Inr (), ms1)" "sc_sent (ms_context ms1) = sc_sent (ms_context ms) @ [(fda, answer)]"
    "client_on_tcp_data_received env answer alice = (Inr (), alice2)" "cc_sent (mc_context alice2) = cc_sent (mc_context alice) @ [sent]"
    "on_tcp_data_received senv fda sent ms1 = (Inr (), ms2)" "sc_sent (ms_context ms2) = sc_sent (ms_context ms1) @ [(fdb, relayed)]"
    "client_on_tcp_data_received envb relayed bob = (Inr (), bob2)"
    "cc_ui (mc_context bob2) = Some (texts @ [private_prefix @ ua @ '']: '' @ to_string p])"
    "counter_of (mc_context bob2) (to_bytes ua) = counter_of (mc_context bob) (to_bytes ua) + 1"
proof -
  let ?a = "to_bytes ua" and ?b = "to_bytes ub" and ?ssl = "ce_ssl env"
  have lens: "length ?b < 65536" "length ?a < 65536" using assms(16) by (simp_all add: small_metas_def)
  have fit: "fits [[byte_of_CommandType GET_PUBKEY], ?b] []"
      "fits [[byte_of_CommandType GET_PUBKEY], ?b, user_publicIdentityKey xb, user_signature xb] (user_publicDHKey xb)"
    by (rule small_metas_fits, use assms(16) in \<open>simp_all add: small_metas_def\<close>)+
  let ?answer = "serialize (built 0 (user_publicDHKey xb) [[byte_of_CommandType GET_PUBKEY], ?b, user_publicIdentityKey xb, user_signature xb] Response)"
  obtain ms1 where ms1: "on_tcp_data_received senv fda (request GET_PUBKEY [?b] []) ms = (Inr (), ms1)" "ms_inv ms1"
      "ms_context ms1 = (ms_context ms)\<lparr>sc_fd := fda, sc_sent := sc_sent (ms_context ms) @ [(fda, ?answer)]\<rparr>"
    using pubkey_served [OF assms(4) fit(1) assms(6, 15) fit(2), of senv fda] by (auto simp: serves_def)
  have secret: "length (compute_shared_secret ?ssl (es_DH_key (cc_es (mc_context alice))) kb) = 32"
    using knows_shares [OF assms(21)] by (simp add: shares_secret_def with_keys_def)
  obtain alice2 n where alice2: "client_on_tcp_data_received env ?answer alice = (Inr (), alice2)"
      "cc_sent (mc_context alice2) = cc_sent (mc_context alice) @ [private_frame ?a ?b
        (projr (encrypt_for ?ssl (ce_rand env n) (with_keys (cc_es (mc_context alice)) ?b kb ib) ?a ?b p (counter_of (mc_context alice) ?b)))]"
    using pubkey_arrives [OF assms(1, 2, 8, 9, 7) _ assms(10, 19, 20) fit(2) secret] lens assms(5) by (auto simp: small_names_def)
  obtain ct where ct: "encrypt_for ?ssl (ce_rand env n) (with_keys (cc_es (mc_context alice)) ?b kb ib) ?a ?b p (counter_of (mc_context alice) ?b) = Inr ct"
      "fst (decrypt_for ?ssl (with_keys (cc_es (mc_context bob)) ?a ka ia) ?a ?b ct (user_signature xa) (counter_of (mc_context alice) ?b)) = Inr p"
      "length ct = 36 + length p"
    by (rule ciphertext_for [OF assms(1, 21)]) (use assms(7, 22) lens in simp_all)
  have fit2: "fits [?b, ?a] ct" "fits [?b, ?a, user_publicDHKey xa, user_publicIdentityKey xa, user_signature xa] ct"
    using ct(3) assms(7, 16) by (simp_all add: fits_def small_metas_def)
  let ?relayed = "serialize (built 0 ct [?b, ?a, user_publicDHKey xa, user_publicIdentityKey xa, user_signature xa] CipherMessage)"
  obtain ms2 where ms2: "on_tcp_data_received senv fda (private_frame ?a ?b ct) ms1 = (Inr (), ms2)" "sc_sent (ms_context ms2) = sc_sent (ms_context ms1) @ [(fdb, ?relayed)]"
    using cipher_served [OF ms1(2) fit2(1), of xa fda ua senv] fit2(2) ms1(3) assms(12-14) by (auto simp: serves_def cipher_frame_def private_frame_def)
  obtain bob2 where bob2: "client_on_tcp_data_received envb ?relayed bob = (Inr (), bob2)"
      "cc_ui (mc_context bob2) = Some (texts @ [private_prefix @ ua @ '']: '' @ to_string p])"
      "counter_of (mc_context bob2) ?a = counter_of (mc_context bob) ?a + 1"
    using private_message_shown [OF assms(3, 11) fit2(2), of envb ka ia p] ct(2) assms(17, 18, 23, 24) by auto
  have "cc_sent (mc_context alice2) = cc_sent (mc_context alice) @ [private_frame ?a ?b ct]" using alice2(2) ct(1) by simp
  moreover have "sc_sent (ms_context ms1) = sc_sent (ms_context ms) @ [(fda, ?answer)]" using ms1(3) by simp
  ultimately show ?thesis using that ms1(1) alice2(1) ms2 bob2 by blast
qed

section \<open>The windows\<close>

text \<open>A typed line with a recipient and a text is parsed to the command, which the client's dispatcher runs.\<close>

lemma dispatched_line:
  assumes "mc_inv mc" "parse (ce_now env) line = Inr msg" "client_serve env msg (mc_context mc) = (Inr (), c1)"
  obtains mc' where "get_data env line mc = (Inr (), mc')" "mc_inv mc'" "mc_context mc' = c1"
proof -
  obtain r mc' where d: "client_dispatch env msg mc = (r, mc')" "mc_inv mc'" "mc_context mc' = c1" "\<And>e. r = Inl e \<longleftrightarrow> False"
    by (rule client_dispatch_serve [OF assms(1), of env msg]) (use assms(3) in auto)
  then obtain b where "r = Inr b" by (cases r) auto
  with assms(2) d that show ?thesis by (simp add: get_data_def action_simps andThen_def)
qed

lemma typed_command:
  assumes "mc_inv mc" "(name, 1, True) \<in> set command_arity" "command_types_map name = Some t"
    and "list_all plain (w # ws)" "length w < 65536" "length (unwords ws) < 65536"
    and "client_serve env (built (ce_now env) (to_bytes (unwords ws)) [[byte_of_CommandType t], to_bytes w, to_bytes (unwords ws)] Command) (mc_context mc) =
      (Inr (), c1)"
  obtains mc' where "get_data env (unwords ((CHR ''/'' # name) # w # ws)) mc = (Inr (), mc')" "mc_inv mc'" "mc_context mc' = c1"
proof -
  let ?p = "to_bytes (unwords ws)" and ?line = "unwords ((CHR ''/'' # name) # w # ws)"
  let ?msg = "built (ce_now env) ?p [[byte_of_CommandType t], to_bytes w, ?p] Command"
  have l: "parse_line ?line = \<lparr>pc_name = name, pc_args = [to_bytes w, ?p]\<rparr>"
    using parse_line_catalogue [OF assms(2, 4)] by simp
  have "fits [[byte_of_CommandType t], to_bytes w, ?p] ?p" using assms(5, 6) by (simp add: fits_def)
  then have "make_command_from_struct (ce_now env) (parse_line ?line) = Inr ?msg"
    unfolding l using make_command_built [of "\<lparr>pc_name = name, pc_args = [to_bytes w, ?p]\<rparr>" "ce_now env"] assms(3)
    by (simp add: command_type_byte_def last_arg_def)
  moreover have "?line \<noteq> []" "hd ?line = CHR ''/''" by simp_all
  ultimately have p: "parse (ce_now env) ?line = Inr ?msg" by (simp add: parse_def)
  show ?thesis by (rule dispatched_line [OF assms(1) p assms(7)]) (rule that)
qed

lemma typed_private_message:
  assumes "mc_inv mc" "list_all plain (ub # ws)" "length ub < 65536" "length (unwords ws) < 65536"
    and "private_message_on_client env (to_bytes ub) (to_bytes (unwords ws)) (mc_context mc) = (Inr (), c1)"
  obtains mc' where "get_data env (unwords (''/pmess'' # ub # ws)) mc = (Inr (), mc')" "mc_inv mc'" "mc_context mc' = c1"
proof -
  let ?msg = "built (ce_now env) (to_bytes (unwords ws)) [[byte_of_CommandType PRIVATE_MESSAGE], to_bytes ub, to_bytes (unwords ws)] Command"
  have n: "pc_name (make_struct_from_command ?msg) = ''pmess''"
    by (simp add: make_struct_from_command_def CommandType_of_byte_def command_names_map_def)
  have "client_serve env ?msg (mc_context mc) = (Inr (), c1)"
    using n assms(5) by (simp add: client_serve_def client_registry_lookup create_def)
  then show ?thesis
    by (rule typed_command [OF assms(1) _ _ assms(2-4), of "''pmess''", rotated 2])
      (simp_all add: command_arity_def command_types_map_def that)
qed

text \<open>A client with a chat window, connected and with nothing waiting in its queue.\<close>

definition window_up :: "gui \<Rightarrow> ChatWindow \<Rightarrow> bool" where
  "window_up g w \<longleftrightarrow> gu_error g = None \<and> gu_chat g = Some w \<and> history_inv w \<and> gu_queue g = [] \<and> gu_net g = NetRunning \<and> gu_data_callback g \<and> cc_ui (mc_context (gu_client g)) = Some []"

lemma clear_ui_sel [simp]:
  "mc_context (clear_ui mc) = (mc_context mc)\<lparr>cc_ui := map_option (\<lambda>_. []) (cc_ui (mc_context mc))\<rparr>" "mc_inv (clear_ui mc) = mc_inv mc"
  by (simp_all add: clear_ui_def mc_inv_def)

lemma run_client_ok:
  assumes "f (gu_client g) = (Inr (), mc)" "gu_net g \<noteq> NetEnded"
  shows "gu_client (run_client qt f g) = clear_ui mc" "gu_error (run_client qt f g) = gu_error g"
  using assms by (simp_all add: run_client_def fold_emit)

text \<open>A line is typed and the queue delivers it.\<close>

lemma line_typed:
  assumes "window_up g w" "trimmed qt line \<noteq> []" "toStdString qt (trimmed qt line) = cmd" "fromStdString qt cmd = trimmed qt line"
    and "get_data env cmd (gu_client g) = (Inr (), mc)"
  obtains w' where "gu_chat (gui_run qt env [EditMessage line, PressSend t1, Deliver t2] g) = Some w'"
    "outgoing_texts w' = outgoing_texts w @ [toHtmlEscaped qt (trimmed qt line)]" "incoming_texts w' = incoming_texts w"
    "gu_client (gui_run qt env [EditMessage line, PressSend t1, Deliver t2] g) = clear_ui mc"
    "gu_error (gui_run qt env [EditMessage line, PressSend t1, Deliver t2] g) = None"
    "gu_net (gui_run qt env [EditMessage line, PressSend t1, Deliver t2] g) = NetRunning"
    "gu_data_callback (gui_run qt env [EditMessage line, PressSend t1, Deliver t2] g)"
    "cc_ui (mc_context mc) = Some [] \<longrightarrow> window_up (gui_run qt env [EditMessage line, PressSend t1, Deliver t2] g) w'"
proof -
  let ?w = "w\<lparr>cw_inputField := line\<rparr>"
  let ?w' = "(appendBubble qt (trimmed qt line) t1 True ?w)\<lparr>cw_inputField := []\<rparr>"
  let ?g = "g\<lparr>gu_chat := Some ?w', gu_queue := [], gu_handled := gu_handled g @ [SendToClient (trimmed qt line)]\<rparr>"
  have run: "gui_run qt env [EditMessage line, PressSend t1, Deliver t2] g = run_client qt (get_data env cmd) ?g"
    using assms(1-4) by (simp add: window_up_def gui_step_def press_send_def chat_handleSend_def deliver_signal_def emit_signal_def Let_def)
  have "history_inv ?w" using assms(1) by (simp add: window_up_def)
  then have "outgoing_texts ?w' = outgoing_texts w @ [toHtmlEscaped qt (trimmed qt line)]" "incoming_texts ?w' = incoming_texts w" "history_inv ?w'"
    by (simp_all add: texts_append history_append)
  moreover have "get_data env cmd (gu_client ?g) = (Inr (), mc)" using assms(5) by simp
  ultimately show ?thesis using run_client_ok [of "get_data env cmd" ?g mc qt] assms(1) by (intro that [of ?w', unfolded run]) (simp_all add: window_up_def shown_def)
qed

text \<open>Data arrives that makes the client call its callback once, and the queue delivers the response.\<close>

lemma data_shown:
  assumes "window_up g w" "client_on_tcp_data_received env raw (gu_client g) = (Inr (), mc)" "cc_ui (mc_context mc) = Some [str]"
  obtains w' where "gu_chat (gui_run qt env [NetData raw, Deliver t] g) = Some w'"
    "incoming_texts w' = incoming_texts w @ [toHtmlEscaped qt (fromStdString qt str)]" "outgoing_texts w' = outgoing_texts w"
    "gu_client (gui_run qt env [NetData raw, Deliver t] g) = clear_ui mc" "window_up (gui_run qt env [NetData raw, Deliver t] g) w'"
proof -
  let ?f = "client_on_tcp_data_received env raw" and ?w' = "appendBubble qt (fromStdString qt str) t False w"
  have "gu_queue (run_client qt ?f g) = [ResponseReceived (fromStdString qt str)]"
    using assms by (simp add: window_up_def shown_def postResponse_def)
  then have "gu_chat (gui_run qt env [NetData raw, Deliver t] g) = Some ?w'" "gu_client (gui_run qt env [NetData raw, Deliver t] g) = clear_ui mc"
      "window_up (gui_run qt env [NetData raw, Deliver t] g) ?w'"
    using assms(1, 3) run_client_ok [of ?f g mc qt] assms(2)
    by (simp_all add: window_up_def gui_step_def net_data_def deliver_signal_def chat_updateResponse_def history_append Let_def)
  moreover have "incoming_texts ?w' = incoming_texts w @ [toHtmlEscaped qt (fromStdString qt str)]" "outgoing_texts ?w' = outgoing_texts w"
    using assms(1) by (simp_all add: window_up_def texts_append)
  ultimately show ?thesis using that by blast
qed

text \<open>A line that is no command is given to the window's callback and to nobody else.\<close>

lemma plain_line_echoed:
  assumes "mc_inv mc" "line \<noteq> []" "hd line \<noteq> CHR ''/''" "parse (ce_now env) line = Inr msg" "cc_ui (mc_context mc) = Some []"
  obtains mc' where "get_data env line mc = (Inr (), mc')" "mc_context mc' = (mc_context mc)\<lparr>cc_ui := Some [line]\<rparr>"
proof -
  have "get_type msg = Text" "get_payload msg = to_bytes line"
    using assms(2-4)
    by (cases "compute_serialized_size (msg_metalen default_message) (msg_metadata default_message) (to_bytes line)";
        auto simp: parse_def set_payload_def get_type_def get_payload_def)+
  then have "client_serve env msg (mc_context mc) = (Inr (), (mc_context mc)\<lparr>cc_ui := Some [line]\<rparr>)"
    using assms(5) by (simp add: client_serve_def handle_text_def ui_callback_def to_string_to_bytes)
  from dispatched_line [OF assms(1, 4) this] that show ?thesis by blast
qed

section \<open>The callback and the thread it belongs to\<close>

text \<open>
  The window's callback does not survive the network thread. Take a connected client with a chat window and nothing queued. A line that is
  no command, typed and delivered, comes back: it is shown as sent and then as received, and nothing is handed to the transport. If the network
  thread ends first, as it does when the server closes the connection, the same line makes the GUI thread call a lambda whose captured
  reference belonged to the ended thread, and the process runs into undefined behaviour.
\<close>

theorem typing_after_stop:
  assumes "window_up g w" "mc_inv (gu_client g)" "trimmed qt line \<noteq> []" "toStdString qt (trimmed qt line) = str" "fromStdString qt str = trimmed qt line"
    and "str \<noteq> []" "hd str \<noteq> CHR ''/''" "parse (ce_now env) str = Inr msg"
  shows "(\<exists>w'. gu_chat (gui_run qt env [EditMessage line, PressSend t1, Deliver t2, Deliver t3] g) = Some w' \<and>
      outgoing_texts w' = outgoing_texts w @ [toHtmlEscaped qt (trimmed qt line)] \<and>
      incoming_texts w' = incoming_texts w @ [toHtmlEscaped qt (trimmed qt line)]) \<and>
    cc_sent (mc_context (gu_client (gui_run qt env [EditMessage line, PressSend t1, Deliver t2, Deliver t3] g))) = cc_sent (mc_context (gu_client g)) \<and>
    gu_error (gui_run qt env [EditMessage line, PressSend t1, Deliver t2, Deliver t3] g) = None \<and>
    gu_error (gui_run qt env [NetStop, EditMessage line, PressSend t1, Deliver t2] g) = Some (Undefined ''callback of an ended thread'')"
proof -
  have up: "gu_error g = None" "gu_chat g = Some w" "history_inv w" "gu_queue g = []" "gu_net g = NetRunning" "cc_ui (mc_context (gu_client g)) = Some []"
    using assms(1) by (simp_all add: window_up_def)
  obtain mc where mc: "get_data env str (gu_client g) = (Inr (), mc)" "mc_context mc = (mc_context (gu_client g))\<lparr>cc_ui := Some [str]\<rparr>"
    by (rule plain_line_echoed [OF assms(2, 6-8) up(6)])
  let ?w = "(appendBubble qt (trimmed qt line) t1 True (w\<lparr>cw_inputField := line\<rparr>))\<lparr>cw_inputField := []\<rparr>"
  let ?g = "g\<lparr>gu_chat := Some ?w, gu_queue := [], gu_handled := gu_handled g @ [SendToClient (trimmed qt line)]\<rparr>"
  let ?g1 = "run_client qt (get_data env str) ?g"
  have typed: "gui_run qt env [EditMessage line, PressSend t1, Deliver t2] g = ?g1"
    using up assms(3-5) by (simp add: gui_step_def press_send_def chat_handleSend_def deliver_signal_def emit_signal_def Let_def)
  have w: "history_inv ?w" "outgoing_texts ?w = outgoing_texts w @ [toHtmlEscaped qt (trimmed qt line)]" "incoming_texts ?w = incoming_texts w"
    using up(3) by (simp_all add: texts_append history_append)
  have g1: "gu_chat ?g1 = Some ?w" "gu_error ?g1 = None" "gu_client ?g1 = clear_ui mc" "gu_queue ?g1 = [ResponseReceived (trimmed qt line)]"
    using run_client_ok [of "get_data env str" ?g mc qt] mc up assms(5) by (simp_all add: shown_def postResponse_def)
  have "gui_run qt env [EditMessage line, PressSend t1, Deliver t2, Deliver t3] g = gui_step qt env (Deliver t3) ?g1" using typed by simp
  then have g2: "gu_chat (gui_run qt env [EditMessage line, PressSend t1, Deliver t2, Deliver t3] g) = Some (appendBubble qt (trimmed qt line) t3 False ?w)"
      "gu_error (gui_run qt env [EditMessage line, PressSend t1, Deliver t2, Deliver t3] g) = None"
      "gu_client (gui_run qt env [EditMessage line, PressSend t1, Deliver t2, Deliver t3] g) = clear_ui mc"
    using g1 by (simp_all add: gui_step_def deliver_signal_def chat_updateResponse_def Let_def)
  have "gui_run qt env [NetStop, EditMessage line, PressSend t1, Deliver t2] g = run_client qt (get_data env str)
      (g\<lparr>gu_net := NetEnded, gu_chat := Some ?w, gu_queue := [], gu_handled := gu_handled g @ [SendToClient (trimmed qt line)]\<rparr>)"
    using up assms(3-5) by (simp add: gui_step_def net_stop_def press_send_def chat_handleSend_def deliver_signal_def emit_signal_def Let_def)
  then have "gu_error (gui_run qt env [NetStop, EditMessage line, PressSend t1, Deliver t2] g) = Some (Undefined ''callback of an ended thread'')"
    using mc up(6) by (simp add: run_client_def shown_def)
  with g2 w mc(2) show ?thesis by (simp add: texts_append)
qed

section \<open>From window to window\<close>

lemma message_crosses:
  assumes "crypto_ok env" "window_up ga wa" "window_up gb wb" "mc_inv (gu_client ga)" "mc_inv (gu_client gb)" "ms_inv ms"
    and "trimmed qt line \<noteq> []" "toStdString qt (trimmed qt line) = unwords (''/pmess'' # ub # ws)"
      "fromStdString qt (unwords (''/pmess'' # ub # ws)) = trimmed qt line"
    and "list_all plain (ub # ws)" "ws \<noteq> []" "length (unwords ws) < 65536"
    and "cc_my_username (mc_context (gu_client ga)) = to_bytes ua"
    and "mq_inv (cc_mq (mc_context (gu_client ga)))" "mq_abs (cc_mq (mc_context (gu_client ga))) (to_bytes ub) = []"
    and "cc_pending_messages (mc_context (gu_client ga)) (to_bytes ub) = None"
    and "fd_to_name (sc_sessions (ms_context ms)) fda = Some ua" "name_to_fd (sc_sessions (ms_context ms)) ub = Some fdb"
    and "sc_users (ms_context ms) ua = Some xa" "sc_users (ms_context ms) ub = Some xb"
    and "small_metas [to_bytes ua, to_bytes ub, user_publicDHKey xa, user_publicIdentityKey xa, user_signature xa,
      user_publicDHKey xb, user_publicIdentityKey xb, user_signature xb]"
    and "new_raw_public_key (ce_ssl env) X25519 (user_publicDHKey xa) = Some ka" "new_raw_public_key (ce_ssl env) ED25519 (user_publicIdentityKey xa) = Some ia"
    and "new_raw_public_key (ce_ssl env) X25519 (user_publicDHKey xb) = Some kb" "new_raw_public_key (ce_ssl env) ED25519 (user_publicIdentityKey xb) = Some ib"
    and "knows (ce_ssl env) (with_keys (cc_es (mc_context (gu_client ga))) (to_bytes ub) kb ib) (to_bytes ua)
      (with_keys (cc_es (mc_context (gu_client gb))) (to_bytes ua) ka ia) (to_bytes ub)"
    and "sign (ce_ssl env) (cc_es (mc_context (gu_client ga))) = Inr (user_signature xa)"
    and "counter_of (mc_context (gu_client ga)) (to_bytes ub) = counter_of (mc_context (gu_client gb)) (to_bytes ua)" "ce_ssl envb = ce_ssl env"
  shows "\<exists>ga1 ga2 gb2 wa1 wb2 asked answer sent relayed ms1 ms2.
    gui_run qt env [EditMessage line, PressSend t1, Deliver t2] ga = ga1 \<and> gu_chat ga1 = Some wa1 \<and>
    outgoing_texts wa1 = outgoing_texts wa @ [toHtmlEscaped qt (trimmed qt line)] \<and> incoming_texts wa1 = incoming_texts wa \<and>
    gu_error ga1 = None \<and> gu_net ga1 = NetRunning \<and> gu_chat ga2 = Some wa1 \<and>
    cc_sent (mc_context (gu_client ga1)) = cc_sent (mc_context (gu_client ga)) @ [asked] \<and>
    on_tcp_data_received senv fda asked ms = (Inr (), ms1) \<and> sc_sent (ms_context ms1) = sc_sent (ms_context ms) @ [(fda, answer)] \<and>
    gui_run qt env [NetData answer] ga1 = ga2 \<and> cc_sent (mc_context (gu_client ga2)) = cc_sent (mc_context (gu_client ga1)) @ [sent] \<and>
    on_tcp_data_received senv fda sent ms1 = (Inr (), ms2) \<and> sc_sent (ms_context ms2) = sc_sent (ms_context ms1) @ [(fdb, relayed)] \<and>
    gui_run qt envb [NetData relayed, Deliver t3] gb = gb2 \<and> gu_chat gb2 = Some wb2 \<and> gu_error ga2 = None \<and> gu_error gb2 = None \<and>
    incoming_texts wb2 = incoming_texts wb @ [toHtmlEscaped qt (fromStdString qt (private_prefix @ ua @ '']: '' @ unwords ws))] \<and>
    counter_of (mc_context (gu_client gb2)) (to_bytes ua) = counter_of (mc_context (gu_client gb)) (to_bytes ua) + 1"
proof -
  let ?b = "to_bytes ub" and ?p = "to_bytes (unwords ws)" and ?ca = "mc_context (gu_client ga)"
  have ub: "ub \<noteq> []" "length ub < 65536" using assms(10, 21) by (auto simp: plain_def small_metas_def)
  have p: "unwords ws \<noteq> []" using assms(10, 11) unwords_eq_Nil [of ws] by (cases ws) auto
  have names: "?b \<noteq> []" "?p \<noteq> []" "length ?b < 65536" using ub p by (simp_all add: to_bytes_def)
  obtain c1 where c1: "private_message_on_client env ?b ?p ?ca = (Inr (), c1)" "cc_sent c1 = cc_sent ?ca @ [request GET_PUBKEY [?b] []]"
      "mq_inv (cc_mq c1)" "mq_abs (cc_mq c1) ?b = [?p]" "cc_es c1 = cc_es ?ca" "cc_my_username c1 = cc_my_username ?ca"
      "cc_pending_messages c1 ?b = None" "counter_of c1 ?b = counter_of ?ca ?b"
    using private_message_asks [OF names assms(14, 15), of env] assms(16) by auto
  obtain mc where mc: "get_data env (unwords (''/pmess'' # ub # ws)) (gu_client ga) = (Inr (), mc)" "mc_inv mc" "mc_context mc = c1"
    by (rule typed_private_message [OF assms(4, 10) ub(2) assms(12) c1(1)])
  let ?ga1 = "gui_run qt env [EditMessage line, PressSend t1, Deliver t2] ga"
  obtain wa1 where wa1: "gu_chat ?ga1 = Some wa1" "outgoing_texts wa1 = outgoing_texts wa @ [toHtmlEscaped qt (trimmed qt line)]"
      "incoming_texts wa1 = incoming_texts wa" "gu_client ?ga1 = clear_ui mc" "gu_error ?ga1 = None" "gu_net ?ga1 = NetRunning" "gu_data_callback ?ga1"
    by (rule line_typed [OF assms(2, 7-9) mc(1)])
  have alice: "mc_inv (clear_ui mc)" "cc_my_username (mc_context (clear_ui mc)) = to_bytes ua" "mq_inv (cc_mq (mc_context (clear_ui mc)))"
      "mq_abs (cc_mq (mc_context (clear_ui mc))) ?b = [?p]" "cc_pending_messages (mc_context (clear_ui mc)) ?b = None"
      "cc_es (mc_context (clear_ui mc)) = cc_es ?ca" "counter_of (mc_context (clear_ui mc)) ?b = counter_of ?ca ?b"
    using mc(2, 3) c1 assms(13) by (simp_all add: counter_of_def)
  have bob: "cc_ui (mc_context (gu_client gb)) = Some []" using assms(3) by (simp add: window_up_def)
  obtain ms1 answer alice2 sent ms2 relayed bob2 where run:
      "on_tcp_data_received senv fda (request GET_PUBKEY [?b] []) ms = (Inr (), ms1)" "sc_sent (ms_context ms1) = sc_sent (ms_context ms) @ [(fda, answer)]"
      "client_on_tcp_data_received env answer (clear_ui mc) = (Inr (), alice2)" "cc_sent (mc_context alice2) = cc_sent (mc_context (clear_ui mc)) @ [sent]"
      "on_tcp_data_received senv fda sent ms1 = (Inr (), ms2)" "sc_sent (ms_context ms2) = sc_sent (ms_context ms1) @ [(fdb, relayed)]"
      "client_on_tcp_data_received envb relayed (gu_client gb) = (Inr (), bob2)"
      "cc_ui (mc_context bob2) = Some ([] @ [private_prefix @ ua @ '']: '' @ to_string ?p])"
      "counter_of (mc_context bob2) (to_bytes ua) = counter_of (mc_context (gu_client gb)) (to_bytes ua) + 1"
    by (rule private_message_relayed [where senv = senv and envb = envb, OF assms(1) alice(1) assms(5, 6) alice(2) ub(1) _ alice(3-5) bob assms(17-25)])
      (use assms(12, 26-29) alice(6, 7) in simp_all)
  let ?ga2 = "gui_run qt env [NetData answer] ?ga1" and ?gb2 = "gui_run qt envb [NetData relayed, Deliver t3] gb"
  have ga2: "gu_client ?ga2 = clear_ui alice2" "gu_error ?ga2 = None" "gu_chat ?ga2 = Some wa1"
    using run_client_ok [of "client_on_tcp_data_received env answer" ?ga1 alice2 qt] run(3) wa1(1, 4-7) by (simp_all add: gui_step_def net_data_def)
  obtain wb2 where "gu_chat ?gb2 = Some wb2" "incoming_texts wb2 = incoming_texts wb @ [toHtmlEscaped qt (fromStdString qt (private_prefix @ ua @ '']: '' @ unwords ws))]"
      "gu_client ?gb2 = clear_ui bob2" "gu_error ?gb2 = None"
    by (rule data_shown [OF assms(3) run(7), of _ qt t3]) (use run(8) in \<open>simp_all add: window_up_def\<close>)
  moreover from this(3) have "counter_of (mc_context (gu_client ?gb2)) (to_bytes ua) = counter_of (mc_context (gu_client gb)) (to_bytes ua) + 1"
    using run(9) by (simp add: counter_of_def)
  moreover have "cc_sent (mc_context (gu_client ?ga1)) = cc_sent ?ca @ [request GET_PUBKEY [?b] []]" using wa1(4) mc(3) c1(2) by simp
  moreover have "cc_sent (mc_context (gu_client ?ga2)) = cc_sent (mc_context (gu_client ?ga1)) @ [sent]" using wa1(4) ga2(1) run(4) by simp
  ultimately show ?thesis using wa1(1-3, 5, 6) ga2(2, 3) run(1, 2, 5, 6) by blast
qed

section \<open>Two clients and a server to evaluate\<close>

definition sample_clients :: "EncryptionService \<Rightarrow> bytes \<Rightarrow> MessagingClient" where
  "sample_clients es name = MessagingClient_ctor (sample_client\<lparr>cc_mq := MessageQueue_ctor, cc_es := es, cc_my_username := name\<rparr>)"

definition sample_chat_server :: MessagingServer where
  "sample_chat_server = sample_server\<lparr>ms_context := sample_context\<lparr>sc_users :=
     [''a'' \<mapsto> new_user ''a'' [1] [2] [2, 1], ''b'' \<mapsto> new_user ''b'' [3] [4] [4, 3]]\<rparr>\<rparr>"

lemma sample_chat_server_inv: "ms_inv sample_chat_server"
proof -
  have "dom [''a'' \<mapsto> new_user ''a'' [1] [2] [2, 1], ''b'' \<mapsto> new_user ''b'' [3] [4] [4, 3]] = dom (sc_users sample_context)" by auto
  then have "server_inv (sample_context\<lparr>sc_users := [''a'' \<mapsto> new_user ''a'' [1] [2] [2, 1], ''b'' \<mapsto> new_user ''b'' [3] [4] [4, 3]]\<rparr>)"
    using sample_server_inv by (simp add: ms_inv_def server_inv_def)
  with sample_server_inv show ?thesis by (simp add: ms_inv_def sample_chat_server_def)
qed

lemma sample_ab: "to_bytes ''a'' = [97]" "to_bytes ''b'' = [98]"
  by (simp_all add: to_bytes_def byte_of_char_def)

lemma mc_context_ctor: "mc_context (MessagingClient_ctor ctx) = ctx"
  by (simp add: MessagingClient_ctor_def client_registerHandler_def)

lemma sample_client_contexts:
  "mc_inv (sample_clients es name)" "cc_my_username (mc_context (sample_clients es name)) = name" "cc_es (mc_context (sample_clients es name)) = es"
  "cc_mq (mc_context (sample_clients es name)) = MessageQueue_ctor" "cc_ui (mc_context (sample_clients es name)) = Some []"
  "cc_pending_messages (mc_context (sample_clients es name)) u = None" "counter_of (mc_context (sample_clients es name)) u = 0"
  using mc_inv_ctor by (simp_all add: sample_clients_def mc_context_ctor sample_client_def counter_of_def)

definition sample_gui :: "EncryptionService \<Rightarrow> bytes \<Rightarrow> gui" where
  "sample_gui es name = (start_gui_client sample_client)\<lparr>gu_client := sample_clients es name,
     gu_chat := Some (ChatWindow_ctor sample_qt [] (qlit (to_string name))), gu_data_callback := True, gu_net := NetRunning\<rparr>"

lemma sample_gui_up: "window_up (sample_gui es name) (ChatWindow_ctor sample_qt [] (qlit (to_string name)))" "gu_client (sample_gui es name) = sample_clients es name"
  using history_ctor(1) by (simp_all add: window_up_def sample_gui_def start_gui_client_def sample_client_contexts)

text \<open>A line that Qt converts to UTF-8 and back.\<close>

lemma sample_line: "trimmed sample_qt (qlit ''hi'') = qlit ''hi''" "toStdString sample_qt (qlit ''hi'') = ''hi''" "fromStdString sample_qt ''hi'' = qlit ''hi''"
    "qlit ''hi'' \<noteq> []"
  by (simp_all add: sample_qt_def qlit_def char_of_def bit_0)

theorem typing_after_stop_witness:
  "gu_error (gui_run sample_qt sample_cenv [EditMessage (qlit ''hi''), PressSend [], Deliver [], Deliver []] (sample_gui sample_alice [97])) = None \<and>
   gu_error (gui_run sample_qt sample_cenv [NetStop, EditMessage (qlit ''hi''), PressSend [], Deliver []] (sample_gui sample_alice [97])) =
     Some (Undefined ''callback of an ended thread'')"
proof -
  have "\<exists>msg. parse (ce_now sample_cenv) ''hi'' = Inr msg"
    by (simp add: parse_def set_payload_def default_message_def compute_serialized_size_def to_bytes_def)
  then obtain msg where "parse (ce_now sample_cenv) ''hi'' = Inr msg" by blast
  from typing_after_stop [OF sample_gui_up(1) _ _ _ _ _ _ this, of sample_alice "[97]" sample_qt "qlit ''hi''" "[]" "[]" "[]"]
  show ?thesis by (simp add: sample_gui_up(2) sample_client_contexts sample_line)
qed

end
