(* ===== verification/File_Transfer.thy ===== *)
theory File_Transfer
  imports Server_Properties Client_Properties
begin

text \<open>
  A file on its way: \<open>SendFileCommand\<close> of one client, the server's file handlers, the file handlers of the other client, with every frame
  passed on in order.
\<close>

fun serve_all :: "server_env \<Rightarrow> int \<Rightarrow> bytes list \<Rightarrow> (unit, MessagingServer) action" where
  "serve_all env fd [] = ret ()"
| "serve_all env fd (raw # raws) = andThen (on_tcp_data_received env fd raw) (\<lambda>_. serve_all env fd raws)"

fun receive_all :: "client_env \<Rightarrow> bytes list \<Rightarrow> (unit, MessagingClient) action" where
  "receive_all env [] = ret ()"
| "receive_all env (raw # raws) = andThen (client_on_tcp_data_received env raw) (\<lambda>_. receive_all env raws)"

lemma receive_all_append: "receive_all env (xs @ ys) mc = andThen (receive_all env xs) (\<lambda>_. receive_all env ys) mc"
  by (induction xs arbitrary: mc) (auto simp: andThen_def ret_def split: prod.splits sum.splits)

section \<open>The server\<close>

definition file_frame :: "string \<Rightarrow> bytes \<Rightarrow> bool" where
  "file_frame r raw \<longleftrightarrow> (\<exists>p metas t. raw = serialize (built 0 p (to_bytes r # metas) t) \<and> fits (to_bytes r # metas) p \<and> t \<in> {FileStart, FileChunk, FileEnd})"

lemma serve_all_files:
  assumes "ms_inv ms" "name_to_fd (sc_sessions (ms_context ms)) r = Some rfd" "\<forall>raw\<in>set raws. file_frame r raw"
  shows "\<exists>ms'. serve_all env fd raws ms = (Inr (), ms') \<and> ms_inv ms' \<and> sc_sent (ms_context ms') = sc_sent (ms_context ms) @ map (Pair rfd) raws"
  using assms
proof (induction raws arbitrary: ms)
  case (Cons raw raws)
  obtain ms1 where ms1: "on_tcp_data_received env fd raw ms = (Inr (), ms1)" "ms_inv ms1"
      "ms_context ms1 = (ms_context ms)\<lparr>sc_fd := fd, sc_sent := sc_sent (ms_context ms) @ [(rfd, raw)]\<rparr>"
  proof -
    from Cons.prems(3) obtain p metas t where raw: "raw = serialize (built 0 p (to_bytes r # metas) t)" and f: "fits (to_bytes r # metas) p" "t \<in> {FileStart, FileChunk, FileEnd}"
      by (auto simp: file_frame_def)
    from file_relayed [OF Cons.prems(1) f Cons.prems(2), of env fd] that raw show thesis by (auto simp: serves_def)
  qed
  then show ?case using Cons.IH [OF ms1(2)] Cons.prems by (simp add: andThen_def)
qed (simp add: ret_def)

section \<open>The pieces\<close>

lemma file_chunks_count: "length (file_chunks data) \<le> length data"
proof (induction data rule: file_chunks.induct)
  case (1 data)
  show ?case
  proof (cases "data = []")
    case False
    then have "length (file_chunks (drop kChunk data)) \<le> length data - kChunk" using "1.IH" by simp
    then show ?thesis using False by (simp add: file_chunks.simps [of data] kChunk_def) (cases data; simp)
  qed (simp add: file_chunks.simps)
qed

lemma ciphertexts_length:
  assumes "crypto_ok env" "shares_secret (ce_ssl env) es b" "length a + length b \<le> INT_MAX" "\<forall>p\<in>set ps. length p \<le> INT_MAX"
    and "ct \<in> set (ciphertexts env es a b n j ps)"
  shows "\<exists>p\<in>set ps. length ct = 36 + length p"
  using assms(4, 5)
proof (induction ps arbitrary: n j)
  case (Cons p ps)
  then show ?case using encrypt_for_known [OF assms(1-3), of p j n] by auto
qed simp

lemma file_chunks_nth: "d < length (file_chunks data) \<Longrightarrow> file_chunks data ! d = take kChunk (drop (kChunk * d) data)"
proof (induction data arbitrary: d rule: file_chunks.induct)
  case (1 data)
  then show ?case
  proof (cases "data = []")
    case False
    then have "file_chunks data = take kChunk data # file_chunks (drop kChunk data)" by (simp add: file_chunks.simps [of data])
    with 1 False show ?thesis by (cases d) (simp_all add: add.commute)
  qed (simp add: file_chunks.simps)
qed

lemma file_chunks_room: "length data \<le> kChunk * length (file_chunks data)"
proof (induction data rule: file_chunks.induct)
  case (1 data)
  show ?case
  proof (cases "data = []")
    case False
    then have "length data - kChunk \<le> kChunk * length (file_chunks (drop kChunk data))" using "1.IH" by simp
    then show ?thesis using False by (simp add: file_chunks.simps [of data])
  qed simp
qed

text \<open>The pieces among those numbered from \<open>m\<close> on that a receiver who expects the counter \<open>n\<close> can read: at most one.\<close>

fun readable :: "64 word \<Rightarrow> 64 word \<Rightarrow> bytes list \<Rightarrow> bytes" where
  "readable n m [] = []"
| "readable n m (p # ps) = (if m = n then p else []) @ readable n (m + 1) ps"

lemma readable_nth: "length ps \<le> 2 ^ 64 \<Longrightarrow> readable n m ps = (if unat (n - m) < length ps then ps ! unat (n - m) else [])"
proof (induction ps arbitrary: m)
  case (Cons p ps)
  have ih: "readable n (m + 1) ps = (if unat (n - m - 1) < length ps then ps ! unat (n - m - 1) else [])"
    using Cons.IH [of "m + 1"] Cons.prems by (simp add: diff_diff_eq)
  show ?case
  proof (cases "m = n")
    case True
    have "unat (- 1 :: 64 word) = 2 ^ 64 - 1" by (simp add: unsigned_minus_1_eq_mask mask_eq_exp_minus_1)
    then have "\<not> unat (n - m - 1) < length ps" using True Cons.prems by simp
    then show ?thesis using True ih by simp
  next
    case False
    then have "n - m \<noteq> 0" by simp
    then have "unat (n - m) = Suc (unat (n - m - 1))" using unat_minus_one [of "n - m"] unat_gt_0 [of "n - m"] by simp
    then show ?thesis using False ih by simp
  qed
qed simp

lemma readable_chunks:
  assumes "length data < 2 ^ 64"
  shows "readable n m (file_chunks data) = take 16384 (drop (16384 * unat (n - m)) data)"
proof -
  have "length (file_chunks data) \<le> 2 ^ 64" using file_chunks_count [of data] assms by simp
  note r = readable_nth [OF this, of n m]
  show ?thesis
  proof (cases "unat (n - m) < length (file_chunks data)")
    case False
    then have "kChunk * length (file_chunks data) \<le> kChunk * unat (n - m)" by simp
    then have "length data \<le> kChunk * unat (n - m)" using file_chunks_room [of data] by linarith
    then show ?thesis using r False by (simp add: kChunk_def)
  qed (use r file_chunks_nth [of "unat (n - m)" data] in \<open>simp add: kChunk_def\<close>)
qed

section \<open>The receiver\<close>

lemma client_handles:
  assumes "mc_inv mc" "fits metas p" "canonical_type t" "client_serve env (built 0 p metas t) (mc_context mc) = (r, c')" "\<And>e. r = Inl e \<Longrightarrow> is_exception e"
  obtains mc' where "client_on_tcp_data_received env (serialize (built 0 p metas t)) mc = (Inr (), mc')" "mc_inv mc'" "mc_context mc' = c'"
proof -
  have d: "deserialize (serialize (built 0 p metas t)) = Inr (built 0 p metas t)" by (rule deserialize_built_exact [OF assms(2, 3)])
  obtain res mc' where m: "client_on_tcp_data_received env (serialize (built 0 p metas t)) mc = (res, mc')" "mc_inv mc'" "mc_context mc' = c'"
      "\<And>e. res = Inl e \<longleftrightarrow> r = Inl e \<and> \<not> is_exception e"
    by (rule client_receives [OF assms(1) d, of env]) (use assms(4) in auto)
  then have "res = Inr ()" using assms(5) by (cases res) auto
  with m that show ?thesis by simp
qed

text \<open>What the receiver of a file is like while the pieces arrive: the file is open and the keys of the sender are usable; \<open>n\<close> is the counter it
  reads under, which stays as it is.\<close>

definition receiving :: "client_env \<Rightarrow> EncryptionService \<Rightarrow> bytes \<Rightarrow> bytes \<Rightarrow> pkey \<Rightarrow> pkey \<Rightarrow> string \<Rightarrow> 64 word \<Rightarrow> bytes \<Rightarrow> MessagingClient \<Rightarrow> bool" where
  "receiving env es a b dk k path n content mc \<longleftrightarrow> mc_inv mc \<and> path \<in> cc_pending_files (mc_context mc) \<and> counter_of (mc_context mc) b = n \<and>
     knows (ce_ssl env) es a (with_keys (cc_es (mc_context mc)) a dk k) b \<and> fs_files (cc_fs (mc_context mc)) path = Some content"

lemma with_keys_twice [simp]: "with_keys (with_keys es u dk k) u dk k = with_keys es u dk k"
  by (simp add: with_keys_def)

lemma piece_arrives:
  assumes "crypto_ok env" "new_raw_public_key (ce_ssl env) X25519 dh = Some dk" "new_raw_public_key (ce_ssl env) ED25519 ik = Some k"
    and "sign (ce_ssl env) es = Inr sig" "small_metas [b, f, a, dh, ik, sig]" "length p \<le> kChunk"
    and "receiving env es a b dk k (to_string b @ '' '' @ to_string f) n content mc"
  shows "\<exists>mc'. client_on_tcp_data_received env (chunk_frame b f a dh ik sig (projr (encrypt_for (ce_ssl env) (ce_rand env j) es a b p m))) mc = (Inr (), mc') \<and>
    receiving env es a b dk k (to_string b @ '' '' @ to_string f) n (content @ (if m = n then p else [])) mc'"
proof -
  let ?path = "to_string b @ '' '' @ to_string f" and ?c = "mc_context mc"
  have rcv: "mc_inv mc" "?path \<in> cc_pending_files ?c" "counter_of ?c b = n" "knows (ce_ssl env) es a (with_keys (cc_es ?c) a dk k) b"
      "fs_files (cc_fs ?c) ?path = Some content" using assms(7) by (simp_all add: receiving_def)
  obtain iv where iv: "ce_rand env j = Some iv" "length iv = 12" using assms(1) by (auto simp: crypto_ok_def)
  have len: "length a + length b \<le> INT_MAX" "length p \<le> INT_MAX" using assms(5, 6) by (simp_all add: small_metas_def kChunk_def)
  obtain ct where ct: "encrypt_for (ce_ssl env) (Some iv) es a b p m = Inr ct" "length ct = 36 + length p"
    using encrypt_for_known [OF assms(1) knows_shares [OF rcv(4)] len, of j m] iv(1) by auto
  have fit: "fits [b, f, a, dh, ik, sig] ct" by (rule small_metas_fits [OF assms(5)]) (use ct(2) assms(6) in \<open>simp add: kChunk_def\<close>)
  let ?c1 = "?c\<lparr>cc_es := with_keys (cc_es ?c) a dk k, cc_counter := (cc_counter ?c)(b \<mapsto> n)\<rparr>"
  have e: "client_serve env (built 0 ct [b, f, a, dh, ik, sig] FileChunk) ?c =
      (if m = n then append_file ?path p ?c1 else (Inl (RuntimeError ''Replay attack detected or counter mismatch''), ?c1))"
    using handle_file_chunk_eval [OF _ _ iv(2) assms(2, 3) rcv(4) assms(4) ct(1) len rcv(2)] assms(1) rcv(3)
    by (auto simp: client_serve_def crypto_ok_def Let_def)
  have "\<exists>mc'. client_on_tcp_data_received env (serialize (built 0 ct [b, f, a, dh, ik, sig] FileChunk)) mc = (Inr (), mc') \<and> mc_inv mc' \<and>
      mc_context mc' = (if m = n then snd (append_file ?path p ?c1) else ?c1)"
    by (rule client_handles [OF rcv(1) fit, of FileChunk env "if m = n then Inr () else Inl (RuntimeError ''Replay attack detected or counter mismatch'')"])
      (use e in \<open>auto simp: append_file_def modify_def split: if_splits\<close>)
  then show ?thesis
    using rcv iv(1) ct(1) unfolding receiving_def chunk_frame_def by (auto simp: append_file_def modify_def counter_of_def)
qed

text \<open>Every piece is handled; the one under the counter the receiver expects is written.\<close>

lemma pieces_arrive:
  assumes "crypto_ok env" "new_raw_public_key (ce_ssl env) X25519 dh = Some dk" "new_raw_public_key (ce_ssl env) ED25519 ik = Some k"
    and "sign (ce_ssl env) es = Inr sig" "small_metas [b, f, a, dh, ik, sig]"
    and "\<forall>p\<in>set ps. length p \<le> kChunk" "receiving env es a b dk k (to_string b @ '' '' @ to_string f) n content mc"
  shows "\<exists>mc'. receive_all env (map (chunk_frame b f a dh ik sig) (ciphertexts env es a b m j ps)) mc = (Inr (), mc') \<and>
    receiving env es a b dk k (to_string b @ '' '' @ to_string f) n (content @ readable n m ps) mc'"
  using assms(6, 7)
proof (induction ps arbitrary: mc m j content)
  case (Cons p ps)
  then obtain mc1 where mc1: "client_on_tcp_data_received env
        (chunk_frame b f a dh ik sig (projr (encrypt_for (ce_ssl env) (ce_rand env j) es a b p m))) mc = (Inr (), mc1)"
      "receiving env es a b dk k (to_string b @ '' '' @ to_string f) n (content @ (if m = n then p else [])) mc1"
    using piece_arrives [OF assms(1-5) _ Cons.prems(2), of p j m] by auto
  from Cons.IH [OF _ mc1(2), of "m + 1" "j + 1"] Cons.prems(1) mc1(1) show ?case by (simp add: andThen_def)
qed (simp add: ret_def)

lemma chunk_frames_fit:
  assumes "crypto_ok env" "shares_secret (ce_ssl env) es (to_bytes r)" "small_metas [to_bytes r, f, a, dh, ik, sig]"
    and "ct \<in> set (ciphertexts env es a (to_bytes r) n j (file_chunks data))"
  shows "file_frame r (chunk_frame (to_bytes r) f a dh ik sig ct)"
proof -
  have "length a + length (to_bytes r) \<le> INT_MAX" using assms(3) by (simp add: small_metas_def)
  moreover have "\<forall>p\<in>set (file_chunks data). length p \<le> INT_MAX" using file_chunks_small [of _ data] by (fastforce simp: kChunk_def)
  ultimately have "length ct \<le> 4000000000"
    using ciphertexts_length [OF assms(1, 2) _ _ assms(4)] file_chunks_small [of _ data] by (fastforce simp: kChunk_def)
  then have "fits [to_bytes r, f, a, dh, ik, sig] ct" by (rule small_metas_fits [OF assms(3)])
  then show ?thesis unfolding file_frame_def chunk_frame_def by blast
qed

section \<open>The whole way\<close>

text \<open>
  C17: of a file only one piece of 16 KB can arrive, and which one depends on the counters. A client sends a file of less than \<open>2 ^ 64\<close> bytes to a user who is
  connected; the server relays every frame, unchanged and in order, to that user's connection, logged in or not the sender; the receiver handles all of them
  without an error leaving the client, creates the file under its own name and the file's, and closes it. The sender encrypts each piece
  under the next counter, and the receiver reads all of them under its counter for its own name, which it never advances: if that counter is \<open>d\<close> ahead of the
  sender's counter for the receiver, the file holds exactly the piece number \<open>d\<close>, and nothing if there is no such piece. So a file of at most 16384 bytes
  arrives whole if the counters are equal, as they are at first, and empty after the sender has sent that receiver anything.
\<close>

theorem file_transfer:
  assumes "crypto_ok env" "own_keys env alice dh ik sig" "fs_files (cc_fs alice) name = Some data" "length data < 2 ^ 64"
    and "small_metas [to_bytes ub, to_bytes name, cc_my_username alice, dh, ik, sig]"
    and "ms_inv ms" "name_to_fd (sc_sessions (ms_context ms)) ub = Some fdb"
    and "mc_inv bob" "fs_writable (cc_fs (mc_context bob)) (ub @ '' '' @ name)"
    and "new_raw_public_key (ce_ssl env) X25519 dh = Some dk" "new_raw_public_key (ce_ssl env) ED25519 ik = Some k"
    and "knows (ce_ssl env) (cc_es alice) (cc_my_username alice) (with_keys (cc_es (mc_context bob)) (cc_my_username alice) dk k) (to_bytes ub)"
  shows "\<exists>alice' frames ms' bob'. send_file env name (to_bytes ub) alice = (Inr (), alice') \<and> cc_sent alice' = cc_sent alice @ frames \<and>
    serve_all senv fda frames ms = (Inr (), ms') \<and> sc_sent (ms_context ms') = sc_sent (ms_context ms) @ map (Pair fdb) frames \<and>
    receive_all env frames bob = (Inr (), bob') \<and> ub @ '' '' @ name \<notin> cc_pending_files (mc_context bob') \<and>
    fs_files (cc_fs (mc_context bob')) (ub @ '' '' @ name) =
      Some (take 16384 (drop (16384 * unat (counter_of (mc_context bob) (to_bytes ub) - counter_of alice (to_bytes ub))) data))"
proof -
  let ?b = "to_bytes ub" and ?f = "to_bytes name" and ?a = "cc_my_username alice" and ?es = "cc_es alice" and ?path = "ub @ '' '' @ name"
  let ?m = "counter_of alice ?b" and ?n = "counter_of (mc_context bob) ?b"
  let ?written = "take 16384 (drop (16384 * unat (?n - ?m)) data)"
  let ?start = "serialize (built 0 [] [?b, ?f, le64_bytes (word_of_nat (length data)), dh, ik, sig] FileStart)"
  let ?fin = "serialize (built 0 [] [?b, ?f] FileEnd)"
  let ?chunks = "map (chunk_frame ?b ?f ?a dh ik sig) (ciphertexts env ?es ?a ?b ?m (cc_rng alice) (file_chunks data))"
  have path: "to_string ?b @ '' '' @ to_string ?f = ?path" by (simp add: to_string_to_bytes)
  note shares = knows_shares [OF assms(12)]
  obtain alice' where alice': "send_file env name ?b alice = (Inr (), alice')" "cc_sent alice' = cc_sent alice @ [?start] @ ?chunks @ [?fin]"
    by (rule send_file_eval [OF assms(1) shares assms(2, 3, 5)])
  have fit: "fits [?b, ?f, le64_bytes (word_of_nat (length data)), dh, ik, sig] []" "fits [?b, ?f] []"
    by (rule small_metas_fits, use assms(5) in \<open>simp_all add: small_metas_def\<close>)+
  have "file_frame ub ?start" "file_frame ub ?fin" using fit unfolding file_frame_def by blast+
  then have "\<forall>raw\<in>set ([?start] @ ?chunks @ [?fin]). file_frame ub raw" using chunk_frames_fit [OF assms(1) shares assms(5)] by auto
  then obtain ms' where ms': "serve_all senv fda ([?start] @ ?chunks @ [?fin]) ms = (Inr (), ms')"
      "sc_sent (ms_context ms') = sc_sent (ms_context ms) @ map (Pair fdb) ([?start] @ ?chunks @ [?fin])"
    using serve_all_files [OF assms(6, 7)] by blast
  obtain bob1 where bob1: "client_on_tcp_data_received env ?start bob = (Inr (), bob1)"
      "receiving env ?es ?a ?b dk k ?path ?n [] bob1"
    by (rule client_handles [OF assms(8) fit(1), of FileStart env])
      (use assms(8, 9, 12) in \<open>auto simp: client_serve_def handle_file_start_def file_key_def from_bytes_def andThen_def lift_def to_string_to_bytes receiving_def counter_of_def\<close>)
  obtain bob2 where bob2: "receive_all env ?chunks bob1 = (Inr (), bob2)" "receiving env ?es ?a ?b dk k ?path ?n ?written bob2"
    using pieces_arrive [OF assms(1, 10, 11) _ assms(5), of ?es "file_chunks data" ?n "[]" bob1 ?m "cc_rng alice"] assms(2) bob1(2) path
      file_chunks_small [of _ data] readable_chunks [OF assms(4), of ?n ?m] by (auto simp: own_keys_def)
  obtain bob' where bob': "client_on_tcp_data_received env ?fin bob2 = (Inr (), bob')"
      "mc_context bob' = (mc_context bob2)\<lparr>cc_pending_files := cc_pending_files (mc_context bob2) - {?path}\<rparr>"
    by (rule client_handles [OF _ fit(2), of bob2 FileEnd env])
      (use bob2(2) in \<open>auto simp: client_serve_def handle_file_end_def file_key_def modify_def to_string_to_bytes receiving_def\<close>)
  have "receive_all env ([?start] @ ?chunks @ [?fin]) bob = (Inr (), bob')"
    using bob1(1) bob2(1) bob'(1) by (simp add: receive_all_append andThen_def ret_def)
  moreover have "?path \<notin> cc_pending_files (mc_context bob')" "fs_files (cc_fs (mc_context bob')) ?path = Some ?written"
    using bob2(2) bob'(2) by (simp_all add: receiving_def)
  ultimately show ?thesis using alice' ms' by blast
qed

definition sample_receiver :: MessagingClient where
  "sample_receiver = MessagingClient_ctor (sample_client\<lparr>cc_es := sample_bob\<rparr>)"

definition sample_file_sender :: ClientContext where
  "sample_file_sender = sample_sender\<lparr>cc_es := with_keys sample_alice (to_bytes ''b'') 103 104\<rparr>"

theorem file_transfer_witness:
  "\<exists>frames bob'. receive_all sample_cenv frames sample_receiver = (Inr (), bob') \<and>
    fs_files (cc_fs (mc_context bob')) ''b key'' = Some [5, 6]"
proof -
  have o: "own_keys sample_cenv sample_file_sender [1] [2] [2, 1]"
    using sample_sign by (simp add: own_keys_def sample_file_sender_def with_keys_def sign_def identity_sign_def sample_sender_def get_DH_bytes_def get_identity_bytes_def DH_public_bytes_def
      identity_public_bytes_def sample_alice_def sample_ssl_def)
  have ctx: "mc_context sample_receiver = sample_client\<lparr>cc_es := sample_bob\<rparr>"
    by (simp add: sample_receiver_def MessagingClient_ctor_def client_registerHandler_def)
  have "mc_inv sample_receiver" by (simp add: sample_receiver_def mc_inv_ctor)
  moreover have "knows sample_ssl (cc_es sample_file_sender) (cc_my_username sample_file_sender)
      (with_keys sample_bob (cc_my_username sample_file_sender) 101 102) (to_bytes ''b'')"
    by (simp add: knows_def with_keys_def sample_file_sender_def sample_alice_def sample_bob_def x25519_agree_def ed25519_key_def sample_ssl_def)
  ultimately show ?thesis
    using file_transfer [OF sample_crypto_ok o, of "''key''" "[5, 6]" "''b''" sample_server 6 sample_receiver 101 102 sample_env2 5] sample_server_inv
    by (auto simp: ctx sample_file_sender_def sample_sender_def small_metas_def counter_of_def sample_client_def)
qed

end
