(* ===== verification/Group_Message.thy ===== *)
theory Group_Message
  imports Private_Message File_Transfer
begin

text \<open>
  A message to a chat: typed in the window of a member, sent by the client, relayed by the server to every member, shown in every member's window.
\<close>

lemma typed_group_message:
  assumes "mc_inv mc" "list_all plain (cname # ws)" "length cname < 65536" "length (unwords ws) < 65536"
  obtains mc' where "get_data env (unwords (''/send'' # cname # ws)) mc = (Inr (), mc')" "mc_inv mc'"
    "mc_context mc' = (mc_context mc)\<lparr>cc_sent := cc_sent (mc_context mc) @ [request SEND [to_bytes cname] (to_bytes (unwords ws))]\<rparr>"
proof -
  let ?p = "to_bytes (unwords ws)"
  let ?msg = "built (ce_now env) ?p [[byte_of_CommandType SEND], to_bytes cname, ?p] Command"
  have n: "pc_name (make_struct_from_command ?msg) = ''send''"
    by (simp add: make_struct_from_command_def CommandType_of_byte_def command_names_map_def)
  have fit: "fits [[byte_of_CommandType SEND], to_bytes cname] ?p" using assms(3, 4) by (simp add: fits_def)
  have "client_serve env ?msg (mc_context mc) =
      (Inr (), (mc_context mc)\<lparr>cc_sent := cc_sent (mc_context mc) @ [request SEND [to_bytes cname] ?p]\<rparr>)"
    using n send_message_fits [OF fit, of "ce_now env" Command]
    by (simp add: client_serve_def client_registry_lookup create_def send_fromMessage_def request_def)
  then show ?thesis
    by (rule typed_command [OF assms(1) _ _ assms(2-4), of "''send''", rotated 2])
      (simp_all add: command_arity_def command_types_map_def that)
qed

lemma text_arrives:
  assumes "mc_inv mc" "fits [] p" "cc_ui (mc_context mc) = Some []"
  obtains mc' where "client_on_tcp_data_received env (serialize (built 0 p [] Text)) mc = (Inr (), mc')" "cc_ui (mc_context mc') = Some [to_string p]"
  by (rule client_handles [OF assms(1, 2), of Text env "Inr ()" "(mc_context mc)\<lparr>cc_ui := Some [to_string p]\<rparr>"])
    (use assms(3) in \<open>auto simp: client_serve_def handle_text_def ui_callback_def\<close>)

text \<open>
  C18: a message to a chat reaches the window of every member. A member types \<open>/send\<close>, the name of the chat and words; its window shows the line and its
  client sends one request; the server appends the message to the history of the chat and sends one frame to the connection of
  each member, the sender's included, and to no other; and every member's window shows the words as its next incoming line, without the name of
  the sender. The hypotheses: every member has a window with nothing waiting, and Qt converts the line to UTF-8 and back.
\<close>

theorem group_message_reaches_windows:
  assumes "ms_inv ms" "fd_to_name (sc_sessions (ms_context ms)) fd = Some u" "sc_chats (ms_context ms) cname = Some chat" "u \<in> chat_members chat"
    and "set (se_iter senv (chat_members chat)) = chat_members chat" "distinct (se_iter senv (chat_members chat))"
    and "\<forall>v\<in>chat_members chat. window_up (g v) (w v) \<and> mc_inv (gu_client (g v))"
    and "trimmed qt line \<noteq> []" "toStdString qt (trimmed qt line) = unwords (''/send'' # cname # ws)"
      "fromStdString qt (unwords (''/send'' # cname # ws)) = trimmed qt line"
    and "list_all plain (cname # ws)" "length cname < 65536" "length (unwords ws) < 65536"
  shows "\<exists>g1 w1 raw ms' out frame.
    gui_run qt env [EditMessage line, PressSend t1, Deliver t2] (g u) = g1 \<and> gu_chat g1 = Some w1 \<and>
    outgoing_texts w1 = outgoing_texts (w u) @ [toHtmlEscaped qt (trimmed qt line)] \<and>
    cc_sent (mc_context (gu_client g1)) = cc_sent (mc_context (gu_client (g u))) @ [raw] \<and>
    on_tcp_data_received senv fd raw ms = (Inr (), ms') \<and> sc_sent (ms_context ms') = sc_sent (ms_context ms) @ map (\<lambda>fd'. (fd', frame)) out \<and>
    sc_chats (ms_context ms') = (sc_chats (ms_context ms))(cname \<mapsto>
      chat\<lparr>chat_messages := chat_messages chat @ [built (se_now senv) (to_bytes (unwords ws)) [] Text]\<rparr>) \<and>
    distinct out \<and> set out = {fd'. \<exists>v\<in>chat_members chat. name_to_fd (sc_sessions (ms_context ms)) v = Some fd'} \<and>
    (\<forall>v\<in>chat_members chat. \<exists>w2. gu_chat (gui_run qt env [NetData frame, Deliver t3] (if v = u then g1 else g v)) = Some w2 \<and>
      incoming_texts w2 = incoming_texts (w v) @ [toHtmlEscaped qt (fromStdString qt (unwords ws))])"
proof -
  let ?p = "to_bytes (unwords ws)" and ?line = "unwords (''/send'' # cname # ws)" and ?g1 = "gui_run qt env [EditMessage line, PressSend t1, Deliver t2] (g u)"
  let ?frame = "serialize (built 0 ?p [] Text)" and ?us = "se_iter senv (chat_members chat)" and ?s = "ms_context ms"
  have u: "window_up (g u) (w u)" "mc_inv (gu_client (g u))" using assms(4, 7) by simp_all
  obtain mc where mc: "get_data env ?line (gu_client (g u)) = (Inr (), mc)" "mc_inv mc"
      "mc_context mc = (mc_context (gu_client (g u)))\<lparr>cc_sent := cc_sent (mc_context (gu_client (g u))) @ [request SEND [to_bytes cname] ?p]\<rparr>"
    by (rule typed_group_message [OF u(2) assms(11-13)])
  obtain w1 where w1: "gu_chat ?g1 = Some w1" "outgoing_texts w1 = outgoing_texts (w u) @ [toHtmlEscaped qt (trimmed qt line)]"
      "incoming_texts w1 = incoming_texts (w u)" "gu_client ?g1 = clear_ui mc" "cc_ui (mc_context mc) = Some [] \<longrightarrow> window_up ?g1 w1"
    by (rule line_typed [OF u(1) assms(8-10) mc(1)])
  have g1: "window_up ?g1 w1" using w1(5) mc(3) u(1) by (simp add: window_up_def)
  have fit: "fits [[byte_of_CommandType SEND], to_bytes cname] ?p" "fits [] ?p" using assms(12, 13) by (simp_all add: fits_def)
  obtain ms' where ms': "on_tcp_data_received senv fd (request SEND [to_bytes cname] ?p) ms = (Inr (), ms')"
      "sc_sent (ms_context ms') = sc_sent ?s @ map (\<lambda>fd'. (fd', ?frame)) (map (\<lambda>v. the (name_to_fd (sc_sessions ?s) v)) ?us)"
      "sc_chats (ms_context ms') = (sc_chats ?s)(cname \<mapsto> chat\<lparr>chat_messages := chat_messages chat @ [built (se_now senv) ?p [] Text]\<rparr>)"
    using group_delivery [OF assms(1) fit(1) assms(2-5)] by (auto simp: serves_def delivered_def)
  have i: "server_inv ?s" using assms(1) by (simp add: ms_inv_def)
  have on: "list_all (\<lambda>u. name_to_fd (sc_sessions ?s) u \<noteq> None) ?us" using members_online [OF i assms(3)] assms(5) by (auto simp: list_all_iff)
  have out: "distinct (map (\<lambda>v. the (name_to_fd (sc_sessions ?s) v)) ?us)"
      "set (map (\<lambda>v. the (name_to_fd (sc_sessions ?s) v)) ?us) = {fd'. \<exists>v\<in>chat_members chat. name_to_fd (sc_sessions ?s) v = Some fd'}"
    using member_fds_distinct [OF i assms(6) on] on assms(5) by (auto simp: list_all_iff comp_def) force
  have shown: "\<exists>w2. gu_chat (gui_run qt env [NetData ?frame, Deliver t3] h) = Some w2 \<and>
      incoming_texts w2 = incoming_texts wh @ [toHtmlEscaped qt (fromStdString qt (unwords ws))]" if h: "window_up h wh" "mc_inv (gu_client h)" for h wh
  proof -
    have "cc_ui (mc_context (gu_client h)) = Some []" using h(1) by (simp add: window_up_def)
    then obtain mc' where m: "client_on_tcp_data_received env ?frame (gu_client h) = (Inr (), mc')" "cc_ui (mc_context mc') = Some [unwords ws]"
      using text_arrives [OF h(2) fit(2), of env] by (metis to_string_to_bytes)
    show ?thesis by (rule data_shown [OF h(1) m]) blast
  qed
  have "\<forall>v\<in>chat_members chat. \<exists>w2. gu_chat (gui_run qt env [NetData ?frame, Deliver t3] (if v = u then ?g1 else g v)) = Some w2 \<and>
      incoming_texts w2 = incoming_texts (w v) @ [toHtmlEscaped qt (fromStdString qt (unwords ws))]"
    using shown [OF g1] shown assms(7) w1(3, 4) mc(2) by auto
  moreover have "cc_sent (mc_context (gu_client ?g1)) = cc_sent (mc_context (gu_client (g u))) @ [request SEND [to_bytes cname] ?p]"
    using w1(4) mc(3) by simp
  ultimately show ?thesis using w1(1, 2) ms' out by blast
qed

definition sample_window :: "string \<Rightarrow> gui" where
  "sample_window v = (start_gui_client sample_client)\<lparr>gu_client := sample_clients sample_alice (to_bytes v),
     gu_chat := Some (ChatWindow_ctor sample_qt [] (qlit v)), gu_data_callback := True, gu_net := NetRunning\<rparr>"

lemma sample_window_up: "window_up (sample_window v) (ChatWindow_ctor sample_qt [] (qlit v)) \<and> mc_inv (gu_client (sample_window v))"
  using history_ctor(1) by (simp add: window_up_def sample_window_def start_gui_client_def sample_client_contexts)

theorem group_message_reaches_windows_witness:
  "\<exists>frame w2. gu_chat (gui_run sample_qt sample_cenv [NetData frame, Deliver []] (sample_window ''b'')) = Some w2 \<and>
    incoming_texts w2 = incoming_texts (ChatWindow_ctor sample_qt [] (qlit ''b'')) @ [toHtmlEscaped sample_qt (fromStdString sample_qt ''hi'')]"
proof -
  have line: "trimmed sample_qt (qlit ''/send dev hi'') = qlit ''/send dev hi''" "toStdString sample_qt (qlit ''/send dev hi'') = ''/send dev hi''"
      "fromStdString sample_qt ''/send dev hi'' = qlit ''/send dev hi''" "qlit ''/send dev hi'' \<noteq> []"
    by (simp_all add: sample_qt_def qlit_def char_of_def bit_0)
  have up: "\<forall>v\<in>chat_members sample_chat. window_up (sample_window v) (ChatWindow_ctor sample_qt [] (qlit v)) \<and> mc_inv (gu_client (sample_window v))"
    using sample_window_up by blast
  obtain g1 frame where "\<forall>v\<in>chat_members sample_chat. \<exists>w2.
      gu_chat (gui_run sample_qt sample_cenv [NetData frame, Deliver []] (if v = ''a'' then g1 else sample_window v)) = Some w2 \<and>
      incoming_texts w2 = incoming_texts (ChatWindow_ctor sample_qt [] (qlit v)) @ [toHtmlEscaped sample_qt (fromStdString sample_qt (unwords [''hi'']))]"
    using group_message_reaches_windows [OF sample_server_inv sample_member up, of sample_qt "qlit ''/send dev hi''" "[''hi'']" sample_cenv "[]" "[]" "[]"] line
    by (simp add: plain_def) blast
  from this [rule_format, of "''b''"] show ?thesis by auto
qed

end
