(* ===== verification/Chat_World.thy ===== *)
theory Chat_World
  imports Group_Message
begin

text \<open>
  The whole chat: a server and the graphical clients on its connections, from the start of every process. An event of the world is an
  event of one client's user, queue or network thread, or something that happens to the next message of one connection, in the order sent. On its way to
  the server a message arrives whole (\<open>Up\<close>); or with the four bytes of its length in front of it (\<open>Torn\<close>), which is what the server's
  connection extracts when the bytes come with two readiness events (\<open>split_frame_keeps_header\<close> in \<open>Transport\<close>); or not at all (\<open>Vanished\<close>), as when it
  shares a read with the message before it (\<open>second_frame_lost\<close>) or when its write fails, which the client does not look at. On its way to
  a client it arrives whole (\<open>Down\<close>) or not at all (\<open>Missed\<close>). Streams that lose their alignment altogether are
  not followed. An exception that leaves the server's callback ends the server.

  The messages are those the application of a client hands to its transport. That this transport has no framer, so that every call of it is undefined
  behaviour by the letter, is the subject of \<open>Client_Transport\<close>; here it is taken to work.
\<close>

section \<open>Events of the world\<close>

record world =
  wd_server :: MessagingServer
  wd_gui :: "int \<Rightarrow> gui"
  wd_read :: "int \<Rightarrow> nat"
  wd_got :: "int \<Rightarrow> nat"
  wd_error :: "cpp_error option"

datatype world_event = At int gui_event | Up int | Down int | Torn int | Vanished int | Missed int

definition frames_to :: "ServerContext \<Rightarrow> int \<Rightarrow> bytes list" where
  "frames_to s fd = map snd (filter (\<lambda>p. fst p = fd) (sc_sent s))"

abbreviation frames_from :: "world \<Rightarrow> int \<Rightarrow> bytes list" where
  "frames_from wd fd \<equiv> cc_sent (mc_context (gu_client (wd_gui wd fd)))"

fun is_net_data :: "gui_event \<Rightarrow> bool" where
  "is_net_data (NetData _) = True"
| "is_net_data _ = False"

definition server_gets :: "server_env \<Rightarrow> int \<Rightarrow> bytes \<Rightarrow> world \<Rightarrow> world" where
  "server_gets senv fd raw wd = (case on_tcp_data_received senv fd raw (wd_server wd) of
     (Inl e, ms) \<Rightarrow> wd\<lparr>wd_server := ms, wd_error := Some e\<rparr>
   | (Inr _, ms) \<Rightarrow> wd\<lparr>wd_server := ms, wd_read := (wd_read wd)(fd := Suc (wd_read wd fd))\<rparr>)"

text \<open>A message of the client on connection \<open>fd\<close> is waiting and the server is there to read it.\<close>

definition waiting :: "world \<Rightarrow> int \<Rightarrow> bool" where
  "waiting wd fd \<longleftrightarrow> wd_error wd = None \<and> wd_read wd fd < length (frames_from wd fd)"

fun world_step :: "qt \<Rightarrow> (int \<Rightarrow> client_env) \<Rightarrow> server_env \<Rightarrow> world_event \<Rightarrow> world \<Rightarrow> world" where
  "world_step qt cenv senv (At fd ev) wd =
     (if is_net_data ev then wd else wd\<lparr>wd_gui := (wd_gui wd)(fd := gui_step qt (cenv fd) ev (wd_gui wd fd))\<rparr>)"
| "world_step qt cenv senv (Up fd) wd =
     (if waiting wd fd then server_gets senv fd (frames_from wd fd ! wd_read wd fd) wd else wd)"
| "world_step qt cenv senv (Down fd) wd =
     (let answered = frames_to (ms_context (wd_server wd)) fd in
      if gu_net (wd_gui wd fd) \<noteq> NetRunning \<or> length answered \<le> wd_got wd fd then wd
      else wd\<lparr>wd_gui := (wd_gui wd)(fd := gui_step qt (cenv fd) (NetData (answered ! wd_got wd fd)) (wd_gui wd fd)),
              wd_got := (wd_got wd)(fd := Suc (wd_got wd fd))\<rparr>)"
| "world_step qt cenv senv (Torn fd) wd =
     (if waiting wd fd then server_gets senv fd (frame (frames_from wd fd ! wd_read wd fd)) wd else wd)"
| "world_step qt cenv senv (Vanished fd) wd =
     (if waiting wd fd then wd\<lparr>wd_read := (wd_read wd)(fd := Suc (wd_read wd fd))\<rparr> else wd)"
| "world_step qt cenv senv (Missed fd) wd =
     (if length (frames_to (ms_context (wd_server wd)) fd) \<le> wd_got wd fd then wd
      else wd\<lparr>wd_got := (wd_got wd)(fd := Suc (wd_got wd fd))\<rparr>)"

abbreviation world_run :: "qt \<Rightarrow> (int \<Rightarrow> client_env) \<Rightarrow> server_env \<Rightarrow> world_event list \<Rightarrow> world \<Rightarrow> world" where
  "world_run qt cenv senv evs wd \<equiv> fold (world_step qt cenv senv) evs wd"

definition new_world :: "(int \<Rightarrow> ClientContext) \<Rightarrow> world" where
  "new_world ctx = \<lparr>wd_server = MessagingServer_ctor, wd_gui = (\<lambda>fd. start_gui_client (ctx fd)), wd_read = (\<lambda>_. 0), wd_got = (\<lambda>_. 0), wd_error = None\<rparr>"

lemma world_at:
  "list_all (\<lambda>ev. \<not> is_net_data ev) evs \<Longrightarrow>
   world_run qt cenv senv (map (At fd) evs) wd = wd\<lparr>wd_gui := (wd_gui wd)(fd := gui_run qt (cenv fd) evs (wd_gui wd fd))\<rparr>"
  by (induction evs arbitrary: wd) simp_all

lemma world_up:
  assumes "wd_error wd = None" "frames_from wd fd = pre @ [raw]" "wd_read wd fd = length pre"
    and "on_tcp_data_received senv fd raw (wd_server wd) = (Inr (), ms)"
  shows "world_step qt cenv senv (Up fd) wd = wd\<lparr>wd_server := ms, wd_read := (wd_read wd)(fd := Suc (length pre))\<rparr>"
  using assms by (simp add: waiting_def server_gets_def)

lemma world_down:
  assumes "gu_net (wd_gui wd fd) = NetRunning" "frames_to (ms_context (wd_server wd)) fd = pre @ [raw]" "wd_got wd fd = length pre"
  shows "world_step qt cenv senv (Down fd) wd =
    wd\<lparr>wd_gui := (wd_gui wd)(fd := gui_run qt (cenv fd) [NetData raw] (wd_gui wd fd)), wd_got := (wd_got wd)(fd := Suc (length pre))\<rparr>"
  using assms by simp

lemma frames_to_append [simp]:
  "frames_to (s\<lparr>sc_sent := xs @ ys\<rparr>) fd = map snd (filter (\<lambda>p. fst p = fd) xs) @ map snd (filter (\<lambda>p. fst p = fd) ys)"
  by (simp add: frames_to_def)


section \<open>Logging in\<close>

text \<open>The keys of a client that others can use: what it sends at login is short, and OpenSSL imports it.\<close>

definition published :: "openssl \<Rightarrow> EncryptionService \<Rightarrow> bytes \<times> bytes \<times> bytes \<Rightarrow> pkey \<Rightarrow> pkey \<Rightarrow> bool" where
  "published ssl es k dk ik \<longleftrightarrow> (case k of (dh, i, sig) \<Rightarrow>
     get_DH_bytes ssl es = Inr dh \<and> get_identity_bytes ssl es = Inr i \<and> sign ssl es = Inr sig \<and>
     small_metas [dh, i, sig] \<and> new_raw_public_key ssl X25519 dh = Some dk \<and> new_raw_public_key ssl ED25519 i = Some ik)"

lemma login_on_client_sends:
  assumes "published (ce_ssl env) (cc_es c) (dh, ik, sig) dk k" "length u < 65536"
  shows "login_on_client env u c = (Inr (), c\<lparr>cc_my_username := u, cc_sent := cc_sent c @ [request LOGIN [u, dh, ik, sig] sig]\<rparr>)"
proof -
  have "fits ([byte_of_CommandType LOGIN] # [u, dh, ik, sig]) sig" using assms by (simp add: published_def small_metas_def fits_def)
  then have "login_toMessage (ce_now env) u dh ik sig = Inr (built (ce_now env) sig ([byte_of_CommandType LOGIN] # [u, dh, ik, sig]) Command)"
    using make_command_built [of "\<lparr>pc_name = ''login'', pc_args = [u, dh, ik, sig]\<rparr>" "ce_now env"]
    by (simp add: command_type_byte_def command_types_map_def last_arg_def)
  with assms(1) show ?thesis
    by (simp add: login_on_client_def published_def action_simps send_message_built request_def)
qed

lemma typed_login:
  assumes "mc_inv mc" "plain u" "length u < 65536" "published (ce_ssl env) (cc_es (mc_context mc)) (dh, ik, sig) dk k"
  obtains mc' where "get_data env (unwords [''/login'', u]) mc = (Inr (), mc')" "mc_inv mc'"
    "mc_context mc' = (mc_context mc)\<lparr>cc_my_username := to_bytes u,
       cc_sent := cc_sent (mc_context mc) @ [request LOGIN [to_bytes u, dh, ik, sig] sig]\<rparr>"
proof -
  let ?line = "unwords [''/login'', u]" and ?msg = "built (ce_now env) (to_bytes u) [[byte_of_CommandType LOGIN], to_bytes u] Command"
  have l: "parse_line ?line = \<lparr>pc_name = ''login'', pc_args = [to_bytes u]\<rparr>"
    using parse_line_catalogue [of "''login''" 1 False "[u]"] assms(2) by (simp add: command_arity_def)
  have "fits [[byte_of_CommandType LOGIN], to_bytes u] (to_bytes u)" using assms(3) by (simp add: fits_def)
  then have "make_command_from_struct (ce_now env) (parse_line ?line) = Inr ?msg"
    unfolding l using make_command_built [of "\<lparr>pc_name = ''login'', pc_args = [to_bytes u]\<rparr>" "ce_now env"]
    by (simp add: command_type_byte_def command_types_map_def last_arg_def)
  then have p: "parse (ce_now env) ?line = Inr ?msg" by (simp add: parse_def)
  have n: "pc_name (make_struct_from_command ?msg) = ''login''"
    by (simp add: make_struct_from_command_def CommandType_of_byte_def command_names_map_def)
  have serve: "client_serve env ?msg (mc_context mc) = (Inr (), (mc_context mc)\<lparr>cc_my_username := to_bytes u,
       cc_sent := cc_sent (mc_context mc) @ [request LOGIN [to_bytes u, dh, ik, sig] sig]\<rparr>)"
    using n login_on_client_sends [OF assms(4), of "to_bytes u"] assms(3)
    by (simp add: client_serve_def client_registry_lookup create_def)
  show ?thesis by (rule dispatched_line [OF assms(1) p serve]) (rule that)
qed

text \<open>The network thread connects, the user enters a name and presses the button, and the queue delivers the notice and the command.\<close>

definition login_events :: "qstring \<Rightarrow> qstring \<Rightarrow> gui_event list" where
  "login_events q t = [NetInit, NetSetCallback, EditNickname q, PressLogin t, Deliver t, Deliver t]"

text \<open>A name the user enters, of at most the twenty characters the field takes, and the name in the command the client parses.\<close>

definition nickname :: "qt \<Rightarrow> qstring \<Rightarrow> string \<Rightarrow> bool" where
  "nickname qt q u \<longleftrightarrow> length q \<le> 20 \<and> trimmed qt q \<noteq> [] \<and> toStdString qt (qlit ''/login '' @ trimmed qt q) = unwords [''/login'', u] \<and>
     plain u \<and> length u < 65536"

definition logged_in_context :: "ClientContext \<Rightarrow> string \<Rightarrow> bytes \<times> bytes \<times> bytes \<Rightarrow> ClientContext" where
  "logged_in_context ctx u k = (case k of (dh, ik, sig) \<Rightarrow>
     ctx\<lparr>cc_ui := Some [], cc_my_username := to_bytes u, cc_sent := [request LOGIN [to_bytes u, dh, ik, sig] sig]\<rparr>)"

lemma ctor_context_sel:
  assumes "ClientContext_ctor env dhg idg fs = Inr ctx"
  shows "cc_ui ctx = None" "cc_sent ctx = []" "cc_mq ctx = MessageQueue_ctor" "cc_pending_messages ctx = Map.empty" "cc_counter ctx = Map.empty"
    "counter_of ctx v = 0"
  using assms
  by (auto simp: ClientContext_ctor_def set_key_def EncryptionService_ctor_def counter_of_def Let_def bindr_eq_Inr split: if_splits)

lemma gui_logs_in:
  assumes "ClientContext_ctor env dhg idg fs = Inr ctx" "published (ce_ssl env) (cc_es ctx) k dk ik" "nickname qt q u"
  obtains w where "window_up (gui_run qt env (login_events q t) (start_gui_client ctx)) w"
    "incoming_texts w = map (toHtmlEscaped qt) [qlit ''Welcome, '' @ trimmed qt q @ qlit ''!'', fromStdString qt str_connected]" "outgoing_texts w = []"
    "mc_inv (gu_client (gui_run qt env (login_events q t) (start_gui_client ctx)))"
    "mc_context (gu_client (gui_run qt env (login_events q t) (start_gui_client ctx))) = logged_in_context ctx u k"
proof -
  obtain dh i sig where k: "k = (dh, i, sig)" by (cases k)
  let ?mc = "set_ui_callback (MessagingClient_ctor ctx)"
  let ?w0 = "ChatWindow_ctor qt t (trimmed qt q)" and ?conn = "fromStdString qt str_connected"
  let ?w = "chat_updateResponse qt t ?conn ?w0"
  have n: "trimmed qt q \<noteq> []" "toStdString qt (qlit ''/login '' @ trimmed qt q) = unwords [''/login'', u]" "plain u" "length u < 65536"
      "take 20 q = q"
    using assms(3) by (simp_all add: nickname_def)
  have mc: "mc_inv ?mc" "mc_context ?mc = ctx\<lparr>cc_ui := Some []\<rparr>"
    using mc_inv_ctor [of ctx] by (simp_all add: set_ui_callback_def mc_inv_def mc_context_ctor)
  have "published (ce_ssl env) (cc_es (mc_context ?mc)) (dh, i, sig) dk ik" using assms(2) k mc(2) by simp
  from typed_login [OF mc(1) n(3, 4) this] obtain mc' where mc': "get_data env (unwords [''/login'', u]) ?mc = (Inr (), mc')" "mc_inv mc'"
      "mc_context mc' = logged_in_context ctx u k"
    using ctor_context_sel(2) [OF assms(1)] mc(2) k by (auto simp: logged_in_context_def)
  let ?sigs = "[ResponseReceived ?conn, SendToClient (qlit ''/login '' @ trimmed qt q)]"
  let ?g = "(start_gui_client ctx)\<lparr>gu_client := ?mc, gu_login := (nickname_edit q LoginWindow_ctor)\<lparr>lw_open := False\<rparr>, gu_chat := Some ?w,
      gu_queue := [], gu_data_callback := True, gu_net := NetRunning, gu_handled := ?sigs\<rparr>"
  have run: "gui_run qt env (login_events q t) (start_gui_client ctx) = run_client qt (get_data env (unwords [''/login'', u])) ?g"
    using n(1, 2, 5) by (simp add: login_events_def gui_step_def start_gui_client_def net_init_def init_client_def emit_signal_def postResponse_def
        net_set_callback_def nickname_edit_def LoginWindow_ctor_def press_login_def login_handleLogin_def on_login_success_def postSend_def
        deliver_signal_def Let_def)
  have w: "history_inv ?w" "incoming_texts ?w = map (toHtmlEscaped qt) [qlit ''Welcome, '' @ trimmed qt q @ qlit ''!'', ?conn]" "outgoing_texts ?w = []"
    using history_ctor by (simp_all add: chat_updateResponse_def history_append texts_append)
  have c: "gu_client (run_client qt (get_data env (unwords [''/login'', u])) ?g) = clear_ui mc'"
      "gu_error (run_client qt (get_data env (unwords [''/login'', u])) ?g) = None"
    using run_client_ok [of "get_data env (unwords [''/login'', u])" ?g mc' qt] mc'(1) by (simp_all add: start_gui_client_def)
  have ui: "cc_ui (mc_context mc') = Some []" using mc'(3) k by (simp add: logged_in_context_def)
  then have u: "mc_context (clear_ui mc') = logged_in_context ctx u k" using mc'(3) k by (simp add: logged_in_context_def)
  have "window_up (run_client qt (get_data env (unwords [''/login'', u])) ?g) ?w"
    using c w(1) u ui mc'(1) k by (simp add: window_up_def shown_def logged_in_context_def)
  with w(2, 3) c u mc'(2) show ?thesis by (intro that [of ?w, unfolded run]) simp_all
qed

text \<open>A text from the server is shown, and nothing else changes for the client.\<close>

lemma text_shown:
  assumes "window_up g w" "mc_inv (gu_client g)" "length str < 4294967289"
  obtains w' where "window_up (gui_run qt env [NetData (text_frame str), Deliver t] g) w'"
    "incoming_texts w' = incoming_texts w @ [toHtmlEscaped qt (fromStdString qt str)]" "outgoing_texts w' = outgoing_texts w"
    "mc_inv (gu_client (gui_run qt env [NetData (text_frame str), Deliver t] g))"
    "mc_context (gu_client (gui_run qt env [NetData (text_frame str), Deliver t] g)) = mc_context (gu_client g)"
proof -
  have ui: "cc_ui (mc_context (gu_client g)) = Some []" using assms(1) by (simp add: window_up_def)
  have fit: "fits [] (to_bytes str)" using assms(3) by (rule fits_text)
  have s: "client_serve env (built 0 (to_bytes str) [] Text) (mc_context (gu_client g)) = (Inr (), (mc_context (gu_client g))\<lparr>cc_ui := Some [str]\<rparr>)"
    using ui by (simp add: client_serve_def handle_text_def ui_callback_def)
  obtain mc where mc: "client_on_tcp_data_received env (text_frame str) (gu_client g) = (Inr (), mc)" "mc_inv mc"
      "mc_context mc = (mc_context (gu_client g))\<lparr>cc_ui := Some [str]\<rparr>"
    by (rule client_handles [OF assms(2) fit _ s]) (simp_all add: text_frame_def)
  then have "cc_ui (mc_context mc) = Some [str]" by simp
  then obtain w' where "gu_chat (gui_run qt env [NetData (text_frame str), Deliver t] g) = Some w'"
    "incoming_texts w' = incoming_texts w @ [toHtmlEscaped qt (fromStdString qt str)]" "outgoing_texts w' = outgoing_texts w"
    "gu_client (gui_run qt env [NetData (text_frame str), Deliver t] g) = clear_ui mc" "window_up (gui_run qt env [NetData (text_frame str), Deliver t] g) w'"
    by (rule data_shown [OF assms(1) mc(1)])
  with mc ui show ?thesis by (intro that [of w']) simp_all
qed

definition login_schedule :: "int \<Rightarrow> qstring \<Rightarrow> qstring \<Rightarrow> world_event list" where
  "login_schedule fd q t = map (At fd) (login_events q t) @ [Up fd, Down fd] @ map (At fd) [Deliver t]"

definition server_logs_in :: "int \<Rightarrow> string \<Rightarrow> bytes \<times> bytes \<times> bytes \<Rightarrow> ServerContext \<Rightarrow> ServerContext" where
  "server_logs_in fd u k s = (case k of (dh, ik, sig) \<Rightarrow> s\<lparr>sc_fd := fd, sc_users := (sc_users s)(u \<mapsto> new_user u dh ik sig),
     sc_sessions := bind (sc_sessions s) fd u, sc_sent := sc_sent s @ [(fd, text_frame (''Hello, '' @ u @ ''!''))]\<rparr>)"

lemma world_login:
  assumes w: "wd_error wd = None" "wd_gui wd fd = start_gui_client ctx" "wd_read wd fd = 0" "wd_got wd fd = 0" "ms_inv (wd_server wd)"
    and new: "frames_to (ms_context (wd_server wd)) fd = []" "fd_to_name (sc_sessions (ms_context (wd_server wd))) fd = None"
      "u \<notin> dom (sc_users (ms_context (wd_server wd)))"
    and c: "ClientContext_ctor (cenv fd) dhg idg fs = Inr ctx" "published (ce_ssl (cenv fd)) (cc_es ctx) k dk ik" "nickname qt q u"
  obtains ms g v where "world_run qt cenv senv (login_schedule fd q t) wd = wd\<lparr>wd_server := ms, wd_gui := (wd_gui wd)(fd := g),
      wd_read := (wd_read wd)(fd := 1), wd_got := (wd_got wd)(fd := 1)\<rparr>"
    "ms_inv ms" "ms_context ms = server_logs_in fd u k (ms_context (wd_server wd))" "window_up g v" "outgoing_texts v = []"
    "incoming_texts v = map (toHtmlEscaped qt) [qlit ''Welcome, '' @ trimmed qt q @ qlit ''!'', fromStdString qt str_connected,
      fromStdString qt (''Hello, '' @ u @ ''!'')]"
    "mc_inv (gu_client g)" "mc_context (gu_client g) = logged_in_context ctx u k"
proof -
  obtain dh i sig where k: "k = (dh, i, sig)" by (cases k)
  let ?g = "gui_run qt (cenv fd) (login_events q t) (start_gui_client ctx)" and ?raw = "request LOGIN [to_bytes u, dh, i, sig] sig"
  let ?hello = "''Hello, '' @ u @ ''!''"
  obtain v where v: "window_up ?g v" "incoming_texts v = map (toHtmlEscaped qt) [qlit ''Welcome, '' @ trimmed qt q @ qlit ''!'', fromStdString qt str_connected]"
      "outgoing_texts v = []" "mc_inv (gu_client ?g)" "mc_context (gu_client ?g) = logged_in_context ctx u k"
    by (rule gui_logs_in [OF c])
  have u: "length u < 65536" using c(3) by (simp add: nickname_def)
  have "fits ([byte_of_CommandType LOGIN] # [to_bytes u, dh, i, sig]) sig" using c(2) u k by (simp add: published_def small_metas_def fits_def)
  from login_outcome [OF w(5) this, of senv fd] new(2, 3) k obtain ms where ms: "on_tcp_data_received senv fd ?raw (wd_server wd) = (Inr (), ms)" "ms_inv ms"
      "ms_context ms = server_logs_in fd u k (ms_context (wd_server wd))"
    by (auto simp: serves_def server_logs_in_def Let_def)
  let ?wd1 = "wd\<lparr>wd_gui := (wd_gui wd)(fd := ?g)\<rparr>" and ?wd2 = "wd\<lparr>wd_server := ms, wd_gui := (wd_gui wd)(fd := ?g), wd_read := (wd_read wd)(fd := 1)\<rparr>"
  have s1: "world_run qt cenv senv (map (At fd) (login_events q t)) wd = ?wd1"
    using world_at [of "login_events q t" qt cenv senv fd wd] w(2) by (simp add: login_events_def)
  have s2: "world_step qt cenv senv (Up fd) ?wd1 = ?wd2"
    using world_up [of ?wd1 fd "[]" ?raw senv ms qt cenv] w(1, 3) v(5) ms(1) k by (simp add: logged_in_context_def)
  have s3: "frames_to (ms_context (wd_server ?wd2)) fd = [] @ [text_frame ?hello]" "gu_net (wd_gui ?wd2 fd) = NetRunning"
    using new(1) ms(3) k v(1) by (simp_all add: server_logs_in_def frames_to_def window_up_def)
  obtain v' where v': "window_up (gui_run qt (cenv fd) [NetData (text_frame ?hello), Deliver t] ?g) v'"
      "incoming_texts v' = incoming_texts v @ [toHtmlEscaped qt (fromStdString qt ?hello)]" "outgoing_texts v' = outgoing_texts v"
      "mc_inv (gu_client (gui_run qt (cenv fd) [NetData (text_frame ?hello), Deliver t] ?g))"
      "mc_context (gu_client (gui_run qt (cenv fd) [NetData (text_frame ?hello), Deliver t] ?g)) = mc_context (gu_client ?g)"
    by (rule text_shown [OF v(1, 4), of ?hello]) (use u in simp_all)
  have "world_run qt cenv senv (login_schedule fd q t) wd = wd\<lparr>wd_server := ms,
      wd_gui := (wd_gui wd)(fd := gui_run qt (cenv fd) [NetData (text_frame ?hello), Deliver t] ?g),
      wd_read := (wd_read wd)(fd := 1), wd_got := (wd_got wd)(fd := 1)\<rparr>"
    using s1 s2 world_down [OF s3(2, 1), of qt cenv senv] w(4) by (simp add: login_schedule_def del: world_step.simps(2, 3))
  then show ?thesis using that ms v v' by simp
qed


section \<open>The first message\<close>

definition message_schedule :: "int \<Rightarrow> int \<Rightarrow> qstring \<Rightarrow> qstring \<Rightarrow> world_event list" where
  "message_schedule a b line t =
     map (At a) [EditMessage line, PressSend t, Deliver t] @ [Up a, Down a, Up a, Down b] @ map (At b) [Deliver t]"

text \<open>The frames of one private message, once the clients and the server do what \<open>message_crosses\<close> says.\<close>

lemma world_message:
  assumes ab: "a \<noteq> b" and up: "gu_net (wd_gui wd b) = NetRunning" "wd_error wd = None"
    and n: "wd_read wd a = length (frames_from wd a)" "wd_got wd a = length (frames_to (ms_context (wd_server wd)) a)"
      "wd_got wd b = length (frames_to (ms_context (wd_server wd)) b)"
    and a1: "gui_run qt (cenv a) [EditMessage line, PressSend t, Deliver t] (wd_gui wd a) = ga1" "gu_net ga1 = NetRunning"
      "cc_sent (mc_context (gu_client ga1)) = frames_from wd a @ [asked]"
    and s1: "on_tcp_data_received senv a asked (wd_server wd) = (Inr (), ms1)" "sc_sent (ms_context ms1) = sc_sent (ms_context (wd_server wd)) @ [(a, answer)]"
    and a2: "gui_run qt (cenv a) [NetData answer] ga1 = ga2" "cc_sent (mc_context (gu_client ga2)) = cc_sent (mc_context (gu_client ga1)) @ [sent]"
    and s2: "on_tcp_data_received senv a sent ms1 = (Inr (), ms2)" "sc_sent (ms_context ms2) = sc_sent (ms_context ms1) @ [(b, relayed)]"
    and b2: "gui_run qt (cenv b) [NetData relayed, Deliver t] (wd_gui wd b) = gb2"
  shows "world_run qt cenv senv (message_schedule a b line t) wd = wd\<lparr>wd_server := ms2, wd_gui := (wd_gui wd)(a := ga2, b := gb2),
    wd_read := (wd_read wd)(a := wd_read wd a + 2), wd_got := (wd_got wd)(a := wd_got wd a + 1, b := wd_got wd b + 1)\<rparr>"
proof -
  let ?w1 = "wd\<lparr>wd_gui := (wd_gui wd)(a := ga1)\<rparr>"
  let ?w2 = "?w1\<lparr>wd_server := ms1, wd_read := (wd_read wd)(a := Suc (wd_read wd a))\<rparr>"
  let ?w3 = "?w2\<lparr>wd_gui := (wd_gui wd)(a := ga2), wd_got := (wd_got wd)(a := Suc (wd_got wd a))\<rparr>"
  let ?w4 = "?w3\<lparr>wd_server := ms2, wd_read := (wd_read wd)(a := Suc (Suc (wd_read wd a)))\<rparr>"
  let ?w5 = "?w4\<lparr>wd_gui := (wd_gui wd)(a := ga2, b := gui_run qt (cenv b) [NetData relayed] (wd_gui wd b)),
    wd_got := (wd_got wd)(a := Suc (wd_got wd a), b := Suc (wd_got wd b))\<rparr>"
  have 1: "world_run qt cenv senv (map (At a) [EditMessage line, PressSend t, Deliver t]) wd = ?w1"
    using world_at [of "[EditMessage line, PressSend t, Deliver t]" qt cenv senv a wd] a1(1) by simp
  have 2: "world_step qt cenv senv (Up a) ?w1 = ?w2"
    using world_up [of ?w1 a "frames_from wd a" asked senv ms1 qt cenv] up(2) n(1) a1(3) s1(1) by simp
  have 3: "world_step qt cenv senv (Down a) ?w2 = ?w3"
    using world_down [of ?w2 a "frames_to (ms_context (wd_server wd)) a" answer qt cenv senv] a1(2) s1(2) n(2) a2(1) by (simp add: frames_to_def)
  have 4: "world_step qt cenv senv (Up a) ?w3 = ?w4"
    using world_up [of ?w3 a "frames_from wd a @ [asked]" sent senv ms2 qt cenv] up(2) n(1) a1(3) a2(2) s2(1) by simp
  have 5: "world_step qt cenv senv (Down b) ?w4 = ?w5"
    using world_down [of ?w4 b "frames_to (ms_context (wd_server wd)) b" relayed qt cenv senv] ab up(1) s1(2) s2(2) n(3)
    by (simp add: frames_to_def fun_upd_twist)
  show ?thesis
    using 1 2 3 4 5 b2 ab by (simp add: message_schedule_def fun_upd_twist del: world_step.simps(2, 3))
qed

lemma ctor_DH_key: "ClientContext_ctor env (Inr x) idg fs = Inr ctx \<Longrightarrow> es_DH_key (cc_es ctx) = Some x"
  by (auto simp: ClientContext_ctor_def set_key_def DH_generate_def Let_def split: if_splits)

lemma server_logs_in_sel:
  "sc_users (server_logs_in fd u (dh, ik, sig) s) = (sc_users s)(u \<mapsto> new_user u dh ik sig)"
  "fd_to_name (sc_sessions (server_logs_in fd u k s)) = (fd_to_name (sc_sessions s))(fd \<mapsto> u)"
  "name_to_fd (sc_sessions (server_logs_in fd u k s)) = (name_to_fd (sc_sessions s))(u \<mapsto> fd)"
  "sc_sent (server_logs_in fd u k s) = sc_sent s @ [(fd, text_frame (''Hello, '' @ u @ ''!''))]"
  by (cases k; simp add: server_logs_in_def bind_lookup)+

lemma logged_in_sel [simp]:
  "cc_ui (logged_in_context ctx u k) = Some []" "cc_my_username (logged_in_context ctx u k) = to_bytes u" "cc_es (logged_in_context ctx u k) = cc_es ctx"
  "cc_mq (logged_in_context ctx u k) = cc_mq ctx" "cc_pending_messages (logged_in_context ctx u k) = cc_pending_messages ctx"
  "counter_of (logged_in_context ctx u k) v = counter_of ctx v" "length (cc_sent (logged_in_context ctx u k)) = 1"
  by (cases k; simp add: logged_in_context_def counter_of_def)+

text \<open>The two logins, one after the other.\<close>

definition greeting :: "qt \<Rightarrow> qstring \<Rightarrow> string \<Rightarrow> qstring list" where
  "greeting qt q u = [qlit ''Welcome, '' @ trimmed qt q @ qlit ''!'', fromStdString qt str_connected, fromStdString qt (''Hello, '' @ u @ ''!'')]"

lemma two_logins:
  assumes "ce_ssl (cenv b) = ce_ssl (cenv a)" "a \<noteq> b" "ua \<noteq> ub"
    and "ClientContext_ctor (cenv a) (Inr xa) idga fsa = Inr (ctx a)" "ClientContext_ctor (cenv b) (Inr xb) idgb fsb = Inr (ctx b)"
    and "published (ce_ssl (cenv a)) (cc_es (ctx a)) ka pa ipa" "published (ce_ssl (cenv a)) (cc_es (ctx b)) kb pb ipb"
    and "nickname qt qa ua" "nickname qt qb ub"
  obtains ms ga gb va vb where
    "world_run qt cenv senv (login_schedule a qa t @ login_schedule b qb t) (new_world ctx) = (new_world ctx)\<lparr>wd_server := ms,
      wd_gui := (wd_gui (new_world ctx))(a := ga, b := gb), wd_read := (\<lambda>_. 0)(a := 1, b := 1), wd_got := (\<lambda>_. 0)(a := 1, b := 1)\<rparr>"
    "ms_inv ms" "ms_context ms = server_logs_in b ub kb (server_logs_in a ua ka ServerContext_ctor)"
    "window_up ga va" "outgoing_texts va = []" "incoming_texts va = map (toHtmlEscaped qt) (greeting qt qa ua)"
    "mc_inv (gu_client ga)" "mc_context (gu_client ga) = logged_in_context (ctx a) ua ka"
    "window_up gb vb" "incoming_texts vb = map (toHtmlEscaped qt) (greeting qt qb ub)"
    "mc_inv (gu_client gb)" "mc_context (gu_client gb) = logged_in_context (ctx b) ub kb"
proof -
  obtain dha ika sga where ka: "ka = (dha, ika, sga)" by (cases ka)
  let ?w0 = "new_world ctx" and ?sa = "server_logs_in a ua ka ServerContext_ctor"
  have ctor: "ms_context (wd_server ?w0) = ServerContext_ctor" "ms_inv (wd_server ?w0)" by (simp_all add: new_world_def ctor_context ms_inv_ctor)
  have s0: "sc_users ServerContext_ctor = Map.empty" "sc_sent ServerContext_ctor = []" "fd_to_name (sc_sessions ServerContext_ctor) = Map.empty"
    by (simp_all add: ServerContext_ctor_def SessionManager_ctor_def)
  obtain msa ga va where A: "world_run qt cenv senv (login_schedule a qa t) ?w0 = ?w0\<lparr>wd_server := msa, wd_gui := (wd_gui ?w0)(a := ga),
        wd_read := (wd_read ?w0)(a := 1), wd_got := (wd_got ?w0)(a := 1)\<rparr>"
      "ms_inv msa" "ms_context msa = ?sa" "window_up ga va" "outgoing_texts va = []"
      "incoming_texts va = map (toHtmlEscaped qt) [qlit ''Welcome, '' @ trimmed qt qa @ qlit ''!'', fromStdString qt str_connected,
        fromStdString qt (''Hello, '' @ ua @ ''!'')]" "mc_inv (gu_client ga)" "mc_context (gu_client ga) = logged_in_context (ctx a) ua ka"
    by (rule world_login [of ?w0 a "ctx a" ua cenv "Inr xa" idga fsa ka pa ipa qt qa, unfolded ctor(1)])
      (use ctor s0 assms(4, 6, 8) in \<open>simp_all add: new_world_def frames_to_def\<close>)
  let ?w1 = "?w0\<lparr>wd_server := msa, wd_gui := (wd_gui ?w0)(a := ga), wd_read := (wd_read ?w0)(a := 1), wd_got := (wd_got ?w0)(a := 1)\<rparr>"
  obtain msb gb vb where B: "world_run qt cenv senv (login_schedule b qb t) ?w1 = ?w1\<lparr>wd_server := msb, wd_gui := (wd_gui ?w1)(b := gb),
        wd_read := (wd_read ?w1)(b := 1), wd_got := (wd_got ?w1)(b := 1)\<rparr>"
      "ms_inv msb" "ms_context msb = server_logs_in b ub kb ?sa" "window_up gb vb" "outgoing_texts vb = []"
      "incoming_texts vb = map (toHtmlEscaped qt) [qlit ''Welcome, '' @ trimmed qt qb @ qlit ''!'', fromStdString qt str_connected,
        fromStdString qt (''Hello, '' @ ub @ ''!'')]" "mc_inv (gu_client gb)" "mc_context (gu_client gb) = logged_in_context (ctx b) ub kb"
    by (rule world_login [of ?w1 b "ctx b" ub cenv "Inr xb" idgb fsb kb pb ipb qt qb])
      (use A(2, 3) s0 assms(1-3, 5, 7, 9) ka in \<open>simp_all add: new_world_def frames_to_def server_logs_in_sel\<close>)
  have "world_run qt cenv senv (login_schedule a qa t @ login_schedule b qb t) ?w0 = ?w0\<lparr>wd_server := msb,
      wd_gui := (wd_gui ?w0)(a := ga, b := gb), wd_read := (\<lambda>_. 0)(a := 1, b := 1), wd_got := (\<lambda>_. 0)(a := 1, b := 1)\<rparr>"
    using A(1) B(1) by (simp add: new_world_def)
  with A B show ?thesis by (intro that) (simp_all add: greeting_def)
qed

text \<open>A private message in a world in which every frame sent so far has arrived.\<close>

lemma world_delivers:
  assumes "a \<noteq> b" "wd_error wd = None" "window_up (wd_gui wd b) vb"
    and "wd_read wd a = length (frames_from wd a)" "wd_got wd a = length (frames_to (ms_context (wd_server wd)) a)"
      "wd_got wd b = length (frames_to (ms_context (wd_server wd)) b)"
    and crossed: "\<exists>ga1 ga2 gb2 wa1 wb2 asked answer sent relayed ms1 ms2.
    gui_run qt (cenv a) [EditMessage line, PressSend t, Deliver t] (wd_gui wd a) = ga1 \<and> gu_chat ga1 = Some wa1 \<and>
    outgoing_texts wa1 = outgoing_texts va @ [toHtmlEscaped qt (trimmed qt line)] \<and> incoming_texts wa1 = incoming_texts va \<and>
    gu_error ga1 = None \<and> gu_net ga1 = NetRunning \<and> gu_chat ga2 = Some wa1 \<and>
    cc_sent (mc_context (gu_client ga1)) = cc_sent (mc_context (gu_client (wd_gui wd a))) @ [asked] \<and>
    on_tcp_data_received senv a asked (wd_server wd) = (Inr (), ms1) \<and> sc_sent (ms_context ms1) = sc_sent (ms_context (wd_server wd)) @ [(a, answer)] \<and>
    gui_run qt (cenv a) [NetData answer] ga1 = ga2 \<and> cc_sent (mc_context (gu_client ga2)) = cc_sent (mc_context (gu_client ga1)) @ [sent] \<and>
    on_tcp_data_received senv a sent ms1 = (Inr (), ms2) \<and> sc_sent (ms_context ms2) = sc_sent (ms_context ms1) @ [(b, relayed)] \<and>
    gui_run qt (cenv b) [NetData relayed, Deliver t] (wd_gui wd b) = gb2 \<and> gu_chat gb2 = Some wb2 \<and> gu_error ga2 = None \<and> gu_error gb2 = None \<and>
    incoming_texts wb2 = incoming_texts vb @ [toHtmlEscaped qt (fromStdString qt (private_prefix @ ua @ '']: '' @ unwords ws))] \<and>
    counter_of (mc_context (gu_client gb2)) (to_bytes ua) = counter_of (mc_context (gu_client (wd_gui wd b))) (to_bytes ua) + 1"
  shows "let wd' = world_run qt cenv senv (message_schedule a b line t) wd in
    wd_error wd' = None \<and> gu_error (wd_gui wd' a) = None \<and> gu_error (wd_gui wd' b) = None \<and>
    (\<exists>wa wb. gu_chat (wd_gui wd' a) = Some wa \<and> gu_chat (wd_gui wd' b) = Some wb \<and>
      outgoing_texts wa = outgoing_texts va @ [toHtmlEscaped qt (trimmed qt line)] \<and> incoming_texts wa = incoming_texts va \<and>
      incoming_texts wb = incoming_texts vb @ [toHtmlEscaped qt (fromStdString qt (private_prefix @ ua @ '']: '' @ unwords ws))])"
proof -
  from crossed obtain ga1 ga2 gb2 wa1 wb2 asked answer sent relayed ms1 ms2 where M: "gui_run qt (cenv a) [EditMessage line, PressSend t, Deliver t] (wd_gui wd a) = ga1" "gu_net ga1 = NetRunning"
      "cc_sent (mc_context (gu_client ga1)) = cc_sent (mc_context (gu_client (wd_gui wd a))) @ [asked]"
      "on_tcp_data_received senv a asked (wd_server wd) = (Inr (), ms1)" "sc_sent (ms_context ms1) = sc_sent (ms_context (wd_server wd)) @ [(a, answer)]"
      "gui_run qt (cenv a) [NetData answer] ga1 = ga2" "cc_sent (mc_context (gu_client ga2)) = cc_sent (mc_context (gu_client ga1)) @ [sent]"
      "on_tcp_data_received senv a sent ms1 = (Inr (), ms2)" "sc_sent (ms_context ms2) = sc_sent (ms_context ms1) @ [(b, relayed)]"
      "gui_run qt (cenv b) [NetData relayed, Deliver t] (wd_gui wd b) = gb2"
      and W: "gu_chat ga2 = Some wa1" "gu_chat gb2 = Some wb2" "gu_error ga2 = None" "gu_error gb2 = None"
      "outgoing_texts wa1 = outgoing_texts va @ [toHtmlEscaped qt (trimmed qt line)]" "incoming_texts wa1 = incoming_texts va"
      "incoming_texts wb2 = incoming_texts vb @ [toHtmlEscaped qt (fromStdString qt (private_prefix @ ua @ '']: '' @ unwords ws))]"
    by blast
  have "world_run qt cenv senv (message_schedule a b line t) wd = wd\<lparr>wd_server := ms2, wd_gui := (wd_gui wd)(a := ga2, b := gb2),
      wd_read := (wd_read wd)(a := wd_read wd a + 2), wd_got := (wd_got wd)(a := wd_got wd a + 1, b := wd_got wd b + 1)\<rparr>"
    by (rule world_message [OF assms(1) _ assms(2, 4-6) M]) (use assms(3) in \<open>simp add: window_up_def\<close>)
  then show ?thesis using W assms(1, 2) by (simp add: Let_def)
qed

text \<open>
  C2: from the start of the processes to the first private message. Two clients and the server have just started, with keys OpenSSL generated. In the schedule in
  which each client connects, its user enters a name and the server answers, and then the first user types \<open>/pmess\<close>, the second user's name and
  words: the first window has the welcome, the notice of the connection and the server's greeting and shows the line typed, the second has its own three lines
  and then the words, under the first user's name; nothing fails. In this schedule every message arrives whole. The hypotheses are about what the program does
  not contain: OpenSSL's keys and ciphers, Qt's strings, and that the names differ and are within the limits of the field and the wire.
\<close>

theorem first_message_from_start:
  assumes "crypto_ok (cenv a)" "ce_ssl (cenv b) = ce_ssl (cenv a)" "a \<noteq> b" "ua \<noteq> ub"
    and "ClientContext_ctor (cenv a) (Inr xa) idga fsa = Inr (ctx a)" "ClientContext_ctor (cenv b) (Inr xb) idgb fsb = Inr (ctx b)"
    and "published (ce_ssl (cenv a)) (cc_es (ctx a)) ka pa ipa" "published (ce_ssl (cenv a)) (cc_es (ctx b)) kb pb ipb"
    and "x25519_agree (ce_ssl (cenv a)) xa pa xb pb" "es_identity_key (cc_es (ctx a)) = Some ia" "ed25519_key (ce_ssl (cenv a)) ia ipa"
    and "nickname qt qa ua" "nickname qt qb ub"
    and "trimmed qt line \<noteq> []" "toStdString qt (trimmed qt line) = unwords (''/pmess'' # ub # ws)"
      "fromStdString qt (unwords (''/pmess'' # ub # ws)) = trimmed qt line" "list_all plain ws" "ws \<noteq> []" "length (unwords ws) < 65536"
  shows "let wd = world_run qt cenv senv (login_schedule a qa t @ login_schedule b qb t @ message_schedule a b line t) (new_world ctx) in
    wd_error wd = None \<and> gu_error (wd_gui wd a) = None \<and> gu_error (wd_gui wd b) = None \<and>
    (\<exists>va vb. gu_chat (wd_gui wd a) = Some va \<and> gu_chat (wd_gui wd b) = Some vb \<and>
      outgoing_texts va = [toHtmlEscaped qt (trimmed qt line)] \<and> incoming_texts va = map (toHtmlEscaped qt) (greeting qt qa ua) \<and>
      incoming_texts vb = map (toHtmlEscaped qt) (greeting qt qb ub @ [fromStdString qt (private_prefix @ ua @ '']: '' @ unwords ws)]))"
proof -
  obtain dha ika sga where ka: "ka = (dha, ika, sga)" by (cases ka)
  obtain dhb ikb sgb where kb: "kb = (dhb, ikb, sgb)" by (cases kb)
  let ?logins = "login_schedule a qa t @ login_schedule b qb t" and ?ssl = "ce_ssl (cenv a)" and ?w0 = "new_world ctx"
  obtain ms ga gb va vb where L: "world_run qt cenv senv ?logins ?w0 = ?w0\<lparr>wd_server := ms, wd_gui := (wd_gui ?w0)(a := ga, b := gb),
        wd_read := (\<lambda>_. 0)(a := 1, b := 1), wd_got := (\<lambda>_. 0)(a := 1, b := 1)\<rparr>" "ms_inv ms"
      and ms: "ms_context ms = server_logs_in b ub kb (server_logs_in a ua ka ServerContext_ctor)"
      and A: "window_up ga va" "outgoing_texts va = []" "incoming_texts va = map (toHtmlEscaped qt) (greeting qt qa ua)" "mc_inv (gu_client ga)"
      and ca: "mc_context (gu_client ga) = logged_in_context (ctx a) ua ka"
      and B: "window_up gb vb" "incoming_texts vb = map (toHtmlEscaped qt) (greeting qt qb ub)" "mc_inv (gu_client gb)"
      and cb: "mc_context (gu_client gb) = logged_in_context (ctx b) ub kb"
    by (rule two_logins [OF assms(2-8, 12, 13)])
  let ?wd = "world_run qt cenv senv ?logins ?w0"
  have pub: "get_raw_public_key ?ssl xa \<noteq> None" "sign ?ssl (cc_es (ctx a)) = Inr sga" "small_metas [dha, ika, sga, dhb, ikb, sgb]"
      "new_raw_public_key ?ssl X25519 dha = Some pa" "new_raw_public_key ?ssl ED25519 ika = Some ipa"
      "new_raw_public_key ?ssl X25519 dhb = Some pb" "new_raw_public_key ?ssl ED25519 ikb = Some ipb"
    using assms(7-9) ka kb by (simp_all add: published_def x25519_agree_def small_metas_def)
  have names: "length ua < 65536" "length ub < 65536" "plain ub" using assms(12, 13) by (simp_all add: nickname_def)
  note sel = ctor_context_sel [OF assms(5)] ctor_context_sel [OF assms(6)] ctor_DH_key [OF assms(5)] ctor_DH_key [OF assms(6)]
  have knows: "knows ?ssl (with_keys (cc_es (ctx a)) (to_bytes ub) pb ipb) (to_bytes ua) (with_keys (cc_es (ctx b)) (to_bytes ua) pa ipa) (to_bytes ub)"
    using assms(9-11) sel by (simp add: knows_def with_keys_def)
  have users: "fd_to_name (sc_sessions (ms_context ms)) a = Some ua" "name_to_fd (sc_sessions (ms_context ms)) ub = Some b"
      "sc_users (ms_context ms) ua = Some (new_user ua dha ika sga)" "sc_users (ms_context ms) ub = Some (new_user ub dhb ikb sgb)"
    using ms assms(3, 4) ka kb by (simp_all add: server_logs_in_sel)
  have wd: "wd_gui ?wd a = ga" "wd_gui ?wd b = gb" "wd_server ?wd = ms" "wd_error ?wd = None"
      "wd_read ?wd a = length (frames_from ?wd a)" "wd_got ?wd a = length (frames_to (ms_context ms) a)" "wd_got ?wd b = length (frames_to (ms_context ms) b)"
    using L(1) assms(3) by (simp_all add: new_world_def ca ms frames_to_def server_logs_in_sel ServerContext_ctor_def)
  note crossed = message_crosses [OF assms(1) A(1) B(1) A(4) B(3) L(2) assms(14-16), where ua = ua and fda = a and fdb = b and
      xa = "new_user ua dha ika sga" and xb = "new_user ub dhb ikb sgb" and ka = pa and ia = ipa and kb = pb and ib = ipb and senv = senv and
      envb = "cenv b" and ?t1.0 = t and ?t2.0 = t and ?t3.0 = t]
  have "let wd' = world_run qt cenv senv (message_schedule a b line t) ?wd in
    wd_error wd' = None \<and> gu_error (wd_gui wd' a) = None \<and> gu_error (wd_gui wd' b) = None \<and>
    (\<exists>wa wb. gu_chat (wd_gui wd' a) = Some wa \<and> gu_chat (wd_gui wd' b) = Some wb \<and>
      outgoing_texts wa = outgoing_texts va @ [toHtmlEscaped qt (trimmed qt line)] \<and> incoming_texts wa = incoming_texts va \<and>
      incoming_texts wb = incoming_texts vb @ [toHtmlEscaped qt (fromStdString qt (private_prefix @ ua @ '']: '' @ unwords ws))])"
    by (rule world_delivers [OF assms(3) wd(4)], unfold wd, rule B(1), simp_all only: wd, rule crossed)
      (use assms(2, 17-19) names users pub knows sel in \<open>simp_all add: ca cb new_user_def small_metas_def\<close>)
  then show ?thesis using A(2, 3) B(2) by (simp add: Let_def)
qed

text \<open>Two clients with generated keys, over the sample cipher and the Latin-1 strings.\<close>

definition sample_files :: file_system where
  "sample_files = \<lparr>fs_files = Map.empty, fs_writable = (\<lambda>_. True)\<rparr>"

definition sample_contexts :: "int \<Rightarrow> ClientContext" where
  "sample_contexts fd = projr (ClientContext_ctor sample_cenv (Inr (if fd = 5 then 1 else 3)) (Inr (if fd = 5 then 2 else 4)) sample_files)"

lemma sample_contexts_ctor:
  "ClientContext_ctor sample_cenv (Inr 1) (Inr 2) sample_files = Inr (sample_contexts 5)"
  "ClientContext_ctor sample_cenv (Inr 3) (Inr 4) sample_files = Inr (sample_contexts 6)"
  by (simp_all add: sample_contexts_def ClientContext_ctor_def set_key_def DH_generate_def identity_generate_def sample_files_def file_exists_def
      identity_private_bytes_def sample_cenv_def sample_ssl_def save_file_def Let_def)

lemma sample_contexts_keys:
  "published sample_ssl (cc_es (sample_contexts 5)) ([1], [2], [2, 1]) 101 102" "published sample_ssl (cc_es (sample_contexts 6)) ([3], [4], [4, 3]) 103 104"
  "es_identity_key (cc_es (sample_contexts 5)) = Some 2"
  by (simp_all add: sample_contexts_def ClientContext_ctor_def set_key_def DH_generate_def identity_generate_def sample_files_def file_exists_def
      identity_private_bytes_def sample_cenv_def sample_ssl_def save_file_def published_def get_DH_bytes_def get_identity_bytes_def sign_def
      DH_public_bytes_def identity_public_bytes_def identity_sign_def small_metas_def EncryptionService_ctor_def Let_def)

theorem first_message_from_start_witness:
  "\<exists>vb. gu_chat (wd_gui (world_run sample_qt (\<lambda>_. sample_cenv) sample_env2 (login_schedule 5 (qlit ''a'') [] @ login_schedule 6 (qlit ''b'') [] @
      message_schedule 5 6 (qlit ''/pmess b hi'') []) (new_world sample_contexts)) 6) = Some vb \<and>
    last (incoming_texts vb) = toHtmlEscaped sample_qt (fromStdString sample_qt (private_prefix @ ''a'' @ '']: hi''))"
proof -
  have ssl: "ce_ssl sample_cenv = sample_ssl" by (simp add: sample_cenv_def)
  have keys: "x25519_agree sample_ssl 1 101 3 103" "ed25519_key sample_ssl 2 102"
    by (simp_all add: x25519_agree_def ed25519_key_def sample_ssl_def)
  have names: "nickname sample_qt (qlit ''a'') ''a''" "nickname sample_qt (qlit ''b'') ''b''"
    by (simp_all add: nickname_def sample_qt_def qlit_def plain_def char_of_def bit_0)
  have line: "trimmed sample_qt (qlit ''/pmess b hi'') = qlit ''/pmess b hi''" "toStdString sample_qt (qlit ''/pmess b hi'') = ''/pmess b hi''"
      "fromStdString sample_qt ''/pmess b hi'' = qlit ''/pmess b hi''" "qlit ''/pmess b hi'' \<noteq> []"
    by (simp_all add: sample_qt_def qlit_def char_of_def bit_0)
  show ?thesis
    using first_message_from_start [of "\<lambda>_. sample_cenv" 5 6 "''a''" "''b''" 1 "Inr 2" sample_files sample_contexts 3 "Inr 4" sample_files "([1], [2], [2, 1])" 101 102
        "([3], [4], [4, 3])" 103 104 2 sample_qt "qlit ''a''" "qlit ''b''" "qlit ''/pmess b hi''" "[''hi'']" sample_env2 "[]"]
      sample_crypto_ok sample_contexts_ctor sample_contexts_keys keys names line
    unfolding ssl Let_def by (auto simp: plain_def)
qed

end
