(* ===== verification/Chat_Spec.thy ===== *)
theory Chat_Spec
  imports Server_Properties "HOL-Library.Multiset" "HOL-Library.List_Lexorder" "HOL-Library.Char_ord"
begin

text \<open>
  The chat service the server offers, as an abstract machine: who is present on which connection under which name
  with which keys, and for every room its members in the order they joined and the texts posted so far. A request
  changes that state and produces notices for connections. \<open>spec_step\<close> knows nothing of bytes, tables, command
  objects or handlers.

  The server of \<open>Server_App\<close> refines the machine: \<open>request_of\<close> reads any decoded message as a request, \<open>notice_bytes\<close>
  is the frame of a notice, and \<open>chat_rel\<close> relates the server's four tables to the machine's state. The locale
  \<open>forward_simulation\<close> lifts the step to sequences of events; its interpretation is the server. Within one event the
  copies of a text go out in the order in which the set of members is traversed, so what is sent is compared as
  a multiset per event.
\<close>

section \<open>The abstract machine\<close>

type_synonym keys = "bytes \<times> bytes \<times> bytes"

record room =
  rm_members :: "string list"
  rm_history :: "bytes list"

record chat_spec =
  cs_people :: "(int \<times> string \<times> keys) list"
  cs_rooms :: "string \<Rightarrow> room option"

definition empty_chat :: chat_spec where
  "empty_chat = \<lparr>cs_people = [], cs_rooms = Map.empty\<rparr>"

datatype chat_request =
    Log_In string keys
  | Create_Room string
  | Join_Room string
  | Post string bytes
  | Ask_Keys string
  | Whisper string bytes bytes
  | Relay string bytes
  | Offer_File string string
  | Leave
  | Ignored

datatype notice =
    Welcome string | Already_In | Name_Taken | Log_In_First
  | Room_Made string | Room_Name_Missing | Room_Exists
  | Room_Joined string | No_Such_Room | Member_Already | Not_Member | Room_Text bytes
  | Keys_Of string keys | Name_Missing | No_Such_User
  | Whispered string bytes bytes keys
  | Relayed bytes
  | File_Offered string string

definition person_at :: "chat_spec \<Rightarrow> int \<Rightarrow> (int \<times> string \<times> keys) option" where
  "person_at sp fd = find (\<lambda>(f, _, _). f = fd) (cs_people sp)"

definition person_named :: "chat_spec \<Rightarrow> string \<Rightarrow> (int \<times> string \<times> keys) option" where
  "person_named sp u = find (\<lambda>(_, v, _). v = u) (cs_people sp)"

definition forget :: "string \<Rightarrow> room \<Rightarrow> room" where
  "forget u rm = rm\<lparr>rm_members := filter (\<lambda>v. v \<noteq> u) (rm_members rm)\<rparr>"

definition copies :: "chat_spec \<Rightarrow> bytes \<Rightarrow> string list \<Rightarrow> (int \<times> notice) list" where
  "copies sp p us = List.map_filter (\<lambda>v. map_option (\<lambda>q. (fst q, Room_Text p)) (person_named sp v)) us"

fun spec_step :: "int \<Rightarrow> chat_request \<Rightarrow> chat_spec \<Rightarrow> (int \<times> notice) list \<times> chat_spec" where
  "spec_step fd (Log_In u k) sp =
     (if person_at sp fd \<noteq> None then ([(fd, Already_In)], sp)
      else if person_named sp u \<noteq> None then ([(fd, Name_Taken)], sp)
      else ([(fd, Welcome u)], sp\<lparr>cs_people := (fd, u, k) # cs_people sp\<rparr>))"
| "spec_step fd (Create_Room r) sp =
     (case person_at sp fd of
        None \<Rightarrow> ([(fd, Log_In_First)], sp)
      | Some (_, u, _) \<Rightarrow>
         if r = [] then ([(fd, Room_Name_Missing)], sp)
         else if cs_rooms sp r \<noteq> None then ([(fd, Room_Exists)], sp)
         else ([(fd, Room_Made r)], sp\<lparr>cs_rooms := (cs_rooms sp)(r \<mapsto> \<lparr>rm_members = [u], rm_history = []\<rparr>)\<rparr>))"
| "spec_step fd (Join_Room r) sp =
     (case person_at sp fd of
        None \<Rightarrow> ([(fd, Log_In_First)], sp)
      | Some (_, u, _) \<Rightarrow>
         if r = [] then ([(fd, Room_Name_Missing)], sp)
         else (case cs_rooms sp r of
             None \<Rightarrow> ([(fd, No_Such_Room)], sp)
           | Some rm \<Rightarrow> if u \<in> set (rm_members rm) then ([(fd, Member_Already)], sp)
               else ([(fd, Room_Joined r)], sp\<lparr>cs_rooms := (cs_rooms sp)(r \<mapsto> rm\<lparr>rm_members := rm_members rm @ [u]\<rparr>)\<rparr>)))"
| "spec_step fd (Post r p) sp =
     (case person_at sp fd of
        None \<Rightarrow> ([(fd, Log_In_First)], sp)
      | Some (_, u, _) \<Rightarrow>
         (case cs_rooms sp r of
             None \<Rightarrow> ([(fd, No_Such_Room)], sp)
           | Some rm \<Rightarrow> if u \<notin> set (rm_members rm) then ([(fd, Not_Member)], sp)
               else (copies sp p (rm_members rm),
                     sp\<lparr>cs_rooms := (cs_rooms sp)(r \<mapsto> rm\<lparr>rm_history := rm_history rm @ [p]\<rparr>)\<rparr>)))"
| "spec_step fd (Ask_Keys u) sp =
     (if u = [] then ([(fd, Name_Missing)], sp)
      else (case person_named sp u of
          None \<Rightarrow> ([(fd, No_Such_User)], sp)
        | Some (_, _, k) \<Rightarrow> ([(fd, Keys_Of u k)], sp)))"
| "spec_step fd (Whisper r claimed p) sp =
     (case person_at sp fd of
        None \<Rightarrow> ([(fd, Log_In_First)], sp)
      | Some (_, _, k) \<Rightarrow>
         (case person_named sp r of
            None \<Rightarrow> ([(fd, No_Such_User)], sp)
          | Some (rfd, _, _) \<Rightarrow> ([(rfd, Whispered r claimed p k)], sp)))"
| "spec_step fd (Relay r b) sp =
     (case person_named sp r of
        None \<Rightarrow> ([(fd, No_Such_User)], sp)
      | Some (rfd, _, _) \<Rightarrow> ([(rfd, Relayed b)], sp))"
| "spec_step fd (Offer_File f r) sp = ([(fd, File_Offered f r)], sp)"
| "spec_step fd Leave sp =
     (case person_at sp fd of
        None \<Rightarrow> ([], sp)
      | Some (_, u, _) \<Rightarrow> ([], \<lparr>cs_people = filter (\<lambda>(f, _, _). f \<noteq> fd) (cs_people sp),
                               cs_rooms = (\<lambda>r. map_option (forget u) (cs_rooms sp r))\<rparr>))"
| "spec_step fd Ignored sp = ([], sp)"


section \<open>Reading messages, writing notices\<close>

definition request_of :: "Message \<Rightarrow> chat_request" where
  "request_of msg =
     (let field = get_meta msg; name = (\<lambda>i. to_string (get_meta msg i)) in
      if get_type msg = Command then
        (if field 0 = [] then Ignored
         else (case CommandType_of_byte (hd (field 0)) of
             LOGIN \<Rightarrow> Log_In (name 1) (field 2, field 3, field 4)
           | MAKE_ROOM \<Rightarrow> Create_Room (name 1)
           | JOIN \<Rightarrow> Join_Room (name 1)
           | SEND \<Rightarrow> Post (name 1) (get_payload msg)
           | GET_PUBKEY \<Rightarrow> Ask_Keys (name 1)
           | SEND_FILE \<Rightarrow> Offer_File (name 2) (name 1)
           | EXIT \<Rightarrow> Leave
           | _ \<Rightarrow> Ignored))
      else if get_type msg = CipherMessage then Whisper (name 0) (field 1) (get_payload msg)
      else if get_type msg \<in> {FileStart, FileChunk, FileEnd} then Relay (name 0) (serialize msg)
      else Ignored)"

fun notice_bytes :: "notice \<Rightarrow> bytes" where
  "notice_bytes (Welcome u) = text_frame (''Hello, '' @ u @ ''!'')"
| "notice_bytes Already_In = YOU_ARE_LOGGED_IN"
| "notice_bytes Name_Taken = PUBLIC_KEY_HAS_NOT_SET"
| "notice_bytes Log_In_First = YOU_NEED_TO_LOGIN"
| "notice_bytes (Room_Made r) = text_frame (''Room '' @ r @ '' was created!'')"
| "notice_bytes Room_Name_Missing = EMPTY_CHAT_NAME"
| "notice_bytes Room_Exists = CHAT_ALREADY_EXISTS"
| "notice_bytes (Room_Joined r) = text_frame (''You joined the room '' @ r)"
| "notice_bytes No_Such_Room = CHAT_NOT_FOUND"
| "notice_bytes Member_Already = YOU_ARE_ALREADY_MEMBER"
| "notice_bytes Not_Member = YOU_ARE_NOT_MEMBER"
| "notice_bytes (Room_Text p) = serialize (built 0 p [] Text)"
| "notice_bytes (Keys_Of u k) = (case k of (dh, ik, sig) \<Rightarrow>
     serialize (built 0 dh [[byte_of_CommandType GET_PUBKEY], to_bytes u, ik, sig] Response))"
| "notice_bytes Name_Missing = WRONG_COMMAND_USAGE"
| "notice_bytes No_Such_User = USER_NOT_FOUND"
| "notice_bytes (Whispered r claimed p k) = (case k of (dh, ik, sig) \<Rightarrow>
     serialize (built 0 p [to_bytes r, claimed, dh, ik, sig] CipherMessage))"
| "notice_bytes (Relayed b) = b"
| "notice_bytes (File_Offered f r) =
     text_frame (''Server should send a file '' @ [CHR 0x27] @ f @ [CHR 0x27] @ '' to '' @ r)"

definition frames :: "(int \<times> notice) list \<Rightarrow> (int \<times> bytes) list" where
  "frames out = map (\<lambda>(fd, n). (fd, notice_bytes n)) out"


section \<open>The simulation relation\<close>

definition user_keys :: "User \<Rightarrow> keys" where
  "user_keys x = (user_publicDHKey x, user_publicIdentityKey x, user_signature x)"

definition room_rel :: "Chat \<Rightarrow> room \<Rightarrow> bool" where
  "room_rel c rm \<longleftrightarrow> distinct (rm_members rm) \<and> chat_members c = set (rm_members rm) \<and>
     map get_payload (chat_messages c) = rm_history rm"

text \<open>A key is one metadata entry of a login message.\<close>

definition short_keys :: "keys \<Rightarrow> bool" where
  "short_keys k \<longleftrightarrow> (case k of (dh, ik, sig) \<Rightarrow> length dh < 65536 \<and> length ik < 65536 \<and> length sig < 65536)"

definition chat_rel :: "ServerContext \<Rightarrow> chat_spec \<Rightarrow> bool" where
  "chat_rel s sp \<longleftrightarrow>
     (\<forall>fd u k. (fd, u, k) \<in> set (cs_people sp) \<longleftrightarrow>
        fd_to_name (sc_sessions s) fd = Some u \<and> map_option user_keys (sc_users s u) = Some k) \<and>
     (\<forall>q \<in> set (cs_people sp). short_keys (snd (snd q))) \<and>
     (\<forall>r. rel_option room_rel (sc_chats s r) (cs_rooms sp r))"

lemma chat_rel_frame [simp]:
  "chat_rel (s\<lparr>sc_sent := x\<rparr>) sp = chat_rel s sp" "chat_rel (s\<lparr>sc_fd := fd\<rparr>) sp = chat_rel s sp"
  by (simp_all add: chat_rel_def)

lemma chat_rel_ctor: "chat_rel ServerContext_ctor empty_chat"
  by (simp add: chat_rel_def ServerContext_ctor_def empty_chat_def SessionManager_ctor_def)

lemma chat_relD:
  assumes "chat_rel s sp"
  shows "(fd, u, k) \<in> set (cs_people sp) \<longleftrightarrow>
      fd_to_name (sc_sessions s) fd = Some u \<and> map_option user_keys (sc_users s u) = Some k"
    "q \<in> set (cs_people sp) \<Longrightarrow> short_keys (snd (snd q))" "rel_option room_rel (sc_chats s r) (cs_rooms sp r)"
  using assms unfolding chat_rel_def by blast+

text \<open>The related states, with the invariant of the server.\<close>

definition chat_state :: "ServerContext \<Rightarrow> chat_spec \<Rightarrow> bool" where
  "chat_state s sp \<longleftrightarrow> server_inv s \<and> chat_rel s sp"

lemma chat_stateD:
  assumes "chat_state s sp"
  shows "server_inv s" "chat_rel s sp" "sessions_inv (sc_sessions s)" "chats_ok (dom (sc_users s)) (sc_chats s)"
    "rel_option room_rel (sc_chats s r) (cs_rooms sp r)"
    "fd_to_name (sc_sessions s) fd = Some u \<longleftrightarrow> name_to_fd (sc_sessions s) u = Some fd"
    "u \<in> dom (sc_users s) \<longleftrightarrow> name_to_fd (sc_sessions s) u \<noteq> None"
  using assms by (auto simp: chat_state_def chat_rel_def server_inv_def sessions_inv_def)

lemma find_SomeD: "find P xs = Some x \<Longrightarrow> x \<in> set xs \<and> P x"
  by (auto simp: find_Some_iff)

lemma find_unique:
  assumes "\<And>y. y \<in> set xs \<and> P y \<longleftrightarrow> y = x"
  shows "find P xs = Some x"
  using assms by (metis find_None_iff find_Some_iff not_Some_eq nth_mem)

text \<open>What the machine looks up in its list is what the server looks up in its tables.\<close>

lemma person_at_rel:
  assumes "chat_state s sp"
  shows "person_at sp fd =
    map_option (\<lambda>u. (fd, u, user_keys (the (sc_users s u)))) (fd_to_name (sc_sessions s) fd)"
proof (cases "fd_to_name (sc_sessions s) fd")
  case None
  then have "\<forall>q \<in> set (cs_people sp). fst q \<noteq> fd"
    using chat_stateD(2) [OF assms] by (auto simp: chat_rel_def)
  with None show ?thesis by (auto simp: person_at_def find_None_iff)
next
  case (Some u)
  then obtain x where x: "sc_users s u = Some x"
    using logged_in_registered [OF chat_stateD(1) [OF assms]] by blast
  have "find (\<lambda>(f, _, _). f = fd) (cs_people sp) = Some (fd, u, user_keys x)"
    using chat_relD(1) [OF chat_stateD(2) [OF assms]] Some x by (intro find_unique) (auto split: prod.splits)
  with Some x show ?thesis by (simp add: person_at_def)
qed

lemma person_named_rel:
  assumes "chat_state s sp"
  shows "person_named sp u =
    map_option (\<lambda>fd. (fd, u, user_keys (the (sc_users s u)))) (name_to_fd (sc_sessions s) u)"
proof (cases "name_to_fd (sc_sessions s) u")
  case None
  then have "fd_to_name (sc_sessions s) fd \<noteq> Some u" for fd
    using chat_stateD(6) [OF assms] by simp
  then have "\<forall>q \<in> set (cs_people sp). fst (snd q) \<noteq> u"
    using chat_stateD(2) [OF assms] by (auto simp: chat_rel_def)
  with None show ?thesis by (auto simp: person_named_def find_None_iff)
next
  case (Some fd)
  then have fd: "fd_to_name (sc_sessions s) f = Some u \<longleftrightarrow> f = fd" for f
    using chat_stateD(6) [OF assms] by auto
  then obtain x where x: "sc_users s u = Some x"
    using logged_in_registered [OF chat_stateD(1) [OF assms]] by blast
  have "find (\<lambda>(_, v, _). v = u) (cs_people sp) = Some (fd, u, user_keys x)"
    using chat_relD(1) [OF chat_stateD(2) [OF assms]] fd x by (intro find_unique) (auto split: prod.splits)
  with Some x show ?thesis by (simp add: person_named_def)
qed


section \<open>Each operation refines its step\<close>

text \<open>What the server sent since, and the state it reached, are those of the machine.\<close>

definition implements :: "ServerContext \<Rightarrow> ServerContext \<Rightarrow> (int \<times> notice) list \<times> chat_spec \<Rightarrow> bool" where
  "implements s s' res \<longleftrightarrow>
     (\<exists>sent. sc_sent s' = sc_sent s @ sent \<and> mset sent = mset (frames (fst res))) \<and> chat_rel s' (snd res)"

lemma implements_reply:
  "chat_rel s' sp \<Longrightarrow> sc_sent s' = sc_sent s @ [(fd, d)] \<Longrightarrow> d = notice_bytes n \<Longrightarrow> implements s s' ([(fd, n)], sp)"
  by (simp add: implements_def frames_def)

lemma implements_reply_only [simp]:
  "chat_rel s sp \<Longrightarrow> implements s (s\<lparr>sc_sent := sc_sent s @ [(fd, notice_bytes n)]\<rparr>) ([(fd, n)], sp)"
  by (rule implements_reply) simp_all

lemma implements_nothing [simp]: "chat_rel s' sp \<Longrightarrow> sc_sent s' = sc_sent s \<Longrightarrow> implements s s' ([], sp)"
  by (simp add: implements_def frames_def)

lemma error_replies [simp]:
  assumes "chat_rel s sp"
  shows "implements s (s\<lparr>sc_sent := sc_sent s @ [(fd, YOU_ARE_LOGGED_IN)]\<rparr>) ([(fd, Already_In)], sp)"
    "implements s (s\<lparr>sc_sent := sc_sent s @ [(fd, PUBLIC_KEY_HAS_NOT_SET)]\<rparr>) ([(fd, Name_Taken)], sp)"
    "implements s (s\<lparr>sc_sent := sc_sent s @ [(fd, YOU_NEED_TO_LOGIN)]\<rparr>) ([(fd, Log_In_First)], sp)"
    "implements s (s\<lparr>sc_sent := sc_sent s @ [(fd, EMPTY_CHAT_NAME)]\<rparr>) ([(fd, Room_Name_Missing)], sp)"
    "implements s (s\<lparr>sc_sent := sc_sent s @ [(fd, CHAT_ALREADY_EXISTS)]\<rparr>) ([(fd, Room_Exists)], sp)"
    "implements s (s\<lparr>sc_sent := sc_sent s @ [(fd, CHAT_NOT_FOUND)]\<rparr>) ([(fd, No_Such_Room)], sp)"
    "implements s (s\<lparr>sc_sent := sc_sent s @ [(fd, YOU_ARE_ALREADY_MEMBER)]\<rparr>) ([(fd, Member_Already)], sp)"
    "implements s (s\<lparr>sc_sent := sc_sent s @ [(fd, YOU_ARE_NOT_MEMBER)]\<rparr>) ([(fd, Not_Member)], sp)"
    "implements s (s\<lparr>sc_sent := sc_sent s @ [(fd, WRONG_COMMAND_USAGE)]\<rparr>) ([(fd, Name_Missing)], sp)"
    "implements s (s\<lparr>sc_sent := sc_sent s @ [(fd, USER_NOT_FOUND)]\<rparr>) ([(fd, No_Such_User)], sp)"
  using implements_reply_only [OF assms] notice_bytes.simps by metis+

lemma chat_rel_login:
  assumes st: "chat_state s sp" and new: "fd_to_name (sc_sessions s) fd = None" "u \<notin> dom (sc_users s)"
    and k: "short_keys (user_keys x)"
  shows "chat_rel (s\<lparr>sc_users := (sc_users s)(u \<mapsto> x), sc_sessions := bind (sc_sessions s) fd u\<rparr>)
    (sp\<lparr>cs_people := (fd, u, user_keys x) # cs_people sp\<rparr>)"
proof -
  have "fd_to_name (sc_sessions s) f \<noteq> Some u" for f
    using chat_stateD(6, 7) [OF st, where u = u] new(2) by auto
  then show ?thesis
    using chat_relD [OF chat_stateD(2) [OF st]] new k
    by (auto simp: chat_rel_def lookup_simps simp del: split_paired_All split_paired_Ex)
qed

lemma login_implements:
  assumes st: "chat_state s sp" and k: "short_keys (dh, ik, sig)" "length u < 65536"
  shows "implements s (snd (login env u dh ik sig s)) (spec_step (sc_fd s) (Log_In u (dh, ik, sig)) sp)"
proof -
  have "chat_rel (s\<lparr>sc_users := (sc_users s)(u \<mapsto> new_user u dh ik sig), sc_sessions := bind (sc_sessions s) (sc_fd s) u\<rparr>)
      (sp\<lparr>cs_people := (sc_fd s, u, dh, ik, sig) # cs_people sp\<rparr>)"
    if "fd_to_name (sc_sessions s) (sc_fd s) = None" "u \<notin> dom (sc_users s)"
    using chat_rel_login [OF st that, of "new_user u dh ik sig"] k by (simp add: user_keys_def new_user_def)
  then show ?thesis
    using chat_stateD(2) [OF st] chat_stateD(7) [OF st, of u] k(2)
    by (auto simp: login_def person_at_rel [OF st] person_named_rel [OF st] register_user_cases send_text_ok get_username_def
        new_user_def text_frame_def Let_def intro!: implements_reply split: option.splits)
qed

lemma chat_rel_room:
  assumes "chat_rel s sp" "room_rel c rm"
  shows "chat_rel (s\<lparr>sc_chats := (sc_chats s)(r \<mapsto> c)\<rparr>) (sp\<lparr>cs_rooms := (cs_rooms sp)(r \<mapsto> rm)\<rparr>)"
  using assms unfolding chat_rel_def by (simp del: split_paired_All)

lemma create_implements:
  assumes st: "chat_state s sp" and "length r < 65536"
  shows "implements s (snd (create_room env r s)) (spec_step (sc_fd s) (Create_Room r) sp)"
  using chat_stateD(2) [OF st] chat_stateD(5) [OF st, of r] assms(2)
  by (auto simp: create_room_def person_at_rel [OF st] create_chat_cases send_text_ok get_username_def room_rel_def
      text_frame_def Let_def intro!: implements_reply chat_rel_room split: option.splits)

lemma join_implements:
  assumes st: "chat_state s sp" and "length r < 65536"
  shows "implements s (snd (join_room env r s)) (spec_step (sc_fd s) (Join_Room r) sp)"
  using chat_stateD(2) [OF st] chat_stateD(5) [OF st, of r] chats_okD [OF chat_stateD(4) [OF st], of r] assms(2)
  by (auto simp: join_room_def person_at_rel [OF st] add_member_cases send_text_ok get_username_def room_rel_def
      text_frame_def Let_def intro!: implements_reply chat_rel_room split: option.splits)

text \<open>
  How \<open>std::unordered_set\<close> is traversed is not specified, but each traversal meets every element once.
\<close>

definition traversal :: "server_env \<Rightarrow> bool" where
  "traversal env \<longleftrightarrow> (\<forall>S. finite S \<longrightarrow> distinct (se_iter env S) \<and> set (se_iter env S) = S)"

lemma traversal_mset: "traversal env \<Longrightarrow> distinct us \<Longrightarrow> mset (se_iter env (set us)) = mset us"
  unfolding traversal_def by (simp add: set_eq_iff_mset_eq_distinct [symmetric])

lemma copies_rel:
  assumes "chat_state s sp"
  shows "frames (copies sp p us) =
    map (\<lambda>u. (the (name_to_fd (sc_sessions s) u), serialize (built 0 p [] Text)))
      (filter (\<lambda>u. name_to_fd (sc_sessions s) u \<noteq> None) us)"
  by (induction us) (auto simp: copies_def frames_def person_named_rel [OF assms] List.map_filter_simps)

lemma post_implements:
  assumes st: "chat_state s sp" and it: "traversal env" and p: "fits [] p"
  shows "implements s (snd (send_on_server env (to_bytes r) p s)) (spec_step (sc_fd s) (Post r p) sp)"
proof -
  have m: "mset (map f (filter Q (se_iter env (chat_members c)))) = mset (map f (filter Q (rm_members rm)))"
    if "room_rel c rm" for c rm and f :: "string \<Rightarrow> int \<times> bytes" and Q
    using traversal_mset [OF it, of "rm_members rm"] that by (simp add: room_rel_def)
  have r: "implements s (s\<lparr>sc_chats := (sc_chats s)(r \<mapsto> c\<lparr>chat_messages := chat_messages c @ [built (se_now env) p [] Text]\<rparr>),
        sc_sent := sc_sent s @ map (\<lambda>u. (the (name_to_fd (sc_sessions s) u), serialize (built (se_now env) p [] Text)))
          (filter (\<lambda>u. name_to_fd (sc_sessions s) u \<noteq> None) (se_iter env (chat_members c)))\<rparr>)
      (copies sp p (rm_members rm), sp\<lparr>cs_rooms := (cs_rooms sp)(r \<mapsto> rm\<lparr>rm_history := rm_history rm @ [p]\<rparr>)\<rparr>)"
    if "room_rel c rm" for c rm
  proof -
    have "room_rel (c\<lparr>chat_messages := chat_messages c @ [built (se_now env) p [] Text]\<rparr>) (rm\<lparr>rm_history := rm_history rm @ [p]\<rparr>)"
      using that by (simp add: room_rel_def)
    from chat_rel_room [OF chat_stateD(2) [OF st] this, of r] show ?thesis
      using m [OF that] serialize_built_now [of "se_now env" p "[]" Text]
      by (simp add: implements_def copies_rel [OF st] del: mset_map mset_filter)
  qed
  show ?thesis
    using chat_stateD(2) [OF st] chat_stateD(5) [OF st, of r] p r
    by (auto simp: action_simps send_group_message_def person_at_rel [OF st] post_message_cases get_username_def send_to_members_eq
        room_rel_def Let_def split: option.splits)
qed

lemma user_keys_eq: "user_keys x = (dh, ik, sig) \<longleftrightarrow>
    user_publicDHKey x = dh \<and> user_publicIdentityKey x = ik \<and> user_signature x = sig"
  by (simp add: user_keys_def)

lemma registered_keys:
  assumes st: "chat_state s sp" and "sc_users s u = Some x"
  shows "short_keys (user_keys x)" "name_to_fd (sc_sessions s) u \<noteq> None"
proof -
  show n: "name_to_fd (sc_sessions s) u \<noteq> None" using chat_stateD(7) [OF st] assms(2) by blast
  then obtain fd where "fd_to_name (sc_sessions s) fd = Some u" using chat_stateD(6) [OF st] by blast
  then have "(fd, u, user_keys x) \<in> set (cs_people sp)" using chat_relD(1) [OF chat_stateD(2) [OF st]] assms(2) by simp
  from chat_relD(2) [OF chat_stateD(2) [OF st] this] show "short_keys (user_keys x)" by simp
qed

lemma pubkey_implements:
  assumes st: "chat_state s sp" and u: "length u < 65536"
  shows "implements s (snd (send_pubkey env u s)) (spec_step (sc_fd s) (Ask_Keys (to_string u)) sp)"
proof (cases "sc_users s (to_string u)")
  case None
  then have "name_to_fd (sc_sessions s) (to_string u) = None" using chat_stateD(7) [OF st, of "to_string u"] by auto
  with None show ?thesis
    using chat_stateD(2) [OF st] by (simp add: send_pubkey_def find_user_def person_named_rel [OF st] Let_def)
next
  case (Some x)
  have f: "fits [[5], u, user_publicIdentityKey x, user_signature x] (user_publicDHKey x)"
    using registered_keys(1) [OF st Some] u by (simp add: short_keys_def user_keys_def fits_def)
  obtain fd where "name_to_fd (sc_sessions s) (to_string u) = Some fd" using registered_keys(2) [OF st Some] by blast
  with Some f show ?thesis
    using chat_stateD(2) [OF st]
      serialize_built_now [of "se_now env" "user_publicDHKey x" "[[5], u, user_publicIdentityKey x, user_signature x]" Response]
    by (auto simp: send_pubkey_def find_user_def person_named_rel [OF st] user_keys_def action_simps Let_def intro!: implements_reply)
qed

lemma cipher_implements:
  assumes st: "chat_state s sp" and len: "length (get_meta msg 0) < 65536" "length (get_meta msg 1) < 65536"
    "length (get_payload msg) < 2147483648"
  shows "implements s (snd (deliver_cipher_message env (sc_fd s) msg s))
    (spec_step (sc_fd s) (Whisper (to_string (get_meta msg 0)) (get_meta msg 1) (get_payload msg)) sp)"
proof (cases "fd_to_name (sc_sessions s) (sc_fd s)")
  case None
  then show ?thesis
    using chat_stateD(2) [OF st] by (simp add: deliver_cipher_message_def get_username_def person_at_rel [OF st])
next
  case (Some u)
  then obtain x where x: "sc_users s u = Some x"
    using logged_in_registered [OF chat_stateD(1) [OF st]] by blast
  let ?ms = "[get_meta msg 0, get_meta msg 1, user_publicDHKey x, user_publicIdentityKey x, user_signature x]"
  have "fits ?ms (get_payload msg)"
    using registered_keys(1) [OF st x] len by (simp add: short_keys_def user_keys_def fits_def)
  with Some x show ?thesis
    using chat_stateD(2) [OF st] serialize_built_now [of "se_now env" "get_payload msg" ?ms CipherMessage]
    by (auto simp: deliver_cipher_message_def get_username_def get_fd_def find_user_def person_at_rel [OF st]
        person_named_rel [OF st] user_keys_def action_simps intro!: implements_reply split: option.splits)
qed

lemma relay_implements:
  assumes st: "chat_state s sp"
  shows "implements s (snd (relay_file_message msg s)) (spec_step (sc_fd s) (Relay (to_string (get_meta msg 0)) (serialize msg)) sp)"
  using chat_stateD(2) [OF st]
  by (auto simp: relay_file_message_def recipient_from_def get_fd_def person_named_rel [OF st] intro!: implements_reply
      split: option.splits)

lemma offer_implements:
  assumes st: "chat_state s sp" and "length f < 65536" "length r < 65536"
  shows "implements s (snd (sendfile_on_server env f r s)) (spec_step (sc_fd s) (Offer_File f (to_string r)) sp)"
  using chat_stateD(2) [OF st] assms(2, 3) by (auto simp: send_text_ok text_frame_def intro!: implements_reply)

lemma leave_implements:
  assumes st: "chat_state s sp"
  shows "implements s (snd (exit_current_session s)) (spec_step (sc_fd s) Leave sp)"
proof (cases "fd_to_name (sc_sessions s) (sc_fd s)")
  case None
  then show ?thesis using chat_stateD(2) [OF st] by (simp add: exit_current_session_def get_username_def person_at_rel [OF st])
next
  case (Some u)
  note si = chat_stateD(3) [OF st] and rel = chat_relD [OF chat_stateD(2) [OF st]]
  have n: "fd_to_name (sc_sessions s) fd = Some u \<longleftrightarrow> fd = sc_fd s" for fd
    using chat_stateD(6) [OF st] Some by (metis option.inject)
  have "room_rel (c\<lparr>chat_members := chat_members c - {u}\<rparr>) (forget u rm)" if "room_rel c rm" for c rm
    using that by (auto simp: room_rel_def forget_def)
  then have rooms: "rel_option room_rel (map_option (\<lambda>c. c\<lparr>chat_members := chat_members c - {u}\<rparr>) (sc_chats s r))
      (map_option (forget u) (cs_rooms sp r))" for r
    using rel(3) [of r] by (auto simp: option.rel_map intro: option.rel_mono_strong)
  have people: "(fd, v, k) \<in> set (filter (\<lambda>(f, _, _). f \<noteq> sc_fd s) (cs_people sp)) \<longleftrightarrow>
      ((fd_to_name (sc_sessions s))(sc_fd s := None)) fd = Some v \<and> map_option user_keys (remove_user (sc_users s) u v) = Some k" for fd v k
    using rel(1) [of fd v k] n [of fd] by (auto simp: remove_user_def)
  show ?thesis
    using Some rooms people rel(2) by (auto simp: exit_current_session_def get_username_def person_at_rel [OF st] chat_rel_def
        lookup_simps simp del: split_paired_All split_paired_Ex intro!: implements_nothing)
qed


section \<open>Messages\<close>

lemma deserialize_sizes:
  assumes "deserialize raw = Inr m"
  shows "x \<in> set (msg_metadata m) \<Longrightarrow> length x < 65536" "length (msg_payload m) < length raw" "length (msg_payload m) < 4294967296"
proof -
  have "\<exists>n off off'. deserialize_metadata raw n off = Inr (msg_metadata m, off') \<and> off \<le> length raw \<and>
      deserialize_payload raw off' = Inr (msg_payload m)"
    using deserialize_InrD [OF assms]
    by (auto simp: deserialize_compact_def deserialize_extended_def Let_def not_le split: if_splits) fastforce+
  then obtain n off off' where d: "deserialize_metadata raw n off = Inr (msg_metadata m, off')" "off \<le> length raw"
    "deserialize_payload raw off' = Inr (msg_payload m)" by blast
  show "x \<in> set (msg_metadata m) \<Longrightarrow> length x < 65536" using deserialize_metadata_Inr [OF d(1, 2)] by blast
  show "length (msg_payload m) < length raw" "length (msg_payload m) < 4294967296" using deserialize_payload_Inr [OF d(3)] by simp_all
qed

text \<open>
  A decoded message whose fields are within the limits of the wire; a payload below 2 GiB leaves room for the keys the
  server adds to a cipher message.
\<close>

definition message_ok :: "Message \<Rightarrow> bool" where
  "message_ok msg \<longleftrightarrow> (\<forall>x \<in> set (msg_metadata msg). length x < 65536) \<and> length (msg_payload msg) < 2147483648"

lemma message_okD: "message_ok msg \<Longrightarrow> length (get_meta msg i) < 65536" "message_ok msg \<Longrightarrow> length (get_payload msg) < 2147483648"
  by (simp_all add: message_ok_def get_meta_def get_payload_def)

lemma message_ok_deserialize: "deserialize raw = Inr m \<Longrightarrow> length raw \<le> 2147483648 \<Longrightarrow> message_ok m"
  using deserialize_sizes [of raw m] by (fastforce simp: message_ok_def)

lemma serve_implements:
  assumes st: "chat_state s sp" and ok: "message_ok msg" "traversal env"
  shows "implements s (snd (serve env msg s)) (spec_step (sc_fd s) (request_of msg) sp)"
proof -
  note len = message_okD(1) [OF ok(1)] message_okD(2) [OF ok(1)]
  have "fits [] (get_payload msg)" using len(2) by (simp add: fits_def)
  note ops = login_implements [OF st] create_implements [OF st] join_implements [OF st] pubkey_implements [OF st len(1)]
    offer_implements [OF st] leave_implements [OF st] cipher_implements [OF st len(1) len(1) len(2)] relay_implements [OF st]
    post_implements [OF st ok(2) this, where r = "to_string (get_meta msg 1)", unfolded to_bytes_to_string]
  show ?thesis
    using ops len chat_stateD(2) [OF st]
    by (cases "CommandType_of_byte (hd (get_meta msg 0))")
      (simp_all add: serve_def request_of_def make_struct_from_command_def server_registry_lookup create_def command_names_map_def
        short_keys_def ret_def Let_def del: spec_step.simps(1-9) sendfile_on_server_def)
qed


section \<open>Sequences of events\<close>

text \<open>
  A machine that keeps a log and an abstract machine that answers each event with a list of outputs. If every step adds
  to the log what the abstract step puts out, up to \<open>same\<close>, then so does every sequence of steps.
\<close>

fun run_spec :: "('e \<Rightarrow> 'a \<Rightarrow> 'n \<times> 'a) \<Rightarrow> 'e list \<Rightarrow> 'a \<Rightarrow> 'n list \<times> 'a" where
  "run_spec step [] a = ([], a)"
| "run_spec step (e # es) a =
     (let (n, a1) = step e a; (ns, a2) = run_spec step es a1 in (n # ns, a2))"

lemma run_spec_append:
  "run_spec step (es @ fs) a =
     (fst (run_spec step es a) @ fst (run_spec step fs (snd (run_spec step es a))), snd (run_spec step fs (snd (run_spec step es a))))"
  by (induction es arbitrary: a) (simp_all add: split_def Let_def)

lemma length_run_spec [simp]: "length (fst (run_spec step es a)) = length es"
  by (induction es arbitrary: a) (simp_all add: split_def Let_def)

locale forward_simulation =
  fixes react :: "'e \<Rightarrow> 'c \<Rightarrow> 'c"
    and log :: "'c \<Rightarrow> 'o list"
    and step :: "'e \<Rightarrow> 'a \<Rightarrow> 'n \<times> 'a"
    and rel :: "'c \<Rightarrow> 'a \<Rightarrow> bool"
    and same :: "'o list \<Rightarrow> 'n \<Rightarrow> bool"
    and admissible :: "'e \<Rightarrow> bool"
  assumes simulates: "admissible e \<Longrightarrow> rel c a \<Longrightarrow>
    rel (react e c) (snd (step e a)) \<and> (\<exists>sent. log (react e c) = log c @ sent \<and> same sent (fst (step e a)))"
begin

lemma run_simulates:
  assumes "list_all admissible es" "rel c a"
  shows "rel (fold react es c) (snd (run_spec step es a)) \<and>
    (\<exists>batches. log (fold react es c) = log c @ concat batches \<and> list_all2 same batches (fst (run_spec step es a)))"
  using assms
proof (induction es arbitrary: c a)
  case (Cons e es)
  obtain sent where e: "rel (react e c) (snd (step e a))" "log (react e c) = log c @ sent" "same sent (fst (step e a))"
    using simulates [of e c a] Cons.prems by auto
  obtain batches where es: "rel (fold react es (react e c)) (snd (run_spec step es (snd (step e a))))"
    "log (fold react es (react e c)) = log (react e c) @ concat batches"
    "list_all2 same batches (fst (run_spec step es (snd (step e a))))"
    using Cons.IH [OF _ e(1)] Cons.prems by auto
  have "log (fold react (e # es) c) = log c @ concat (sent # batches)" using e(2) es(2) by simp
  moreover have "list_all2 same (sent # batches) (fst (run_spec step (e # es) a))"
    using e(3) es(3) by (simp add: split_def Let_def)
  moreover have "rel (fold react (e # es) c) (snd (run_spec step (e # es) a))"
    using es(1) by (simp add: split_def Let_def)
  ultimately show ?case by blast
qed simp

end

text \<open>The events of the transport, what the server does on each, and the request each is.\<close>

datatype transport_event =
    Frame server_env int bytes
  | Lost server_env int

fun react :: "transport_event \<Rightarrow> MessagingServer \<Rightarrow> MessagingServer" where
  "react (Frame env fd raw) ms = snd (on_tcp_data_received env fd raw ms)"
| "react (Lost env fd) ms = snd (on_tcp_disconnected env fd ms)"

fun event_request :: "transport_event \<Rightarrow> int \<times> chat_request" where
  "event_request (Frame env fd raw) = (fd, case deserialize raw of Inl _ \<Rightarrow> Ignored | Inr msg \<Rightarrow> request_of msg)"
| "event_request (Lost env fd) = (fd, Leave)"

definition event_step :: "transport_event \<Rightarrow> chat_spec \<Rightarrow> (int \<times> notice) list \<times> chat_spec" where
  "event_step e = spec_step (fst (event_request e)) (snd (event_request e))"

fun event_ok :: "transport_event \<Rightarrow> bool" where
  "event_ok (Frame env fd raw) \<longleftrightarrow> traversal env \<and> length raw \<le> 2147483648"
| "event_ok (Lost env fd) \<longleftrightarrow> True"

definition same_frames :: "(int \<times> bytes) list \<Rightarrow> (int \<times> notice) list \<Rightarrow> bool" where
  "same_frames sent out \<longleftrightarrow> mset sent = mset (frames out)"

definition server_rel :: "MessagingServer \<Rightarrow> chat_spec \<Rightarrow> bool" where
  "server_rel ms sp \<longleftrightarrow> ms_inv ms \<and> chat_rel (ms_context ms) sp"

lemma server_rel_state: "server_rel ms sp \<Longrightarrow> chat_state ((ms_context ms)\<lparr>sc_fd := fd\<rparr>) sp"
  by (simp add: server_rel_def chat_state_def ms_inv_def)

lemma server_rel_ctor: "server_rel MessagingServer_ctor empty_chat"
  by (simp add: server_rel_def ms_inv_ctor ctor_context chat_rel_ctor)

text \<open>One event: the machine's step, for frames that decode, frames that do not, and lost connections.\<close>

lemma react_implements:
  assumes rel: "server_rel ms sp" and ok: "event_ok e"
  shows "ms_inv (react e ms) \<and> implements (ms_context ms) (ms_context (react e ms)) (event_step e sp)"
proof (cases e)
  case (Frame env fd raw)
  show ?thesis
  proof (cases "deserialize raw")
    case (Inl err)
    with Frame rel show ?thesis by (simp add: on_tcp_data_received_def event_step_def server_rel_def)
  next
    case (Inr msg)
    have i: "ms_inv ms" using rel by (simp add: server_rel_def)
    obtain ms' where ms': "on_tcp_data_received env fd raw ms = (Inr (), ms')" "ms_inv ms'"
      "ms_context ms' = snd (serve env msg ((ms_context ms)\<lparr>sc_fd := fd\<rparr>))"
      by (rule on_tcp_message [OF i Inr])
    have "message_ok msg" "traversal env" using ok Frame message_ok_deserialize [OF Inr] by simp_all
    from serve_implements [OF server_rel_state [OF rel, of fd] this] show ?thesis
      using Frame Inr ms' by (simp add: event_step_def implements_def)
  qed
next
  case (Lost env fd)
  have i: "ms_inv ms" using rel by (simp add: server_rel_def)
  obtain ms' where ms': "on_tcp_disconnected env fd ms = (Inr (), ms')" "ms_inv ms'"
    "ms_context ms' = snd (serve env (built (se_now env) [] [[0xFE]] Command) ((ms_context ms)\<lparr>sc_fd := fd\<rparr>))"
    by (rule on_tcp_lost [OF i])
  have "snd (serve env (built (se_now env) [] [[0xFE]] Command) s) = snd (exit_current_session s)" for s
    using serve_command [OF server_command_objects(11, 12), of env "se_now env" "[]" "[]" s] by simp
  with leave_implements [OF server_rel_state [OF rel, of fd]] show ?thesis
    using Lost ms' by (simp add: event_step_def implements_def)
qed

interpretation chat: forward_simulation react "\<lambda>ms. sc_sent (ms_context ms)" event_step server_rel same_frames event_ok
  by unfold_locales (use react_implements in \<open>fastforce simp: implements_def server_rel_def same_frames_def\<close>)

section \<open>What the machine promises\<close>

text \<open>Connections and names of the people present are unique, and the members of every room are present.\<close>

definition spec_inv :: "chat_spec \<Rightarrow> bool" where
  "spec_inv sp \<longleftrightarrow> distinct (map fst (cs_people sp)) \<and> distinct (map (fst \<circ> snd) (cs_people sp)) \<and>
     (\<forall>r rm u. cs_rooms sp r = Some rm \<longrightarrow> u \<in> set (rm_members rm) \<longrightarrow> u \<in> (fst \<circ> snd) ` set (cs_people sp))"

lemma person_at_Some: "person_at sp fd = Some (f, u, k) \<Longrightarrow> f = fd \<and> (fd, u, k) \<in> set (cs_people sp)"
  unfolding person_at_def by (drule find_SomeD) auto

lemma person_at_None: "person_at sp fd = None \<longleftrightarrow> fd \<notin> fst ` set (cs_people sp)"
  by (auto simp: person_at_def find_None_iff image_iff)

lemma person_named_Some: "person_named sp u = Some (f, v, k) \<Longrightarrow> v = u \<and> (f, u, k) \<in> set (cs_people sp)"
  unfolding person_named_def by (drule find_SomeD) auto

lemma person_named_None: "person_named sp u = None \<longleftrightarrow> u \<notin> (fst \<circ> snd) ` set (cs_people sp)"
  by (force simp: person_named_def find_None_iff image_iff)

lemma spec_inv_unique:
  assumes "spec_inv sp" "(f, u, k) \<in> set (cs_people sp)" "(g, v, l) \<in> set (cs_people sp)"
  shows "f = g \<longleftrightarrow> u = v"
proof -
  have "inj_on fst (set (cs_people sp))" "inj_on (fst \<circ> snd) (set (cs_people sp))"
    using assms(1) by (simp_all add: spec_inv_def distinct_map)
  from this [THEN inj_onD, OF _ assms(2, 3)] show ?thesis by auto
qed

lemma spec_inv_empty: "spec_inv empty_chat"
  by (simp add: spec_inv_def empty_chat_def)

lemma spec_inv_room:
  assumes "spec_inv sp" "set (rm_members rm) \<subseteq> (fst \<circ> snd) ` set (cs_people sp)"
  shows "spec_inv (sp\<lparr>cs_rooms := (cs_rooms sp)(r \<mapsto> rm)\<rparr>)"
  using assms by (auto simp: spec_inv_def)

lemma spec_inv_step:
  assumes i: "spec_inv sp"
  shows "spec_inv (snd (spec_step fd req sp))"
proof (cases req)
  case (Log_In u k)
  with i show ?thesis by (auto simp: spec_inv_def person_at_None person_named_None)
next
  case (Create_Room r)
  with i show ?thesis
    by (auto simp: image_iff intro!: spec_inv_room dest!: person_at_Some split: option.splits) force
next
  case (Join_Room r)
  with i show ?thesis
    by (auto simp: spec_inv_def image_iff dest!: person_at_Some split: option.splits) force+
next
  case (Post r p)
  with i show ?thesis
    by (auto intro!: spec_inv_room dest!: person_at_Some split: option.splits) (auto simp: spec_inv_def)
next
  case Leave
  show ?thesis
  proof (cases "person_at sp fd")
    case (Some q)
    obtain u k where q: "q = (fd, u, k)" "(fd, u, k) \<in> set (cs_people sp)"
      using person_at_Some Some by (cases q) blast
    have "v \<in> (fst \<circ> snd) ` {q \<in> set (cs_people sp). fst q \<noteq> fd}"
      if "v \<noteq> u" "v \<in> (fst \<circ> snd) ` set (cs_people sp)" for v
      using that spec_inv_unique [OF i q(2)] by force
    then show ?thesis
      using Leave Some q(1) i by (auto simp: spec_inv_def forget_def distinct_map_filter split_def)
  qed (use Leave i in simp)
qed (use i in \<open>auto split: option.splits\<close>)



subsection \<open>The journal\<close>

text \<open>
  The requests so far with their notices, the latest first; \<open>since P Q\<close> says that some entry satisfies \<open>P\<close> and no
  later one satisfies \<open>Q\<close>.
\<close>

type_synonym entry = "(int \<times> chat_request) \<times> (int \<times> notice) list"

fun since :: "('z \<Rightarrow> bool) \<Rightarrow> ('z \<Rightarrow> bool) \<Rightarrow> 'z list \<Rightarrow> bool" where
  "since P Q [] = False"
| "since P Q (z # zs) = (P z \<or> (\<not> Q z \<and> since P Q zs))"

lemma since_split: "since P Q zs \<longleftrightarrow> (\<exists>later z earlier. zs = later @ z # earlier \<and> P z \<and> (\<forall>y \<in> set later. \<not> Q y))"
proof
  show "\<exists>later z earlier. zs = later @ z # earlier \<and> P z \<and> (\<forall>y \<in> set later. \<not> Q y)" if "since P Q zs"
    using that
  proof (induction zs)
    case (Cons z zs)
    then show ?case by (metis append_Cons append_Nil empty_iff list.set(1) set_ConsD since.simps(2))
  qed simp
  have "(\<forall>y \<in> set later. \<not> Q y) \<Longrightarrow> P z \<Longrightarrow> since P Q (later @ z # earlier)" for later z earlier
    by (induction later) simp_all
  then show "\<exists>later z earlier. zs = later @ z # earlier \<and> P z \<and> (\<forall>y \<in> set later. \<not> Q y) \<Longrightarrow> since P Q zs" by blast
qed

definition journal :: "transport_event list \<Rightarrow> entry list" where
  "journal evs = rev (zip (map event_request evs) (fst (run_spec event_step evs empty_chat)))"

definition came :: "int \<Rightarrow> string \<Rightarrow> keys \<Rightarrow> entry \<Rightarrow> bool" where
  "came fd u k z \<longleftrightarrow> z = ((fd, Log_In u k), [(fd, Welcome u)])"

definition went :: "int \<Rightarrow> entry \<Rightarrow> bool" where
  "went fd z \<longleftrightarrow> fst z = (fd, Leave)"

definition entered :: "int \<Rightarrow> string \<Rightarrow> entry \<Rightarrow> bool" where
  "entered fd r z \<longleftrightarrow> z = ((fd, Create_Room r), [(fd, Room_Made r)]) \<or> z = ((fd, Join_Room r), [(fd, Room_Joined r)])"

lemma journal_snoc:
  "journal (evs @ [e]) = (event_request e, fst (event_step e (snd (run_spec event_step evs empty_chat)))) # journal evs"
  by (simp add: journal_def run_spec_append split_def Let_def)

text \<open>Who is present has logged in since it last left; who is in a room has created or joined it since.\<close>

definition journal_inv :: "entry list \<Rightarrow> chat_spec \<Rightarrow> bool" where
  "journal_inv jr sp \<longleftrightarrow> spec_inv sp \<and>
     (\<forall>fd u k. (fd, u, k) \<in> set (cs_people sp) \<longrightarrow> since (came fd u k) (went fd) jr) \<and>
     (\<forall>r rm fd u k. cs_rooms sp r = Some rm \<longrightarrow> u \<in> set (rm_members rm) \<longrightarrow> (fd, u, k) \<in> set (cs_people sp) \<longrightarrow>
        since (entered fd r) (went fd) jr)"

lemma journal_invD:
  assumes "journal_inv jr sp"
  shows "spec_inv sp" "(fd, u, k) \<in> set (cs_people sp) \<Longrightarrow> since (came fd u k) (went fd) jr"
    "cs_rooms sp r = Some rm \<Longrightarrow> u \<in> set (rm_members rm) \<Longrightarrow> (fd, u, k) \<in> set (cs_people sp) \<Longrightarrow> since (entered fd r) (went fd) jr"
  using assms unfolding journal_inv_def by blast+

lemma journal_invI:
  assumes "spec_inv sp" "\<And>fd u k. (fd, u, k) \<in> set (cs_people sp) \<Longrightarrow> since (came fd u k) (went fd) jr"
    and "\<And>r rm fd u k. cs_rooms sp r = Some rm \<Longrightarrow> u \<in> set (rm_members rm) \<Longrightarrow> (fd, u, k) \<in> set (cs_people sp) \<Longrightarrow>
      since (entered fd r) (went fd) jr"
  shows "journal_inv jr sp"
  using assms unfolding journal_inv_def by blast

lemma journal_inv_same:
  assumes "journal_inv jr sp" "snd (fst z) \<noteq> Leave"
  shows "journal_inv (z # jr) sp"
  using journal_invD [OF assms(1)] assms(2) by (intro journal_invI) (auto simp: went_def)

lemma journal_inv_room:
  assumes j: "journal_inv jr sp" and z: "snd (fst z) \<noteq> Leave" and i: "spec_inv (sp\<lparr>cs_rooms := (cs_rooms sp)(r \<mapsto> rm)\<rparr>)"
    and m: "\<And>fd u k. u \<in> set (rm_members rm) \<Longrightarrow> (fd, u, k) \<in> set (cs_people sp) \<Longrightarrow> since (entered fd r) (went fd) (z # jr)"
  shows "journal_inv (z # jr) (sp\<lparr>cs_rooms := (cs_rooms sp)(r \<mapsto> rm)\<rparr>)"
  using journal_invD [OF journal_inv_same [OF j z]] i m
  by (intro journal_invI) (auto simp del: since.simps split: if_splits)

lemma journal_step:
  assumes j: "journal_inv jr sp"
  shows "journal_inv (((fd, req), fst (spec_step fd req sp)) # jr) (snd (spec_step fd req sp))"
proof -
  let ?z = "((fd, req), fst (spec_step fd req sp))"
  note i = spec_inv_step [OF journal_invD(1) [OF j], of fd req] and same = journal_inv_same [OF j, of ?z]
  show ?thesis
  proof (cases req)
    case (Log_In u k)
    have "u \<notin> set (rm_members rm)" if "person_named sp u = None" "cs_rooms sp r = Some rm" for r rm
      using that journal_invD(1) [OF j] by (auto simp: person_named_None spec_inv_def)
    then have "journal_inv (?z # jr) (sp\<lparr>cs_people := (fd, u, k) # cs_people sp\<rparr>)"
      if "person_at sp fd = None" "person_named sp u = None"
      using Log_In i that journal_invD [OF j]
      by (intro journal_invI) (auto simp: came_def went_def)
    with Log_In same show ?thesis by (cases "person_at sp fd"; cases "person_named sp u") simp_all
  next
    case (Create_Room r)
    have "f = fd" if "person_at sp fd = Some (g, u, k)" "(f, u, l) \<in> set (cs_people sp)" for f g u k l
      using person_at_Some [OF that(1)] spec_inv_unique [OF journal_invD(1) [OF j] _ that(2)] by blast
    with Create_Room i same show ?thesis
      by (auto simp: entered_def went_def intro!: journal_inv_room [OF j] split: option.splits simp del: split_paired_All)
  next
    case (Join_Room r)
    have "f = fd" if "person_at sp fd = Some (g, u, k)" "(f, u, l) \<in> set (cs_people sp)" for f g u k l
      using person_at_Some [OF that(1)] spec_inv_unique [OF journal_invD(1) [OF j] _ that(2)] by blast
    with Join_Room i same journal_invD(3) [OF j, of r] show ?thesis
      by (auto simp: entered_def went_def intro!: journal_inv_room [OF j] split: option.splits
          simp del: split_paired_All)
  next
    case (Post r p)
    with i same journal_invD(3) [OF j, of r] show ?thesis
      by (auto simp: went_def intro!: journal_inv_room [OF j] split: option.splits
          simp del: split_paired_All)
  next
    case Leave
    note jD = journal_invD [OF j]
    show ?thesis
    proof (cases "person_at sp fd")
      case None
      then have "f \<noteq> fd" if "(f, u, k) \<in> set (cs_people sp)" for f u k
        using that by (auto simp: person_at_None image_iff simp del: split_paired_All)
      with None jD Leave show ?thesis by (intro journal_invI) (simp_all add: went_def, blast+)
    next
      case (Some q)
      with jD Leave i show ?thesis
        by (cases q, intro journal_invI) (auto simp: went_def forget_def)
    qed
  qed (use same in \<open>auto split: option.splits\<close>)
qed

lemma journal_inv_run: "journal_inv (journal evs) (snd (run_spec event_step evs empty_chat))"
proof (induction evs rule: rev_induct)
  case Nil
  show ?case by (rule journal_invI) (simp_all add: spec_inv_empty, simp_all add: empty_chat_def)
next
  case (snoc e evs)
  from journal_step [OF this, of "fst (event_request e)" "snd (event_request e)"] show ?case
    unfolding event_step_def [symmetric] by (simp add: journal_snoc run_spec_append split_def Let_def)
qed

lemma copies_sent:
  assumes "(fd, n) \<in> set (copies sp p us)"
  shows "n = Room_Text p" "\<exists>u k. u \<in> set us \<and> (fd, u, k) \<in> set (cs_people sp)"
proof -
  from assms obtain u q where u: "u \<in> set us" "person_named sp u = Some q" "fd = fst q" "n = Room_Text p"
    by (auto simp: copies_def List.map_filter_def simp del: split_paired_Ex)
  then show "n = Room_Text p" by simp
  show "\<exists>u k. u \<in> set us \<and> (fd, u, k) \<in> set (cs_people sp)"
    using u(1-3) person_named_Some [of sp u fd "fst (snd q)" "snd (snd q)"] prod.collapse by metis
qed

lemma room_text_sent:
  assumes "journal_inv jr sp" "(fd', Room_Text p) \<in> set (fst (spec_step fd req sp))"
  shows "\<exists>r. req = Post r p \<and> since (entered fd r) (went fd) jr \<and> since (entered fd' r) (went fd') jr"
proof -
  obtain r q where req: "req = Post r q"
    using assms(2) by (cases req) (auto split: option.splits if_splits)
  with assms(2) obtain g u k rm where p: "person_at sp fd = Some (g, u, k)" "cs_rooms sp r = Some rm" "u \<in> set (rm_members rm)"
    "(fd', Room_Text p) \<in> set (copies sp q (rm_members rm))" by (auto split: option.splits if_splits)
  have "(fd, u, k) \<in> set (cs_people sp)" using person_at_Some [OF p(1)] by blast
  moreover obtain u' k' where "u' \<in> set (rm_members rm)" "(fd', u', k') \<in> set (cs_people sp)"
    using copies_sent(2) [OF p(4)] by blast
  moreover have "q = p" using copies_sent(1) [OF p(4)] by simp
  ultimately show ?thesis using req journal_invD(3) [OF assms(1) p(2)] p(3) by blast
qed

lemma whisper_sent:
  assumes "journal_inv jr sp" "(fd', Whispered r claimed p k) \<in> set (fst (spec_step fd req sp))"
  shows "req = Whisper r claimed p \<and> (\<exists>u. since (came fd u k) (went fd) jr) \<and> (\<exists>l. since (came fd' r l) (went fd') jr)"
proof -
  have "req = Whisper r claimed p"
    using assms(2) by (cases req) (auto split: option.splits if_splits dest: copies_sent(1))
  moreover from this assms(2) obtain f u g v l where "person_at sp fd = Some (f, u, k)" "person_named sp r = Some (fd', v, l)"
    by (auto split: option.splits)
  ultimately show ?thesis using person_at_Some person_named_Some journal_invD(2) [OF assms(1)] by blast
qed

lemma keys_sent:
  assumes "journal_inv jr sp" "(fd', Keys_Of v k) \<in> set (fst (spec_step fd req sp))"
  shows "req = Ask_Keys v \<and> fd' = fd \<and> (\<exists>g. since (came g v k) (went g) jr)"
proof -
  have "req = Ask_Keys v"
    using assms(2) by (cases req) (auto split: option.splits if_splits dest: copies_sent(1))
  moreover from this assms(2) obtain g w where "person_named sp v = Some (g, w, k)" "fd' = fd"
    by (auto split: option.splits if_splits)
  ultimately show ?thesis using person_named_Some journal_invD(2) [OF assms(1)] by blast
qed

lemma react_sends:
  assumes "list_all event_ok (evs @ [e])"
  shows "\<exists>sent. sc_sent (ms_context (react e (fold react evs MessagingServer_ctor))) =
      sc_sent (ms_context (fold react evs MessagingServer_ctor)) @ sent \<and>
    same_frames sent (fst (event_step e (snd (run_spec event_step evs empty_chat))))"
  using assms chat.simulates [of e] chat.run_simulates [OF _ server_rel_ctor, of evs] by simp

text \<open>
  A session: two users log in, the first makes a room, an outsider is refused, the second joins, a text reaches both, junk
  is dropped, the first is lost and the next text reaches the second alone.
\<close>

definition sorted_env :: server_env where
  "sorted_env = \<lparr>se_now = 0, se_iter = sorted_list_of_set\<rparr>"

lemma traversal_sorted: "traversal sorted_env"
  by (simp add: traversal_def sorted_env_def)

definition sample_session :: "transport_event list" where
  "sample_session =
     [Frame sorted_env 5 (request LOGIN [to_bytes ''a'', [1], [2], [3]] []),
      Frame sorted_env 6 (request LOGIN [to_bytes ''b'', [4], [5], [6]] []),
      Frame sorted_env 5 (request MAKE_ROOM [to_bytes ''dev''] []),
      Frame sorted_env 7 (request SEND [to_bytes ''dev''] [104]),
      Frame sorted_env 6 (request JOIN [to_bytes ''dev''] []),
      Frame sorted_env 5 (request SEND [to_bytes ''dev''] [104, 105]),
      Frame sorted_env 6 [1, 2, 3],
      Frame sorted_env 6 (request GET_PUBKEY [to_bytes ''a''] []),
      Lost sorted_env 5]"

lemma event_request_command:
  "fits ([byte_of_CommandType ct] # args) p \<Longrightarrow> event_request (Frame env fd (request ct args p)) =
     (fd, request_of (built 0 p ([byte_of_CommandType ct] # args) Command))"
  using deserialize_built_exact [of "[byte_of_CommandType ct] # args" p Command 0] by (simp add: request_def)

lemma length_request: "length (request ct args p) = 6 + (\<Sum>m\<leftarrow>[byte_of_CommandType ct] # args. 2 + length m) + length p"
  unfolding request_def by (rule length_serialize_built)

lemma sample_session_ok: "list_all event_ok sample_session"
  by (simp add: sample_session_def traversal_sorted length_request)

lemma sample_junk: "event_request (Frame sorted_env 6 [1, 2, 3]) = (6, Ignored)"
  by (simp add: deserialize_def)

lemmas sample_eval = sample_session_def event_step_def event_request_command sample_junk fits_def request_of_def
  CommandType_of_byte_def Let_def empty_chat_def person_at_def person_named_def copies_def forget_def List.map_filter_simps

declare event_request.simps(1) [simp del]

lemma sample_session_run:
  "run_spec event_step sample_session empty_chat =
     ([[(5, Welcome ''a'')], [(6, Welcome ''b'')], [(5, Room_Made ''dev'')], [(7, Log_In_First)], [(6, Room_Joined ''dev'')],
       [(5, Room_Text [104, 105]), (6, Room_Text [104, 105])], [], [(6, Keys_Of ''a'' ([1], [2], [3]))], []],
      \<lparr>cs_people = [(6, ''b'', [4], [5], [6])],
       cs_rooms = [''dev'' \<mapsto> \<lparr>rm_members = [''b''], rm_history = [[104, 105]]\<rparr>]\<rparr>)"
  by (simp add: sample_eval fun_eq_iff)


section \<open>The server and the machine\<close>

text \<open>
  C1: the server implements the chat service. Whatever frames arrive and whatever connections are
  lost, in any order and with any clocks and traversal orders, the server's tables stay related to the state of the
  abstract machine run on the requests the frames stand for, and for each event the frames sent are exactly the
  machine's notices, each to its connection (in the order the server walks a room's members); nothing else is ever sent. A frame that does not
  decode stands for no request and leaves the tables as they are; that its exception then ends the loop is shown in \<open>Server_System\<close>.
\<close>

theorem server_refines_chat:
  assumes "list_all event_ok evs"
  shows "server_rel (fold react evs MessagingServer_ctor) (snd (run_spec event_step evs empty_chat)) \<and>
    (\<exists>batches. sc_sent (ms_context (fold react evs MessagingServer_ctor)) = concat batches \<and>
      list_all2 same_frames batches (fst (run_spec event_step evs empty_chat)))"
  using chat.run_simulates [OF assms server_rel_ctor] by (simp add: ctor_context ServerContext_ctor_def)

theorem server_refines_chat_witness:
  "\<exists>batches. sc_sent (ms_context (fold react sample_session MessagingServer_ctor)) = concat batches \<and>
    list_all2 same_frames batches
      [[(5, Welcome ''a'')], [(6, Welcome ''b'')], [(5, Room_Made ''dev'')], [(7, Log_In_First)], [(6, Room_Joined ''dev'')],
       [(5, Room_Text [104, 105]), (6, Room_Text [104, 105])], [], [(6, Keys_Of ''a'' ([1], [2], [3]))], []]"
  using server_refines_chat [OF sample_session_ok] unfolding sample_session_run by simp

text \<open>
  C21: a room's texts go only to those who entered it. After any sequence of events, the frames the next event makes the server
  send are the machine's notices, and where one of them is a text of a room, the event is a post to that room by a connection
  that created or joined it and has not left or been lost since, and the connection the text goes to has done
  the same.
\<close>

theorem room_texts_stay_in_room:
  assumes "list_all event_ok (evs @ [e])"
  shows "let out = fst (event_step e (snd (run_spec event_step evs empty_chat))) in
    (\<exists>sent. sc_sent (ms_context (react e (fold react evs MessagingServer_ctor))) =
      sc_sent (ms_context (fold react evs MessagingServer_ctor)) @ sent \<and> same_frames sent out) \<and>
    (\<forall>fd' p. (fd', Room_Text p) \<in> set out \<longrightarrow>
      (\<exists>fd r. event_request e = (fd, Post r p) \<and>
         since (entered fd r) (went fd) (journal evs) \<and> since (entered fd' r) (went fd') (journal evs)))"
proof -
  let ?out = "fst (event_step e (snd (run_spec event_step evs empty_chat)))"
  have "\<forall>fd' p. (fd', Room_Text p) \<in> set ?out \<longrightarrow> (\<exists>fd r. event_request e = (fd, Post r p) \<and>
      since (entered fd r) (went fd) (journal evs) \<and> since (entered fd' r) (went fd') (journal evs))"
    using room_text_sent [OF journal_inv_run] by (cases "event_request e") (simp add: event_step_def)
  with react_sends [OF assms] show ?thesis unfolding Let_def by blast
qed

lemma sample_post:
  "fst (event_step (sample_session ! 5) (snd (run_spec event_step (take 5 sample_session) empty_chat))) =
     [(5, Room_Text [104, 105]), (6, Room_Text [104, 105])]"
  "event_request (sample_session ! 5) = (5, Post ''dev'' [104, 105])"
  by (simp_all add: sample_eval)

theorem room_texts_stay_in_room_witness:
  "since (entered 5 ''dev'') (went 5) (journal (take 5 sample_session)) \<and>
   since (entered 6 ''dev'') (went 6) (journal (take 5 sample_session))"
proof -
  have "list_all event_ok (take 5 sample_session @ [sample_session ! 5])"
    using sample_session_ok by (simp add: sample_session_def)
  from room_texts_stay_in_room [OF this] show ?thesis
    unfolding Let_def sample_post by simp
qed

text \<open>
  C22: keys are handed on as they were registered. After any sequence of events, where the next event makes the server send a
  whisper, it goes to a connection logged in under the name the request gives and carries the keys the
  sending connection logged in with, and where it makes the server give out a person's keys, they are those the
  connection logged in under that name registered, no leave in between.
\<close>

theorem keys_are_registered_keys:
  assumes "list_all event_ok (evs @ [e])"
  shows "let out = fst (event_step e (snd (run_spec event_step evs empty_chat))) in
    (\<exists>sent. sc_sent (ms_context (react e (fold react evs MessagingServer_ctor))) =
      sc_sent (ms_context (fold react evs MessagingServer_ctor)) @ sent \<and> same_frames sent out) \<and>
    (\<forall>fd' r claimed p k. (fd', Whispered r claimed p k) \<in> set out \<longrightarrow> (\<exists>fd u l. event_request e = (fd, Whisper r claimed p) \<and>
       since (came fd u k) (went fd) (journal evs) \<and> since (came fd' r l) (went fd') (journal evs))) \<and>
    (\<forall>fd' v k. (fd', Keys_Of v k) \<in> set out \<longrightarrow>
       (\<exists>g. event_request e = (fd', Ask_Keys v) \<and> since (came g v k) (went g) (journal evs)))"
proof -
  let ?out = "fst (event_step e (snd (run_spec event_step evs empty_chat)))"
  have "\<exists>fd u l. event_request e = (fd, Whisper r claimed p) \<and>
      since (came fd u k) (went fd) (journal evs) \<and> since (came fd' r l) (went fd') (journal evs)"
    if "(fd', Whispered r claimed p k) \<in> set ?out" for fd' r claimed p k
    using whisper_sent [OF journal_inv_run that [unfolded event_step_def [of e]]] by (cases "event_request e") auto
  moreover have "\<exists>g. event_request e = (fd', Ask_Keys v) \<and> since (came g v k) (went g) (journal evs)"
    if "(fd', Keys_Of v k) \<in> set ?out" for fd' v k
    using keys_sent [OF journal_inv_run that [unfolded event_step_def [of e]]] by (cases "event_request e") auto
  ultimately show ?thesis using react_sends [OF assms] unfolding Let_def by blast
qed

lemma sample_keys:
  "fst (event_step (sample_session ! 7) (snd (run_spec event_step (take 7 sample_session) empty_chat))) =
     [(6, Keys_Of ''a'' ([1], [2], [3]))]"
  by (simp add: sample_eval)

theorem keys_are_registered_keys_witness:
  "\<exists>g. since (came g ''a'' ([1], [2], [3])) (went g) (journal (take 7 sample_session))"
proof -
  have "list_all event_ok (take 7 sample_session @ [sample_session ! 7])"
    using sample_session_ok by (simp add: sample_session_def)
  from keys_are_registered_keys [OF this] show ?thesis
    unfolding Let_def sample_keys by (simp del: split_paired_All)
qed

end
