(* ===== verification/Honest_Clients.thy ===== *)
theory Honest_Clients
  imports Chat_World Chat_Spec
begin

text \<open>
  What the program's own client hands to its transport. Every message it sends decodes at the server, whatever its user types (in lines of less than 64 KiB)
  and whatever the server sends to it; so no schedule of the world of \<open>Chat_World\<close> in which messages arrive whole or not at all ends the
  server. A message that arrives with its length in front of it, as the transport can deliver it, does not decode and ends the server.

  \<open>gives f Q\<close> says of an action of the client that it keeps the invariant \<open>sound\<close>, exceptions included, and that what it returns satisfies \<open>Q\<close>.
\<close>

section \<open>The invariant of the client\<close>

definition decodes :: "bytes \<Rightarrow> bool" where
  "decodes raw = (case deserialize raw of Inl _ \<Rightarrow> False | Inr _ \<Rightarrow> True)"

definition sound :: "ClientContext \<Rightarrow> bool" where
  "sound c \<longleftrightarrow> list_all decodes (cc_sent c) \<and> length (cc_my_username c) < 65536 \<and> mq_inv (cc_mq c) \<and>
     (\<forall>u p. p \<in> set (mq_abs (cc_mq c) u) \<longrightarrow> length p < 4294967296)"

lemma sound_frame [simp]:
  "sound (c\<lparr>cc_ui := a\<rparr>) = sound c" "sound (c\<lparr>cc_connected := b\<rparr>) = sound c" "sound (c\<lparr>cc_es := es\<rparr>) = sound c" "sound (c\<lparr>cc_fs := fs\<rparr>) = sound c"
  "sound (c\<lparr>cc_pending_files := pf\<rparr>) = sound c" "sound (c\<lparr>cc_pending_messages := pm\<rparr>) = sound c" "sound (c\<lparr>cc_counter := ct\<rparr>) = sound c"
  "sound (c\<lparr>cc_rng := r\<rparr>) = sound c"
  by (simp_all add: sound_def)

definition gives :: "'a client \<Rightarrow> ('a \<Rightarrow> bool) \<Rightarrow> bool" where
  "gives f Q \<longleftrightarrow> (\<forall>c. sound c \<longrightarrow> sound (snd (f c)) \<and> (\<forall>x. fst (f c) = Inr x \<longrightarrow> Q x))"

abbreviation safe :: "'a client \<Rightarrow> bool" where
  "safe f \<equiv> gives f (\<lambda>_. True)"

named_theorems gives_rules \<open>rules for the actions of the client\<close>

lemma givesD: "gives f Q \<Longrightarrow> sound c \<Longrightarrow> sound (snd (f c))"
  by (simp add: gives_def)

lemma gives_basic [gives_rules]:
  "Q x \<Longrightarrow> gives (ret x) Q" "(\<And>y. r = Inr y \<Longrightarrow> Q y) \<Longrightarrow> gives (lift r) Q"
  "(\<And>c. sound c \<Longrightarrow> sound (g c)) \<Longrightarrow> safe (modify g)"
  by (simp_all add: gives_def ret_def lift_def modify_def)

lemma gives_andThen: "gives f P \<Longrightarrow> (\<And>x. P x \<Longrightarrow> gives (g x) Q) \<Longrightarrow> gives (andThen f g) Q"
  unfolding gives_def by (auto simp: andThen_eq split: sum.splits)

lemma gives_state: "(\<And>c. sound c \<Longrightarrow> gives (F c) Q) \<Longrightarrow> gives (\<lambda>c. F c c) Q"
  by (simp add: gives_def)

lemma safe_weaken: "gives f Q \<Longrightarrow> safe f"
  by (simp add: gives_def)

lemma safe_try_catch [gives_rules]: "safe f \<Longrightarrow> safe (try_catch f (ret x))"
  unfolding gives_def by (auto simp: try_catch_def ret_def split: prod.splits sum.splits)

text \<open>A message with few, short metadata entries is either refused by the constructor or decodes at the other side.\<close>

lemma built_decodes:
  assumes "small_metas ms" "length p < 8589934592" "canonical_type t" "Message_ctor now p ms t = Inr m"
  shows "decodes (serialize m)"
proof -
  have l: "length ms < 128" "list_all (\<lambda>m. length m < 65536) ms" using assms(1) by (simp_all add: small_metas_def)
  have b: "(\<Sum>m\<leftarrow>ms. 2 + length m) \<le> 128 * 65537" using sum_list_bound [OF l(2)] l(1) by simp
  have "(2 + (\<Sum>m\<leftarrow>ms. 2 + length m) + 4 + length p) mod 18446744073709551616 = 2 + (\<Sum>m\<leftarrow>ms. 2 + length m) + 4 + length p"
    using b assms(2) by (intro mod_less) simp
  then have "6 + (\<Sum>m\<leftarrow>ms. 2 + length m) + length p \<le> 4294967295"
    using assms(4) by (auto simp: Message_ctor_def compute_serialized_size_def Let_def split: if_splits)
  then have f: "fits ms p" using l by (simp add: fits_def list_all_iff)
  then have "m = built now p ms t" using assms(4) by simp
  then show ?thesis using deserialize_built_exact [OF f assms(3), of now] by (simp add: decodes_def)
qed

lemma safe_send [gives_rules]:
  assumes "small_metas ms" "length p < 8589934592" "canonical_type t"
  shows "safe (send_message (Message_ctor now p ms t))"
  using built_decodes [OF assms, of now]
  by (auto simp: gives_def send_message_def send_to_server_def action_simps sound_def split: sum.splits)

text \<open>Keys and signatures have the sizes OpenSSL documents, with room to spare.\<close>

definition short_material :: "openssl \<Rightarrow> bool" where
  "short_material ssl \<longleftrightarrow> (\<forall>k raw. get_raw_public_key ssl k = Some raw \<longrightarrow> length raw \<le> 64) \<and>
     (\<forall>k m sig. digest_sign ssl k m = Inr sig \<longrightarrow> length m \<le> 64 \<longrightarrow> length sig \<le> 128)"

lemma own_material:
  assumes "short_material ssl"
  shows "get_DH_bytes ssl es = Inr dh \<Longrightarrow> length dh < 65536" "get_identity_bytes ssl es = Inr ik \<Longrightarrow> length ik < 65536"
    "sign ssl es = Inr sig \<Longrightarrow> length sig < 65536"
proof -
  have pub: "length raw \<le> 64" if "DH_public_bytes ssl k = Inr raw" for k raw
    using that assms by (auto simp: DH_public_bytes_def short_material_def split: option.splits)
  then show "get_DH_bytes ssl es = Inr dh \<Longrightarrow> length dh < 65536" by (fastforce simp: get_DH_bytes_def)
  show "get_identity_bytes ssl es = Inr ik \<Longrightarrow> length ik < 65536"
    using assms by (fastforce simp: get_identity_bytes_def identity_public_bytes_def short_material_def split: option.splits)
  show "length sig < 65536" if "sign ssl es = Inr sig"
  proof -
    from that obtain m where m: "DH_public_bytes ssl (es_DH_key es) = Inr m" "identity_sign ssl (es_identity_key es) m = Inr sig"
      by (auto simp: sign_def)
    then obtain k where "digest_sign ssl k m = Inr sig"
      by (auto simp: identity_sign_def split: option.splits sum.splits sign_failure.splits)
    with pub [OF m(1)] assms have "length sig \<le> 128" unfolding short_material_def by blast
    then show ?thesis by simp
  qed
qed


text \<open>
  The size of what the cipher returns. The initialisation vector is a vector of twelve bytes and the tag one of sixteen, and the ciphertext is resized
  to a length that OpenSSL reports as an \<open>int\<close>; nothing is assumed of the contents, the keys or the success of the calls.
\<close>

definition short_cipher :: "client_env \<Rightarrow> bool" where
  "short_cipher env \<longleftrightarrow> (\<forall>key iv aad pt n ct tag. gcm_encrypt (ce_ssl env) key iv aad pt n = (ct, Some tag) \<longrightarrow> length ct \<le> INT_MAX \<and> length tag = 16) \<and>
     (\<forall>k iv. ce_rand env k = Some iv \<longrightarrow> length iv = 12)"

section \<open>Its actions\<close>

lemma safe_counters [gives_rules]: "safe (init_counter u)" "safe (increment_counter u)" "safe (ui_callback str)" "safe (append_file path data)"
  by (auto simp: gives_def init_counter_def increment_counter_def ui_callback_def append_file_def modify_def split: option.splits)

lemma encrypt_short:
  assumes "short_cipher env" "encrypt_for (ce_ssl env) (ce_rand env k) es my r p n = Inr out"
  shows "length out \<le> 36 + INT_MAX"
proof -
  obtain key where "aes_encrypt (ce_ssl env) (ce_rand env k) key p n = Inr out"
    using assms(2) by (auto simp: encrypt_for_def Let_def bindr_eq_Inr split: option.splits)
  then obtain iv ct tag where out: "ce_rand env k = Some iv" "out = iv @ le64_bytes n @ ct @ tag"
      "gcm_encrypt (ce_ssl env) key iv (le64_bytes n) p (c_int (length p)) = (ct, Some tag)"
    by (auto simp: aes_encrypt_def Let_def split: option.splits prod.splits)
  have "length iv = 12" "length ct \<le> INT_MAX" "length tag = 16" using assms(1) out(1, 3) unfolding short_cipher_def by blast+
  then show ?thesis unfolding out(2) by simp
qed

lemma gives_encrypt:
  assumes "short_cipher env"
  shows "gives (client_encrypt_for env r p) (\<lambda>ct. length ct \<le> 36 + INT_MAX)"
  using encrypt_short [OF assms] by (simp add: gives_def client_encrypt_for_def)

lemma safe_keys [gives_rules]: "safe (client_decrypt_for env a b ct sig n)" "safe (client_cache_key env u k i)"
  by (simp_all add: gives_def client_decrypt_for_def client_cache_key_def Let_def split: prod.splits)

lemma safe_command:
  assumes "small_metas ([command_type_byte name] # as)"
  shows "safe (send_message (make_command_from_struct now \<lparr>pc_name = name, pc_args = as\<rparr>))"
proof -
  have "length (last_arg as) \<le> 4000000000" using assms by (cases as rule: rev_cases) (auto simp: last_arg_def small_metas_def)
  from small_metas_fits [OF assms this] have f: "fits ([command_type_byte name] # as) (last_arg as)" .
  show ?thesis
    using make_command_built [of "\<lparr>pc_name = name, pc_args = as\<rparr>" now] f deserialize_built_exact [OF f, of Command 0]
    by (simp add: gives_def send_message_built sound_def decodes_def)
qed

lemma own_keys_given:
  assumes "short_material (ce_ssl env)" "\<And>dh ik sig. small_metas [dh, ik, sig] \<Longrightarrow> gives (f dh ik sig) Q"
  shows "gives (\<lambda>c. andThen (lift (get_DH_bytes (ce_ssl env) (cc_es c))) (\<lambda>dh. andThen (lift (get_identity_bytes (ce_ssl env) (cc_es c))) (\<lambda>ik.
    andThen (lift (sign (ce_ssl env) (cc_es c))) (\<lambda>sig. f dh ik sig))) c) Q"
  by (rule gives_state, (rule gives_andThen, rule gives_basic(2), assumption)+, rule assms(2))
    (auto simp: small_metas_def dest: own_material [OF assms(1)])

lemma safe_login:
  assumes "short_material (ce_ssl env)" "length u < 65536"
  shows "safe (login_on_client env u)"
  unfolding login_on_client_def [abs_def] login_toMessage_def
  by (rule own_keys_given [OF assms(1)], rule gives_andThen, rule gives_basic(3))
    (use assms(2) in \<open>auto simp: sound_def small_metas_def intro!: safe_command\<close>)

lemma safe_send_chunk:
  assumes "short_cipher env" "short_material (ce_ssl env)" "length r < 65536" "length f < 65536" "length d \<le> kChunk"
  shows "safe (send_chunk env r f d)"
  unfolding send_chunk_def
  by (rule gives_andThen [OF safe_counters(1)], rule gives_andThen [OF gives_encrypt [OF assms(1)]], rule gives_andThen [OF safe_counters(2)],
      rule gives_state, rule gives_andThen, rule gives_basic(2), assumption, rule gives_andThen, rule gives_basic(2), assumption,
      rule gives_andThen, rule gives_basic(2), assumption, rule safe_send)
    (use assms(3-5) in \<open>auto simp: sound_def small_metas_def kChunk_def dest: own_material [OF assms(2)]\<close>)

lemma safe_send_chunks:
  assumes "short_cipher env" "short_material (ce_ssl env)" "length r < 65536" "length f < 65536"
  shows "safe (send_chunks env r f d)"
proof (induction env r f d rule: send_chunks.induct [where ?P = "\<lambda>e x y d. e = env \<longrightarrow> x = r \<longrightarrow> y = f \<longrightarrow> safe (send_chunks e x y d)", rule_format])
  case (1 e x y d)
  then show ?case
    using safe_send_chunk [OF assms, of "take kChunk d"] by (subst send_chunks.simps) (auto intro!: gives_andThen gives_rules)
qed simp_all

lemma safe_send_file:
  assumes "short_cipher env" "short_material (ce_ssl env)" "length r < 65536" "length f < 65536"
  shows "safe (send_file env f r)"
proof -
  have "safe (\<lambda>c. andThen (lift (get_DH_bytes (ce_ssl env) (cc_es c))) (\<lambda>dh. andThen (lift (get_identity_bytes (ce_ssl env) (cc_es c))) (\<lambda>ik.
      andThen (lift (sign (ce_ssl env) (cc_es c))) (\<lambda>sig.
        andThen (send_message (Message_ctor (ce_now env) [] [r, to_bytes f, le64_bytes (word_of_nat (length d)), dh, ik, sig] FileStart)) (\<lambda>_.
        andThen (send_chunks env r (to_bytes f) d) (\<lambda>_. send_message (Message_ctor (ce_now env) [] [r, to_bytes f] FileEnd)))))) c)" for d
    by (rule own_keys_given [OF assms(2)], rule gives_andThen, rule safe_send)
      (use assms(3, 4) safe_send_chunks [OF assms(1-3), of "to_bytes f" d] in
        \<open>auto simp: small_metas_def le64_bytes_def intro!: gives_andThen safe_send\<close>)
  then show ?thesis by (auto simp: gives_def send_file_def Let_def split: option.splits)
qed

lemma safe_private_message:
  assumes "length r < 65536" "length p < 4294967296"
  shows "safe (private_message_on_client env r p)"
proof -
  have "safe (get_pubkey_on_client env r)"
    unfolding get_pubkey_on_client_def getpub_toMessage_def by (rule safe_send) (use assms(1) in \<open>simp_all add: small_metas_def\<close>)
  moreover have "sound (c\<lparr>cc_mq := mq_push (cc_mq c) r p\<rparr>)" if "sound c" for c
    using that assms(2) mq_inv_push [of "cc_mq c" r p] mq_abs_push [of "cc_mq c" r p] by (auto simp: sound_def split: if_splits)
  ultimately show ?thesis
    unfolding private_message_on_client_def by (auto intro!: gives_andThen gives_rules)
qed

text \<open>The fields of a command object that came from a message.\<close>

fun short_command :: "ICommandHandler \<Rightarrow> bool" where
  "short_command (LoginCommand u _ _ _) \<longleftrightarrow> length u < 65536"
| "short_command (JoinCommand n) \<longleftrightarrow> length n < 65536"
| "short_command (MakeRoomCommand n) \<longleftrightarrow> length n < 65536"
| "short_command (SendGroupMessageCommand n p) \<longleftrightarrow> length n < 65536 \<and> length p < 4294967296"
| "short_command (PrivateMessageCommand r p) \<longleftrightarrow> length r < 65536 \<and> length p < 4294967296"
| "short_command (GetPubkeyCommand u) \<longleftrightarrow> length u < 65536"
| "short_command (SendFileCommand f r) \<longleftrightarrow> length f < 65536 \<and> length r < 65536"
| "short_command _ \<longleftrightarrow> True"

lemma safe_execute:
  assumes "short_cipher env" "short_material (ce_ssl env)" "short_command cmd"
  shows "safe (executeOnClient env cmd)"
proof (cases cmd)
  case (SendFileCommand f r)
  then show ?thesis using safe_send_file [OF assms(1, 2), of r f] assms(3) by simp
next
  case (GetPubkeyCommand u)
  then show ?thesis
    using assms(3) by (simp add: get_pubkey_on_client_def) (rule safe_send, simp_all add: small_metas_def)
next
  case ExitCommand
  then show ?thesis
    by (simp add: exit_on_client_def) (rule gives_andThen, rule safe_send, auto simp: small_metas_def intro!: gives_rules)
next
  case (SendGroupMessageCommand n p)
  then show ?thesis using assms(3) by simp (rule safe_send, simp_all add: small_metas_def)
qed (use assms(2, 3) safe_login [OF assms(2)] safe_private_message in \<open>auto simp: small_metas_def intro!: safe_command gives_rules\<close>)

definition short_message :: "Message \<Rightarrow> bool" where
  "short_message msg \<longleftrightarrow> (\<forall>i. length (get_meta msg i) < 65536) \<and> length (get_payload msg) < 4294967296"

lemma client_object_short:
  assumes "short_message msg" "client_registry n = Some cmd"
  shows "short_command (snd (fromMessage cmd msg))"
  using assms by (cases cmd) (auto simp: client_registry_lookup create_def short_message_def split: if_splits sum.splits)

lemma safe_send_queued:
  assumes "short_cipher env" "length u < 65536" "length p < 4294967296"
  shows "safe (send_queued env u p)"
  unfolding send_queued_def
  by (rule gives_andThen [OF safe_counters(1)], rule gives_andThen [OF gives_encrypt [OF assms(1)]], rule gives_andThen, rule gives_state, rule safe_send)
    (use assms(2, 3) in \<open>auto simp: sound_def small_metas_def intro!: gives_rules\<close>)

lemma sound_find_pending:
  assumes "sound c"
  shows "sound (c\<lparr>cc_mq := snd (mq_find_pending (cc_mq c) u)\<rparr>)"
    "fst (mq_find_pending (cc_mq c) u) = Some m \<Longrightarrow> length (om_bytes m) < 4294967296"
proof -
  have i: "mq_inv (cc_mq c)" using assms by (simp add: sound_def)
  note a = mq_find_pending_abs [OF i, of u]
  have "p \<in> set (mq_abs (cc_mq c) v)" if "p \<in> set (mq_abs (snd (mq_find_pending (cc_mq c) u)) v)" for p v
    using that a by (cases "mq_abs (cc_mq c) u") (auto split: if_splits)
  then show "sound (c\<lparr>cc_mq := snd (mq_find_pending (cc_mq c) u)\<rparr>)"
    using assms mq_inv_find_pending [OF i, of u] by (auto simp: sound_def)
  show "length (om_bytes m) < 4294967296" if "fst (mq_find_pending (cc_mq c) u) = Some m"
  proof -
    have "om_bytes m \<in> set (mq_abs (cc_mq c) u)" using that a by (auto split: list.splits)
    then show ?thesis using assms by (auto simp: sound_def)
  qed
qed

lemma safe_send_pending:
  assumes "short_cipher env" "length u < 65536"
  shows "safe (send_pending env n u)"
proof (induction n)
  case (Suc n)
  have "safe (andThen (send_queued env u p) (\<lambda>_. send_pending env n u))" if "length p < 4294967296" for p
    by (rule gives_andThen [OF safe_send_queued [OF assms that] Suc])
  with sound_find_pending show ?case
    by (auto simp: gives_def Let_def split_def split: option.splits)
qed (simp add: gives_basic)

lemma safe_decrypt_pending: "safe (decrypt_pending env u cts)"
proof (induction cts)
  case (Cons ct cts)
  show ?case
    unfolding decrypt_pending.simps
    by (rule gives_state, rule gives_andThen, rule gives_basic(2), rule TrueI, rule gives_andThen, rule gives_basic(2), rule TrueI,
        rule gives_andThen, rule safe_keys(1), rule Cons)
qed (simp add: gives_basic)

lemma safe_response:
  assumes "short_cipher env" "short_message msg"
  shows "safe (handle_response env msg)"
proof -
  have "safe (\<lambda>c. decrypt_pending env u (r c) (c\<lparr>cc_pending_messages := pm c\<rparr>))" for u r pm
    using safe_decrypt_pending by (auto simp: gives_def)
  then show ?thesis
    using safe_send_pending [OF assms(1), of "get_meta msg 1" kQueueSize] assms(2)
    by (auto simp: handle_response_def handle_get_pubkey_response_def short_message_def Let_def intro!: gives_andThen gives_rules)
qed

lemma safe_incoming:
  "safe (handle_text msg)" "safe (handle_cipher env msg)" "safe (handle_file_start msg)" "safe (handle_file_chunk env msg)" "safe (handle_file_end msg)"
proof -
  show "safe (handle_text msg)" "safe (handle_file_end msg)"
    by (auto simp: handle_text_def handle_file_end_def intro!: gives_rules)
  show "safe (handle_file_start msg)"
    by (auto simp: handle_file_start_def gives_def lift_def andThen_eq split: sum.splits)
  have d: "safe (\<lambda>c. andThen (client_decrypt_for env a b p sig (counter_of c u)) f c)" if "\<And>x. safe (f x)" for a b p sig u and f :: "bytes \<Rightarrow> unit client"
    by (rule gives_state, rule gives_andThen, rule safe_keys(1), rule that)
  show "safe (handle_cipher env msg)"
    unfolding handle_cipher_def process_encrypted_message_def
    by (rule safe_try_catch, rule gives_andThen, rule safe_keys, rule gives_andThen, rule safe_counters, rule d, rule gives_andThen)
      (rule safe_counters)+
  have "safe (andThen (init_counter (get_meta msg 0)) (\<lambda>_.
           andThen (client_cache_key env (get_meta msg 2) (get_meta msg 3) (get_meta msg 4)) (\<lambda>_ c1.
           andThen (client_decrypt_for env (get_meta msg 2) (get_meta msg 0) (get_payload msg) (get_meta msg 5)
                     (counter_of c1 (get_meta msg 0)))
             (append_file (file_key msg)) c1)))"
    by (rule gives_andThen, rule safe_counters, rule gives_andThen, rule safe_keys, rule d, rule safe_counters)
  then show "safe (handle_file_chunk env msg)" by (simp add: gives_def handle_file_chunk_def)
qed

lemma safe_serve:
  assumes "short_cipher env" "short_material (ce_ssl env)" "short_message msg"
  shows "safe (client_serve env msg)"
proof -
  have "safe (executeOnClient env (snd (fromMessage cmd msg)))" if "client_registry n = Some cmd" for n cmd
    by (rule safe_execute [OF assms(1, 2) client_object_short [OF assms(3) that]])
  with safe_incoming(1, 3, 5) [where msg = msg] safe_incoming(2, 4) [where msg = msg and env = env] safe_response [OF assms(1, 3)] show ?thesis
    by (simp add: gives_def client_serve_def split: option.splits)
qed


section \<open>Typed lines\<close>

text \<open>The room a list of words takes in a line, one separator each.\<close>

definition width :: "string list \<Rightarrow> nat" where
  "width ws = (\<Sum>w\<leftarrow>ws. Suc (length w))"

lemma width_split_loop: "width (split_loop cur toks str) \<le> width toks + length cur + length str + 1"
  by (induction cur toks str rule: split_loop.induct) (auto simp: width_def)

lemma width_join_tail: "length (join_tail ws) \<le> width ws"
proof -
  have "length (foldl (\<lambda>tail w. (if tail \<noteq> [] then tail @ '' '' else tail) @ w) t ws) \<le> length t + width ws" for t
  proof (induction ws arbitrary: t)
    case (Cons w ws)
    from Cons [of "(if t \<noteq> [] then t @ '' '' else t) @ w"] show ?case by (auto simp: width_def split: if_splits)
  qed simp
  from this [of "[]"] show ?thesis by (simp add: join_tail_def)
qed

lemma match_loop_bounded:
  "match_loop ts input caps = Some (caps', rest) \<Longrightarrow> width input \<le> n \<Longrightarrow> list_all (\<lambda>w. length w \<le> n) caps \<Longrightarrow> list_all (\<lambda>w. length w \<le> n) caps'"
proof (induction ts input caps rule: match_loop.induct)
  case (2 t ts input caps)
  then show ?case using width_join_tail [of input]
    by (cases "tok_kind t"; cases input) (auto simp: width_def split: if_splits)
qed simp

lemma match_bounded:
  assumes "cm_matched (match ps line)"
  shows "list_all (\<lambda>w. length w \<le> Suc (length line)) (cm_captures (match ps line))"
proof -
  have w: "width (split_tokens line) \<le> Suc (length line)"
    using width_split_loop [of "[]" "[]" line] by (simp add: split_tokens_def width_def)
  have "list_all (\<lambda>w. length w \<le> Suc (length line)) (cm_captures (try_match p (split_tokens line)))" if "cm_matched (try_match p (split_tokens line))" for p
    using that match_loop_bounded [OF _ w] by (auto simp: try_match_def no_match_def split: option.splits if_splits)
  then have "cm_matched (match_patterns ps (split_tokens line)) \<Longrightarrow>
    list_all (\<lambda>w. length w \<le> Suc (length line)) (cm_captures (match_patterns ps (split_tokens line)))"
    by (induction ps) (auto simp: no_match_def Let_def split: if_splits)
  with assms show ?thesis by (simp add: match_def)
qed

lemma stream_words_bounded: "list_all (\<lambda>w. length w \<le> length str) (stream_words str)"
proof (induction str rule: stream_words.induct)
  case (1 str)
  have "length w \<le> length str" if "stream_word str = Some (w, rest)" for w rest
    using that length_takeWhile_le [of "\<lambda>c. \<not> isspace c" "dropWhile isspace str"] length_dropWhile_le [of isspace str]
    by (auto simp: stream_word_def Let_def split: if_splits)
  moreover have "list_all (\<lambda>v. length v \<le> length str) (stream_words rest)" if "stream_word str = Some (w, rest)" for w rest
    using 1 [OF that refl] stream_word_shorter [OF that] by (auto simp: list_all_iff)
  ultimately show ?case by (subst stream_words.simps) (auto split: option.splits)
qed

lemma parse_line_bounded: "list_all (\<lambda>a. length a \<le> Suc (length line)) (pc_args (parse_line line))"
proof (cases "line = [] \<or> cm_matched (match Parser_ctor line)")
  case True
  then show ?thesis using match_bounded [of Parser_ctor line] by (auto simp: parse_line_def Let_def list_all_iff)
next
  case False
  have "list_all (\<lambda>a. length a \<le> Suc (length line)) (stream_words rest)" if "stream_word line = Some (w, rest)" for w rest
    using stream_words_bounded [of rest] stream_word_shorter [OF that] by (auto simp: list_all_iff)
  with False show ?thesis by (auto simp: parse_line_def Let_def list_all_iff split: option.splits)
qed

text \<open>Lines that leave room for the separator the splitter counts.\<close>

abbreviation short_line :: "string \<Rightarrow> bool" where
  "short_line line \<equiv> length line < 65535"

lemma parse_short:
  assumes "parse now line = Inr msg" "short_line line"
  shows "short_message msg"
proof -
  have a: "list_all (\<lambda>a. length a < 65536) (pc_args (parse_line line))"
    using parse_line_bounded [of line] assms(2) by (auto simp: list_all_iff)
  then have "length (last_arg (pc_args (parse_line line))) < 65536" by (auto simp: last_arg_def list_all_iff)
  with a made_command [of now "parse_line line" msg] assms show ?thesis
    by (auto simp: parse_def short_message_def get_meta_def get_payload_def default_message_def set_payload_def bindr_eq_Inr list_all_iff nth_Cons
        split: if_splits nat.splits)
qed

lemma keeps_dispatch:
  assumes "short_cipher env" "short_material (ce_ssl env)" "mc_inv mc" "sound (mc_context mc)" "\<And>msg. r = Inr msg \<Longrightarrow> short_message msg"
  shows "mc_inv (snd (andThen (lift r) (\<lambda>msg. andThen (client_dispatch env msg) (\<lambda>_. ret ())) mc)) \<and>
    sound (mc_context (snd (andThen (lift r) (\<lambda>msg. andThen (client_dispatch env msg) (\<lambda>_. ret ())) mc)))"
proof (cases r)
  case (Inl e)
  then show ?thesis using assms by (simp add: andThen_eq lift_def)
next
  case (Inr msg)
  obtain b mc' where d: "client_dispatch env msg mc = (b, mc')" "mc_inv mc'" "mc_context mc' = snd (client_serve env msg (mc_context mc))"
    by (rule client_dispatch_serve [OF assms(3)])
  moreover have "sound (snd (client_serve env msg (mc_context mc)))"
    by (rule givesD [OF safe_serve [OF assms(1, 2) assms(5) [OF Inr]] assms(4)])
  ultimately show ?thesis using Inr by (auto simp: andThen_eq lift_def ret_def split: sum.splits)
qed


section \<open>The windows and the world\<close>

text \<open>
  The sizes of Qt's conversions: a UTF-16 unit takes at most three bytes of UTF-8, a byte of UTF-8 gives at most one unit, and trimming
  only removes.
\<close>

definition qt_sizes :: "qt \<Rightarrow> bool" where
  "qt_sizes qt \<longleftrightarrow> (\<forall>str. length (trimmed qt str) \<le> length str \<and> length (toStdString qt str) \<le> 3 * length str) \<and>
     (\<forall>str. length (fromStdString qt str) \<le> length str)"

text \<open>The user's lines have at most 7000 characters; the field for the name takes twenty whatever is typed.\<close>

fun short_event :: "gui_event \<Rightarrow> bool" where
  "short_event (EditMessage str) \<longleftrightarrow> length str \<le> 7000"
| "short_event _ \<longleftrightarrow> True"

definition honest_gui :: "qt \<Rightarrow> gui \<Rightarrow> bool" where
  "honest_gui qt g \<longleftrightarrow> mc_inv (gu_client g) \<and> sound (mc_context (gu_client g)) \<and> length (lw_nicknameInput (gu_login g)) \<le> 20 \<and>
     (\<forall>w. gu_chat g = Some w \<longrightarrow> length (cw_inputField w) \<le> 7000) \<and> (\<forall>str \<in> set (typed_lines (gu_queue g)). length str \<le> 21000)"

lemma bubble_input [simp]: "cw_inputField (appendBubble qt str t out w) = cw_inputField w" "cw_inputField (ChatWindow_ctor qt t nm) = []"
  by (simp_all add: appendBubble_def ChatWindow_ctor_def chat_widgets_def Let_def)

lemma honest_run:
  assumes "honest_gui qt g" "mc_inv (snd (f (gu_client g))) \<and> sound (mc_context (snd (f (gu_client g))))"
  shows "honest_gui qt (run_client qt f g)"
proof -
  have "gu_client (run_client qt f g) = clear_ui (snd (f (gu_client g)))"
    by (auto simp: run_client_def fold_emit Let_def split: prod.splits sum.splits)
  with assms show ?thesis by (simp add: honest_gui_def)
qed

lemma honest_press:
  assumes "qt_sizes qt" "honest_gui qt g"
  shows "honest_gui qt (press_login qt t g)" "honest_gui qt (press_send qt t g)"
proof -
  have t: "length (trimmed qt str) \<le> length str" "length (fromStdString qt (toStdString qt (trimmed qt str))) \<le> 3 * length str" for str
  proof -
    show "length (trimmed qt str) \<le> length str" using assms(1) by (simp add: qt_sizes_def)
    have "length (fromStdString qt (toStdString qt (trimmed qt str))) \<le> length (toStdString qt (trimmed qt str))"
      using assms(1) by (simp add: qt_sizes_def)
    also have "\<dots> \<le> 3 * length (trimmed qt str)" using assms(1) by (simp add: qt_sizes_def)
    also have "\<dots> \<le> 3 * length str" using assms(1) by (simp add: qt_sizes_def)
    finally show "length (fromStdString qt (toStdString qt (trimmed qt str))) \<le> 3 * length str" .
  qed
  show "honest_gui qt (press_login qt t g)"
    using assms(2) t(1) [of "lw_nicknameInput (gu_login g)"]
    by (auto simp: honest_gui_def press_login_def login_handleLogin_def on_login_success_def emit_signal_def postSend_def qlit_def Let_def)
  show "honest_gui qt (press_send qt t g)"
  proof (cases "gu_chat g")
    case (Some w)
    then show ?thesis
      using assms(2) t(2) [of "cw_inputField w"]
      by (auto simp: honest_gui_def press_send_def chat_handleSend_def emit_signal_def Let_def)
  qed (use assms(2) in \<open>simp add: press_send_def\<close>)
qed

lemma honest_deliver:
  assumes "qt_sizes qt" "short_cipher env" "short_material (ce_ssl env)" "honest_gui qt g"
  shows "honest_gui qt (deliver_signal qt env t g)"
proof (cases "gu_queue g")
  case (Cons sig rest)
  let ?g = "g\<lparr>gu_queue := rest, gu_handled := gu_handled g @ [sig]\<rparr>"
  have h: "honest_gui qt ?g" using assms(4) Cons by (cases sig) (auto simp: honest_gui_def)
  show ?thesis
  proof (cases sig)
    case (ResponseReceived str)
    then show ?thesis using h Cons by (auto simp: deliver_signal_def honest_gui_def chat_updateResponse_def)
  next
    case (SendToClient str)
    have "length (toStdString qt str) \<le> 3 * length str" "length str \<le> 21000"
      using assms(1, 4) Cons SendToClient by (simp_all add: qt_sizes_def honest_gui_def)
    then have "short_line (toStdString qt str)" by simp
    then have "mc_inv (snd (get_data env (toStdString qt str) (gu_client g))) \<and> sound (mc_context (snd (get_data env (toStdString qt str) (gu_client g))))"
      unfolding get_data_def by (intro keeps_dispatch assms parse_short) (use assms(4) in \<open>simp_all add: honest_gui_def\<close>)
    with honest_run [OF h, of "get_data env (toStdString qt str)"] show ?thesis using Cons SendToClient by (simp add: deliver_signal_def)
  qed
qed (use assms in \<open>simp add: deliver_signal_def\<close>)

lemma deserialize_short: "deserialize raw = Inr msg \<Longrightarrow> short_message msg"
  using deserialize_sizes [of raw msg] by (auto simp: short_message_def get_meta_def get_payload_def)

lemma honest_step:
  assumes "qt_sizes qt" "short_cipher env" "short_material (ce_ssl env)" "short_event ev" "honest_gui qt g"
  shows "honest_gui qt (gui_step qt env ev g)"
proof -
  have "honest_gui qt (run_client qt (client_on_tcp_data_received env raw) g)" for raw
    by (rule honest_run [OF assms(5)], unfold client_on_tcp_data_received_def, intro keeps_dispatch assms deserialize_short)
      (use assms(5) in \<open>simp_all add: honest_gui_def\<close>)
  with assms(4, 5) honest_press [OF assms(1, 5)] honest_deliver [OF assms(1-3, 5)] show ?thesis
    by (cases ev)
      (auto simp: gui_step_def honest_gui_def nickname_edit_def net_init_def init_client_def emit_signal_def postResponse_def net_set_callback_def
        set_ui_callback_def net_data_def net_stop_def about_to_quit_def client_stop_def mc_inv_def Let_def)
qed

text \<open>The world: the server's invariant, every client honest, and no exception has left the server's callback.\<close>

definition honest_world :: "qt \<Rightarrow> world \<Rightarrow> bool" where
  "honest_world qt wd \<longleftrightarrow> ms_inv (wd_server wd) \<and> (\<forall>fd. honest_gui qt (wd_gui wd fd)) \<and> wd_error wd = None"

text \<open>Events in which users type lines of bounded length and messages arrive whole or not at all.\<close>

fun short_world_event :: "world_event \<Rightarrow> bool" where
  "short_world_event (At fd ev) \<longleftrightarrow> short_event ev"
| "short_world_event (Torn fd) \<longleftrightarrow> False"
| "short_world_event _ \<longleftrightarrow> True"

lemma honest_frames:
  assumes "honest_world qt wd" "raw \<in> set (frames_from wd fd)"
  obtains msg where "deserialize raw = Inr msg"
proof -
  have "list_all decodes (frames_from wd fd)" using assms(1) unfolding honest_world_def honest_gui_def sound_def by blast
  with assms(2) have "decodes raw" by (simp add: list_all_iff)
  with that show ?thesis by (auto simp: decodes_def split: sum.splits)
qed

lemma honest_world_step:
  assumes "qt_sizes qt" "\<And>fd. short_cipher (cenv fd)" "\<And>fd. short_material (ce_ssl (cenv fd))" "short_world_event ev" "honest_world qt wd"
  shows "honest_world qt (world_step qt cenv senv ev wd)"
proof -
  note step = honest_step [OF assms(1-3)]
  show ?thesis
  proof (cases ev)
    case (At fd e)
    then show ?thesis using assms(4, 5) step [of e] by (auto simp: honest_world_def)
  next
    case (Down fd)
    then show ?thesis using assms(5) step [of "NetData raw" for raw] by (auto simp: honest_world_def Let_def)
  next
    case (Torn fd)
    then show ?thesis using assms(4) by simp
  next
    case (Vanished fd)
    then show ?thesis using assms(5) by (simp add: honest_world_def)
  next
    case (Missed fd)
    then show ?thesis using assms(5) by (simp add: honest_world_def)
  next
    case (Up fd)
    show ?thesis
    proof (cases "waiting wd fd")
      case True
      let ?raw = "frames_from wd fd ! wd_read wd fd"
      obtain msg where m: "deserialize ?raw = Inr msg" by (rule honest_frames [OF assms(5), of ?raw fd]) (use True in \<open>auto simp: waiting_def\<close>)
      obtain ms where "on_tcp_data_received senv fd ?raw (wd_server wd) = (Inr (), ms)" "ms_inv ms"
        by (rule on_tcp_message [OF _ m]) (use assms(5) in \<open>auto simp: honest_world_def\<close>)
      then show ?thesis using Up True assms(5) by (simp add: honest_world_def server_gets_def)
    qed (use Up assms(5) in simp)
  qed
qed

lemma honest_world_run:
  assumes "qt_sizes qt" "\<And>fd. short_cipher (cenv fd)" "\<And>fd. short_material (ce_ssl (cenv fd))"
  shows "list_all short_world_event evs \<Longrightarrow> honest_world qt wd \<Longrightarrow> honest_world qt (world_run qt cenv senv evs wd)"
  by (induction evs arbitrary: wd) (simp_all add: honest_world_step [OF assms])

lemma sound_start:
  assumes "ClientContext_ctor env dhg idg fs = Inr ctx"
  shows "sound ctx"
proof -
  have "cc_my_username ctx = []"
    using assms by (auto simp: ClientContext_ctor_def set_key_def EncryptionService_ctor_def Let_def bindr_eq_Inr split: if_splits)
  moreover have "mq_abs MessageQueue_ctor u = []" for u by (simp add: mq_abs_def MessageQueue_ctor_def)
  ultimately show ?thesis using ctor_context_sel(2, 3) [OF assms] by (simp add: sound_def mq_inv_ctor)
qed

lemma honest_new_world:
  assumes "\<And>fd. \<exists>dhg idg fs. ClientContext_ctor (cenv fd) dhg idg fs = Inr (ctx fd)"
  shows "honest_world qt (new_world ctx)"
proof -
  have "sound (ctx fd)" for fd using assms [of fd] sound_start by blast
  moreover have "mc_context (MessagingClient_ctor c) = c" for c by (simp add: MessagingClient_ctor_def client_registerHandler_def)
  ultimately show ?thesis
    by (simp add: honest_world_def new_world_def ms_inv_ctor honest_gui_def start_gui_client_def mc_inv_ctor LoginWindow_ctor_def)
qed

section \<open>A message with its length in front\<close>

text \<open>
  The first two bytes of the length of a short message are zero, so the decoder takes them for a type and for no metadata; the other two bytes become
  the high half of a payload length, which is then more than the message has.
\<close>

lemma unat_byte: "unat (ucast (drop_bit k x) :: byte) = unat x div 2 ^ k mod 256" for x :: "32 word"
proof -
  have "take_bit 32 (unat x) = unat x" using unsigned_less [of x] by (simp add: take_bit_nat_eq_self_iff)
  then have "unat (drop_bit k x) = unat x div 2 ^ k" by (simp only: unsigned_drop_bit_eq) (simp add: drop_bit_eq_div)
  then show ?thesis by (simp add: unsigned_ucast_eq take_bit_eq_mod)
qed

lemma high_half:
  fixes v w :: "32 word"
  assumes "ucast (drop_bit 24 v) = (ucast (drop_bit 8 w) :: byte)" "ucast (drop_bit 16 v) = (ucast w :: byte)" "unat w < 65536"
  shows "unat v div 65536 = unat w"
proof -
  have "unat v div 2 ^ 24 mod 256 = unat w div 2 ^ 8 mod 256" "unat v div 2 ^ 16 mod 256 = unat w div 2 ^ 0 mod 256"
    using arg_cong [OF assms(1), of unat] arg_cong [OF assms(2), of unat] unat_byte [of 24 v] unat_byte [of 8 w] unat_byte [of 16 v] unat_byte [of 0 w] by simp_all
  moreover have "unat v < 4294967296" using unsigned_less [of v] by simp
  moreover have "unat v div 65536 = 256 * (unat v div 65536 div 256) + unat v div 65536 mod 256" by simp
  ultimately show ?thesis using assms(3) by (simp add: div_mult2_eq [symmetric])
qed

lemma torn_refused:
  assumes "length raw < 65536"
  obtains e where "deserialize (frame raw) = Inl e" "is_exception e"
proof (cases "2 \<le> length raw")
  case False
  then have "deserialize (frame raw) = Inl (RuntimeError ''Malformed message: too short'')" by (simp add: deserialize_def)
  then show ?thesis by (rule that) simp
next
  case True
  define w :: "32 word" where "w = word_of_nat (length raw)"
  obtain r0 r1 rs where raw: "raw = r0 # r1 # rs" using True by (cases raw rule: remdups_adj.cases) auto
  have w: "unat w = length raw" using assms by (simp add: w_def unsigned_of_nat take_bit_eq_mod)
  have z: "ucast (drop_bit 24 w) = (0 :: byte)" "ucast (drop_bit 16 w) = (0 :: byte)"
    using w assms by (simp_all add: word_unat_eq_iff unat_byte)
  define v where "v = be32_word (ucast (drop_bit 8 w)) (ucast w) r0 r1"
  have f: "frame raw = [0, 0] @ be32_bytes v @ rs"
    unfolding frame_eq w_def [symmetric] v_def be32_bytes_of_word be32_bytes_def [of w] z by (simp add: raw)
  have "be32_bytes v = [ucast (drop_bit 8 w), ucast w, r0, r1]" by (simp add: v_def be32_bytes_of_word)
  then have "unat v div 65536 = unat w" by (intro high_half) (use w assms in \<open>simp_all add: be32_bytes_def\<close>)
  then have "length rs < unat v" using w raw by simp
  moreover have "read_u32 (frame raw) 2 = Inr v" unfolding f by (rule read_u32_append) simp
  ultimately have "deserialize_payload (frame raw) 2 = Inl (RuntimeError ''Malformed message: payload out of bounds'')"
    by (simp add: deserialize_payload_def f)
  moreover have "deserialize (frame raw) = deserialize_compact (frame raw) (MessageType_of_byte 0) 0"
    by (simp add: deserialize_def f at_def)
  ultimately have "deserialize (frame raw) = Inl (RuntimeError ''Malformed message: payload out of bounds'')"
    by (simp add: deserialize_compact_def)
  then show ?thesis by (rule that) simp
qed

lemma torn_ends_server:
  assumes "waiting wd fd" "length (frames_from wd fd ! wd_read wd fd) < 65536"
  shows "wd_error (world_step qt cenv senv (Torn fd) wd) \<noteq> None"
proof -
  obtain e where "deserialize (frame (frames_from wd fd ! wd_read wd fd)) = Inl e" by (rule torn_refused [OF assms(2)])
  then have "fst (on_tcp_data_received senv fd (frame (frames_from wd fd ! wd_read wd fd)) (wd_server wd)) = Inl e"
    by (simp add: on_tcp_data_received_def action_simps)
  with assms(1) show ?thesis
    by (cases "on_tcp_data_received senv fd (frame (frames_from wd fd ! wd_read wd fd)) (wd_server wd)") (simp add: server_gets_def)
qed

text \<open>
  C3: the program's own clients stop the server only by way of the transport. Start the server and any number of graphical clients, each with keys its constructor made, and
  let anything happen in any order: users enter names and type lines of up to 7000 characters, windows and queues run, and messages arrive at the server
  and at the clients whole or get lost. Then no exception ever leaves the server's callback, and every message a client has sent decodes. But if the next message of any
  client, of less than 64 KiB, arrives with its length in front of it, as a connection of the server delivers it when the bytes are split over two readiness
  events, an exception leaves the callback, which ends the server.
  The hypotheses bound the sizes of what the program does not contain: Qt's conversions, OpenSSL's keys and signatures, and the buffers its cipher fills.
\<close>

theorem honest_clients_keep_server_up:
  assumes "qt_sizes qt" "\<And>fd. short_cipher (cenv fd)" "\<And>fd. short_material (ce_ssl (cenv fd))"
    and "\<And>fd. \<exists>dhg idg fs. ClientContext_ctor (cenv fd) dhg idg fs = Inr (ctx fd)" "list_all short_world_event evs"
  shows "let wd = world_run qt cenv senv evs (new_world ctx) in
    wd_error wd = None \<and> (\<forall>fd raw. raw \<in> set (frames_from wd fd) \<longrightarrow> (\<exists>msg. deserialize raw = Inr msg)) \<and>
    (\<forall>fd. wd_read wd fd < length (frames_from wd fd) \<and> length (frames_from wd fd ! wd_read wd fd) < 65536 \<longrightarrow>
      wd_error (world_step qt cenv senv (Torn fd) wd) \<noteq> None)"
proof -
  let ?wd = "world_run qt cenv senv evs (new_world ctx)"
  have h: "honest_world qt ?wd" by (rule honest_world_run [OF assms(1-3, 5) honest_new_world [of cenv, OF assms(4)]])
  then have e: "wd_error ?wd = None" by (simp add: honest_world_def)
  have "\<exists>msg. deserialize raw = Inr msg" if "raw \<in> set (frames_from ?wd fd)" for fd raw
    by (rule honest_frames [OF h that]) (rule exI)
  moreover have "wd_error (world_step qt cenv senv (Torn fd) ?wd) \<noteq> None"
    if "wd_read ?wd fd < length (frames_from ?wd fd)" "length (frames_from ?wd fd ! wd_read ?wd fd) < 65536" for fd
    by (rule torn_ends_server [OF _ that(2)]) (use e that(1) in \<open>simp add: waiting_def\<close>)
  ultimately show ?thesis unfolding Let_def using e by blast
qed

lemma sample_sizes: "qt_sizes sample_qt" "short_material sample_ssl"
proof -
  have "length (dropWhile P (rev (dropWhile P str))) \<le> length str" for P and str :: qstring
    using length_dropWhile_le [of P "rev (dropWhile P str)"] length_dropWhile_le [of P str] by simp
  then show "qt_sizes sample_qt" by (simp add: qt_sizes_def sample_qt_def qlit_def)
qed (auto simp: short_material_def sample_ssl_def)

text \<open>The sample cipher with the size of an \<open>int\<close>.\<close>

definition sample_short :: client_env where
  "sample_short = sample_cenv\<lparr>ce_ssl := sample_ssl\<lparr>gcm_encrypt := (\<lambda>key iv aad pt n. (take INT_MAX pt, Some (replicate 16 9)))\<rparr>\<rparr>"

lemma sample_short_ok: "short_cipher sample_short" "short_material (ce_ssl sample_short)"
    "ClientContext_ctor sample_short (Inr 1) (Inr 2) sample_files = Inr (sample_contexts 5)"
proof -
  show "short_cipher sample_short" by (simp add: short_cipher_def sample_short_def sample_cenv_def)
  show "short_material (ce_ssl sample_short)" using sample_sizes(2) by (simp add: short_material_def sample_short_def)
  show "ClientContext_ctor sample_short (Inr 1) (Inr 2) sample_files = Inr (sample_contexts 5)"
    unfolding sample_contexts_ctor(1) [symmetric]
    by (simp add: sample_short_def ClientContext_ctor_def set_key_def DH_generate_def identity_generate_def sample_files_def file_exists_def
        identity_private_bytes_def sample_cenv_def sample_ssl_def Let_def)
qed

theorem honest_clients_keep_server_up_witness:
  "wd_error (world_run sample_qt (\<lambda>_. sample_short) sample_env2
     [At 7 NetInit, At 7 NetSetCallback, At 7 (EditNickname (qlit ''eve'')), At 7 (PressLogin []), At 7 (EditMessage (qlit ''/join nowhere'')), At 7 (PressSend []),
      At 7 (Deliver []), At 7 (Deliver []), Up 7, Down 7, At 7 (Deliver []), Vanished 7] (new_world (\<lambda>_. sample_contexts 5))) = None"
proof -
  have "\<exists>dhg idg fs. ClientContext_ctor sample_short dhg idg fs = Inr (sample_contexts 5)" using sample_short_ok(3) by blast
  then show ?thesis
    using honest_clients_keep_server_up [OF sample_sizes(1), of "\<lambda>_. sample_short" "\<lambda>_. sample_contexts 5"
        "[At 7 NetInit, At 7 NetSetCallback, At 7 (EditNickname (qlit ''eve'')), At 7 (PressLogin []), At 7 (EditMessage (qlit ''/join nowhere'')), At 7 (PressSend []),
          At 7 (Deliver []), At 7 (Deliver []), Up 7, Down 7, At 7 (Deliver []), Vanished 7]" sample_env2] sample_short_ok(1, 2)
    unfolding Let_def by (simp add: qlit_def del: fold_simps world_step.simps)
qed


section \<open>What a client can do to itself\<close>

lemma many_args_refused:
  assumes "255 \<le> length (pc_args cmd)"
  obtains e where "make_command_from_struct now cmd = Inl e"
proof (cases "make_command_from_struct now cmd")
  case (Inr msg)
  then have "unat (msg_metalen msg) = length (msg_metadata msg)"
    by (auto simp: make_command_from_struct_def set_payload_def compute_serialized_size_def Let_def bindr_eq_Inr split: if_splits)
  moreover have "unat (msg_metalen msg) < 256" using unsigned_less [of "msg_metalen msg"] by simp
  moreover have "256 \<le> length (msg_metadata msg)" using made_command(1) [OF Inr] assms by simp
  ultimately show ?thesis by simp
qed (rule that)

lemma insert_all_exception: "insert_all_metadata msg ms = Inl e \<Longrightarrow> is_exception e"
  by (induction msg ms rule: insert_all_metadata.induct)
    (auto simp: insert_metadata_def compute_serialized_size_def bindr_eq_Inl Let_def split: if_splits sum.splits)

lemma make_command_exception: "make_command_from_struct now cmd = Inl e \<Longrightarrow> is_exception e"
  by (auto simp: make_command_from_struct_def insert_metadata_def set_payload_def compute_serialized_size_def bindr_eq_Inl Let_def
      dest: insert_all_exception split: if_splits sum.splits)

text \<open>
  C36: a line of 256 words or more that begins with a slash and fits no template ends the client that typed it. The parser makes one metadata entry of every word,
  the count has eight bits, and the exception leaves the slot: nothing catches it there, and no later event changes the windows.
\<close>

theorem wordy_command_ends_client:
  assumes "gu_error g = None" "gu_queue g = SendToClient str # rest" "toStdString qt str = line" "line \<noteq> []" "hd line = CHR ''/''"
    and "\<not> cm_matched (match Parser_ctor line)" "256 \<le> length (stream_words line)"
  shows "\<exists>e. is_exception e \<and> gu_error (gui_step qt env (Deliver t) g) = Some e \<and>
    (\<forall>evs. gui_run qt env evs (gui_step qt env (Deliver t) g) = gui_step qt env (Deliver t) g)"
proof -
  obtain w rst where w: "stream_word line = Some (w, rst)" using assms(7) by (subst (asm) stream_words.simps) (auto split: option.splits)
  then have "255 \<le> length (pc_args (parse_line line))"
    using assms(4, 6, 7) by (subst (asm) stream_words.simps) (simp add: parse_line_def Let_def)
  then obtain e where e: "make_command_from_struct (ce_now env) (parse_line line) = Inl e" by (rule many_args_refused)
  then have "parse (ce_now env) line = Inl e" using assms(4, 5) by (simp add: parse_def)
  then have "gu_error (gui_step qt env (Deliver t) g) = Some e"
    using assms(1-3) by (simp add: gui_step_def deliver_signal_def run_client_def get_data_def andThen_eq lift_def Let_def)
  moreover have "gui_run qt env evs h = h" if "gu_error h = Some e" for evs h
    using that by (induction evs) (simp_all add: gui_step_def)
  ultimately show ?thesis using make_command_exception [OF e] by blast
qed

lemma stream_word_first:
  assumes "w \<noteq> []" "list_all (\<lambda>c. \<not> isspace c) w" "rest = [] \<or> isspace (hd rest)"
  shows "stream_word (w @ rest) = Some (w, rest)"
proof -
  have d: "dropWhile isspace (w @ rest) = w @ rest" using assms(1, 2) by (cases w) auto
  have "takeWhile (\<lambda>c. \<not> isspace c) (w @ rest) = w" "dropWhile (\<lambda>c. \<not> isspace c) (w @ rest) = rest"
    using assms(2, 3) by (cases rest; auto simp: takeWhile_append2 dropWhile_append2 list_all_iff)+
  with d assms(1) show ?thesis by (simp add: stream_word_def)
qed

lemma stream_words_unwords: "list_all (\<lambda>w. w \<noteq> [] \<and> list_all (\<lambda>c. \<not> isspace c) w) ws \<Longrightarrow> stream_words (unwords ws) = ws"
proof (induction ws rule: unwords.induct)
  case 1
  then show ?case by (subst stream_words.simps) (simp add: stream_word_def)
next
  case (2 w)
  then show ?case using stream_word_first [of w "[]"]
    by (subst stream_words.simps) (simp, subst stream_words.simps, simp add: stream_word_def)
next
  case (3 w v ws)
  have "stream_words ('' '' @ str) = stream_words str" for str
    by (subst (1 2) stream_words.simps) (simp add: stream_word_def isspace_def)
  with 3 stream_word_first [of w "'' '' @ unwords (v # ws)"] show ?case
    by (subst stream_words.simps) (simp add: isspace_def)
qed

theorem wordy_command_ends_client_witness:
  "gu_error (gui_step sample_qt sample_cenv (Deliver []) ((start_gui_client sample_client)\<lparr>gu_queue :=
     [SendToClient (qlit (unwords (''/a'' # replicate 255 ''b'')))]\<rparr>)) \<noteq> None"
proof -
  let ?line = "unwords (''/a'' # replicate 255 ''b'')"
  have "\<not> cm_matched (match_patterns Parser_ctor (''/a'' # ws))" for ws
    by (simp add: Parser_ctor_def default_command_catalog_def add_pattern_def compile_pattern_def compile_token_def ends_with_def split_tokens_def
        try_match_def no_match_def Let_def)
  moreover have "list_all plain (''/a'' # replicate 255 ''b'')" by (simp add: plain_def list_all_iff)
  ultimately have m: "\<not> cm_matched (match Parser_ctor ?line)" by (simp only: match_def split_tokens_unwords list.distinct not_False_eq_True)
  have "list_all (\<lambda>w. w \<noteq> [] \<and> list_all (\<lambda>c. \<not> isspace c) w) (''/a'' # replicate 255 ''b'')" by (simp add: list_all_iff isspace_def)
  then have n: "256 \<le> length (stream_words ?line)" by (simp only: stream_words_unwords) simp
  have "char_of (unat (word_of_nat (of_char c) :: 16 word)) = c" for c
  proof -
    have "of_char c mod (65536 :: nat) = of_char c" by (rule mod_less) (rule less_trans [OF nat_of_char_less_256], simp)
    then show ?thesis by (simp add: unsigned_of_nat take_bit_eq_mod)
  qed
  then have q: "toStdString sample_qt (qlit str) = str" for str by (simp add: sample_qt_def qlit_def comp_def)
  have h: "?line \<noteq> []" "hd ?line = CHR ''/''" by (cases "replicate 255 ''b''"; simp)+
  show ?thesis
    using wordy_command_ends_client [OF _ _ q h m n, of "(start_gui_client sample_client)\<lparr>gu_queue := [SendToClient (qlit ?line)]\<rparr>" "[]" sample_cenv "[]"]
    by (auto simp: start_gui_client_def simp del: unwords.simps)
qed

end
