(* ===== verification/Handle_Ownership.thy ===== *)
theory Handle_Ownership
  imports Messenger_Prelude
begin

text \<open>
  The classes that own something outside the program: \<open>IdentityKey\<close> and \<open>DH_Key\<close> hold a counted reference to an OpenSSL key
  (\<open>src/src/infrastructure/crypto/identity_key.cpp\<close>), \<open>Fd\<close> an open file descriptor (\<open>src/include/transport/interface.hpp\<close>). Each operation of a class
  is a function on the state of the program: what the objects hold and how often each handle is referenced. Names \<open>'v\<close>
  stand for the objects, \<open>None\<close> is an object that does not exist.
\<close>

section \<open>Holders of a handle\<close>

definition holders :: "('v \<rightharpoonup> 'p) \<Rightarrow> 'p \<Rightarrow> nat" where
  "holders objs p = card {v. objs v = Some p}"

lemma holders_update:
  assumes "finite (dom objs)"
  shows "int (holders (objs(v := x)) p) = int (holders objs p) - of_bool (objs v = Some p) + of_bool (x = Some p)"
proof -
  let ?H = "{u. objs u = Some p}"
  have fin: "finite ?H" by (rule finite_subset [OF _ assms]) auto
  have "{u. (objs(v := x)) u = Some p} = (if x = Some p then insert v (?H - {v}) else ?H - {v})" by auto
  moreover have "int (card (?H - {v})) = int (card ?H) - of_bool (objs v = Some p)"
    using fin card_gt_0_iff [of ?H] by (auto simp: card_Diff_singleton_if of_nat_diff Suc_leI)
  ultimately show ?thesis using fin by (auto simp: holders_def insert_absorb)
qed

lemma holders_pos:
  assumes "finite (dom objs)" "objs v = Some p"
  shows "0 < holders objs p"
proof -
  have "finite {u. objs u = Some p}" by (rule finite_subset [OF _ assms(1)]) auto
  with assms(2) show ?thesis unfolding holders_def by (auto simp: card_gt_0_iff)
qed

section \<open>Keys\<close>

text \<open>
  The reference count of a key is OpenSSL's: \<open>EVP_PKEY_up_ref\<close> and \<open>EVP_PKEY_free\<close> are parameters on a heap \<open>'h\<close>, and
  \<open>refs\<close> observes the count; a key whose count is zero is freed, and using it is undefined. \<open>Indeterminate\<close> is
  the value of a pointer that was never written.
\<close>

type_synonym key_handle = nat

datatype key_ptr = Indeterminate | Nullptr | Pkey key_handle

record 'h evp_keys =
  up_ref :: "key_handle \<Rightarrow> 'h \<Rightarrow> 'h"
  pkey_free :: "key_handle \<Rightarrow> 'h \<Rightarrow> 'h"
  refs :: "'h \<Rightarrow> key_handle \<Rightarrow> nat"

definition refcounting :: "'h evp_keys \<Rightarrow> bool" where
  "refcounting evp \<longleftrightarrow> (\<forall>h s. 0 < refs evp s h \<longrightarrow>
     refs evp (up_ref evp h s) = (refs evp s)(h := refs evp s h + 1) \<and>
     refs evp (pkey_free evp h s) = (refs evp s)(h := refs evp s h - 1))"

record ('v, 'h) keys =
  ks_heap :: 'h
  ks_objs :: "'v \<rightharpoonup> key_ptr"

definition EVP_PKEY_up_ref :: "'h evp_keys \<Rightarrow> key_handle \<Rightarrow> (unit, ('v, 'h) keys) action" where
  "EVP_PKEY_up_ref evp h s =
     (if refs evp (ks_heap s) h = 0 then (Inl (Undefined ''use of a freed key''), s)
      else (Inr (), s\<lparr>ks_heap := up_ref evp h (ks_heap s)\<rparr>))"

definition EVP_PKEY_free :: "'h evp_keys \<Rightarrow> key_handle \<Rightarrow> (unit, ('v, 'h) keys) action" where
  "EVP_PKEY_free evp h s =
     (if refs evp (ks_heap s) h = 0 then (Inl (Undefined ''use of a freed key''), s)
      else (Inr (), s\<lparr>ks_heap := pkey_free evp h (ks_heap s)\<rparr>))"

definition set_pkey :: "'v \<Rightarrow> key_ptr option \<Rightarrow> (unit, ('v, 'h) keys) action" where
  "set_pkey v p = modify (\<lambda>s. s\<lparr>ks_objs := (ks_objs s)(v := p)\<rparr>)"

text \<open>\<open>if (pkey_) f(pkey_)\<close>, where the pointer is the one of \<open>v\<close>.\<close>

definition with_pkey :: "'v \<Rightarrow> (key_handle \<Rightarrow> (unit, ('v, 'h) keys) action) \<Rightarrow> (unit, ('v, 'h) keys) action" where
  "with_pkey v f s = (case ks_objs s v of
       Some (Pkey h) \<Rightarrow> f h s
     | Some Nullptr \<Rightarrow> (Inr (), s)
     | Some Indeterminate \<Rightarrow> (Inl (Undefined ''indeterminate pointer''), s)
     | None \<Rightarrow> (Inl (Undefined ''object does not exist''), s))"

text \<open>
  The two classes have the same code; they differ in the declaration of the member: \<open>void *pkey_;\<close> in \<open>IdentityKey\<close>,
  \<open>void *pkey_ = nullptr;\<close> in \<open>DH_Key\<close>, which is the value a constructor that does not write it leaves.
\<close>

definition IdentityKey_pkey :: key_ptr where
  "IdentityKey_pkey = Indeterminate"

definition DH_Key_pkey :: key_ptr where
  "DH_Key_pkey = Nullptr"

definition key_ctor :: "'v \<Rightarrow> key_handle option \<Rightarrow> (unit, ('v, 'h) keys) action" where
  "key_ctor v p = set_pkey v (Some (case p of None \<Rightarrow> Nullptr | Some h \<Rightarrow> Pkey h))"

definition key_copy_ctor :: "'h evp_keys \<Rightarrow> key_ptr \<Rightarrow> 'v \<Rightarrow> 'v \<Rightarrow> (unit, ('v, 'h) keys) action" where
  "key_copy_ctor evp initial v key =
     andThen (set_pkey v (Some initial)) (\<lambda>_.
     with_pkey key (\<lambda>h. andThen (EVP_PKEY_up_ref evp h) (\<lambda>_. set_pkey v (Some (Pkey h)))))"

definition key_copy_assign :: "'h evp_keys \<Rightarrow> 'v \<Rightarrow> 'v \<Rightarrow> (unit, ('v, 'h) keys) action" where
  "key_copy_assign evp v other =
     with_pkey other (\<lambda>h. andThen (EVP_PKEY_up_ref evp h) (\<lambda>_. set_pkey v (Some (Pkey h))))"

definition take_pkey :: "'v \<Rightarrow> 'v \<Rightarrow> (unit, ('v, 'h) keys) action" where
  "take_pkey v other s = (case ks_objs s other of
       None \<Rightarrow> (Inl (Undefined ''object does not exist''), s)
     | Some p \<Rightarrow> andThen (set_pkey v (Some p)) (\<lambda>_. set_pkey other (Some Nullptr)) s)"

definition key_move_ctor :: "'v \<Rightarrow> 'v \<Rightarrow> (unit, ('v, 'h) keys) action" where
  "key_move_ctor v key = take_pkey v key"

definition key_move_assign :: "'h evp_keys \<Rightarrow> 'v \<Rightarrow> 'v \<Rightarrow> (unit, ('v, 'h) keys) action" where
  "key_move_assign evp v other =
     (if v \<noteq> other then andThen (with_pkey v (EVP_PKEY_free evp)) (\<lambda>_. take_pkey v other) else ret ())"

definition key_dtor :: "'h evp_keys \<Rightarrow> 'v \<Rightarrow> (unit, ('v, 'h) keys) action" where
  "key_dtor evp v = andThen (with_pkey v (EVP_PKEY_free evp)) (\<lambda>_. set_pkey v None)"

section \<open>Sequences of operations\<close>

text \<open>What a program can do with the objects of one class; \<open>initial\<close> is the value its constructors leave in the member.\<close>

datatype 'v key_op =
    Construct 'v "key_handle option"
  | CopyConstruct 'v 'v
  | CopyAssign 'v 'v
  | MoveConstruct 'v 'v
  | MoveAssign 'v 'v
  | Destroy 'v

fun key_run_op :: "'h evp_keys \<Rightarrow> key_ptr \<Rightarrow> 'v key_op \<Rightarrow> (unit, ('v, 'h) keys) action" where
  "key_run_op evp initial (Construct v p) = key_ctor v p"
| "key_run_op evp initial (CopyConstruct v w) = key_copy_ctor evp initial v w"
| "key_run_op evp initial (CopyAssign v w) = key_copy_assign evp v w"
| "key_run_op evp initial (MoveConstruct v w) = key_move_ctor v w"
| "key_run_op evp initial (MoveAssign v w) = key_move_assign evp v w"
| "key_run_op evp initial (Destroy v) = key_dtor evp v"

text \<open>
  What the language and the caller guarantee: constructors make a new object, the others act on existing ones, and a constructor from a
  pointer is given a reference that no other object holds.
\<close>

fun allowed :: "'h evp_keys \<Rightarrow> ('v, 'h) keys \<Rightarrow> 'v key_op \<Rightarrow> bool" where
  "allowed evp s (Construct v None) \<longleftrightarrow> ks_objs s v = None"
| "allowed evp s (Construct v (Some h)) \<longleftrightarrow> ks_objs s v = None \<and> holders (ks_objs s) (Pkey h) < refs evp (ks_heap s) h"
| "allowed evp s (CopyConstruct v w) \<longleftrightarrow> ks_objs s v = None \<and> ks_objs s w \<noteq> None"
| "allowed evp s (MoveConstruct v w) \<longleftrightarrow> ks_objs s v = None \<and> ks_objs s w \<noteq> None"
| "allowed evp s (CopyAssign v w) \<longleftrightarrow> ks_objs s v \<noteq> None \<and> ks_objs s w \<noteq> None"
| "allowed evp s (MoveAssign v w) \<longleftrightarrow> ks_objs s v \<noteq> None \<and> ks_objs s w \<noteq> None"
| "allowed evp s (Destroy v) \<longleftrightarrow> ks_objs s v \<noteq> None"

inductive key_runs :: "'h evp_keys \<Rightarrow> key_ptr \<Rightarrow> ('v, 'h) keys \<Rightarrow> 'v key_op list \<Rightarrow> unit cpp \<Rightarrow> ('v, 'h) keys \<Rightarrow> bool"
  for evp initial where
  runs_nil: "key_runs evp initial s [] (Inr ()) s"
| runs_step: "allowed evp s op \<Longrightarrow> key_run_op evp initial op s = (Inr (), s1) \<Longrightarrow> key_runs evp initial s1 ops r s' \<Longrightarrow>
    key_runs evp initial s (op # ops) r s'"
| runs_stop: "allowed evp s op \<Longrightarrow> key_run_op evp initial op s = (Inl e, s') \<Longrightarrow> key_runs evp initial s (op # ops) (Inl e) s'"

text \<open>The references to a key that no object holds. Every reference an object holds is counted, and no pointer is indeterminate.\<close>

definition spare :: "'h evp_keys \<Rightarrow> ('v, 'h) keys \<Rightarrow> key_handle \<Rightarrow> int" where
  "spare evp s h = int (refs evp (ks_heap s) h) - int (holders (ks_objs s) (Pkey h))"

definition key_inv :: "'h evp_keys \<Rightarrow> ('v, 'h) keys \<Rightarrow> bool" where
  "key_inv evp s \<longleftrightarrow> finite (dom (ks_objs s)) \<and> (\<forall>v. ks_objs s v \<noteq> Some Indeterminate) \<and> (\<forall>h. 0 \<le> spare evp s h)"

lemma key_inv_held:
  assumes "key_inv evp s" "ks_objs s v = Some (Pkey h)"
  shows "0 < refs evp (ks_heap s) h"
proof -
  have "0 \<le> spare evp s h" using assms(1) by (simp add: key_inv_def)
  moreover have "0 < holders (ks_objs s) (Pkey h)" using assms by (intro holders_pos) (auto simp: key_inv_def)
  ultimately show ?thesis by (simp add: spare_def)
qed

lemmas key_op_defs = key_ctor_def key_copy_ctor_def key_copy_assign_def key_move_ctor_def key_move_assign_def key_dtor_def take_pkey_def
  with_pkey_def set_pkey_def EVP_PKEY_up_ref_def EVP_PKEY_free_def andThen_def modify_def ret_def

text \<open>How each step of an operation changes the spare references.\<close>

lemma set_pkey_step:
  assumes "finite (dom (ks_objs s))"
  shows "\<exists>s'. set_pkey v x s = (Inr (), s') \<and> ks_objs s' = (ks_objs s)(v := x) \<and> finite (dom (ks_objs s')) \<and> ks_heap s' = ks_heap s \<and>
    (\<forall>h. spare evp s' h = spare evp s h + of_bool (ks_objs s v = Some (Pkey h)) - of_bool (x = Some (Pkey h)))"
  using assms by (simp add: set_pkey_def modify_def spare_def holders_update)

lemma up_ref_step:
  assumes "refcounting evp" "0 < refs evp (ks_heap s) h"
  shows "\<exists>s'. EVP_PKEY_up_ref evp h s = (Inr (), s') \<and> ks_objs s' = ks_objs s \<and> (\<forall>k. spare evp s' k = spare evp s k + of_bool (k = h))"
  using assms by (simp add: EVP_PKEY_up_ref_def spare_def refcounting_def)

lemma free_step:
  assumes "refcounting evp" "0 < refs evp (ks_heap s) h"
  shows "\<exists>s'. EVP_PKEY_free evp h s = (Inr (), s') \<and> ks_objs s' = ks_objs s \<and> (\<forall>k. spare evp s' k = spare evp s k - of_bool (k = h))"
  using assms by (auto simp: EVP_PKEY_free_def spare_def refcounting_def of_nat_diff)

text \<open>The pieces the operations are made of, on a state that satisfies the invariant.\<close>

lemma copy_step:
  assumes "refcounting evp" "key_inv evp s" "ks_objs s w \<noteq> None"
  shows "\<exists>s'. with_pkey w (\<lambda>h. andThen (EVP_PKEY_up_ref evp h) (\<lambda>_. set_pkey v (Some (Pkey h)))) s = (Inr (), s') \<and> key_inv evp s' \<and>
    (\<forall>h. spare evp s' h = spare evp s h + of_bool (ks_objs s v = Some (Pkey h) \<and> ks_objs s w \<noteq> Some Nullptr))"
proof (cases "ks_objs s w")
  case (Some p)
  show ?thesis
  proof (cases p)
    case (Pkey h)
    obtain s1 where s1: "EVP_PKEY_up_ref evp h s = (Inr (), s1)" "ks_objs s1 = ks_objs s" "\<And>k. spare evp s1 k = spare evp s k + of_bool (k = h)"
      using up_ref_step [OF assms(1) key_inv_held [OF assms(2)]] Some Pkey by blast
    obtain s2 where s2: "set_pkey v (Some (Pkey h)) s1 = (Inr (), s2)" "ks_objs s2 = (ks_objs s1)(v := Some (Pkey h))" "finite (dom (ks_objs s2))"
        "\<And>k. spare evp s2 k = spare evp s1 k + of_bool (ks_objs s1 v = Some (Pkey k)) - of_bool (Some (Pkey h) = Some (Pkey k))"
      using set_pkey_step [of s1 v "Some (Pkey h)" evp] s1(2) assms(2) by (auto simp: key_inv_def)
    have "spare evp s2 k = spare evp s k + of_bool (ks_objs s v = Some (Pkey k))" for k using s2(4) s1(2, 3) by auto
    moreover from this have "key_inv evp s2" using assms(2) s2(2, 3) s1(2) by (auto simp: key_inv_def)
    ultimately show ?thesis using Some Pkey s1(1) s2(1) by (simp add: with_pkey_def andThen_def)
  qed (use Some assms(2) in \<open>auto simp: with_pkey_def key_inv_def\<close>)
qed (use assms(3) in simp)

lemma release_step:
  assumes "refcounting evp" "key_inv evp s" "ks_objs s v \<noteq> None"
  shows "\<exists>s'. with_pkey v (EVP_PKEY_free evp) s = (Inr (), s') \<and> ks_objs s' = ks_objs s \<and>
    (\<forall>k. spare evp s' k = spare evp s k - of_bool (ks_objs s v = Some (Pkey k)))"
proof (cases "ks_objs s v")
  case (Some p)
  show ?thesis
  proof (cases p)
    case (Pkey h)
    have "0 < refs evp (ks_heap s) h" using key_inv_held [OF assms(2)] Some Pkey by simp
    from free_step [OF assms(1) this] Some Pkey show ?thesis by (force simp: with_pkey_def)
  qed (use Some assms(2) in \<open>auto simp: with_pkey_def key_inv_def\<close>)
qed (use assms(3) in simp)

lemma take_step:
  assumes "finite (dom (ks_objs s))" "ks_objs s w = Some p" "v \<noteq> w"
  shows "\<exists>s'. take_pkey v w s = (Inr (), s') \<and> ks_objs s' = (ks_objs s)(v := Some p, w := Some Nullptr) \<and>
    (\<forall>k. spare evp s' k = spare evp s k + of_bool (ks_objs s v = Some (Pkey k)))"
  using assms by (auto simp: take_pkey_def andThen_def set_pkey_def modify_def spare_def holders_update)

text \<open>One operation on such a state: it succeeds and keeps the invariant; the spare references of a key grow by one when an object that
  holds it is assigned a copy, shrink by one when one is handed to a constructor, and otherwise stay.\<close>

definition spare_change :: "('v, 'h) keys \<Rightarrow> 'v key_op \<Rightarrow> key_handle \<Rightarrow> int" where
  "spare_change s op h = (case op of
       Construct v p \<Rightarrow> - of_bool (p = Some h)
     | CopyAssign v w \<Rightarrow> of_bool (ks_objs s v = Some (Pkey h) \<and> ks_objs s w \<noteq> Some Nullptr)
     | _ \<Rightarrow> 0)"

lemma key_op_step:
  assumes "refcounting evp" "key_inv evp s" "allowed evp s op"
  shows "\<exists>s'. key_run_op evp Nullptr op s = (Inr (), s') \<and> key_inv evp s' \<and> (\<forall>h. spare evp s' h = spare evp s h + spare_change s op h)"
proof -
  have fin: "finite (dom (ks_objs s))" using assms(2) by (simp add: key_inv_def)
  show ?thesis
  proof (cases op)
    case (Construct v p)
    then have "ks_objs s v = None" "\<And>h. p = Some h \<Longrightarrow> 0 < spare evp s h" using assms(3) by (cases p; auto simp: spare_def)+
    with set_pkey_step [OF fin, of v "Some (case p of None \<Rightarrow> Nullptr | Some h \<Rightarrow> Pkey h)" evp] Construct assms(2) show ?thesis
      by (cases p) (auto simp: key_ctor_def key_inv_def spare_change_def)
  next
    case (CopyConstruct v w)
    then have vw: "ks_objs s v = None" "ks_objs s w \<noteq> None" "v \<noteq> w" using assms(3) by auto
    obtain s1 where s1: "set_pkey v (Some Nullptr) s = (Inr (), s1)" "ks_objs s1 = (ks_objs s)(v := Some Nullptr)" "finite (dom (ks_objs s1))"
        "\<And>k. spare evp s1 k = spare evp s k"
      using set_pkey_step [OF fin, of v "Some Nullptr" evp] vw(1) by auto
    then have "key_inv evp s1" "ks_objs s1 w \<noteq> None" "ks_objs s1 v = Some Nullptr" using assms(2) vw by (auto simp: key_inv_def)
    from copy_step [OF assms(1) this(1, 2), of v] this(3) s1(1, 4) CopyConstruct show ?thesis
      by (auto simp: key_copy_ctor_def andThen_def spare_change_def)
  next
    case (CopyAssign v w)
    then have "ks_objs s w \<noteq> None" using assms(3) by simp
    from copy_step [OF assms(1, 2) this, of v] CopyAssign show ?thesis by (auto simp: key_copy_assign_def spare_change_def)
  next
    case (MoveConstruct v w)
    then obtain p where vw: "ks_objs s v = None" "ks_objs s w = Some p" using assms(3) by auto
    then have "v \<noteq> w" by auto
    from take_step [OF fin vw(2) this, of evp] MoveConstruct vw assms(2) show ?thesis
      by (auto simp: key_move_ctor_def spare_change_def key_inv_def)
  next
    case (MoveAssign v w)
    show ?thesis
    proof (cases "v = w")
      case False
      obtain p where vw: "ks_objs s v \<noteq> None" "ks_objs s w = Some p" using assms(3) MoveAssign by auto
      obtain s1 where s1: "with_pkey v (EVP_PKEY_free evp) s = (Inr (), s1)" "ks_objs s1 = ks_objs s"
          "\<And>k. spare evp s1 k = spare evp s k - of_bool (ks_objs s v = Some (Pkey k))"
        using release_step [OF assms(1, 2) vw(1)] by blast
      with take_step [of s1 w p v evp] fin vw(2) False MoveAssign assms(2) show ?thesis
        by (auto simp: key_move_assign_def andThen_def spare_change_def key_inv_def)
    qed (use MoveAssign assms(2) in \<open>simp add: key_move_assign_def spare_change_def ret_def\<close>)
  next
    case (Destroy v)
    then have "ks_objs s v \<noteq> None" using assms(3) by simp
    from release_step [OF assms(1, 2) this] obtain s1 where s1: "with_pkey v (EVP_PKEY_free evp) s = (Inr (), s1)" "ks_objs s1 = ks_objs s"
        "\<And>k. spare evp s1 k = spare evp s k - of_bool (ks_objs s v = Some (Pkey k))" by blast
    from set_pkey_step [of s1 v None evp] fin s1 assms(2) Destroy show ?thesis
      by (auto simp: key_dtor_def andThen_def spare_change_def key_inv_def)
  qed
qed

text \<open>
  C20: no sequence of constructions, copies, moves, assignments and destructions of \<open>DH_Key\<close> objects uses a freed key or
  frees one twice, whatever the order: every operation succeeds, and every key that an object holds is counted at least once
  for each object that holds it.
\<close>

theorem dh_keys_safe:
  assumes "refcounting evp" "key_inv evp s" "key_runs evp DH_Key_pkey s ops r s'"
  shows "r = Inr () \<and> (\<forall>v h. ks_objs s' v = Some (Pkey h) \<longrightarrow> 0 < refs evp (ks_heap s') h \<and> holders (ks_objs s') (Pkey h) \<le> refs evp (ks_heap s') h)"
proof -
  from assms(3, 2) have "r = Inr () \<and> key_inv evp s'"
  proof (induction rule: key_runs.induct)
    case (runs_step s op s1 ops r s')
    then show ?case using key_op_step [OF assms(1) runs_step.prems runs_step.hyps(1)] by (auto simp: DH_Key_pkey_def)
  next
    case (runs_stop s op e s' ops)
    then show ?case using key_op_step [OF assms(1) runs_stop.prems runs_stop.hyps(1)] by (auto simp: DH_Key_pkey_def)
  qed simp
  moreover from this have "0 \<le> spare evp s' h" for h by (simp add: key_inv_def)
  ultimately show ?thesis using key_inv_held [of evp s'] by (auto simp: spare_def)
qed

definition sample_keys :: "(key_handle \<Rightarrow> nat) evp_keys" where
  "sample_keys = \<lparr>up_ref = \<lambda>h s. s(h := s h + 1), pkey_free = \<lambda>h s. s(h := s h - 1), refs = \<lambda>s. s\<rparr>"

definition sample_two_keys :: "(string, key_handle \<Rightarrow> nat) keys" where
  "sample_two_keys = \<lparr>ks_heap = (\<lambda>_. 0)(1 := 1, 2 := 1), ks_objs = [''a'' \<mapsto> Pkey 1, ''b'' \<mapsto> Pkey 2]\<rparr>"

lemma sample_refcounting: "refcounting sample_keys"
  by (simp add: refcounting_def sample_keys_def)

lemma sample_two_keys_inv: "key_inv sample_keys sample_two_keys"
proof -
  have "holders [''a'' \<mapsto> Pkey 1, ''b'' \<mapsto> Pkey 2] (Pkey h) = of_bool (h = 1) + of_bool (h = 2)" for h
  proof -
    have "holders Map.empty (Pkey h) = 0" by (simp add: holders_def)
    then have "int (holders [''a'' \<mapsto> Pkey 1, ''b'' \<mapsto> Pkey 2] (Pkey h)) = of_bool (h = 1) + of_bool (h = 2)" by (auto simp: holders_update)
    then show ?thesis by (cases "h = 1"; cases "h = 2") auto
  qed
  then show ?thesis by (simp add: key_inv_def spare_def sample_keys_def sample_two_keys_def)
qed

theorem dh_keys_safe_witness:
  "\<exists>r s'. key_runs sample_keys DH_Key_pkey sample_two_keys [CopyConstruct ''c'' ''a'', MoveAssign ''b'' ''c'', Destroy ''a''] r s' \<and> r = Inr () \<and>
    ks_objs s' ''b'' = Some (Pkey 1) \<and> 0 < refs sample_keys (ks_heap s') 1"
proof -
  have "\<exists>s'. key_runs sample_keys DH_Key_pkey sample_two_keys [CopyConstruct ''c'' ''a'', MoveAssign ''b'' ''c'', Destroy ''a''] (Inr ()) s' \<and>
      ks_objs s' ''b'' = Some (Pkey 1)"
    by (rule exI, rule conjI, (rule runs_step, simp add: sample_two_keys_def, simp add: key_op_defs sample_keys_def sample_two_keys_def DH_Key_pkey_def)+,
        rule runs_nil) simp
  then obtain s' where s': "key_runs sample_keys DH_Key_pkey sample_two_keys [CopyConstruct ''c'' ''a'', MoveAssign ''b'' ''c'', Destroy ''a''] (Inr ()) s'"
      "ks_objs s' ''b'' = Some (Pkey 1)" by blast
  with dh_keys_safe [OF sample_refcounting sample_two_keys_inv s'(1)] show ?thesis by blast
qed

text \<open>
  Copy assignment leaks the key the object held. The assignment operator takes a reference to the new key and does not
  give the old one back, so after \<open>a = b\<close> the count of the key \<open>a\<close> held stays positive through every later sequence of operations that does not
  construct an object from that very pointer, even when all objects have been destroyed.
\<close>

theorem copy_assign_leaks:
  assumes "refcounting evp" "key_inv evp s" "allowed evp s (CopyAssign v w)" "ks_objs s v = Some (Pkey h)" "ks_objs s w = Some (Pkey k)"
    and "key_runs evp DH_Key_pkey s (CopyAssign v w # ops) r s'" "\<forall>u. Construct u (Some h) \<notin> set ops"
  shows "r = Inr () \<and> 0 < refs evp (ks_heap s') h \<and> holders (ks_objs s') (Pkey h) < refs evp (ks_heap s') h"
proof -
  have grows: "r' = Inr () \<and> key_inv evp t' \<and> spare evp t h \<le> spare evp t' h"
    if "key_runs evp DH_Key_pkey t ops' r' t'" "key_inv evp t" "\<forall>u. Construct u (Some h) \<notin> set ops'" for t ops' r' t'
    using that
  proof (induction rule: key_runs.induct)
    case (runs_step t op t1 ops r t')
    have "key_inv evp t1" "spare evp t1 h = spare evp t h + spare_change t op h"
      using key_op_step [OF assms(1) runs_step.prems(1) runs_step.hyps(1)] runs_step.hyps(2) by (auto simp: DH_Key_pkey_def)
    moreover have "0 \<le> spare_change t op h" using runs_step.prems(2) by (auto simp: spare_change_def split: key_op.splits)
    ultimately show ?case using runs_step.IH runs_step.prems(2) by auto
  next
    case (runs_stop t op e t' ops)
    then show ?case using key_op_step [OF assms(1) runs_stop.prems(1) runs_stop.hyps(1)] by (auto simp: DH_Key_pkey_def)
  qed simp
  obtain s1 where s1: "key_run_op evp Nullptr (CopyAssign v w) s = (Inr (), s1)" "key_inv evp s1" "spare evp s1 h = spare evp s h + 1"
    using key_op_step [OF assms(1-3)] assms(4, 5) by (auto simp: spare_change_def)
  have "key_runs evp DH_Key_pkey s1 ops r s'"
    using assms(6) s1(1) by (cases rule: key_runs.cases) (auto simp: DH_Key_pkey_def)
  from grows [OF this s1(2) assms(7)] have "r = Inr ()" "spare evp s h + 1 \<le> spare evp s' h" using s1(3) by auto
  moreover have "0 \<le> spare evp s h" using assms(2) by (simp add: key_inv_def)
  ultimately show ?thesis by (simp add: spare_def)
qed

theorem copy_assign_leaks_witness:
  "\<exists>r s'. key_runs sample_keys DH_Key_pkey sample_two_keys [CopyAssign ''a'' ''b'', Destroy ''a'', Destroy ''b''] r s' \<and> ks_objs s' = Map.empty \<and>
    0 < refs sample_keys (ks_heap s') 1"
proof -
  have "\<exists>s'. key_runs sample_keys DH_Key_pkey sample_two_keys [CopyAssign ''a'' ''b'', Destroy ''a'', Destroy ''b''] (Inr ()) s' \<and> ks_objs s' = Map.empty"
    by (rule exI, rule conjI, (rule runs_step, simp add: sample_two_keys_def, simp add: key_op_defs sample_keys_def sample_two_keys_def DH_Key_pkey_def)+,
        rule runs_nil) auto
  moreover have "allowed sample_keys sample_two_keys (CopyAssign ''a'' ''b'')" "ks_objs sample_two_keys ''a'' = Some (Pkey 1)"
      "ks_objs sample_two_keys ''b'' = Some (Pkey 2)" by (simp_all add: sample_two_keys_def)
  ultimately show ?thesis
    using copy_assign_leaks [OF sample_refcounting sample_two_keys_inv, of "''a''" "''b''" 1 2 "[Destroy ''a'', Destroy ''b'']"] by fastforce
qed

text \<open>
  For \<open>IdentityKey\<close> the same holds as long as no key that holds nothing is copied: the copy constructor leaves the member unwritten, and
  the destructor of the copy reads it.
\<close>

lemma identity_copy_of_empty:
  assumes "ks_objs s w = Some Nullptr" "v \<noteq> w" "key_run_op evp IdentityKey_pkey (CopyConstruct v w) s = (r, s1)"
  shows "r = Inr () \<and> fst (key_run_op evp IdentityKey_pkey (Destroy v) s1) = Inl (Undefined ''indeterminate pointer'')"
  using assms by (auto simp: key_op_defs IdentityKey_pkey_def)

section \<open>File descriptors\<close>

text \<open>
  The kernel's descriptors and the objects. \<open>fs_closed\<close> lists the descriptors closed so far, a number once per closing; \<open>fs_bad\<close> records the calls
  of \<open>::close\<close> on a number that is not open. The kernel opens numbers (\<open>FdOpen\<close>: \<open>socket\<close>, \<open>accept\<close>), also numbers that were
  closed before.
\<close>

record 'v fds =
  fs_open :: "int set"
  fs_closed :: "int list"
  fs_bad :: "int list"
  fs_objs :: "'v \<rightharpoonup> int"

definition sys_close :: "int \<Rightarrow> 'v fds \<Rightarrow> 'v fds" where
  "sys_close fd s = (if fd \<in> fs_open s then s\<lparr>fs_open := fs_open s - {fd}, fs_closed := fs_closed s @ [fd]\<rparr> else s\<lparr>fs_bad := fs_bad s @ [fd]\<rparr>)"

definition set_fd :: "'v \<Rightarrow> int option \<Rightarrow> 'v fds \<Rightarrow> 'v fds" where
  "set_fd v x s = s\<lparr>fs_objs := (fs_objs s)(v := x)\<rparr>"

definition fd_of :: "'v fds \<Rightarrow> 'v \<Rightarrow> int" where
  "fd_of s v = (case fs_objs s v of None \<Rightarrow> - 1 | Some fd \<Rightarrow> fd)"

definition Fd_ctor :: "'v \<Rightarrow> int \<Rightarrow> 'v fds \<Rightarrow> 'v fds" where
  "Fd_ctor v fd s = set_fd v (Some fd) s"

definition Fd_move_ctor :: "'v \<Rightarrow> 'v \<Rightarrow> 'v fds \<Rightarrow> 'v fds" where
  "Fd_move_ctor v other s = set_fd other (Some (- 1)) (set_fd v (Some (fd_of s other)) s)"

definition reset_fd :: "'v \<Rightarrow> int \<Rightarrow> 'v fds \<Rightarrow> 'v fds" where
  "reset_fd v new_fd s = set_fd v (Some new_fd) (if fd_of s v \<noteq> - 1 then sys_close (fd_of s v) s else s)"

definition Fd_move_assign :: "'v \<Rightarrow> 'v \<Rightarrow> 'v fds \<Rightarrow> 'v fds" where
  "Fd_move_assign v other s =
     (if v \<noteq> other then let s1 = reset_fd v (- 1) s in set_fd other (Some (- 1)) (set_fd v (Some (fd_of s1 other)) s1) else s)"

definition Fd_dtor :: "'v \<Rightarrow> 'v fds \<Rightarrow> 'v fds" where
  "Fd_dtor v s = set_fd v None (reset_fd v (- 1) s)"

definition sys_open :: "int \<Rightarrow> 'v fds \<Rightarrow> 'v fds" where
  "sys_open fd s = s\<lparr>fs_open := insert fd (fs_open s)\<rparr>"

datatype 'v fd_op = FdOpen int | FdConstruct 'v int | FdMove 'v 'v | FdMoveAssign 'v 'v | FdReset 'v int | FdDestroy 'v

fun fd_run_op :: "'v fd_op \<Rightarrow> 'v fds \<Rightarrow> 'v fds" where
  "fd_run_op (FdOpen fd) = sys_open fd"
| "fd_run_op (FdConstruct v fd) = Fd_ctor v fd"
| "fd_run_op (FdMove v w) = Fd_move_ctor v w"
| "fd_run_op (FdMoveAssign v w) = Fd_move_assign v w"
| "fd_run_op (FdReset v fd) = reset_fd v fd"
| "fd_run_op (FdDestroy v) = Fd_dtor v"

text \<open>
  What the users of the class have to respect: a descriptor that is handed to an object is open and belongs to no other object. The kernel opens a
  number only if it is not open.
\<close>

definition fd_free :: "'v fds \<Rightarrow> int \<Rightarrow> bool" where
  "fd_free s fd \<longleftrightarrow> fd = - 1 \<or> fd \<in> fs_open s \<and> (\<forall>v. fs_objs s v \<noteq> Some fd)"

fun fd_allowed :: "'v fds \<Rightarrow> 'v fd_op \<Rightarrow> bool" where
  "fd_allowed s (FdOpen fd) \<longleftrightarrow> 0 \<le> fd \<and> fd \<notin> fs_open s"
| "fd_allowed s (FdConstruct v fd) \<longleftrightarrow> fs_objs s v = None \<and> fd_free s fd"
| "fd_allowed s (FdMove v w) \<longleftrightarrow> fs_objs s v = None \<and> fs_objs s w \<noteq> None"
| "fd_allowed s (FdMoveAssign v w) \<longleftrightarrow> fs_objs s v \<noteq> None \<and> fs_objs s w \<noteq> None"
| "fd_allowed s (FdReset v fd) \<longleftrightarrow> fs_objs s v \<noteq> None \<and> fd_free s fd"
| "fd_allowed s (FdDestroy v) \<longleftrightarrow> fs_objs s v \<noteq> None"

fun fd_run :: "'v fd_op list \<Rightarrow> 'v fds \<Rightarrow> 'v fds option" where
  "fd_run [] s = Some s"
| "fd_run (op # ops) s = (if fd_allowed s op then fd_run ops (fd_run_op op s) else None)"

definition held :: "'v fds \<Rightarrow> int set" where
  "held s = {fd. fd \<noteq> - 1 \<and> (\<exists>v. fs_objs s v = Some fd)}"

text \<open>Owners are unique, what they own is open, and no close has failed.\<close>

definition fd_inv :: "'v fds \<Rightarrow> bool" where
  "fd_inv s \<longleftrightarrow> held s \<subseteq> fs_open s \<and> (\<forall>v w fd. fs_objs s v = Some fd \<and> fs_objs s w = Some fd \<and> fd \<noteq> - 1 \<longrightarrow> v = w) \<and> fs_bad s = []"

lemmas fd_op_defs = sys_open_def Fd_ctor_def Fd_move_ctor_def Fd_move_assign_def reset_fd_def Fd_dtor_def sys_close_def set_fd_def fd_of_def Let_def

text \<open>The descriptors that are open and owned by nobody: opening adds one, an operation takes from them only what it is handed.\<close>

definition handed :: "'v fd_op \<Rightarrow> int set" where
  "handed op = (case op of FdConstruct v fd \<Rightarrow> {fd} - {- 1} | FdReset v fd \<Rightarrow> {fd} - {- 1} | _ \<Rightarrow> {})"

definition opened :: "'v fd_op \<Rightarrow> int set" where
  "opened op = (case op of FdOpen fd \<Rightarrow> {fd} | _ \<Rightarrow> {})"

definition unowned :: "'v fd_op list \<Rightarrow> int set \<Rightarrow> int set" where
  "unowned ops L = fold (\<lambda>op L. L \<union> opened op - handed op) ops L"

lemma fd_move_step:
  assumes "fd_inv s" "fs_objs s v = None \<or> fs_objs s v = Some (- 1)" "fs_objs s w = Some fd" "v \<noteq> w"
  shows "fd_inv (Fd_move_ctor v w s) \<and> fs_open (Fd_move_ctor v w s) = fs_open s \<and> held (Fd_move_ctor v w s) = held s"
proof -
  let ?s = "Fd_move_ctor v w s"
  have objs: "fs_objs ?s = (fs_objs s)(v := Some fd, w := Some (- 1))" "fs_open ?s = fs_open s" "fs_bad ?s = fs_bad s"
    using assms(3) by (simp_all add: fd_op_defs)
  have who: "fs_objs ?s u = Some x \<and> x \<noteq> - 1 \<longleftrightarrow> x \<noteq> - 1 \<and> (if u = v then x = fd else u \<noteq> w \<and> fs_objs s u = Some x)" for u x
    using assms(4) unfolding objs by auto
  have uniq: "fs_objs s u = Some x \<Longrightarrow> fs_objs s u' = Some x \<Longrightarrow> x \<noteq> - 1 \<Longrightarrow> u = u'" for u u' x
    using assms(1) by (auto simp: fd_inv_def)
  have v: "fs_objs s v = Some x \<Longrightarrow> x = - 1" for x using assms(2) by auto
  have "(\<exists>u. fs_objs ?s u = Some x \<and> x \<noteq> - 1) \<longleftrightarrow> (\<exists>u. fs_objs s u = Some x \<and> x \<noteq> - 1)" for x
    unfolding who using assms(3, 4) v by (metis option.inject)
  then have held: "held ?s = held s" by (auto simp: held_def)
  moreover have "u = u'" if "fs_objs ?s u = Some x" "fs_objs ?s u' = Some x" "x \<noteq> - 1" for u u' x
    using who [of u x] who [of u' x] that assms(3) uniq [of _ x] by (metis (full_types))
  ultimately show ?thesis using assms(1) objs(2, 3) by (auto simp: fd_inv_def)
qed

lemma fd_reset_step:
  assumes "fd_inv s" "fs_objs s v = Some old" "fd_free s fd"
  shows "fd_inv (reset_fd v fd s) \<and> fs_open (reset_fd v fd s) - held (reset_fd v fd s) = fs_open s - held s - ({fd} - {- 1})"
  using assms by (auto simp: fd_op_defs fd_inv_def held_def fd_free_def) (metis option.inject)+

lemma fd_destroy_step:
  assumes "fd_inv s" "fs_objs s v = Some old"
  shows "fd_inv (Fd_dtor v s) \<and> fs_open (Fd_dtor v s) - held (Fd_dtor v s) = fs_open s - held s"
  using assms by (auto simp: fd_op_defs fd_inv_def held_def) (metis option.inject)+

lemma fd_op_step:
  assumes "fd_inv s" "fd_allowed s op"
  shows "fd_inv (fd_run_op op s) \<and> fs_open (fd_run_op op s) - held (fd_run_op op s) = fs_open s - held s \<union> opened op - handed op"
proof (cases op)
  case (FdOpen fd)
  with assms show ?thesis by (auto simp: fd_op_defs fd_inv_def held_def handed_def opened_def)
next
  case (FdConstruct v fd)
  with assms have new: "fs_objs s u = Some x \<Longrightarrow> u \<noteq> v" for u x by auto
  with assms FdConstruct show ?thesis by (auto simp: fd_op_defs fd_inv_def held_def handed_def opened_def fd_free_def dest: new)
next
  case (FdMove v w)
  then obtain fd where "fs_objs s v = None" "fs_objs s w = Some fd" "v \<noteq> w" using assms(2) by fastforce
  with fd_move_step [OF assms(1), of v w fd] FdMove show ?thesis by (simp add: handed_def opened_def)
next
  case (FdMoveAssign v w)
  then obtain fd fd' where o: "fs_objs s v = Some fd" "fs_objs s w = Some fd'" using assms(2) by auto
  show ?thesis
  proof (cases "v = w")
    case False
    let ?s = "reset_fd v (- 1) s"
    have "Fd_move_assign v w s = Fd_move_ctor v w ?s" using False by (simp add: Fd_move_assign_def Fd_move_ctor_def Let_def)
    moreover have "fs_objs ?s v = Some (- 1)" "fs_objs ?s w = Some fd'" using o False by (auto simp: fd_op_defs)
    moreover have "fd_inv ?s \<and> fs_open ?s - held ?s = fs_open s - held s"
      using fd_reset_step [OF assms(1) o(1), of "- 1"] by (auto simp: fd_free_def)
    ultimately show ?thesis using fd_move_step [of ?s v w fd'] False FdMoveAssign by (simp add: handed_def opened_def)
  qed (use FdMoveAssign assms(1) in \<open>simp add: Fd_move_assign_def handed_def opened_def\<close>)
next
  case (FdReset v fd)
  then obtain fd' where "fs_objs s v = Some fd'" "fd_free s fd" using assms(2) by auto
  with fd_reset_step [OF assms(1)] FdReset show ?thesis by (simp add: handed_def opened_def)
next
  case (FdDestroy v)
  then obtain fd' where "fs_objs s v = Some fd'" using assms(2) by auto
  with fd_destroy_step [OF assms(1)] FdDestroy show ?thesis by (simp add: handed_def opened_def)
qed

text \<open>Every closing takes back an opening.\<close>

lemma close_count:
  "count_list (fs_closed (sys_close x s)) fd + of_bool (fd \<in> fs_open (sys_close x s)) = count_list (fs_closed s) fd + of_bool (fd \<in> fs_open s)"
  by (auto simp: sys_close_def)

lemma fd_op_count:
  assumes "fd_allowed s op"
  shows "count_list (fs_closed (fd_run_op op s)) fd + of_bool (fd \<in> fs_open (fd_run_op op s)) =
    count_list (fs_closed s) fd + of_bool (fd \<in> fs_open s) + of_bool (op = FdOpen fd)"
  using assms close_count [of _ s fd]
  by (cases op) (auto simp: sys_open_def Fd_ctor_def Fd_move_ctor_def Fd_move_assign_def Fd_dtor_def reset_fd_def set_fd_def Let_def)

text \<open>
  C23: a descriptor is closed at most once per opening, and only by its owner. Take any sequence of openings by the kernel, which may hand out a
  number again once it is closed, and of constructions, moves, resets and destructions of \<open>Fd\<close> objects, in which
  a descriptor is handed to an object only while it is open and owned by no other object. Then no \<open>close\<close> hits a number that is not
  open, no two objects own the same descriptor, each number has been closed as often as it was opened, less one if it is open now, and a
  descriptor that is open is owned by an object unless it has not been handed to one since it was opened: when all objects are
  gone, everything that was handed over is closed. The acceptor for UDP does not respect the condition
  (\<open>shared_descriptor_closed_early\<close> below).
\<close>

theorem descriptors_closed_once:
  assumes "fd_inv s" "fd_run ops s = Some s'"
  shows "fs_bad s' = [] \<and> (\<forall>v w fd. fs_objs s' v = Some fd \<and> fs_objs s' w = Some fd \<and> fd \<noteq> - 1 \<longrightarrow> v = w) \<and>
    (\<forall>fd. count_list (fs_closed s') fd + of_bool (fd \<in> fs_open s') =
      count_list (fs_closed s) fd + of_bool (fd \<in> fs_open s) + count_list ops (FdOpen fd)) \<and>
    fs_open s' = held s' \<union> unowned ops (fs_open s - held s)"
proof -
  from assms have "fd_inv s' \<and> fs_open s' - held s' = unowned ops (fs_open s - held s)"
  proof (induction ops arbitrary: s)
    case (Cons op ops)
    then have "fd_allowed s op" "fd_run ops (fd_run_op op s) = Some s'" by (auto split: if_splits)
    with Cons.IH [of "fd_run_op op s"] fd_op_step [OF Cons.prems(1), of op] show ?case by (simp add: unowned_def)
  qed (simp add: unowned_def)
  moreover from assms(2) have "count_list (fs_closed s') fd + of_bool (fd \<in> fs_open s') =
      count_list (fs_closed s) fd + of_bool (fd \<in> fs_open s) + count_list ops (FdOpen fd)" for fd
  proof (induction ops arbitrary: s)
    case (Cons op ops)
    then have "fd_allowed s op" "fd_run ops (fd_run_op op s) = Some s'" by (auto split: if_splits)
    with Cons.IH [of "fd_run_op op s"] fd_op_count [of s op fd] show ?case by simp
  qed simp
  ultimately show ?thesis by (auto simp: fd_inv_def)
qed

definition sample_fds :: "string fds" where
  "sample_fds = \<lparr>fs_open = {0}, fs_closed = [], fs_bad = [], fs_objs = Map.empty\<rparr>"

definition sample_fd_ops :: "string fd_op list" where
  "sample_fd_ops = [FdOpen 7, FdConstruct ''a'' 7, FdOpen 8, FdConstruct ''b'' 8, FdMoveAssign ''a'' ''b'', FdOpen 7, FdReset ''b'' 7,
     FdDestroy ''b'', FdDestroy ''a'']"

theorem descriptors_closed_once_witness:
  "\<exists>s'. fd_run sample_fd_ops sample_fds = Some s' \<and> fs_bad s' = [] \<and> fs_open s' = {0} \<and>
    count_list (fs_closed s') 7 = 2 \<and> count_list (fs_closed s') 8 = 1"
proof -
  have inv: "fd_inv sample_fds" by (simp add: fd_inv_def sample_fds_def held_def)
  have "\<exists>s'. fd_run sample_fd_ops sample_fds = Some s' \<and> held s' = {}"
    by (simp add: sample_fds_def sample_fd_ops_def fd_op_defs fd_free_def held_def)
  then obtain s' where s': "fd_run sample_fd_ops sample_fds = Some s'" "held s' = {}" by blast
  have "unowned sample_fd_ops (fs_open sample_fds - held sample_fds) = {0}"
    by (auto simp: unowned_def sample_fd_ops_def sample_fds_def held_def handed_def opened_def)
  moreover note all = descriptors_closed_once [OF inv s'(1)]
  ultimately have "fs_bad s' = [] \<and> fs_open s' = {0}" using s'(2) by simp
  moreover have count: "count_list (fs_closed s') fd + of_bool (fd \<in> fs_open s') =
      count_list (fs_closed sample_fds) fd + of_bool (fd \<in> fs_open sample_fds) + count_list sample_fd_ops (FdOpen fd)" for fd
    using all by blast
  ultimately show ?thesis using count [of 7] count [of 8] s'(1) by (simp add: sample_fds_def sample_fd_ops_def)
qed

text \<open>
  Handing one descriptor to two objects, as \<open>UDPAcceptor::accept\<close> does with the server's socket for every client it sees, breaks this: the first object to
  go closes it under the other, and the second closes a descriptor that is no longer its own.
\<close>

lemma shared_descriptor_closed_early:
  assumes "fs_objs s v = Some fd" "fs_objs s w = Some fd" "v \<noteq> w" "fd \<noteq> - 1" "fd \<in> fs_open s"
  shows "fd \<notin> fs_open (Fd_dtor v s) \<and> fs_objs (Fd_dtor v s) w = Some fd \<and> fs_bad (Fd_dtor w (Fd_dtor v s)) = fs_bad s @ [fd]"
  using assms by (simp add: fd_op_defs)

end
