(* ===== verification/Connection_Objects.thy ===== *)
theory Connection_Objects
  imports Transport
begin

text \<open>
  The connection classes as objects (\<open>src/src/transport/connection.cpp\<close>): their pointers to a transport and to a framer can be null, which the records of
  \<open>Transport\<close> leave out. Constructors, moves, and the methods of \<open>PeerConnection\<close>, whose code is that of \<open>ClientConnection\<close>. The lemmas say
  when an object behaves like the connection of \<open>Transport\<close> and when a call is undefined.
\<close>

record conn_object =
  co_fd :: int
  co_addr :: "sockaddr option"
  co_transport :: "ITransport option"
  co_recv_buffer :: bytes
  co_send_buffer :: bytes
  co_framer :: bool

section \<open>Constructors and moves\<close>

text \<open>\<open>ClientConnection(int)\<close> leaves the address indeterminate (\<open>None\<close>) and both pointers null.\<close>

definition client_conn_fd :: "int \<Rightarrow> conn_object" where
  "client_conn_fd fd = \<lparr>co_fd = fd, co_addr = None, co_transport = None, co_recv_buffer = [], co_send_buffer = [], co_framer = False\<rparr>"

definition client_conn_addr :: "int \<Rightarrow> sockaddr \<Rightarrow> conn_object" where
  "client_conn_addr fd addr = (client_conn_fd fd)\<lparr>co_addr := Some addr, co_framer := True\<rparr>"

definition PeerConnection_ctor :: "int \<Rightarrow> sockaddr \<Rightarrow> conn_object" where
  "PeerConnection_ctor fd addr = (client_conn_fd fd)\<lparr>co_addr := Some addr, co_transport := Some (create_tcp fd)\<rparr>"

text \<open>
  A move: the new object and the one moved from, whose vectors hold \<open>left\<close> afterwards, which the standard does not specify for the assignment.
  The assignment closes the descriptor the target held.
\<close>

definition moved_from :: "bytes \<times> bytes \<Rightarrow> conn_object \<Rightarrow> conn_object" where
  "moved_from left other = other\<lparr>co_fd := - 1, co_transport := None, co_recv_buffer := fst left, co_send_buffer := snd left, co_framer := False\<rparr>"

definition conn_move_ctor :: "conn_object \<Rightarrow> conn_object \<times> conn_object" where
  "conn_move_ctor other = (other, moved_from ([], []) other)"

definition conn_move_assign :: "bytes \<times> bytes \<Rightarrow> bool \<Rightarrow> conn_object \<Rightarrow> conn_object \<Rightarrow> conn_object \<times> conn_object \<times> int list" where
  "conn_move_assign left same this other =
     (if same then (this, other, [])
      else (other, moved_from left other, if co_fd this = - 1 then [] else [co_fd this]))"

section \<open>Methods\<close>

definition obj_has_complete_message :: "conn_object \<Rightarrow> bool cpp" where
  "obj_has_complete_message c = (if \<not> co_framer c then Inl (Undefined ''null framer'') else Inr (has_message_in_buffer (co_recv_buffer c)))"

definition obj_flush :: "io \<Rightarrow> conn_object \<Rightarrow> bool cpp \<times> bytes \<times> conn_object" where
  "obj_flush i c =
     (if co_send_buffer c = [] then (Inr True, [], c)
      else case co_transport c of
        None \<Rightarrow> (Inl (Undefined ''null transport''), [], c)
      | Some t \<Rightarrow> (let (sent, wire) = transport_send i t (co_send_buffer c) in
          if sent > 0 then
            (if nat sent > length (co_send_buffer c) then (Inl (Undefined ''erase past the end''), wire, c)
             else (Inr (drop (nat sent) (co_send_buffer c) = []), wire, c\<lparr>co_send_buffer := drop (nat sent) (co_send_buffer c)\<rparr>))
          else (Inr (sent = - 1 \<and> io_errno_again i), wire, c)))"

definition obj_init_transport :: "ITransport \<Rightarrow> conn_object \<Rightarrow> conn_object" where
  "obj_init_transport t c = c\<lparr>co_transport := Some t\<rparr>"

definition obj_try_receive :: "io \<Rightarrow> (bool, conn_object) action" where
  "obj_try_receive i c = (case co_transport c of
       None \<Rightarrow> (Inl (Undefined ''null transport''), c)
     | Some t \<Rightarrow> (case transport_receive i t of
         (Inl e, t') \<Rightarrow> (Inl e, c\<lparr>co_transport := Some t'\<rparr>)
       | (Inr result, t') \<Rightarrow> (Inr (received_ok result),
           c\<lparr>co_transport := Some t', co_recv_buffer := co_recv_buffer c @ nb_bytes (rr_data result)\<rparr>)))"

definition obj_extract_message :: "(bytes, conn_object) action" where
  "obj_extract_message c =
     (if \<not> co_framer c then (Inl (Undefined ''null framer''), c)
      else case extract_message (co_recv_buffer c) of
        Inl e \<Rightarrow> (Inl e, c) | Inr (msg, left) \<Rightarrow> (Inr msg, c\<lparr>co_recv_buffer := left\<rparr>))"

definition obj_queue_send :: "bytes \<Rightarrow> (unit, conn_object) action" where
  "obj_queue_send data c =
     (if \<not> co_framer c then (Inl (Undefined ''null framer''), c)
      else (Inr (), c\<lparr>co_send_buffer := form_message data (co_send_buffer c)\<rparr>))"

definition obj_get_addr :: "conn_object \<Rightarrow> sockaddr cpp" where
  "obj_get_addr c = (case co_addr c of None \<Rightarrow> Inl (Undefined ''indeterminate address'') | Some a \<Rightarrow> Inr a)"

definition obj_get_fd :: "conn_object \<Rightarrow> int" where
  "obj_get_fd c = co_fd c"

section \<open>Usable objects are connections\<close>

text \<open>An object with a framer and a transport, as the record of \<open>Transport\<close> and back.\<close>

definition as_connection :: "conn_object \<Rightarrow> ClientConnection option" where
  "as_connection c = (if co_framer c
     then map_option (\<lambda>t. \<lparr>cn_fd = co_fd c, cn_transport = t, cn_recv_buffer = co_recv_buffer c, cn_send_buffer = co_send_buffer c\<rparr>) (co_transport c)
     else None)"

definition put_connection :: "ClientConnection \<Rightarrow> conn_object \<Rightarrow> conn_object" where
  "put_connection cn c = c\<lparr>co_fd := cn_fd cn, co_transport := Some (cn_transport cn), co_recv_buffer := cn_recv_buffer cn, co_send_buffer := cn_send_buffer cn\<rparr>"

lemma accepted_connection: "as_connection (obj_init_transport t (client_conn_addr fd addr)) = Some (init_transport t (ClientConnection_ctor fd t))"
  by (simp add: as_connection_def obj_init_transport_def client_conn_addr_def client_conn_fd_def init_transport_def ClientConnection_ctor_def)

lemma usable_object:
  assumes "as_connection c = Some cn"
  shows "obj_flush i c = (let (r, wire, cn') = conn_flush i cn in (r, wire, put_connection cn' c))"
    and "obj_try_receive i c = (let (r, cn') = conn_try_receive i cn in (r, put_connection cn' c))"
    and "obj_has_complete_message c = Inr (conn_has_complete_message cn)"
    and "obj_extract_message c = (let (r, cn') = conn_extract_message cn in (r, put_connection cn' c))"
    and "obj_queue_send data c = (Inr (), put_connection (conn_queue_send data cn) c)"
    and "as_connection (put_connection cn' c) = Some cn'"
proof -
  obtain t where t: "co_framer c" "co_transport c = Some t"
      "cn = \<lparr>cn_fd = co_fd c, cn_transport = t, cn_recv_buffer = co_recv_buffer c, cn_send_buffer = co_send_buffer c\<rparr>"
    using assms by (auto simp: as_connection_def split: if_splits)
  show "obj_flush i c = (let (r, wire, cn') = conn_flush i cn in (r, wire, put_connection cn' c))"
    using t by (auto simp: obj_flush_def conn_flush_def flush_buffer_def put_connection_def Let_def split: prod.splits)
  show "obj_try_receive i c = (let (r, cn') = conn_try_receive i cn in (r, put_connection cn' c))"
    using t by (auto simp: obj_try_receive_def conn_try_receive_def put_connection_def Let_def split: prod.splits sum.splits)
  show "obj_has_complete_message c = Inr (conn_has_complete_message cn)"
    using t by (simp add: obj_has_complete_message_def conn_has_complete_message_def)
  show "obj_extract_message c = (let (r, cn') = conn_extract_message cn in (r, put_connection cn' c))"
    using t by (auto simp: obj_extract_message_def conn_extract_message_def put_connection_def Let_def split: prod.splits sum.splits)
  show "obj_queue_send data c = (Inr (), put_connection (conn_queue_send data cn) c)"
    using t by (simp add: obj_queue_send_def conn_queue_send_def put_connection_def)
  show "as_connection (put_connection cn' c) = Some cn'"
    using t by (simp add: as_connection_def put_connection_def)
qed

text \<open>A move keeps the connection and leaves an object that holds nothing; the assignment closes the target's descriptor and no other.\<close>

lemma move_keeps_connection:
  "as_connection (fst (conn_move_ctor c)) = as_connection c" "as_connection (snd (conn_move_ctor c)) = None" "obj_get_fd (snd (conn_move_ctor c)) = - 1"
  "conn_move_assign left False this c = (c', o', closed) \<Longrightarrow> as_connection c' = as_connection c \<and> as_connection o' = None \<and>
     (\<forall>fd. fd \<in> set closed \<longleftrightarrow> fd = obj_get_fd this \<and> fd \<noteq> - 1)"
  by (auto simp: conn_move_ctor_def conn_move_assign_def moved_from_def as_connection_def obj_get_fd_def split: if_splits)

text \<open>\<open>PeerConnection\<close> never gets a framer: whatever is done with it before, asking for a message, taking one or sending one is undefined.\<close>

datatype conn_call = CallFlush io | CallReceive io | CallInit ITransport

fun conn_do :: "conn_call \<Rightarrow> conn_object \<Rightarrow> conn_object" where
  "conn_do (CallFlush i) c = snd (snd (obj_flush i c))"
| "conn_do (CallReceive i) c = snd (obj_try_receive i c)"
| "conn_do (CallInit t) c = obj_init_transport t c"

lemma conn_do_framer: "co_framer (conn_do call c) = co_framer c"
  by (cases call) (auto simp: obj_flush_def obj_try_receive_def obj_init_transport_def Let_def split: option.splits prod.splits sum.splits)

lemma peer_connection_without_framer:
  "let c = fold conn_do calls (PeerConnection_ctor fd addr) in
   obj_has_complete_message c = Inl (Undefined ''null framer'') \<and> fst (obj_extract_message c) = Inl (Undefined ''null framer'') \<and>
   fst (obj_queue_send data c) = Inl (Undefined ''null framer'')"
proof -
  have "co_framer (fold conn_do calls c) = co_framer c" for c by (induction calls arbitrary: c) (simp_all add: conn_do_framer)
  then show ?thesis
    by (simp add: PeerConnection_ctor_def client_conn_fd_def obj_has_complete_message_def obj_extract_message_def obj_queue_send_def Let_def)
qed

end
