(* ===== verification/Utilities.thy ===== *)
theory Utilities
  imports Messenger_Prelude
begin

text \<open>
  The small header-only utilities: the hash of byte vectors (\<open>src/include/bytes_hash.hpp\<close>), by which the maps keyed by user name
  and the message queue are indexed, the Base64 wrapper (\<open>src/include/utils/base64.hpp\<close>) and the event stream
  (\<open>Stream\<close> of \<open>src/include/application/services/services_common.hpp\<close>).
\<close>

section \<open>The hash of a byte vector\<close>

definition fnv_offset :: "64 word" where
  "fnv_offset = 0xcbf29ce484222325"

definition fnv_prime :: "64 word" where
  "fnv_prime = 0x100000001b3"

definition bytes_hash :: "bytes \<Rightarrow> 64 word" where
  "bytes_hash v = foldl (\<lambda>h b. (h XOR ucast b) * fnv_prime) fnv_offset v"

text \<open>The inverse of the multiplier modulo \<open>2 ^ 64\<close>: multiplying by it undoes a round.\<close>

definition fnv_inverse :: "64 word" where
  "fnv_inverse = 0xce965057aff6957b"

lemma fnv_inverse: "fnv_prime * fnv_inverse = 1"
  by (simp add: fnv_prime_def fnv_inverse_def)

lemma fnv_round_inject: "(h XOR x) * fnv_prime = (h' XOR x') * fnv_prime \<longleftrightarrow> h XOR x = h' XOR x'"
proof
  assume "(h XOR x) * fnv_prime = (h' XOR x') * fnv_prime"
  from arg_cong [OF this, of "\<lambda>t. t * fnv_inverse"]
  have "(h XOR x) * (fnv_prime * fnv_inverse) = (h' XOR x') * (fnv_prime * fnv_inverse)"
    by (simp only: mult.assoc)
  then show "h XOR x = h' XOR x'" by (simp add: fnv_inverse)
qed simp

lemma xor_cancel: "h XOR x = h XOR y \<longleftrightarrow> x = (y :: 64 word)" "x XOR h = y XOR h \<longleftrightarrow> x = (y :: 64 word)"
  by (metis xor.left_commute xor_self_eq xor.right_neutral xor.commute)+

lemma hash_suffix:
  "foldl (\<lambda>h b. (h XOR ucast b) * fnv_prime) h s = foldl (\<lambda>h b. (h XOR ucast b) * fnv_prime) h' s \<longleftrightarrow> h = h'"
  for s :: bytes
proof (induction s arbitrary: h h')
  case (Cons b s)
  have "foldl (\<lambda>h b. (h XOR ucast b) * fnv_prime) h (b # s) = foldl (\<lambda>h b. (h XOR ucast b) * fnv_prime) h' (b # s)
      \<longleftrightarrow> (h XOR ucast b) * fnv_prime = (h' XOR ucast b) * fnv_prime"
    using Cons.IH [of "(h XOR ucast b) * fnv_prime" "(h' XOR ucast b) * fnv_prime"] by simp
  also have "\<dots> \<longleftrightarrow> h = h'"
    unfolding fnv_round_inject by (rule xor_cancel)
  finally show ?case .
qed simp

lemma ucast_byte_inject: "(ucast (x :: byte) :: 64 word) = ucast y \<longleftrightarrow> x = y"
proof
  assume eq: "(ucast x :: 64 word) = ucast y"
  show "x = y"
  proof (rule bit_word_eqI)
    fix n assume "n < LENGTH(8)"
    then show "bit x n = bit y n" using arg_cong [OF eq, of "\<lambda>w. bit w n"] by (simp add: bit_simps)
  qed
qed simp

text \<open>
  Byte vectors that differ in one byte never share a hash value, and appending the same bytes to two vectors makes their
  hashes equal exactly when they were equal before: each round of the loop is a bijection of the 64-bit state.
\<close>

theorem bytes_hash_injective:
  "(bytes_hash (p @ x # s) = bytes_hash (p @ y # s) \<longleftrightarrow> x = y) \<and>
   (bytes_hash (v @ s) = bytes_hash (w @ s) \<longleftrightarrow> bytes_hash v = bytes_hash w)"
  by (simp add: bytes_hash_def hash_suffix fnv_round_inject xor_cancel ucast_byte_inject)

section \<open>Base64\<close>

text \<open>
  \<open>EVP_EncodeBlock\<close> and \<open>EVP_DecodeBlock\<close> are parameters: what the first writes before the terminating zero, and what the second writes or
  \<open>None\<close> when it returns a negative number. Their lengths are \<open>int\<close>s; writing past the buffer the caller made is undefined, and
  a negative size given to a vector throws.
\<close>

record evp_block =
  EVP_EncodeBlock :: "bytes \<Rightarrow> int \<Rightarrow> string"
  EVP_DecodeBlock :: "string \<Rightarrow> int \<Rightarrow> bytes option"

text \<open>The conversion of a size to \<open>int\<close>.\<close>

definition to_int :: "nat \<Rightarrow> int" where
  "to_int n = sint (word_of_nat n :: 32 word)"

definition base64_encode :: "evp_block \<Rightarrow> bytes \<Rightarrow> string cpp" where
  "base64_encode evp binary =
     (if binary = [] then Inr []
      else let encoded_len = to_int (4 * ((length binary + 2) div 3)) in
        if encoded_len + 1 < 0 then Inl (LengthError ''vector'')
        else let written = EVP_EncodeBlock evp binary (to_int (length binary)) in
          if int (length written) > encoded_len then Inl (Undefined ''write past the end of the buffer'')
          else Inr written)"

definition base64_padding :: "string \<Rightarrow> int" where
  "base64_padding text =
     (if text \<noteq> [] \<and> last text = CHR ''='' then 1 else 0) +
     (if length text > 1 \<and> text ! (length text - 2) = CHR ''='' then 1 else 0)"

definition base64_decode :: "evp_block \<Rightarrow> string \<Rightarrow> bytes cpp" where
  "base64_decode evp base64_text =
     (if base64_text = [] then Inr []
      else case EVP_DecodeBlock evp base64_text (to_int (length base64_text)) of
        None \<Rightarrow> Inr []
      | Some decoded \<Rightarrow>
         (let len = int (length decoded); padding = base64_padding base64_text in
          if length decoded > length base64_text then Inl (Undefined ''write past the end of the buffer'')
          else if len - padding < 0 then Inl (LengthError ''resize'')
          else Inr (take (nat (len - padding)) decoded)))"

text \<open>
  The documented behaviour: four characters for every three bytes, the last group padded with \<open>=\<close>, and decoding that gives three
  bytes for every four characters, the missing ones zero.
\<close>

definition pad_of :: "nat \<Rightarrow> nat" where
  "pad_of n = (3 - n mod 3) mod 3"

definition block_coding :: "evp_block \<Rightarrow> bool" where
  "block_coding evp \<longleftrightarrow> (\<forall>data. data \<noteq> [] \<and> length data < 1000000000 \<longrightarrow>
     (let text = EVP_EncodeBlock evp data (int (length data)); n = length text in
      n = 4 * ((length data + 2) div 3) \<and>
      (text ! (n - 1) = CHR ''='' \<longleftrightarrow> pad_of (length data) \<ge> 1) \<and> (text ! (n - 2) = CHR ''='' \<longleftrightarrow> pad_of (length data) = 2) \<and>
      EVP_DecodeBlock evp text (int n) = Some (data @ replicate (pad_of (length data)) 0)))"

lemma to_int_small: "n < 2147483648 \<Longrightarrow> to_int n = int n"
  by (simp add: to_int_def signed_of_nat signed_take_bit_int_eq_self)

lemma pad_of_cases: "n mod 3 = 0 \<and> pad_of n = 0 \<or> n mod 3 = 1 \<and> pad_of n = 2 \<or> n mod 3 = 2 \<and> pad_of n = 1"
proof -
  have "n mod 3 < 3" by simp
  then consider "n mod 3 = 0" | "n mod 3 = 1" | "n mod 3 = 2" by linarith
  then show ?thesis by cases (simp_all add: pad_of_def)
qed

lemma pad_of_3 [simp]: "pad_of (Suc (Suc (Suc n))) = pad_of n"
proof -
  have "Suc (Suc (Suc n)) mod 3 = n mod 3" by presburger
  then show ?thesis by (simp add: pad_of_def)
qed

lemma pad_of_sum: "n + pad_of n = 3 * ((n + 2) div 3)"
proof -
  have "n mod 3 = 0 \<Longrightarrow> n = 3 * ((n + 2) div 3)" "n mod 3 = 1 \<Longrightarrow> n + 2 = 3 * ((n + 2) div 3)" "n mod 3 = 2 \<Longrightarrow> n + 1 = 3 * ((n + 2) div 3)"
    by presburger+
  then show ?thesis using pad_of_cases [of n] by fastforce
qed

lemma groups_pos: "0 < n \<Longrightarrow> 4 \<le> 4 * ((n + 2) div 3)" for n :: nat
  by presburger

text \<open>
  Decoding what was encoded gives the bytes back: the correction of the length by the number of trailing \<open>=\<close> removes exactly
  the zero bytes that OpenSSL's block decoder leaves, for every input of less than \<open>10 ^ 9\<close> bytes, and no step throws.
\<close>

theorem base64_roundtrip:
  assumes "block_coding evp" "length binary < 1000000000"
  shows "\<exists>enc. base64_encode evp binary = Inr enc \<and> length enc = 4 * ((length binary + 2) div 3) \<and> base64_decode evp enc = Inr binary"
proof (cases "binary = []")
  case False
  let ?n = "length binary"
  define enc where "enc = EVP_EncodeBlock evp binary (int ?n)"
  have t: "length enc = 4 * ((?n + 2) div 3)" "enc ! (length enc - 1) = CHR ''='' \<longleftrightarrow> pad_of ?n \<ge> 1"
      "enc ! (length enc - 2) = CHR ''='' \<longleftrightarrow> pad_of ?n = 2"
      "EVP_DecodeBlock evp enc (int (length enc)) = Some (binary @ replicate (pad_of ?n) 0)"
    using assms(1) [unfolded block_coding_def Let_def, rule_format, OF conjI [OF False assms(2)]] unfolding enc_def by blast+
  have small: "4 * ((?n + 2) div 3) < 2147483648" using assms(2) by linarith
  have "base64_encode evp binary = Inr enc"
    using False small t(1) assms(2) by (simp add: base64_encode_def to_int_small enc_def Let_def)
  moreover have "base64_decode evp enc = Inr binary"
  proof -
    have "?n > 0" using False by simp
    from groups_pos [OF this] have len: "length enc \<ge> 4" "?n + pad_of ?n \<le> length enc"
      using t(1) pad_of_sum [of ?n] by linarith+
    moreover have "last enc = enc ! (length enc - 1)" using len(1) by (intro last_conv_nth) auto
    ultimately have "base64_padding enc = int (pad_of ?n)"
      using t(2, 3) pad_of_cases [of ?n] by (auto simp: base64_padding_def)
    moreover have "enc \<noteq> []" using len(1) by auto
    ultimately show ?thesis using t(4) len small t(1) by (simp add: base64_decode_def to_int_small Let_def)
  qed
  ultimately show ?thesis using t(1) by blast
qed (simp add: base64_encode_def base64_decode_def)

text \<open>The coding itself, to show that the hypothesis can hold.\<close>

definition b64_alphabet :: string where
  "b64_alphabet = ''ABCDEFGHIJKLMNOPQRSTUVWXYZabcdefghijklmnopqrstuvwxyz0123456789+/''"

definition b64_index :: "char \<Rightarrow> nat" where
  "b64_index c = length (takeWhile (\<lambda>d. d \<noteq> c) b64_alphabet) mod 64"

fun b64_group :: "nat \<Rightarrow> string" where
  "b64_group v = map (\<lambda>i. b64_alphabet ! (v div 64 ^ i mod 64)) [3, 2, 1, 0]"

definition triple :: "byte \<Rightarrow> byte \<Rightarrow> byte \<Rightarrow> nat" where
  "triple a b c = unat a * 65536 + unat b * 256 + unat c"

fun b64_blocks :: "bytes \<Rightarrow> string" where
  "b64_blocks [] = []"
| "b64_blocks [a] = take 2 (b64_group (triple a 0 0)) @ ''==''"
| "b64_blocks [a, b] = take 3 (b64_group (triple a b 0)) @ ''=''"
| "b64_blocks (a # b # c # r) = b64_group (triple a b c) @ b64_blocks r"

fun b64_unblocks :: "string \<Rightarrow> bytes" where
  "b64_unblocks (w # x # y # z # r) =
     (let v = b64_index w * 262144 + b64_index x * 4096 + b64_index y * 64 + b64_index z in
      [word_of_nat (v div 65536), word_of_nat (v div 256 mod 256), word_of_nat (v mod 256)] @ b64_unblocks r)"
| "b64_unblocks _ = []"

definition sample_evp :: evp_block where
  "sample_evp = \<lparr>EVP_EncodeBlock = \<lambda>d n. b64_blocks (take (nat n) d), EVP_DecodeBlock = \<lambda>t n. Some (b64_unblocks (take (nat n) t))\<rparr>"

lemma b64_index_pad: "b64_index CHR ''='' = 0"
  by (simp add: b64_index_def b64_alphabet_def)

lemma b64_index_nth: "k < 64 \<Longrightarrow> b64_index (b64_alphabet ! k) = k \<and> b64_alphabet ! k \<noteq> CHR ''=''"
proof -
  have "list_all (\<lambda>k. b64_index (b64_alphabet ! k) = k \<and> b64_alphabet ! k \<noteq> CHR ''='') [0..<64]" by code_simp
  then show "k < 64 \<Longrightarrow> b64_index (b64_alphabet ! k) = k \<and> b64_alphabet ! k \<noteq> CHR ''=''" by (simp add: list_all_iff)
qed

lemma triple_less: "triple a b c < 16777216"
  using unat_byte_less [of a] unat_byte_less [of b] unat_byte_less [of c] by (simp add: triple_def)

lemma triple_parts: "triple a b c div 65536 = unat a" "triple a b c div 256 mod 256 = unat b" "triple a b c mod 256 = unat c"
proof -
  define k where "k = unat a * 256 + unat b"
  have "triple a b c = k * 256 + unat c" by (simp add: triple_def k_def)
  then have "triple a b c div 256 = k" "triple a b c mod 256 = unat c"
    using unat_byte_less [of c] by simp_all
  then have d: "triple a b c div 256 = unat a * 256 + unat b" "triple a b c mod 256 = unat c" by (simp_all add: k_def)
  then show "triple a b c mod 256 = unat c" by simp
  show "triple a b c div 256 mod 256 = unat b" unfolding d using unat_byte_less [of b] by simp
  have "triple a b c div 65536 = triple a b c div 256 div 256" by (simp add: div_mult2_eq [symmetric])
  then show "triple a b c div 65536 = unat a" unfolding d using unat_byte_less [of b] by simp
qed

lemma sextets: "v < 16777216 \<Longrightarrow> v div 262144 mod 64 * 262144 + v div 4096 mod 64 * 4096 + v div 64 mod 64 * 64 + v mod 64 = (v :: nat)"
proof -
  assume v: "v < 16777216"
  define a b c where abc: "a = v div 64" "b = a div 64" "c = b div 64"
  have *: "v div 64 = a" "v div 4096 = b" "v div 262144 = c" by (simp_all add: abc div_mult2_eq [symmetric])
  have "v = 64 * a + v mod 64" "a = 64 * b + a mod 64" "b = 64 * c + b mod 64" by (simp_all add: abc)
  moreover have "c < 64" using v *(3) by (simp add: less_mult_imp_div_less flip: *(3))
  ultimately show ?thesis unfolding * by simp
qed

lemma group_index: "v < 16777216 \<Longrightarrow> map b64_index (b64_group v) = [v div 262144 mod 64, v div 4096 mod 64, v div 64 mod 64, v mod 64]"
  by (simp add: b64_index_nth)

lemma unblocks_group:
  assumes "map b64_index g = [v div 262144 mod 64, v div 4096 mod 64, v div 64 mod 64, v mod 64]" "v < 16777216"
  shows "b64_unblocks (g @ r) = [word_of_nat (v div 65536), word_of_nat (v div 256 mod 256), word_of_nat (v mod 256)] @ b64_unblocks r"
proof -
  obtain w x y z where g: "g = [w, x, y, z]" using assms(1) by (auto simp: map_eq_Cons_conv)
  with assms sextets [OF assms(2)] show ?thesis by (simp add: Let_def)
qed

text \<open>The last sextets of a padded group are zero, as is the value of the padding character.\<close>

lemma group_pad:
  "map b64_index (take 2 (b64_group (triple a 0 0)) @ ''=='') = map b64_index (b64_group (triple a 0 0))"
  "map b64_index (take 3 (b64_group (triple a b 0)) @ ''='') = map b64_index (b64_group (triple a b 0))"
proof -
  have z: "triple a 0 0 mod 64 = 0" "triple a 0 0 div 64 mod 64 = 0" "triple a b 0 mod 64 = 0"
    by (simp_all add: triple_def mod_eq_0_iff_dvd)
  show "map b64_index (take 2 (b64_group (triple a 0 0)) @ ''=='') = map b64_index (b64_group (triple a 0 0))"
    using z by (simp add: b64_index_pad b64_index_nth)
  show "map b64_index (take 3 (b64_group (triple a b 0)) @ ''='') = map b64_index (b64_group (triple a b 0))"
    using z by (simp add: b64_index_pad b64_index_nth)
qed

lemma unblocks_blocks: "b64_unblocks (b64_blocks d) = d @ replicate (pad_of (length d)) 0"
proof (induction d rule: b64_blocks.induct)
  case (2 a)
  show ?case
    using unblocks_group [OF group_pad(1) [THEN trans, OF group_index [OF triple_less]] triple_less, of a "[]"]
    by (simp add: triple_parts pad_of_def numeral_2_eq_2)
next
  case (3 a b)
  show ?case
    using unblocks_group [OF group_pad(2) [THEN trans, OF group_index [OF triple_less]] triple_less, of a b "[]"]
    by (simp add: triple_parts pad_of_def numeral_2_eq_2)
next
  case (4 a b c r)
  then show ?case
    using unblocks_group [OF group_index [OF triple_less] triple_less, of a b c "b64_blocks r"] by (simp add: triple_parts del: b64_group.simps)
qed (simp add: pad_of_def)

lemma blocks_ends:
  "d \<noteq> [] \<Longrightarrow> length (b64_blocks d) = 4 * ((length d + 2) div 3) \<and>
     (b64_blocks d ! (length (b64_blocks d) - 1) = CHR ''='' \<longleftrightarrow> pad_of (length d) \<ge> 1) \<and>
     (b64_blocks d ! (length (b64_blocks d) - 2) = CHR ''='' \<longleftrightarrow> pad_of (length d) = 2)"
proof (induction d rule: b64_blocks.induct)
  case (4 a b c r)
  have len: "(Suc (Suc (Suc n)) + 2) div 3 = Suc ((n + 2) div 3)" for n :: nat by presburger
  show ?case
  proof (cases "r = []")
    case True
    then show ?thesis by (simp add: b64_index_nth [THEN conjunct2] pad_of_def)
  next
    case False
    then have n: "length (b64_blocks r) \<ge> 4" using 4 groups_pos [of "length r"] by simp
    have g: "length (b64_group (triple a b c)) = 4" by simp
    let ?t = "b64_group (triple a b c) @ b64_blocks r"
    have "?t ! (length ?t - 1) = b64_blocks r ! (length (b64_blocks r) - 1)" "?t ! (length ?t - 2) = b64_blocks r ! (length (b64_blocks r) - 2)"
      using n g by (auto simp: nth_append simp del: b64_group.simps)
    moreover have "length ?t = 4 * ((length (a # b # c # r) + 2) div 3)"
      using 4 False g len [of "length r"] by (simp del: b64_group.simps)
    moreover have "pad_of (length (a # b # c # r)) = pad_of (length r)" by simp
    moreover note conjunct2 [OF 4(1) [OF False]]
    ultimately show ?thesis unfolding b64_blocks.simps by (simp only: simp_thms)
  qed
qed (simp_all add: b64_index_nth [THEN conjunct2] pad_of_def)

lemma sample_evp_coding: "block_coding sample_evp"
proof -
  have "length (b64_blocks d) = 4 * ((length d + 2) div 3) \<and>
      (b64_blocks d ! (length (b64_blocks d) - 1) = CHR ''='' \<longleftrightarrow> pad_of (length d) \<ge> 1) \<and>
      (b64_blocks d ! (length (b64_blocks d) - 2) = CHR ''='' \<longleftrightarrow> pad_of (length d) = 2) \<and>
      b64_unblocks (b64_blocks d) = d @ replicate (pad_of (length d)) 0" if "d \<noteq> []" for d
    using blocks_ends [OF that] unblocks_blocks [of d] by blast
  note ends = this
  have coding: "EVP_EncodeBlock sample_evp d (int (length d)) = b64_blocks d"
      "EVP_DecodeBlock sample_evp t (int (length t)) = Some (b64_unblocks t)" for d t
    by (simp_all add: sample_evp_def)
  show ?thesis unfolding block_coding_def Let_def coding using ends by metis
qed

theorem base64_roundtrip_witness:
  "\<exists>enc. base64_encode sample_evp [77, 97] = Inr enc \<and> length enc = 4 \<and> base64_decode sample_evp enc = Inr [77, 97]"
  using base64_roundtrip [OF sample_evp_coding, of "[77, 97]"] by simp

section \<open>Event streams\<close>

text \<open>Subscribers act on a state \<open>'s\<close> of the program; an exception of one ends the loop.\<close>

record ('t, 's) Subscriber =
  sub_when :: "'t \<Rightarrow> bool"
  sub_then :: "'t \<Rightarrow> (unit, 's) action"

type_synonym ('t, 's) Stream = "('t, 's) Subscriber list"

definition subscribe :: "('t \<Rightarrow> bool) \<Rightarrow> ('t \<Rightarrow> (unit, 's) action) \<Rightarrow> ('t, 's) Stream \<Rightarrow> ('t, 's) Stream" where
  "subscribe w f subscribers = subscribers @ [\<lparr>sub_when = w, sub_then = f\<rparr>]"

fun emit_subscriber_event :: "'t \<Rightarrow> ('t, 's) Stream \<Rightarrow> (unit, 's) action" where
  "emit_subscriber_event v [] = ret ()"
| "emit_subscriber_event v (s # subscribers) =
     andThen (if sub_when s v then sub_then s v else ret ()) (\<lambda>_. emit_subscriber_event v subscribers)"

lemma andThen_assoc: "andThen (andThen m f) g = andThen m (\<lambda>x. andThen (f x) g)"
  by (rule ext) (simp add: andThen_def split: prod.splits sum.splits)

text \<open>A new subscriber runs after all earlier ones, if its predicate holds and none of them threw.\<close>

lemma emit_subscribe:
  "emit_subscriber_event v (subscribe w t subs) = andThen (emit_subscriber_event v subs) (\<lambda>_. if w v then t v else ret ())"
  by (induction subs) (simp_all add: subscribe_def andThen_assoc andThen_eval(1) andThen_ret_unit)

lemma emit_filter: "emit_subscriber_event v subs = emit_subscriber_event v (filter (\<lambda>s. sub_when s v) subs)"
  by (induction subs) (simp_all add: andThen_eval(1))

end
