(* ===== verification/Spec2Isabelle.thy ===== *)
theory Spec2Isabelle
  imports Wire_Exchange Client_System Peer_Properties Honest_Clients Handle_Ownership Connection_Objects Utilities
begin

text \<open>
  A verification development of the messenger under \<open>src/\<close>: a chat server, a client with end-to-end encrypted private
  messages and files, the windows of that client, and a peer that talks to other peers without a server. This theory holds the
  property that spans the windows, the client, the server and the cryptography; the theories it imports hold the models and the properties
  of each part and of their combinations.

  \<^bold>\<open>The program.\<close> A line typed by the user is parsed into a \<open>Message\<close> (\<open>protocol/parser.cpp\<close>,
  \<open>application/commands/\<close>), dispatched to the handler of its type, and for commands to a command object, which acts on the
  context of the client, the server or the peer. Messages are serialised (\<open>models/message.cpp\<close>), framed with a
  32-bit length (\<open>protocol/framing.cpp\<close>), framed again by the transport (\<open>transport/transport.cpp\<close>), and
  buffered by connections that an epoll loop drives (\<open>transport/event_loop.cpp\<close>, \<open>handling.cpp\<close>, \<open>server.cpp\<close>,
  \<open>client.cpp\<close>, \<open>peer.cpp\<close>). The server keeps users, chats and sessions in memory and relays ciphertexts it cannot read.
  The graphical client (\<open>runtime.cpp\<close>, \<open>ui/\<close>) has a thread for the network and one for the windows; responses and typed lines pass between
  them through the queue of the GUI thread.

  \<^bold>\<open>Theories and what they model.\<close>
  \<^item> \<open>Messenger_Prelude\<close>: bytes, C++ results (an exception, or \<open>Undefined\<close> where the standard gives no meaning), actions on a state,
    byte order, and the lemmas and collections the others share.
  \<^item> \<open>Message_Model\<close> (\<open>models/message.cpp\<close>): the message class and both wire formats. Round trips of the compact and the
    extended format; the decoder never reads out of bounds (a read outside the vector is \<open>Undefined\<close>); the decoder accepts only what the encoder writes.
  \<^item> \<open>Framing\<close> (\<open>protocol/framing.cpp\<close>): frames with the 32-bit arithmetic of the source; the locale \<open>frame_codec\<close> proves stream
    reassembly, with an interpretation for the decoder of the transports; the framer, whose guard can wrap and whose reads can leave the buffer, is shown to agree
    with it on the streams a sender forms.
  \<^item> \<open>Command_Parser\<close>, \<open>Commands\<close> (\<open>protocol/parser.cpp\<close>, \<open>application/commands/\<close>): templates, matcher, catalogue, command objects,
    registries.
  \<^item> \<open>Message_Queue\<close> (\<open>application/messaging/message_queue.cpp\<close>): the ring buffer, every interleaving of one producer and one
    consumer as a step relation, and the queue per recipient, which refines a map of bounded lists.
  \<^item> \<open>Crypto\<close> (\<open>encryption_service.cpp\<close>, \<open>infrastructure/crypto/\<close>): keys, key derivation, AES-GCM with a counter. OpenSSL is the record
    \<open>openssl\<close>; what the code relies on are \<open>gcm_correct\<close>, \<open>hkdf_ok\<close>, \<open>x25519_agree\<close> and \<open>ed25519_key\<close>, each for the sizes the program
    uses and OpenSSL documents; lengths are narrowed to \<open>int\<close> as in the calls.
  \<^item> \<open>Domain_Services\<close>, \<open>Server_App\<close>, \<open>Server_Properties\<close> (\<open>models/\<close>, \<open>application/services/\<close>, \<open>messaging_server.cpp\<close>): users, chats, sessions, the
    server's commands and handlers. The tables agree in every reachable state; every outcome of each request.
  \<^item> \<open>Client_App\<close>, \<open>Client_Properties\<close> (\<open>messaging_client.cpp\<close>, \<open>dispatching/message_dispatchers/\<close>): the client's commands and the handlers of
    incoming messages, files included.
  \<^item> \<open>Transport\<close> (\<open>transport.cpp\<close>, \<open>connection.cpp\<close>): the receive buffer, TCP, UDP and TLS transports, buffered connections; the locale
    \<open>stream_connection\<close> has an interpretation for the server's connections and one for the sessions of a peer.
  \<^item> \<open>Event_Loop\<close> (\<open>event_loop.cpp\<close>): epoll over a model of the kernel's interest list; the locale \<open>event_loop_client\<close> lifts what each handler
    call keeps to rounds of the loop.
  \<^item> \<open>Raw_Socket\<close> (\<open>raw_socket.cpp\<close>): socket set-up over the results of the system calls.
  \<^item> \<open>Server_Transport\<close>, \<open>Server_System\<close> (\<open>server.cpp\<close>, \<open>handling.cpp\<close>, \<open>acceptor.cpp\<close>, \<open>tls.cpp\<close>): the server's transport over any
    application (locale \<open>server_application\<close>), interpreted on \<open>MessagingServer\<close>.
  \<^item> \<open>Client_Transport\<close>, \<open>Client_System\<close> (\<open>client.cpp\<close>): the same for the client (locale \<open>client_application\<close>, interpreted on \<open>MessagingClient\<close>). The client never
    sets its pointer to a framer, so by the letter of the standard every send and every successful receive is undefined behaviour; that is the theorem about it. What
    the code would do with a framer is in lemmas with that hypothesis.
  \<^item> \<open>Peer_Node\<close>, \<open>Peer_App\<close>, \<open>Peer_Properties\<close> (\<open>peer.cpp\<close>, \<open>messaging_peer.cpp\<close>, the peer's command functions and handlers): the node
    of a peer over any application (locale \<open>peer_application\<close>), interpreted on \<open>MessagingPeer\<close>; tables, termination of the receive loop, handshake.
  \<^item> \<open>Connection_Objects\<close> (\<open>connection.cpp\<close>): the connection classes with their pointers: constructors, moves, \<open>PeerConnection\<close>. An object with a
    transport and a framer refines the connection of \<open>Transport\<close>; a \<open>PeerConnection\<close> never has a framer.
  \<^item> \<open>Handle_Ownership\<close> (\<open>identity_key.cpp\<close>, \<open>interface.hpp\<close>): the special members of the key classes over OpenSSL's reference counts and of \<open>Fd\<close>
    over the open descriptors, whose numbers the kernel reuses; no use after free, one close per opening, and the leak of the copy assignment.
  \<^item> \<open>Utilities\<close> (\<open>bytes_hash.hpp\<close>, \<open>utils/base64.hpp\<close>, \<open>services_common.hpp\<close>): the hash of byte vectors, Base64 and the event stream. OpenSSL's block
    coding is the record \<open>evp_block\<close> with the hypothesis \<open>block_coding\<close>, which an implementation in the theory satisfies.
  \<^item> \<open>User_Interface\<close>, \<open>Logger\<close> (\<open>ui/\<close>, \<open>message_bridge.hpp\<close>, \<open>logger.cpp\<close>): what the windows show and hold, their slots and signals; the logger.
    The functions of \<open>QString\<close> are the record \<open>qt\<close>.
  \<^item> \<open>Runtime\<close> (\<open>runtime.cpp\<close>, \<open>config.hpp\<close>): the server process and the graphical client as schedules of events of their threads; the server
    shuts down on a signal, the chat window shows what was delivered and the client is given what was typed, under every schedule. The callback into
    the window belongs to the network thread; calling it after that thread has ended is undefined behaviour.
  \<^item> \<open>Wire_Exchange\<close>: a request and its answers through the server's transport, as a refinement of calling the application function.
  \<^item> \<open>File_Transfer\<close>: a file from client to client through the server.
  \<^item> \<open>Private_Message\<close>: the steps of a private message from window to window, and their composition; the property is below. Typing after the network
    thread has ended.
  \<^item> \<open>Group_Message\<close>: a message to a chat from the window of a member to the windows of all members.
  \<^item> \<open>Chat_Spec\<close>: what the server promises, as a small abstract machine of people, rooms and keys with no tables, handlers or bytes, and the proof that
    \<open>MessagingServer\<close> refines it under every sequence of frames and lost connections (the locale \<open>forward_simulation\<close>, interpreted on the server). Who may
    be sent a room's texts and whose keys are handed on are proved of the machine against the history of requests, and so hold of the server.
  \<^item> \<open>Chat_World\<close>: the server and any number of graphical clients as one system of events, from the start of the processes; the first private message
    between two users who have just started the program. Messages arrive whole, torn (with their length in front, as a server connection extracts them when
    the bytes are split over two readiness events) or not at all.
  \<^item> \<open>Honest_Clients\<close>: the invariant of that system that keeps the server running: every message the program's clients send decodes, whatever is typed
    and received, so only torn arrivals end the server, and those do; and the typed line that ends the client itself.

  \<^bold>\<open>State and effects.\<close> Objects are records, enumerations and class hierarchies datatypes, methods functions that return the updated
  state, \<open>unordered_map\<close>s maps; where the order of a map is observable it is a parameter. What the kernel and the TLS library return
  is an argument (\<open>io\<close>, \<open>sock_io\<close>, \<open>server_io\<close>, \<open>client_io\<close>, \<open>peer_io\<close>), random numbers and the clock come from an environment.
  What is sent is recorded: \<open>sc_sent\<close>, \<open>cc_sent\<close> by the applications, \<open>sv_wire\<close>, \<open>cl_wire\<close>, \<open>pn_wire\<close> by the transports. The theorems from window to window
  are about the applications: what one hands to its transport is handed to the other side's callback.

  \<^bold>\<open>Bounds.\<close> Loops over a receive buffer (\<open>drain\<close>, \<open>peer_loop\<close>, \<open>client_loop\<close>) run with the length of the buffer as fuel: each round takes
  a header of four bytes off it (\<open>drain_complete\<close>, \<open>loop_enough\<close>, \<open>client_loop_delivers\<close>). \<open>send_pending\<close> runs with the capacity of the
  queue, one more than it can hold (\<open>send_pending_flush\<close>). All other functions are total; running out of fuel is an
  \<open>Undefined\<close> value, which the lemmas exclude.

  \<^bold>\<open>Not modelled.\<close> Sizes, margins, style sheets and the animation of the windows; Qt's generated \<open>moc\<close> files; console output; the tests.
  The bytes of OpenSSL's handshake. \<open>transport/builders.hpp\<close>, which nothing includes. Mutexes and
  data races: each call of a handler is one step, and the network thread and the GUI thread of the client take turns, which
  the program itself does not enforce.
\<close>

section \<open>A private message from one window to another\<close>

text \<open>
  C9: a private message typed in one window is shown in the other. The user types \<open>/pmess\<close>, a name and words; the window shows the
  line and hands it to the client, which asks the server for the recipient's key; the server's answer makes the client encrypt and send what it queued;
  the server relays it, with the keys the sender registered, to the recipient's connection only; the recipient's client decrypts it, advances its
  counter and posts it, and the recipient's window shows exactly the text, under the sender's name, as its next incoming line. The
  hypotheses: both are logged in with a window and nothing waiting, the sender has nothing queued for the recipient, the server holds the keys they registered,
  the sender's counter for the recipient equals the recipient's for the sender (messages that crossed before break this, and then the text is
  lost: \<open>crossing_message_lost\<close>), Qt converts the line to UTF-8 and back, and OpenSSL does what it documents.
\<close>

theorem typed_message_reaches_window:
  assumes "crypto_ok env" "window_up ga wa" "window_up gb wb" "mc_inv (gu_client ga)" "mc_inv (gu_client gb)" "ms_inv ms"
    and "trimmed qt line \<noteq> []" "toStdString qt (trimmed qt line) = unwords (''/pmess'' # ub # ws)"
      "fromStdString qt (unwords (''/pmess'' # ub # ws)) = trimmed qt line"
    and "list_all plain (ub # ws)" "ws \<noteq> []" "length (unwords ws) < 65536"
    and "cc_my_username (mc_context (gu_client ga)) = to_bytes ua"
    and "mq_inv (cc_mq (mc_context (gu_client ga)))" "mq_abs (cc_mq (mc_context (gu_client ga))) (to_bytes ub) = []"
    and "cc_pending_messages (mc_context (gu_client ga)) (to_bytes ub) = None"
    and "fd_to_name (sc_sessions (ms_context ms)) fda = Some ua" "name_to_fd (sc_sessions (ms_context ms)) ub = Some fdb"
    and "sc_users (ms_context ms) ua = Some xa" "sc_users (ms_context ms) ub = Some xb"
    and "small_metas [to_bytes ua, to_bytes ub, user_publicDHKey xa, user_publicIdentityKey xa, user_signature xa,
      user_publicDHKey xb, user_publicIdentityKey xb, user_signature xb]"
    and "new_raw_public_key (ce_ssl env) X25519 (user_publicDHKey xa) = Some ka" "new_raw_public_key (ce_ssl env) ED25519 (user_publicIdentityKey xa) = Some ia"
    and "new_raw_public_key (ce_ssl env) X25519 (user_publicDHKey xb) = Some kb" "new_raw_public_key (ce_ssl env) ED25519 (user_publicIdentityKey xb) = Some ib"
    and "knows (ce_ssl env) (with_keys (cc_es (mc_context (gu_client ga))) (to_bytes ub) kb ib) (to_bytes ua)
      (with_keys (cc_es (mc_context (gu_client gb))) (to_bytes ua) ka ia) (to_bytes ub)"
    and "sign (ce_ssl env) (cc_es (mc_context (gu_client ga))) = Inr (user_signature xa)"
    and "counter_of (mc_context (gu_client ga)) (to_bytes ub) = counter_of (mc_context (gu_client gb)) (to_bytes ua)"
  shows "\<exists>ga1 ga2 gb2 wa1 wb2 asked answer sent relayed ms1 ms2.
    gui_run qt env [EditMessage line, PressSend t1, Deliver t2] ga = ga1 \<and> gu_chat ga1 = Some wa1 \<and>
    outgoing_texts wa1 = outgoing_texts wa @ [toHtmlEscaped qt (trimmed qt line)] \<and>
    cc_sent (mc_context (gu_client ga1)) = cc_sent (mc_context (gu_client ga)) @ [asked] \<and>
    on_tcp_data_received senv fda asked ms = (Inr (), ms1) \<and> sc_sent (ms_context ms1) = sc_sent (ms_context ms) @ [(fda, answer)] \<and>
    gui_run qt env [NetData answer] ga1 = ga2 \<and> cc_sent (mc_context (gu_client ga2)) = cc_sent (mc_context (gu_client ga1)) @ [sent] \<and>
    on_tcp_data_received senv fda sent ms1 = (Inr (), ms2) \<and> sc_sent (ms_context ms2) = sc_sent (ms_context ms1) @ [(fdb, relayed)] \<and>
    gui_run qt env [NetData relayed, Deliver t3] gb = gb2 \<and> gu_chat gb2 = Some wb2 \<and> gu_error ga2 = None \<and> gu_error gb2 = None \<and>
    incoming_texts wb2 = incoming_texts wb @ [toHtmlEscaped qt (fromStdString qt (private_prefix @ ua @ '']: '' @ unwords ws))] \<and>
    counter_of (mc_context (gu_client gb2)) (to_bytes ua) = counter_of (mc_context (gu_client gb)) (to_bytes ua) + 1"
  using message_crosses [OF assms refl, of t1 t2 senv t3] by blast

theorem typed_message_reaches_window_witness:
  "\<exists>relayed wb. gu_chat (gui_run sample_qt sample_cenv [NetData relayed, Deliver []] (sample_gui sample_bob [98])) = Some wb \<and>
    incoming_texts wb = incoming_texts (ChatWindow_ctor sample_qt [] (qlit ''b'')) @
      [toHtmlEscaped sample_qt (fromStdString sample_qt (private_prefix @ ''a'' @ '']: hi''))]"
proof -
  have "knows sample_ssl (with_keys sample_alice [98] 103 104) [97] (with_keys sample_bob [97] 101 102) [98]"
    by (simp add: knows_def with_keys_def sample_alice_def sample_bob_def x25519_agree_def ed25519_key_def sample_ssl_def)
  moreover have "trimmed sample_qt (qlit ''/pmess b hi'') = qlit ''/pmess b hi''" "toStdString sample_qt (qlit ''/pmess b hi'') = ''/pmess b hi''"
      "fromStdString sample_qt ''/pmess b hi'' = qlit ''/pmess b hi''" "qlit ''/pmess b hi'' \<noteq> []" "to_string [98] = ''b''"
    by (simp_all add: sample_qt_def qlit_def to_string_def char_of_byte_def char_of_def bit_0)
  ultimately show ?thesis
    using typed_message_reaches_window [OF sample_crypto_ok sample_gui_up(1) sample_gui_up(1) _ _ sample_chat_server_inv,
        of sample_alice "[97]" sample_bob "[98]" sample_qt "qlit ''/pmess b hi''" "''b''" "[''hi'']" "''a''" 5 6 "new_user ''a'' [1] [2] [2, 1]"
          "new_user ''b'' [3] [4] [4, 3]" 101 102 103 104 "[]" "[]" sample_env2 "[]"] sample_sign
    by (auto simp: sample_ab sample_gui_up(2) sample_client_contexts sample_chat_server_def small_metas_def new_user_def mq_inv_ctor mq_abs_ctor plain_def)
qed

end
